(* ===== verification/Prelude.thy ===== *)
theory Prelude
  imports Main "HOL-Library.Sublist" "HOL-Library.Code_Target_Numeral"
begin

text \<open>
  Shared vocabulary of the development.

  \<^item> Python text is a list of code points (\<open>pystr\<close>), because the source counts characters,
    UTF-8 bytes and surrogates separately; \<open>lit\<close> turns an ASCII literal into code points.
  \<^item> An operation that can raise returns \<open>'e + 'a\<close> (\<open>Inl\<close> the exception); \<open>bindE\<close> sequences
    two such operations and \<open>guardE\<close> is an \<open>if ...: raise ...\<close> statement.
  \<^item> The string operations of the Python library that the components call on ASCII-independent
    classes (\<open>str.strip\<close>, \<open>str.split(sep)\<close>, \<open>str.encode("utf-8")\<close>, \<open>bytes.hex\<close>) with the
    lemmas about them that the components share.
\<close>

named_theorems res_simps \<open>evaluation of the exception monad\<close>

section \<open>Text as code points\<close>

type_synonym pystr = "nat list"

definition lit :: "string \<Rightarrow> pystr" where
  "lit s = map of_char s"

lemma lit_inject [simp]: "lit a = lit b \<longleftrightarrow> a = b"
proof -
  have "inj (of_char :: char \<Rightarrow> nat)" by (rule injI) simp
  then show ?thesis by (simp add: lit_def inj_map_eq_map)
qed

lemma lit_Nil [simp]: "lit [] = []" "lit s = [] \<longleftrightarrow> s = []" "[] = lit s \<longleftrightarrow> s = []"
  by (auto simp: lit_def)

lemma length_lit [simp]: "length (lit s) = length s"
  by (simp add: lit_def)

section \<open>Exceptions as values\<close>

fun bindE :: "'e + 'a \<Rightarrow> ('a \<Rightarrow> 'e + 'b) \<Rightarrow> 'e + 'b" where
  "bindE (Inl e) f = Inl e"
| "bindE (Inr x) f = f x"

definition guardE :: "bool \<Rightarrow> 'e \<Rightarrow> 'e + unit" where
  "guardE raising e = (if raising then Inl e else Inr ())"

fun mapE :: "('a \<Rightarrow> 'e + 'b) \<Rightarrow> 'a list \<Rightarrow> 'e + 'b list" where
  "mapE f [] = Inr []"
| "mapE f (x # xs) = bindE (f x) (\<lambda>y. bindE (mapE f xs) (\<lambda>ys. Inr (y # ys)))"

fun is_ok :: "'e + 'a \<Rightarrow> bool" where
  "is_ok (Inl _) = False"
| "is_ok (Inr _) = True"

lemma bindE_Inr_iff [res_simps]: "bindE m f = Inr y \<longleftrightarrow> (\<exists>x. m = Inr x \<and> f x = Inr y)"
  by (cases m) auto

lemma bindE_Inl_iff [res_simps]:
  "bindE m f = Inl e \<longleftrightarrow> m = Inl e \<or> (\<exists>x. m = Inr x \<and> f x = Inl e)"
  by (cases m) auto

lemma guardE_iff [res_simps]:
  "guardE b e = Inr u \<longleftrightarrow> \<not> b" "guardE b e = Inl e' \<longleftrightarrow> b \<and> e' = e"
  by (auto simp: guardE_def)

lemma guardE_simps [simp]: "guardE True e = Inl e" "guardE False e = Inr ()"
  by (simp_all add: guardE_def)

lemma bindE_assoc: "bindE (bindE m f) g = bindE m (\<lambda>x. bindE (f x) g)"
  by (cases m) auto

lemma bindE_cong [fundef_cong]:
  "m = m' \<Longrightarrow> (\<And>x. m' = Inr x \<Longrightarrow> f x = f' x) \<Longrightarrow> bindE m f = bindE m' f'"
  by (cases m') auto

lemma is_ok_iff: "is_ok r \<longleftrightarrow> (\<exists>x. r = Inr x)"
  by (cases r) auto

lemma mapE_Inr_length: "mapE f xs = Inr ys \<Longrightarrow> length ys = length xs"
  by (induction xs arbitrary: ys) (auto simp: res_simps)

lemma mapE_Inr_list_all2: "mapE f xs = Inr ys \<Longrightarrow> list_all2 (\<lambda>x y. f x = Inr y) xs ys"
  by (induction xs arbitrary: ys) (auto simp: res_simps)

section \<open>Whitespace, stripping and splitting\<close>

text \<open>The code points of Python's \<open>str.isspace\<close>, which \<open>str.strip()\<close> and \<open>str.split()\<close> use.\<close>

definition is_space :: "nat \<Rightarrow> bool" where
  "is_space c \<longleftrightarrow> (9 \<le> c \<and> c \<le> 13) \<or> (28 \<le> c \<and> c \<le> 32) \<or> c = 133 \<or> c = 160 \<or> c = 5760 \<or>
     (8192 \<le> c \<and> c \<le> 8202) \<or> c = 8232 \<or> c = 8233 \<or> c = 8239 \<or> c = 8287 \<or> c = 12288"

definition py_strip :: "pystr \<Rightarrow> pystr" where
  "py_strip s = rev (dropWhile is_space (rev (dropWhile is_space s)))"

text \<open>\<open>s.split(sep)\<close> for a one-character separator.\<close>

fun split_on :: "nat \<Rightarrow> pystr \<Rightarrow> pystr list" where
  "split_on sep [] = [[]]"
| "split_on sep (c # cs) =
     (if c = sep then [] # split_on sep cs
      else (case split_on sep cs of [] \<Rightarrow> [[c]] | w # ws \<Rightarrow> (c # w) # ws))"

text \<open>\<open>s.split()\<close>: maximal runs of non-space characters.\<close>

function split_ws :: "pystr \<Rightarrow> pystr list" where
  "split_ws s =
     (let t = dropWhile is_space s
      in if t = [] then []
         else takeWhile (\<lambda>c. \<not> is_space c) t # split_ws (dropWhile (\<lambda>c. \<not> is_space c) t))"
  by pat_completeness auto
termination
proof (relation "measure length", simp, goal_cases)
  case (1 s t)
  then have "t \<noteq> []" "\<not> is_space (hd t)" using hd_dropWhile[of is_space s] by auto
  then have "length (dropWhile (\<lambda>c. \<not> is_space c) t) < length t"
    by (cases t) (auto intro: le_imp_less_Suc length_dropWhile_le)
  also have "length t \<le> length s" using 1 by (simp add: length_dropWhile_le)
  finally show ?case using 1 by simp
qed

declare split_ws.simps [simp del]

lemma set_py_strip: "set (py_strip s) \<subseteq> set s"
  unfolding py_strip_def by (auto dest!: set_dropWhileD)

lemma py_strip_Nil [simp]: "py_strip [] = []"
  by (simp add: py_strip_def)

lemma dropWhile_eq_self: "dropWhile P xs = xs \<longleftrightarrow> xs = [] \<or> \<not> P (hd xs)"
proof (cases xs)
  case (Cons a list)
  have "length (dropWhile P list) < length (a # list)"
    by (simp add: le_imp_less_Suc length_dropWhile_le)
  then have "dropWhile P list \<noteq> a # list" by (metis less_irrefl)
  with Cons show ?thesis by simp
qed simp

lemma py_strip_idem [simp]: "py_strip (py_strip s) = py_strip s"
proof -
  let ?a = "dropWhile is_space s"
  let ?b = "dropWhile is_space (rev ?a)"
  have "dropWhile is_space (rev ?b) = rev ?b"
  proof (cases "?b = []")
    case False
    have "suffix ?b (rev ?a)" by (rule suffix_dropWhile)
    then have "prefix (rev ?b) ?a" by (simp add: suffix_to_prefix)
    with False have "hd (rev ?b) = hd ?a" by (metis prefix_def hd_append2 rev_is_Nil_conv)
    moreover have "?a \<noteq> []" using False by force
    ultimately show ?thesis using hd_dropWhile[of is_space s] by (simp add: dropWhile_eq_self)
  next
    case True
    then show ?thesis by (simp only: rev.simps dropWhile.simps)
  qed
  moreover have "dropWhile is_space ?b = ?b"
    using hd_dropWhile[of is_space "rev ?a"] by (auto simp: dropWhile_eq_self)
  ultimately show ?thesis by (simp add: py_strip_def)
qed

lemma split_on_not_Nil [simp]: "split_on sep s \<noteq> []"
  by (induction s) (auto split: list.splits)

lemma split_on_no_sep: "w \<in> set (split_on sep s) \<Longrightarrow> sep \<notin> set w"
proof (induction s arbitrary: w)
  case (Cons c cs)
  then show ?case by (auto split: if_splits list.splits)
qed simp

lemma split_on_id: "sep \<notin> set s \<Longrightarrow> split_on sep s = [s]"
  by (induction s) auto

section \<open>UTF-8 and hexadecimal\<close>

definition is_surrogate :: "nat \<Rightarrow> bool" where
  "is_surrogate c \<longleftrightarrow> 55296 \<le> c \<and> c \<le> 57343"

text \<open>
  The UTF-8 form of one code point; \<open>None\<close> is the \<open>UnicodeEncodeError\<close> that Python raises for a
  lone surrogate.
\<close>

definition utf8_char :: "nat \<Rightarrow> nat list option" where
  "utf8_char c =
     (if c < 128 then Some [c]
      else if c < 2048 then Some [192 + c div 64, 128 + c mod 64]
      else if is_surrogate c then None
      else if c < 65536 then Some [224 + c div 4096, 128 + c div 64 mod 64, 128 + c mod 64]
      else Some [240 + c div 262144, 128 + c div 4096 mod 64, 128 + c div 64 mod 64, 128 + c mod 64])"

fun utf8_encode :: "pystr \<Rightarrow> nat list option" where
  "utf8_encode [] = Some []"
| "utf8_encode (c # cs) =
     (case utf8_char c of None \<Rightarrow> None
      | Some b \<Rightarrow> (case utf8_encode cs of None \<Rightarrow> None | Some bs \<Rightarrow> Some (b @ bs)))"

definition hex_digit :: "nat \<Rightarrow> nat" where
  "hex_digit n = (if n < 10 then 48 + n else 87 + n)"

definition bytes_hex :: "nat list \<Rightarrow> pystr" where
  "bytes_hex bs = concat (map (\<lambda>b. [hex_digit (b div 16), hex_digit (b mod 16)]) bs)"

lemma utf8_char_total: "\<not> is_surrogate c \<Longrightarrow> \<exists>b. utf8_char c = Some b"
  by (auto simp: utf8_char_def)

lemma utf8_encode_total: "(\<And>c. c \<in> set s \<Longrightarrow> \<not> is_surrogate c) \<Longrightarrow> \<exists>b. utf8_encode s = Some b"
  by (induction s) (fastforce dest: utf8_char_total split: option.splits)+

lemma utf8_char_length: "utf8_char c = Some b \<Longrightarrow> 1 \<le> length b \<and> length b \<le> 4"
  by (auto simp: utf8_char_def split: if_splits)

lemma utf8_encode_length: "utf8_encode s = Some b \<Longrightarrow> length b \<le> 4 * length s"
  by (induction s arbitrary: b) (fastforce dest: utf8_char_length split: option.splits)+

lemma base64_digits3: "(n::nat) = 4096 * (n div 4096) + 64 * (n div 64 mod 64) + n mod 64"
proof -
  have "(64::nat) * 64 = 4096" by simp
  then have "n div 4096 = n div 64 div 64" by (metis div_mult2_eq)
  moreover have "n div 64 = 64 * (n div 64 div 64) + n div 64 mod 64" by (simp only: mult_div_mod_eq)
  moreover have "n = 64 * (n div 64) + n mod 64" by (simp only: mult_div_mod_eq)
  ultimately show ?thesis by linarith
qed

lemma base64_digits4:
  "(n::nat) = 262144 * (n div 262144) + 4096 * (n div 4096 mod 64) + 64 * (n div 64 mod 64) + n mod 64"
proof -
  have "(4096::nat) * 64 = 262144" by simp
  then have "n div 262144 = n div 4096 div 64" by (metis div_mult2_eq)
  moreover have "n div 4096 = 64 * (n div 4096 div 64) + n div 4096 mod 64"
    by (simp only: mult_div_mod_eq)
  ultimately show ?thesis using base64_digits3[of n] by linarith
qed

text \<open>The shapes of an encoded code point: the lead byte ranges are disjoint.\<close>

lemma utf8_char_shapes:
  assumes "utf8_char c = Some x"
  obtains (one) "x = [c]" "c < 128"
  | (two) a b where "x = [192 + a, 128 + b]" "c = 64 * a + b" "a < 32" "b < 64"
  | (three) a b d where "x = [224 + a, 128 + b, 128 + d]" "c = 4096 * a + 64 * b + d"
      "a < 16" "b < 64" "d < 64"
  | (four) a b d e where "x = [240 + a, 128 + b, 128 + d, 128 + e]"
      "c = 262144 * a + 4096 * b + 64 * d + e" "b < 64" "d < 64" "e < 64"
proof -
  have m: "n mod 64 < 64" for n :: nat by (rule mod_less_divisor) simp
  consider "c < 128" | "\<not> c < 128" "c < 2048" | "\<not> c < 128" "\<not> c < 2048" "c < 65536"
    | "\<not> c < 128" "\<not> c < 2048" "\<not> c < 65536" by blast
  then show thesis
  proof cases
    case 1 with assms one show thesis by (simp add: utf8_char_def)
  next
    case 2
    with assms have "x = [192 + c div 64, 128 + c mod 64]" by (simp add: utf8_char_def)
    moreover have "c div 64 < 32" by (rule less_mult_imp_div_less) (use 2 in simp)
    ultimately show thesis using m by (intro two[of "c div 64" "c mod 64"]) (simp_all only: mult_div_mod_eq)
  next
    case 3
    with assms have "x = [224 + c div 4096, 128 + c div 64 mod 64, 128 + c mod 64]"
      by (simp add: utf8_char_def split: if_splits)
    moreover have "c div 4096 < 16" by (rule less_mult_imp_div_less) (use 3 in simp)
    ultimately show thesis using m base64_digits3 by (intro three)
  next
    case 4
    with assms have "x = [240 + c div 262144, 128 + c div 4096 mod 64, 128 + c div 64 mod 64, 128 + c mod 64]"
      by (simp add: utf8_char_def split: if_splits)
    then show thesis using m base64_digits4 by (intro four)
  qed
qed

lemma utf8_char_prefix_free:
  assumes "utf8_char c = Some x" "utf8_char d = Some y" "x @ xs = y @ ys"
  shows "c = d \<and> xs = ys"
  using assms(1)
proof (cases rule: utf8_char_shapes)
  case one
  with assms(3) show ?thesis by - (rule utf8_char_shapes[OF assms(2)], auto)
next
  case (two a b)
  with assms(3) show ?thesis by - (rule utf8_char_shapes[OF assms(2)], auto)
next
  case (three a b e)
  with assms(3) show ?thesis by - (rule utf8_char_shapes[OF assms(2)], auto)
next
  case (four a b e f)
  with assms(3) show ?thesis by - (rule utf8_char_shapes[OF assms(2)], auto)
qed

lemma utf8_encode_inject: "utf8_encode s = Some b \<Longrightarrow> utf8_encode t = Some b \<Longrightarrow> s = t"
proof (induction s arbitrary: t b)
  case Nil
  then show ?case
    by (cases t) (auto dest: utf8_char_length split: option.splits)
next
  case (Cons c cs)
  then obtain x xs where x: "utf8_char c = Some x" "utf8_encode cs = Some xs" "b = x @ xs"
    by (auto split: option.splits)
  with Cons.prems obtain d ds where t: "t = d # ds"
    by (cases t) (auto dest: utf8_char_length)
  with Cons.prems(2) obtain y ys where y: "utf8_char d = Some y" "utf8_encode ds = Some ys" "b = y @ ys"
    by (auto split: option.splits)
  have "c = d \<and> xs = ys"
    by (rule utf8_char_prefix_free[OF x(1) y(1)]) (use x(3) y(3) in simp)
  with Cons.IH[OF x(2)] y(2) t show ?case by simp
qed

lemma hex_digit_inject: "m < 16 \<Longrightarrow> n < 16 \<Longrightarrow> hex_digit m = hex_digit n \<longleftrightarrow> m = n"
  by (auto simp: hex_digit_def split: if_splits)

lemma length_bytes_hex [simp]: "length (bytes_hex bs) = 2 * length bs"
  by (induction bs) (auto simp: bytes_hex_def)

lemma bytes_hex_Cons [simp]:
  "bytes_hex (b # bs) = hex_digit (b div 16) # hex_digit (b mod 16) # bytes_hex bs"
  by (simp add: bytes_hex_def)

lemma bytes_hex_Nil [simp]: "bytes_hex [] = []"
  by (simp add: bytes_hex_def)

lemma bytes_hex_inject:
  "\<forall>b \<in> set xs. b < 256 \<Longrightarrow> \<forall>b \<in> set ys. b < 256 \<Longrightarrow> bytes_hex xs = bytes_hex ys \<Longrightarrow> xs = ys"
proof (induction xs arbitrary: ys)
  case Nil
  then show ?case by (cases ys) auto
next
  case (Cons x xs)
  then obtain y ys' where ys: "ys = y # ys'" by (cases ys) auto
  from Cons.prems(3) ys have h: "hex_digit (x div 16) = hex_digit (y div 16)"
    "hex_digit (x mod 16) = hex_digit (y mod 16)" "bytes_hex xs = bytes_hex ys'"
    by (simp_all only: bytes_hex_Cons list.inject)
  have "x < 256" "y < 256" using Cons.prems(1,2) ys by auto
  then have "x div 16 < 16" "y div 16 < 16"
    by (auto intro: less_mult_imp_div_less)
  with h have "x div 16 = y div 16" "x mod 16 = y mod 16"
    by (simp_all only: hex_digit_inject mod_less_divisor zero_less_numeral)
  then have "16 * (x div 16) + x mod 16 = 16 * (y div 16) + y mod 16" by (simp only:)
  then have "x = y" by (simp only: mult_div_mod_eq)
  moreover have "xs = ys'" by (rule Cons.IH) (use Cons.prems(1,2) ys h(3) in simp_all)
  ultimately show ?case using ys by simp
qed

lemma utf8_char_byte: "utf8_char c = Some x \<Longrightarrow> c < 1114112 \<Longrightarrow> y \<in> set x \<Longrightarrow> y < 256"
  by (erule utf8_char_shapes) auto

lemma utf8_encode_byte: "utf8_encode s = Some b \<Longrightarrow> \<forall>c \<in> set s. c < 1114112 \<Longrightarrow> \<forall>x \<in> set b. x < 256"
proof (induction s arbitrary: b)
  case (Cons c cs)
  then obtain x xs where "utf8_char c = Some x" "utf8_encode cs = Some xs" "b = x @ xs"
    by (auto split: option.splits)
  moreover from this(1) Cons.prems(2) have "\<forall>y \<in> set x. y < 256"
    by (auto intro: utf8_char_byte)
  ultimately show ?case using Cons by auto
qed simp

end
