(* ===== verification/Py_Value.thy ===== *)
theory Py_Value
  imports Prelude Complex_Main "HOL-Library.AList"
begin

text \<open>
  The dynamically typed values the components receive (\<open>Any\<close> in the source) and the Python
  conversions applied to them.  A float is a rational, an infinity or NaN (the sign of zero is not
  kept); a datetime is its local microsecond count with an optional UTC offset.

  What the interpreter takes from tables or algorithms that are not modelled (Unicode case and
  character classes, \<open>re\<close>, \<open>urllib\<close>, \<open>json\<close>, float parsing and rounding, \<open>fromisoformat\<close>,
  \<open>strftime\<close>) is one record \<open>py_runtime\<close>, an argument of every operation that calls it.
\<close>

datatype pyfloat = FNan | FInf bool | FFin rat

datatype pydt = PyDt (dt_local: int) (dt_offset: "int option")

datatype pyval =
    PNone
  | PBool bool
  | PInt int
  | PFloat pyfloat
  | PStr pystr
  | PDatetime pydt
  | PList "pyval list"
  | PDict "(pystr \<times> pyval) list"

datatype pyexn = ValueError | TypeError | OverflowError | AttributeError | KeyError | RuntimeError | IndexError | DatabaseError

record py_runtime =
  rt_str :: "pyval \<Rightarrow> nat \<times> pystr"
  rt_lower :: "pystr \<Rightarrow> pystr"
  rt_upper :: "pystr \<Rightarrow> pystr"
  rt_isalpha :: "nat \<Rightarrow> bool"
  rt_isdigit :: "nat \<Rightarrow> bool"
  rt_isdecimal :: "nat \<Rightarrow> bool"
  rt_isalnum :: "nat \<Rightarrow> bool"
  rt_int_of_str :: "pystr \<Rightarrow> int option"
  rt_float_of_str :: "pystr \<Rightarrow> pyfloat option"
  rt_float_of_int :: "int \<Rightarrow> pyfloat option"
  rt_re_search :: "pystr \<Rightarrow> pystr \<Rightarrow> pyexn + bool"
  rt_urlsplit :: "pystr \<Rightarrow> (pystr \<times> pystr) option"
  rt_hostname :: "pystr \<Rightarrow> pystr option"
  rt_fromisoformat :: "pystr \<Rightarrow> pydt option"
  rt_strftime :: "pydt \<Rightarrow> pystr"
  rt_json_loads :: "pystr \<Rightarrow> pyval option"
  rt_json_dumps :: "pyval \<Rightarrow> pyexn + pystr"

section \<open>Truth, text and number conversions\<close>

fun truthy :: "pyval \<Rightarrow> bool" where
  "truthy PNone = False"
| "truthy (PBool b) = b"
| "truthy (PInt n) = (n \<noteq> 0)"
| "truthy (PFloat f) = (f \<noteq> FFin 0)"
| "truthy (PStr s) = (s \<noteq> [])"
| "truthy (PDatetime d) = True"
| "truthy (PList xs) = (xs \<noteq> [])"
| "truthy (PDict kvs) = (kvs \<noteq> [])"

fun nat_str :: "nat \<Rightarrow> pystr" where
  "nat_str n = (if n < 10 then [48 + n] else nat_str (n div 10) @ [48 + n mod 10])"

declare nat_str.simps [simp del]

definition int_str :: "int \<Rightarrow> pystr" where
  "int_str i = (if i < 0 then 45 # nat_str (nat (- i)) else nat_str (nat i))"

text \<open>
  \<open>str(v)\<close>: text is itself; the rendering of floats, containers and datetimes is the runtime's, which gives its
  first character and the rest because none of them is rendered as the empty string.
\<close>

fun py_str :: "py_runtime \<Rightarrow> pyval \<Rightarrow> pystr" where
  "py_str rt PNone = lit ''None''"
| "py_str rt (PBool b) = (if b then lit ''True'' else lit ''False'')"
| "py_str rt (PInt n) = int_str n"
| "py_str rt (PStr s) = s"
| "py_str rt v = fst (rt_str rt v) # snd (rt_str rt v)"

definition rat_trunc :: "rat \<Rightarrow> int" where
  "rat_trunc q = (if q < 0 then - \<lfloor>- q\<rfloor> else \<lfloor>q\<rfloor>)"

text \<open>\<open>int(v)\<close>.\<close>

fun py_int :: "py_runtime \<Rightarrow> pyval \<Rightarrow> pyexn + int" where
  "py_int rt (PInt n) = Inr n"
| "py_int rt (PBool b) = Inr (if b then 1 else 0)"
| "py_int rt (PFloat FNan) = Inl ValueError"
| "py_int rt (PFloat (FInf _)) = Inl OverflowError"
| "py_int rt (PFloat (FFin q)) = Inr (rat_trunc q)"
| "py_int rt (PStr s) = (case rt_int_of_str rt s of None \<Rightarrow> Inl ValueError | Some n \<Rightarrow> Inr n)"
| "py_int rt v = Inl TypeError"

text \<open>\<open>float(v)\<close>: a too large integer raises \<open>OverflowError\<close>, text that is no number \<open>ValueError\<close>.\<close>

fun py_float :: "py_runtime \<Rightarrow> pyval \<Rightarrow> pyexn + pyfloat" where
  "py_float rt (PFloat f) = Inr f"
| "py_float rt (PInt n) = (case rt_float_of_int rt n of None \<Rightarrow> Inl OverflowError | Some f \<Rightarrow> Inr f)"
| "py_float rt (PBool b) = Inr (FFin (if b then 1 else 0))"
| "py_float rt (PStr s) = (case rt_float_of_str rt s of None \<Rightarrow> Inl ValueError | Some f \<Rightarrow> Inr f)"
| "py_float rt v = Inl TypeError"

text \<open>\<open>a < b\<close> on floats.\<close>

fun flt_less :: "pyfloat \<Rightarrow> pyfloat \<Rightarrow> bool" where
  "flt_less FNan _ = False"
| "flt_less _ FNan = False"
| "flt_less (FInf neg) (FInf neg') = (neg \<and> \<not> neg')"
| "flt_less (FInf neg) (FFin _) = neg"
| "flt_less (FFin _) (FInf neg) = (\<not> neg)"
| "flt_less (FFin p) (FFin q) = (p < q)"

text \<open>\<open>v in (None, "", 0)\<close>: Python's equality also makes \<open>False\<close> and \<open>0.0\<close> equal to \<open>0\<close>.\<close>

fun is_none_blank_zero :: "pyval \<Rightarrow> bool" where
  "is_none_blank_zero PNone = True"
| "is_none_blank_zero (PStr s) = (s = [])"
| "is_none_blank_zero (PInt n) = (n = 0)"
| "is_none_blank_zero (PBool b) = (\<not> b)"
| "is_none_blank_zero (PFloat f) = (f = FFin 0)"
| "is_none_blank_zero _ = False"

text \<open>\<open>a < b\<close> on datetimes: comparing a naive with an aware datetime raises \<open>TypeError\<close>.\<close>

definition dt_less :: "pydt \<Rightarrow> pydt \<Rightarrow> pyexn + bool" where
  "dt_less a b =
     (case (dt_offset a, dt_offset b) of
        (None, None) \<Rightarrow> Inr (dt_local a < dt_local b)
      | (Some u, Some v) \<Rightarrow> Inr (dt_local a - u < dt_local b - v)
      | _ \<Rightarrow> Inl TypeError)"

text \<open>\<open>d.get(k)\<close> on a dict, where a missing key gives \<open>None\<close>, and \<open>d.get(k, default)\<close>.\<close>

definition dict_get :: "(pystr \<times> pyval) list \<Rightarrow> pystr \<Rightarrow> pyval" where
  "dict_get d k = (case map_of d k of None \<Rightarrow> PNone | Some v \<Rightarrow> v)"

definition dict_get_or :: "(pystr \<times> pyval) list \<Rightarrow> pystr \<Rightarrow> pyval \<Rightarrow> pyval" where
  "dict_get_or d k v0 = (case map_of d k of None \<Rightarrow> v0 | Some v \<Rightarrow> v)"

type_synonym pydict = "(pystr \<times> pyval) list"

text \<open>\<open>d[k] = v\<close>: an existing key keeps its place.\<close>

definition dict_put :: "pydict \<Rightarrow> pystr \<Rightarrow> pyval \<Rightarrow> pydict" where
  "dict_put d k v = AList.update k v d"

lemma map_of_dict_put [simp]: "map_of (dict_put d k v) k' = (if k' = k then Some v else map_of d k')"
  by (simp add: dict_put_def update_conv')

lemma dict_get_put [simp]: "dict_get (dict_put d k v) k' = (if k' = k then v else dict_get d k')"
  by (simp add: dict_get_def)

lemma dict_get_Cons: "dict_get ((k, v) # d) k' = (if k' = k then v else dict_get d k')" "dict_get [] k' = PNone"
  by (simp_all add: dict_get_def)

text \<open>\<open>v or w\<close>.\<close>

definition py_or :: "pyval \<Rightarrow> pyval \<Rightarrow> pyval" where
  "py_or v w = (if truthy v then v else w)"

lemma rat_trunc_less: "q < of_int (rat_trunc q) + 1"
proof (cases "q < 0")
  case True
  have "q < 1 - of_int \<lfloor>- q\<rfloor>" using of_int_floor_le[of "- q"] by linarith
  with True show ?thesis by (simp add: rat_trunc_def)
next
  case False
  have "q < of_int \<lfloor>q\<rfloor> + 1" using floor_correct[of q] by simp
  with False show ?thesis by (simp add: rat_trunc_def)
qed

section \<open>Decimal numerals\<close>

definition is_ascii_digit :: "nat \<Rightarrow> bool" where
  "is_ascii_digit c \<longleftrightarrow> 48 \<le> c \<and> c \<le> 57"

definition digits_val :: "pystr \<Rightarrow> nat" where
  "digits_val s = foldl (\<lambda>n c. 10 * n + (c - 48)) 0 s"

lemma nat_str_not_Nil [simp]: "nat_str n \<noteq> []"
  by (subst nat_str.simps) simp

lemma py_str_Nil: "py_str rt v = [] \<longleftrightarrow> v = PStr []"
  by (cases v) (auto simp: int_str_def)

lemma nat_str_digits: "c \<in> set (nat_str n) \<Longrightarrow> is_ascii_digit c"
proof (induction n rule: nat_str.induct)
  case (1 n)
  have "n mod 10 < 10" by (rule mod_less_divisor) simp
  with 1 show ?case
    by (subst (asm) (2) nat_str.simps) (auto simp: is_ascii_digit_def split: if_splits)
qed

lemma digits_val_snoc [simp]: "digits_val (s @ [c]) = 10 * digits_val s + (c - 48)"
  by (simp add: digits_val_def)

lemma digits_val_nat_str [simp]: "digits_val (nat_str n) = n"
proof (induction n rule: nat_str.induct)
  case (1 n)
  show ?case
  proof (cases "n < 10")
    case True
    then show ?thesis by (subst nat_str.simps) (simp add: digits_val_def)
  next
    case False
    with 1 have "digits_val (nat_str n) = 10 * (n div 10) + n mod 10"
      by (subst nat_str.simps) (simp del: mult_div_mod_eq)
    then show ?thesis by (simp only: mult_div_mod_eq)
  qed
qed

section \<open>Runtimes\<close>

text \<open>What the Python documentation fixes on ASCII text, whatever Unicode tables the interpreter has.\<close>

definition ascii_upper :: "nat \<Rightarrow> nat" where
  "ascii_upper c = (if 97 \<le> c \<and> c \<le> 122 then c - 32 else c)"

definition ascii_lower :: "nat \<Rightarrow> nat" where
  "ascii_lower c = (if 65 \<le> c \<and> c \<le> 90 then c + 32 else c)"

definition ascii_alpha :: "nat \<Rightarrow> bool" where
  "ascii_alpha c \<longleftrightarrow> (65 \<le> c \<and> c \<le> 90) \<or> (97 \<le> c \<and> c \<le> 122)"

definition ascii_runtime :: "py_runtime \<Rightarrow> bool" where
  "ascii_runtime rt \<longleftrightarrow>
     (\<forall>c. c < 128 \<longrightarrow> rt_isalpha rt c = ascii_alpha c \<and> rt_isdigit rt c = is_ascii_digit c \<and>
        rt_isdecimal rt c = is_ascii_digit c \<and> rt_isalnum rt c = (ascii_alpha c \<or> is_ascii_digit c)) \<and>
     (\<forall>s. (\<forall>c \<in> set s. c < 128) \<longrightarrow> rt_upper rt s = map ascii_upper s \<and> rt_lower rt s = map ascii_lower s)"

text \<open>
  A concrete runtime for closed examples: ASCII tables extended with the superscript digits U+00B2, U+00B3
  and U+00B9, decimal integers, and no support for the other library calls.
\<close>

definition sample_rt :: py_runtime where
  "sample_rt =
     \<lparr>rt_str = (\<lambda>_. (63, [])),
      rt_lower = map ascii_lower,
      rt_upper = map ascii_upper,
      rt_isalpha = ascii_alpha,
      rt_isdigit = (\<lambda>c. is_ascii_digit c \<or> c \<in> {178, 179, 185}),
      rt_isdecimal = is_ascii_digit,
      rt_isalnum = (\<lambda>c. ascii_alpha c \<or> is_ascii_digit c \<or> c \<in> {178, 179, 185}),
      rt_int_of_str = (\<lambda>s. if s \<noteq> [] \<and> list_all is_ascii_digit s then Some (int (digits_val s)) else None),
      rt_float_of_str = (\<lambda>s. if s \<noteq> [] \<and> list_all is_ascii_digit s
                            then Some (FFin (of_nat (digits_val s))) else None),
      rt_float_of_int = (\<lambda>n. if \<bar>n\<bar> < 2 ^ 64 then Some (FFin (of_int n)) else None),
      rt_re_search = (\<lambda>_ _. Inr True),
      rt_urlsplit = (\<lambda>s. Some ([], [])),
      rt_hostname = (\<lambda>_. None),
      rt_fromisoformat = (\<lambda>_. None),
      rt_strftime = (\<lambda>_. []),
      rt_json_loads = (\<lambda>_. None),
      rt_json_dumps = (\<lambda>_. Inr [])\<rparr>"

lemma ascii_runtime_sample: "ascii_runtime sample_rt"
  by (auto simp: ascii_runtime_def sample_rt_def)

end
