(* ===== verification/Storage_Safety.thy ===== *)
theory Storage_Safety
  imports Py_Value
begin

text \<open>
  Model of \<open>ppbase/core/storage_safety.py\<close> and \<open>ppbase/core/id_generator.py\<close>: the validation of
  storage path components (collection ids, record ids, stored file names) and the mapping of a
  logical id to the name of its local directory.  The theorems: what an accepted component looks
  like, that the local name of an id is itself a safe component of at most 144 characters, and that
  two different ids never share a local name.
\<close>

section \<open>Identifiers\<close>

definition ALPHABET :: pystr where
  "ALPHABET = lit ''abcdefghijklmnopqrstuvwxyz0123456789''"

definition ID_LENGTH :: nat where
  "ID_LENGTH = 15"

text \<open>
  The \<open>i\<close>-th call of \<open>secrets.choice\<close> is a parameter, \<open>choice i\<close>; the library promises that it
  returns an element of its argument.
\<close>

definition generate_id :: "(nat \<Rightarrow> pystr \<Rightarrow> nat) \<Rightarrow> nat \<Rightarrow> pystr" where
  "generate_id choice len = map (\<lambda>i. choice i ALPHABET) [0..<len]"

section \<open>Validation of one path component\<close>

datatype component_reason =
    NotAString | NotTrimmed | RelativeSegment | HasSeparator | HasDrivePrefix | HasControl
  | TooLong | NotUtf8 | TooManyBytes

datatype storage_error = StorageSafetyError pystr component_reason

definition MAX_STORAGE_IDENTIFIER_LENGTH :: nat where
  "MAX_STORAGE_IDENTIFIER_LENGTH = 15"

definition MAX_STORAGE_FILENAME_BYTES :: nat where
  "MAX_STORAGE_FILENAME_BYTES = 255"

definition LOCAL_STORAGE_ID_ESCAPE_PREFIX :: pystr where
  "LOCAL_STORAGE_ID_ESCAPE_PREFIX = lit ''__ppbase_storage_id_v1__''"

text \<open>\<open>unicodedata.category\<close> is \<open>Cc\<close> exactly for U+0000--U+001F and U+007F--U+009F, \<open>Cs\<close> for surrogates.\<close>

definition has_control_character :: "pystr \<Rightarrow> bool" where
  "has_control_character s \<longleftrightarrow> list_ex (\<lambda>c. c < 32 \<or> (127 \<le> c \<and> c \<le> 159) \<or> is_surrogate c) s"

definition PATH_SEPARATORS :: pystr where
  "PATH_SEPARATORS = [47, 92]"

definition is_ascii_letter :: "nat \<Rightarrow> bool" where
  "is_ascii_letter c \<longleftrightarrow> (65 \<le> c \<and> c \<le> 90) \<or> (97 \<le> c \<and> c \<le> 122)"

fun windows_drive_prefix :: "pystr \<Rightarrow> bool" where
  "windows_drive_prefix (c # d # _) = (is_ascii_letter c \<and> d = 58)"
| "windows_drive_prefix _ = False"

definition pocketbase_storage_id :: "pystr \<Rightarrow> bool" where
  "pocketbase_storage_id s \<longleftrightarrow>
     s \<noteq> [] \<and> list_all (\<lambda>c. c = 95 \<or> (97 \<le> c \<and> c \<le> 122) \<or> is_ascii_digit c) s"

definition validate_single_component ::
  "pyval \<Rightarrow> pystr \<Rightarrow> nat option \<Rightarrow> nat option \<Rightarrow> bool \<Rightarrow> storage_error + pystr" where
  "validate_single_component val label max_length max_utf8_bytes reject_windows_drive_prefix =
     (case val of
        PStr s \<Rightarrow>
          bindE (guardE (s = [] \<or> s \<noteq> py_strip s) (StorageSafetyError label NotTrimmed)) (\<lambda>_.
          bindE (guardE (s = lit ''.'' \<or> s = lit ''..'') (StorageSafetyError label RelativeSegment)) (\<lambda>_.
          bindE (guardE (list_ex (\<lambda>sep. sep \<in> set s) PATH_SEPARATORS)
                   (StorageSafetyError label HasSeparator)) (\<lambda>_.
          bindE (guardE (reject_windows_drive_prefix \<and> windows_drive_prefix s)
                   (StorageSafetyError label HasDrivePrefix)) (\<lambda>_.
          bindE (guardE (has_control_character s) (StorageSafetyError label HasControl)) (\<lambda>_.
          bindE (guardE (case max_length of None \<Rightarrow> False | Some m \<Rightarrow> m < length s)
                   (StorageSafetyError label TooLong)) (\<lambda>_.
          (case max_utf8_bytes of
             None \<Rightarrow> Inr s
           | Some m \<Rightarrow>
               (case utf8_encode s of
                  None \<Rightarrow> Inl (StorageSafetyError label NotUtf8)
                | Some encoded \<Rightarrow>
                    bindE (guardE (m < length encoded) (StorageSafetyError label TooManyBytes)) (\<lambda>_.
                    Inr s)))))))))
      | _ \<Rightarrow> Inl (StorageSafetyError label NotAString))"

definition validate_collection_id :: "pyval \<Rightarrow> storage_error + pystr" where
  "validate_collection_id val =
     validate_single_component val (lit ''collection_id'') (Some MAX_STORAGE_IDENTIFIER_LENGTH) None False"

definition validate_record_id :: "pyval \<Rightarrow> storage_error + pystr" where
  "validate_record_id val =
     validate_single_component val (lit ''record_id'') (Some MAX_STORAGE_IDENTIFIER_LENGTH) None False"

datatype local_name_error = Unsafe storage_error | UnicodeEncodeError

definition local_storage_id_name :: "pyval \<Rightarrow> local_name_error + pystr" where
  "local_storage_id_name val =
     (case validate_single_component val (lit ''storage_id'') (Some MAX_STORAGE_IDENTIFIER_LENGTH)
             None False of
        Inl e \<Rightarrow> Inl (Unsafe e)
      | Inr identifier \<Rightarrow>
          if pocketbase_storage_id identifier then Inr identifier
          else (case utf8_encode identifier of
                  None \<Rightarrow> Inl UnicodeEncodeError
                | Some encoded \<Rightarrow> Inr (LOCAL_STORAGE_ID_ESCAPE_PREFIX @ bytes_hex encoded)))"

definition validate_file_reference :: "pyval \<Rightarrow> storage_error + pystr" where
  "validate_file_reference val =
     validate_single_component val (lit ''filename'') None (Some MAX_STORAGE_FILENAME_BYTES) True"

definition is_remote_file_reference :: "py_runtime \<Rightarrow> pyval \<Rightarrow> bool" where
  "is_remote_file_reference rt val =
     (case val of
        PStr s \<Rightarrow>
          (case rt_urlsplit rt s of
             None \<Rightarrow> False
           | Some (scheme, netloc) \<Rightarrow>
               rt_lower rt scheme \<in> {lit ''http'', lit ''https''} \<and> netloc \<noteq> [])
      | _ \<Rightarrow> False)"

section \<open>Stored file names and object keys\<close>

text \<open>
  From \<open>services/file_storage.py\<close>: the name given to an uploaded file and the key of a stored object.
  \<open>sub_runs P r\<close> is \<open>re.sub\<close> with a pattern that matches maximal runs of characters in \<open>P\<close>.
\<close>

function sub_runs :: "(nat \<Rightarrow> bool) \<Rightarrow> pystr \<Rightarrow> pystr \<Rightarrow> pystr" where
  "sub_runs P r [] = []"
| "sub_runs P r (c # cs) = (if P c then r @ sub_runs P r (dropWhile P cs) else c # sub_runs P r cs)"
  by pat_completeness auto
termination
  by (relation "measure (\<lambda>(P, r, s). length s)") (auto simp: le_imp_less_Suc length_dropWhile_le)

definition strip_char :: "nat \<Rightarrow> pystr \<Rightarrow> pystr" where
  "strip_char c s = rev (dropWhile (\<lambda>x. x = c) (rev (dropWhile (\<lambda>x. x = c) s)))"

text \<open>\<open>Path(s).name\<close> of a POSIX path: empty parts and \<open>.\<close> are dropped when the path is parsed.\<close>

definition path_name :: "pystr \<Rightarrow> pystr" where
  "path_name s = (case rev (filter (\<lambda>w. w \<noteq> [] \<and> w \<noteq> lit ''.'') (split_on 47 s)) of [] \<Rightarrow> [] | w # _ \<Rightarrow> w)"

text \<open>\<open>(stem, suffix)\<close>: the suffix starts at the last dot when that is neither the first nor the last character.\<close>

definition path_stem_suffix :: "pystr \<Rightarrow> pystr \<times> pystr" where
  "path_stem_suffix s =
     (let name = path_name s;
          after = length (takeWhile (\<lambda>c. c \<noteq> 46) (rev name));
          i = length name - after - 1
      in if after < length name \<and> 0 < i \<and> i < length name - 1 then (take i name, drop i name)
         else (name, []))"

definition is_alnum_ascii :: "nat \<Rightarrow> bool" where
  "is_alnum_ascii c \<longleftrightarrow> is_ascii_letter c \<or> is_ascii_digit c"

definition sanitize_stem :: "pystr \<Rightarrow> pystr" where
  "sanitize_stem original_name =
     (let stem = py_strip (fst (path_stem_suffix original_name))
      in if stem = [] then lit ''file''
         else
           let spaced = map (\<lambda>c. if c = 32 then 95 else c) stem;
               safe = sub_runs (\<lambda>c. \<not> (is_alnum_ascii c \<or> c = 95 \<or> c = 45)) [95] spaced;
               trimmed = strip_char 95 (sub_runs (\<lambda>c. c = 95) [95] safe)
           in take 180 (if trimmed = [] then lit ''file'' else trimmed))"

definition ALPHANUM :: pystr where
  "ALPHANUM = lit ''abcdefghijklmnopqrstuvwxyzABCDEFGHIJKLMNOPQRSTUVWXYZ0123456789''"

definition random_suffix :: "(nat \<Rightarrow> pystr \<Rightarrow> nat) \<Rightarrow> nat \<Rightarrow> pystr" where
  "random_suffix choice len = map (\<lambda>i. choice i ALPHANUM) [0..<len]"

definition generate_storage_filename :: "(nat \<Rightarrow> pystr \<Rightarrow> nat) \<Rightarrow> pystr \<Rightarrow> pystr" where
  "generate_storage_filename choice original_name =
     (let raw_extension = dropWhile (\<lambda>c. c = 46) (snd (path_stem_suffix original_name));
          safe_extension = take 16 (sub_runs (\<lambda>c. \<not> is_alnum_ascii c) [] raw_extension);
          ext = (if safe_extension \<noteq> [] then 46 # safe_extension else []);
          stem = sanitize_stem original_name
      in stem @ [95] @ random_suffix choice 10 @ ext)"

definition storage_object_key :: "pyval \<Rightarrow> pyval \<Rightarrow> pyval \<Rightarrow> storage_error + pystr" where
  "storage_object_key collection_id record_id filename =
     bindE (validate_collection_id collection_id) (\<lambda>safe_collection_id.
     bindE (validate_record_id record_id) (\<lambda>safe_record_id.
     bindE (validate_file_reference filename) (\<lambda>safe_filename.
     Inr (safe_collection_id @ [47] @ safe_record_id @ [47] @ safe_filename))))"

definition deletable_file_references :: "py_runtime \<Rightarrow> pyval list \<Rightarrow> storage_error + pystr list" where
  "deletable_file_references rt filenames =
     mapE validate_file_reference (filter (\<lambda>f. \<not> is_remote_file_reference rt f) filenames)"

section \<open>What an accepted component looks like\<close>

definition safe_component :: "pystr \<Rightarrow> bool" where
  "safe_component s \<longleftrightarrow>
     s \<noteq> [] \<and> py_strip s = s \<and> s \<noteq> lit ''.'' \<and> s \<noteq> lit ''..'' \<and> 47 \<notin> set s \<and> 92 \<notin> set s \<and>
     \<not> has_control_character s"

lemma validate_single_component_iff:
  "validate_single_component val label ml mb rw = Inr r \<longleftrightarrow>
     val = PStr r \<and> safe_component r \<and> (rw \<longrightarrow> \<not> windows_drive_prefix r) \<and>
     (\<forall>m. ml = Some m \<longrightarrow> length r \<le> m) \<and>
     (\<forall>m. mb = Some m \<longrightarrow> (\<exists>b. utf8_encode r = Some b \<and> length b \<le> m))"
  unfolding validate_single_component_def
  by (cases val; cases ml; cases mb)
     (auto simp: res_simps safe_component_def PATH_SEPARATORS_def not_less split: option.splits)

lemma safe_component_no_surrogate: "safe_component s \<Longrightarrow> c \<in> set s \<Longrightarrow> \<not> is_surrogate c"
  by (auto simp: safe_component_def has_control_character_def list_ex_iff)

lemma safe_component_utf8: "safe_component s \<Longrightarrow> \<exists>b. utf8_encode s = Some b"
  by (rule utf8_encode_total) (rule safe_component_no_surrogate)

text \<open>A name made of printable ASCII without separators and blanks is safe when it is longer than two.\<close>

lemma printable_safe_component:
  assumes "2 < length s" and "\<And>c. c \<in> set s \<Longrightarrow> 33 \<le> c \<and> c < 127 \<and> c \<noteq> 47 \<and> c \<noteq> 92"
  shows "safe_component s"
proof -
  have "\<not> is_space c" "\<not> (c < 32 \<or> (127 \<le> c \<and> c \<le> 159) \<or> is_surrogate c)" if "c \<in> set s" for c
    using assms(2)[OF that] by (auto simp: is_space_def is_surrogate_def)
  then have ctl: "\<not> has_control_character s"
    and sp: "\<And>c. c \<in> set s \<Longrightarrow> \<not> is_space c"
    by (auto simp: has_control_character_def list_ex_iff)
  have ne: "s \<noteq> []" using assms(1) by auto
  have "dropWhile is_space s = s" "dropWhile is_space (rev s) = rev s"
    using sp ne by (auto simp: dropWhile_eq_self hd_rev)
  then have "py_strip s = s" by (simp add: py_strip_def)
  moreover have "s \<noteq> lit ''.''" "s \<noteq> lit ''..''" using assms(1) by auto
  ultimately show ?thesis using ne ctl assms(2) by (auto simp: safe_component_def)
qed

section \<open>Generated ids\<close>

text \<open>The characters of \<open>ALPHABET\<close> are plain lowercase letters and digits.\<close>

lemma ALPHABET_chars: "c \<in> set ALPHABET \<Longrightarrow> (97 \<le> c \<and> c \<le> 122) \<or> is_ascii_digit c"
proof -
  have "list_all (\<lambda>c. (97 \<le> c \<and> c \<le> 122) \<or> is_ascii_digit c) ALPHABET" by code_simp
  then show "c \<in> set ALPHABET \<Longrightarrow> (97 \<le> c \<and> c \<le> 122) \<or> is_ascii_digit c" by (simp add: list_all_iff)
qed

lemma generate_id_chars:
  assumes "\<And>i. choice i ALPHABET \<in> set ALPHABET" "c \<in> set (generate_id choice len)"
  shows "c \<in> set ALPHABET"
  using assms by (auto simp: generate_id_def)

lemma lowercase_id_chars: "pocketbase_storage_id s \<Longrightarrow> c \<in> set s \<Longrightarrow>
    c = 95 \<or> (97 \<le> c \<and> c \<le> 122) \<or> (48 \<le> c \<and> c \<le> 57)"
  by (auto simp: pocketbase_storage_id_def list_all_iff is_ascii_digit_def)

section \<open>Local names\<close>

lemma hex_digit_printable: "n < 16 \<Longrightarrow> 48 \<le> hex_digit n \<and> hex_digit n \<le> 102 \<and> hex_digit n \<noteq> 92"
  by (auto simp: hex_digit_def)

lemma bytes_hex_printable:
  assumes "\<forall>b \<in> set bs. b < 256" "c \<in> set (bytes_hex bs)"
  shows "48 \<le> c \<and> c \<le> 102 \<and> c \<noteq> 92"
  using assms
proof (induction bs)
  case (Cons b bs)
  have "b div 16 < 16" using Cons.prems(1) by (auto intro: less_mult_imp_div_less)
  moreover have "b mod 16 < 16" by (rule mod_less_divisor) simp
  ultimately show ?case using Cons hex_digit_printable by (auto simp del: mod_less_divisor)
qed simp

lemma prefix_length: "length LOCAL_STORAGE_ID_ESCAPE_PREFIX = 24"
  by (simp add: LOCAL_STORAGE_ID_ESCAPE_PREFIX_def)

lemma prefix_printable: "c \<in> set LOCAL_STORAGE_ID_ESCAPE_PREFIX \<Longrightarrow> 48 \<le> c \<and> c \<le> 122 \<and> c \<noteq> 92"
proof -
  have "list_all (\<lambda>c. 48 \<le> c \<and> c \<le> 122 \<and> c \<noteq> 92) LOCAL_STORAGE_ID_ESCAPE_PREFIX" by code_simp
  then show "c \<in> set LOCAL_STORAGE_ID_ESCAPE_PREFIX \<Longrightarrow> 48 \<le> c \<and> c \<le> 122 \<and> c \<noteq> 92"
    by (simp add: list_all_iff)
qed

lemma local_storage_id_name_cases:
  assumes "local_storage_id_name val = Inr name"
  obtains (plain) "val = PStr name" "safe_component name" "length name \<le> 15" "pocketbase_storage_id name"
  | (escaped) s b where "val = PStr s" "safe_component s" "length s \<le> 15" "\<not> pocketbase_storage_id s"
      "utf8_encode s = Some b" "name = LOCAL_STORAGE_ID_ESCAPE_PREFIX @ bytes_hex b"
  using assms
  by (auto simp: local_storage_id_name_def validate_single_component_iff
      MAX_STORAGE_IDENTIFIER_LENGTH_def split: sum.splits if_splits option.splits)

section \<open>Stored names\<close>

lemma set_sub_runs: "c \<in> set (sub_runs P r s) \<Longrightarrow> (c \<in> set s \<and> \<not> P c) \<or> c \<in> set r"
  by (induction P r s rule: sub_runs.induct) (auto dest: set_dropWhileD split: if_splits)

lemma set_strip_char: "c \<in> set (strip_char x s) \<Longrightarrow> c \<in> set s"
  by (auto simp: strip_char_def dest!: set_dropWhileD)

lemma sanitize_stem_chars:
  assumes "c \<in> set (sanitize_stem s)" shows "is_alnum_ascii c \<or> c = 95 \<or> c = 45"
proof -
  have fallback: "is_alnum_ascii c" if "c \<in> set (lit ''file'')" for c
    using that by (auto simp: lit_def is_alnum_ascii_def is_ascii_letter_def)
  show ?thesis using assms
    by (auto simp: sanitize_stem_def Let_def dest!: in_set_takeD set_strip_char set_sub_runs
        intro: fallback split: if_splits)
qed

lemma sanitize_stem_not_Nil: "sanitize_stem s \<noteq> []"
  by (auto simp: sanitize_stem_def Let_def)

lemma sanitize_stem_length: "length (sanitize_stem s) \<le> 180"
  by (auto simp: sanitize_stem_def Let_def)

lemma ALPHANUM_chars: "c \<in> set ALPHANUM \<Longrightarrow> is_alnum_ascii c"
proof -
  have "list_all is_alnum_ascii ALPHANUM" by code_simp
  then show "c \<in> set ALPHANUM \<Longrightarrow> is_alnum_ascii c" by (simp add: list_all_iff)
qed

lemma utf8_encode_ascii: "(\<And>c. c \<in> set s \<Longrightarrow> c < 128) \<Longrightarrow> utf8_encode s = Some s"
  by (induction s) (auto simp: utf8_char_def)

lemma split_three:
  assumes "47 \<notin> set a" "47 \<notin> set b" "47 \<notin> set c"
  shows "split_on 47 (a @ [47] @ b @ [47] @ c) = [a, b, c]"
proof -
  have step: "split_on 47 (x @ 47 # y) = x # split_on 47 y" if "47 \<notin> set x" for x y :: pystr
    using that by (induction x) auto
  show ?thesis using assms by (simp add: step split_on_id)
qed

lemma storage_object_key_Inr:
  "storage_object_key c r f = Inr k \<longleftrightarrow>
     (\<exists>c' r' f'. c = PStr c' \<and> r = PStr r' \<and> f = PStr f' \<and> safe_component c' \<and> safe_component r' \<and>
        validate_file_reference f = Inr f' \<and> length c' \<le> 15 \<and> length r' \<le> 15 \<and>
        k = c' @ [47] @ r' @ [47] @ f')"
  by (auto simp: storage_object_key_def res_simps validate_collection_id_def validate_record_id_def
      validate_file_reference_def validate_single_component_iff MAX_STORAGE_IDENTIFIER_LENGTH_def)

section \<open>Properties\<close>

text \<open>
  C39: two different ids never share a local directory name: whenever both ids are accepted and
  \<open>local_storage_id_name\<close> gives them the same name, they are the same id.
\<close>

theorem local_storage_id_name_inject:
  assumes "local_storage_id_name (PStr a) = Inr name" "local_storage_id_name (PStr b) = Inr name"
    and "\<forall>c \<in> set a \<union> set b. c < 1114112"
  shows "a = b"
  using assms(1)
proof (cases rule: local_storage_id_name_cases)
  case plain
  note pa = this
  from assms(2) show ?thesis
    by (cases rule: local_storage_id_name_cases) (use pa prefix_length in auto)
next
  case (escaped s x)
  note ea = this
  from assms(2) show ?thesis
  proof (cases rule: local_storage_id_name_cases)
    case plain
    with ea prefix_length show ?thesis by auto
  next
    case (escaped t y)
    with ea have "bytes_hex x = bytes_hex y" by simp
    moreover have "\<forall>v \<in> set x. v < 256" "\<forall>v \<in> set y. v < 256"
      using ea escaped assms(3) by (auto intro: utf8_encode_byte[rule_format])
    ultimately have "x = y" by (metis bytes_hex_inject)
    with ea escaped have "s = t" by (auto intro: utf8_encode_inject)
    with ea escaped show ?thesis by simp
  qed
qed

theorem local_storage_id_name_inject_witness:
  "\<exists>name. local_storage_id_name (PStr (lit ''ab:cd'')) = Inr name \<and>
     (\<forall>b. (\<forall>c \<in> set b. c < 1114112) \<longrightarrow> local_storage_id_name (PStr b) = Inr name \<longrightarrow> b = lit ''ab:cd'')"
proof -
  have ok: "local_storage_id_name (PStr (lit ''ab:cd'')) =
      Inr (LOCAL_STORAGE_ID_ESCAPE_PREFIX @ lit ''61623a6364'')"
    by code_simp
  have "\<forall>c \<in> set (lit ''ab:cd''). c < 1114112" by (simp add: lit_def)
  with ok show ?thesis
    using local_storage_id_name_inject[OF ok] by (metis Un_iff)
qed

text \<open>
  every id accepted by \<open>validate_record_id\<close> has a local name (the UTF-8 encoding never fails), and
  that name is a safe path component of at most 144 ASCII bytes, below the 255-byte limit of a file
  name: it contains no separator, no control character and is neither \<open>.\<close> nor \<open>..\<close>.
\<close>

theorem local_storage_id_name_safe:
  assumes "validate_record_id (PStr s) = Inr s" and "\<forall>c \<in> set s. c < 1114112"
  shows "\<exists>name. local_storage_id_name (PStr s) = Inr name \<and> safe_component name \<and>
     length name \<le> 144 \<and> utf8_encode name = Some name"
proof -
  from assms(1) have s: "safe_component s" "length s \<le> 15"
    by (auto simp: validate_record_id_def validate_single_component_iff MAX_STORAGE_IDENTIFIER_LENGTH_def)
  then obtain b where b: "utf8_encode s = Some b" using safe_component_utf8 by blast
  have name: "local_storage_id_name (PStr s) =
      Inr (if pocketbase_storage_id s then s else LOCAL_STORAGE_ID_ESCAPE_PREFIX @ bytes_hex b)"
    using s b validate_single_component_iff[of "PStr s" "lit ''storage_id''" "Some 15" None False s]
    by (simp add: local_storage_id_name_def MAX_STORAGE_IDENTIFIER_LENGTH_def)
  have bytes: "\<forall>x \<in> set b. x < 256" using b assms(2) by (rule utf8_encode_byte)
  let ?e = "LOCAL_STORAGE_ID_ESCAPE_PREFIX @ bytes_hex b"
  have pr: "48 \<le> c \<and> c \<le> 122 \<and> c \<noteq> 92" if "c \<in> set ?e" for c
    using that prefix_printable bytes_hex_printable[OF bytes, of c] by fastforce
  have "safe_component ?e"
    by (rule printable_safe_component) (use prefix_length pr in fastforce)+
  moreover have "utf8_encode ?e = Some ?e" by (rule utf8_encode_ascii) (use pr in fastforce)
  moreover have "length ?e \<le> 144" using utf8_encode_length[OF b] s(2) prefix_length by simp
  moreover have "utf8_encode s = Some s" if "pocketbase_storage_id s"
    by (rule utf8_encode_ascii) (use lowercase_id_chars[OF that] in fastforce)
  ultimately show ?thesis using name s by auto
qed

theorem local_storage_id_name_safe_witness:
  "\<exists>name. local_storage_id_name (PStr [233, 58, 128512]) = Inr name \<and> length name \<le> 144"
proof -
  have "validate_record_id (PStr [233, 58, 128512]) = Inr [233, 58, 128512]" by code_simp
  then show ?thesis using local_storage_id_name_safe[of "[233, 58, 128512]"] by auto
qed

text \<open>
  the object key of a stored file determines the collection, the record and the file: splitting an
  accepted key at \<open>/\<close> gives back exactly the three validated components, so keys of different files
  never collide and no component can climb out of its prefix.
\<close>

theorem storage_object_key_roundtrip:
  assumes "storage_object_key c r f = Inr key"
  shows "\<exists>c' r' f'. c = PStr c' \<and> r = PStr r' \<and> f = PStr f' \<and> split_on 47 key = [c', r', f'] \<and>
     safe_component c' \<and> safe_component r' \<and> safe_component f'"
proof -
  from assms obtain c' r' f' where k: "c = PStr c'" "r = PStr r'" "f = PStr f'" "safe_component c'"
      "safe_component r'" "validate_file_reference f = Inr f'" "key = c' @ [47] @ r' @ [47] @ f'"
    by (auto simp: storage_object_key_Inr)
  then have "safe_component f'"
    by (simp add: validate_file_reference_def validate_single_component_iff)
  with k show ?thesis using split_three[of c' r' f'] by (auto simp: safe_component_def)
qed

theorem storage_object_key_roundtrip_witness:
  "\<exists>key. storage_object_key (PStr (lit ''users'')) (PStr (lit ''r1'')) (PStr (lit ''a.png'')) = Inr key \<and>
     split_on 47 key = [lit ''users'', lit ''r1'', lit ''a.png'']"
proof -
  have ok: "storage_object_key (PStr (lit ''users'')) (PStr (lit ''r1'')) (PStr (lit ''a.png'')) =
      Inr (lit ''users/r1/a.png'')" by code_simp
  show ?thesis using ok storage_object_key_roundtrip[OF ok] by auto
qed

text \<open>
  every name generated for an upload, whatever the client's file name, is accepted by
  \<open>validate_file_reference\<close>, and has at most 208 characters.
\<close>

theorem generated_filename_valid:
  assumes "\<forall>i. choice i ALPHANUM \<in> set ALPHANUM"
  shows "validate_file_reference (PStr (generate_storage_filename choice s)) =
      Inr (generate_storage_filename choice s) \<and> length (generate_storage_filename choice s) \<le> 208"
proof -
  let ?n = "generate_storage_filename choice s"
  have suffix: "is_alnum_ascii c" if "c \<in> set (random_suffix choice 10)" for c
    using that assms ALPHANUM_chars by (auto simp: random_suffix_def)
  have ext: "is_alnum_ascii c" if "c \<in> set (sub_runs (\<lambda>c. \<not> is_alnum_ascii c) [] w)" for c w
    using set_sub_runs[OF that] by auto
  have ch: "is_alnum_ascii c \<or> c = 95 \<or> c = 45 \<or> c = 46" if "c \<in> set ?n" for c
    using that by (auto simp: generate_storage_filename_def Let_def dest!: sanitize_stem_chars suffix
        in_set_takeD ext split: if_splits)
  then have pr: "45 \<le> c \<and> c \<le> 122 \<and> c \<noteq> 47 \<and> c \<noteq> 92 \<and> c \<noteq> 58" if "c \<in> set ?n" for c
    using that by (auto simp: is_alnum_ascii_def is_ascii_letter_def is_ascii_digit_def dest!: ch)
  have len: "length ?n \<le> 208" "10 < length ?n"
    using sanitize_stem_length[of s] by (auto simp: generate_storage_filename_def Let_def random_suffix_def)
  have "safe_component ?n" by (rule printable_safe_component) (use len pr in fastforce)+
  moreover have "utf8_encode ?n = Some ?n" by (rule utf8_encode_ascii) (use pr in fastforce)
  moreover have "\<not> windows_drive_prefix ?n"
    using pr by (cases ?n rule: windows_drive_prefix.cases) auto
  ultimately show ?thesis using len
    by (auto simp: validate_file_reference_def validate_single_component_iff MAX_STORAGE_FILENAME_BYTES_def)
qed

theorem generated_filename_valid_witness:
  "validate_file_reference (PStr (generate_storage_filename (\<lambda>_ _. 97) (lit ''../../etc/pass wd.tar.gz''))) =
     Inr (lit ''pass_wd_tar_aaaaaaaaaa.gz'')"
proof -
  have "(97::nat) \<in> set ALPHANUM" by code_simp
  then have "validate_file_reference (PStr (generate_storage_filename (\<lambda>_ _. 97) (lit ''../../etc/pass wd.tar.gz''))) =
      Inr (generate_storage_filename (\<lambda>_ _. 97) (lit ''../../etc/pass wd.tar.gz''))"
    by (intro conjunct1[OF generated_filename_valid]) simp
  moreover have "generate_storage_filename (\<lambda>_ _. 97) (lit ''../../etc/pass wd.tar.gz'') =
      lit ''pass_wd_tar_aaaaaaaaaa.gz''" by code_simp
  ultimately show ?thesis by (simp only:)
qed

end
