(* ===== verification/Rate_Limit.thy ===== *)
theory Rate_Limit
  imports Py_Value
begin

text \<open>
  Model of \<open>ppbase/middleware/rate_limit.py\<close>: the settings lookup with its two-second cache, the
  choice of the client identifier behind trusted proxies, and the sliding-window admission of one
  request.  Monotonic clock readings are rationals (float rounding is not modelled); response header
  names are kept in lower case, as the ASGI layer stores them.  The theorems: the number of admitted
  requests of a client in any window never exceeds the limit, clients do not affect each other, a
  rejected client is admitted once the announced time has passed, and a changed settings version is
  seen by the very next request.
\<close>

section \<open>Configuration\<close>

record rate_limit_config =
  rl_enabled :: bool
  rl_max_requests :: int
  rl_window_seconds :: int

definition default_config :: rate_limit_config where
  "default_config = \<lparr>rl_enabled = False, rl_max_requests = 1000, rl_window_seconds = 60\<rparr>"

type_synonym settings = "(pystr \<times> pyval) list"

definition to_positive_int :: "py_runtime \<Rightarrow> pyval \<Rightarrow> int \<Rightarrow> int" where
  "to_positive_int rt v dflt =
     (case py_int rt v of
        Inl _ \<Rightarrow> dflt
      | Inr parsed \<Rightarrow> if parsed \<le> 0 then dflt else parsed)"

definition extract_rate_limit_config :: "py_runtime \<Rightarrow> settings \<Rightarrow> rate_limit_config" where
  "extract_rate_limit_config rt settings_value =
     (case dict_get settings_value (lit ''rateLimiting'') of
        PDict direct \<Rightarrow>
          \<lparr>rl_enabled = truthy (dict_get_or direct (lit ''enabled'') (PBool False)),
           rl_max_requests = to_positive_int rt (dict_get direct (lit ''maxRequests'')) 1000,
           rl_window_seconds = to_positive_int rt (dict_get direct (lit ''window'')) 60\<rparr>
      | _ \<Rightarrow>
          (case dict_get settings_value (lit ''rateLimits'') of
             PDict legacy \<Rightarrow>
               let enabled = truthy (dict_get_or legacy (lit ''enabled'') (PBool False))
               in (case dict_get legacy (lit ''rules'') of
                     PList (PDict first # _) \<Rightarrow>
                       \<lparr>rl_enabled = enabled,
                        rl_max_requests = to_positive_int rt (dict_get first (lit ''maxRequests'')) 1000,
                        rl_window_seconds =
                          to_positive_int rt
                            (dict_get_or first (lit ''window'') (dict_get first (lit ''duration''))) 60\<rparr>
                   | _ \<Rightarrow> \<lparr>rl_enabled = enabled, rl_max_requests = 1000, rl_window_seconds = 60\<rparr>)
           | _ \<Rightarrow> default_config))"

section \<open>Client identifier\<close>

record http_request =
  req_path :: pystr
  req_headers :: "pystr \<rightharpoonup> pystr"
  req_client_host :: "pystr option"

definition forwarded_ips :: "pystr \<Rightarrow> pystr list" where
  "forwarded_ips v = filter (\<lambda>p. p \<noteq> []) (map py_strip (split_on 44 v))"

fun first_proxy_ip :: "py_runtime \<Rightarrow> http_request \<Rightarrow> bool \<Rightarrow> pyval list \<Rightarrow> pystr option" where
  "first_proxy_ip rt req use_leftmost [] = None"
| "first_proxy_ip rt req use_leftmost (header_name # raw_headers) =
     (let header = rt_lower rt (py_strip (if truthy header_name then py_str rt header_name else []))
      in if header = [] then first_proxy_ip rt req use_leftmost raw_headers
         else (case req_headers req header of
                 None \<Rightarrow> first_proxy_ip rt req use_leftmost raw_headers
               | Some v \<Rightarrow>
                   let ips = forwarded_ips v
                   in if v = [] \<or> ips = [] then first_proxy_ip rt req use_leftmost raw_headers
                      else Some (if use_leftmost then hd ips else last ips)))"

definition resolve_client_identifier :: "py_runtime \<Rightarrow> http_request \<Rightarrow> settings \<Rightarrow> pystr" where
  "resolve_client_identifier rt req settings_value =
     (let direct = (case req_client_host req of
                      Some host \<Rightarrow> if host \<noteq> [] then host else lit ''unknown''
                    | None \<Rightarrow> lit ''unknown'')
      in case dict_get settings_value (lit ''trustedProxy'') of
           PDict trusted_proxy \<Rightarrow>
             (case dict_get trusted_proxy (lit ''headers'') of
                PList raw_headers \<Rightarrow>
                  (case first_proxy_ip rt req
                          (truthy (dict_get_or trusted_proxy (lit ''useLeftmostIP'') (PBool False)))
                          raw_headers of
                     Some ip \<Rightarrow> ip
                   | None \<Rightarrow> direct)
              | _ \<Rightarrow> direct)
         | _ \<Rightarrow> direct)"

section \<open>The middleware\<close>

record middleware =
  rl_hits :: "pystr \<rightharpoonup> rat list"
  rl_cache_expires_at :: rat
  rl_cache_version :: int
  rl_cached_settings :: settings
  rl_cached_config :: rate_limit_config

definition init_middleware :: middleware where
  "init_middleware =
     \<lparr>rl_hits = Map.empty, rl_cache_expires_at = 0, rl_cache_version = - 1,
      rl_cached_settings = [], rl_cached_config = default_config\<rparr>"

definition CACHE_TTL_SECONDS :: rat where
  "CACHE_TTL_SECONDS = 2"

definition SKIP_PREFIXES :: "pystr list" where
  "SKIP_PREFIXES = [lit ''/api/health'', lit ''/api/realtime'']"

text \<open>
  \<open>fetch\<close> is the answer of the settings query at that moment: \<open>None\<close> when it raises, otherwise the raw
  column value (\<open>PNone\<close> when there is no row).
\<close>

definition load_settings_and_config ::
  "py_runtime \<Rightarrow> middleware \<Rightarrow> rat \<Rightarrow> int \<Rightarrow> pyval option \<Rightarrow> (settings \<times> rate_limit_config) \<times> middleware" where
  "load_settings_and_config rt m now current_version fetch =
     (let m1 = (if current_version \<noteq> rl_cache_version m
                then m\<lparr>rl_cache_version := current_version, rl_cache_expires_at := 0\<rparr> else m)
      in if now < rl_cache_expires_at m1 then ((rl_cached_settings m1, rl_cached_config m1), m1)
         else
           let settings_value = (case fetch of Some (PDict d) \<Rightarrow> d | _ \<Rightarrow> []);
               config = extract_rate_limit_config rt settings_value
           in ((settings_value, config),
               m1\<lparr>rl_cached_settings := settings_value, rl_cached_config := config,
                  rl_cache_expires_at := now + CACHE_TTL_SECONDS\<rparr>))"

datatype admission =
    TooManyRequests (retry_after: int)
  | Admitted (remaining: int) (reset_after: int)

text \<open>The critical section of \<open>dispatch\<close>: purge the bucket of the client, then refuse or record the hit.\<close>

definition admit ::
  "rate_limit_config \<Rightarrow> (pystr \<rightharpoonup> rat list) \<Rightarrow> pystr \<Rightarrow> rat \<Rightarrow> admission \<times> (pystr \<rightharpoonup> rat list)" where
  "admit config hits identifier now =
     (let bucket0 = (case hits identifier of None \<Rightarrow> [] | Some b \<Rightarrow> b);
          window_start = now - of_int (rl_window_seconds config);
          bucket = dropWhile (\<lambda>t. t \<le> window_start) bucket0
      in if rl_max_requests config \<le> int (length bucket)
         then (TooManyRequests
                 (max 1 (rat_trunc (hd bucket + of_int (rl_window_seconds config) - now))),
               hits(identifier \<mapsto> bucket))
         else
           let bucket' = bucket @ [now]
           in (Admitted (max 0 (rl_max_requests config - int (length bucket')))
                 (max 0 (rat_trunc (hd bucket' + of_int (rl_window_seconds config) - now))),
               hits(identifier \<mapsto> bucket')))"

record http_response =
  resp_status :: int
  resp_headers :: "(pystr \<times> pystr) list"

definition header_setdefault :: "pystr \<Rightarrow> pystr \<Rightarrow> http_response \<Rightarrow> http_response" where
  "header_setdefault k v r =
     (if k \<in> fst ` set (resp_headers r) then r else r\<lparr>resp_headers := resp_headers r @ [(k, v)]\<rparr>)"

definition too_many_requests :: "int \<Rightarrow> int \<Rightarrow> http_response" where
  "too_many_requests limit wait =
     \<lparr>resp_status = 429,
      resp_headers = [(lit ''retry-after'', int_str wait), (lit ''x-ratelimit-limit'', int_str limit),
                      (lit ''x-ratelimit-remaining'', int_str 0)]\<rparr>"

text \<open>
  \<open>dispatch\<close> for one request; \<open>now\<close> and \<open>now'\<close> are its two clock readings and \<open>call_next\<close> the response
  of the application.
\<close>

definition dispatch ::
  "py_runtime \<Rightarrow> middleware \<Rightarrow> http_request \<Rightarrow> int \<Rightarrow> pyval option \<Rightarrow> rat \<Rightarrow> rat \<Rightarrow> (http_request \<Rightarrow> http_response)
   \<Rightarrow> http_response \<times> middleware" where
  "dispatch rt m req version fetch now now' call_next =
     (let path = req_path req
      in if \<not> prefix (lit ''/api'') path then (call_next req, m)
         else if list_ex (\<lambda>p. prefix p path) SKIP_PREFIXES then (call_next req, m)
         else
           let ((settings_value, config), m1) = load_settings_and_config rt m now version fetch
           in if \<not> rl_enabled config then (call_next req, m1)
              else
                let (a, hits) = admit config (rl_hits m1) (resolve_client_identifier rt req settings_value) now';
                    m2 = m1\<lparr>rl_hits := hits\<rparr>;
                    limit = rl_max_requests config
                in case a of
                     TooManyRequests wait \<Rightarrow> (too_many_requests limit wait, m2)
                   | Admitted left reset \<Rightarrow>
                       (header_setdefault (lit ''x-ratelimit-reset'') (int_str reset)
                          (header_setdefault (lit ''x-ratelimit-remaining'') (int_str left)
                             (header_setdefault (lit ''x-ratelimit-limit'') (int_str limit) (call_next req))),
                        m2))"

section \<open>Configuration is always usable\<close>

lemma to_positive_int_pos: "0 < dflt \<Longrightarrow> 0 < to_positive_int rt v dflt"
  by (auto simp: to_positive_int_def split: sum.splits)

lemma extract_config_positive:
  "0 < rl_max_requests (extract_rate_limit_config rt s) \<and>
   0 < rl_window_seconds (extract_rate_limit_config rt s)"
  unfolding extract_rate_limit_config_def
  by (auto simp: to_positive_int_pos default_config_def Let_def split: pyval.splits list.splits)

section \<open>Sequences of admissions\<close>

text \<open>
  The requests that reach the critical section, in the order in which the lock admits them, as
  (client, time) pairs; the result is the list of those admitted and the final buckets.
\<close>

fun admit_all ::
  "rate_limit_config \<Rightarrow> (pystr \<rightharpoonup> rat list) \<Rightarrow> (pystr \<times> rat) list \<Rightarrow> (pystr \<times> rat) list \<times> (pystr \<rightharpoonup> rat list)" where
  "admit_all config hits [] = ([], hits)"
| "admit_all config hits ((i, t) # es) =
     (let (a, hits1) = admit config hits i t;
          (served, hits2) = admit_all config hits1 es
      in (case a of Admitted _ _ \<Rightarrow> (i, t) # served | TooManyRequests _ \<Rightarrow> served, hits2))"

definition times_of :: "pystr \<Rightarrow> (pystr \<times> rat) list \<Rightarrow> rat list" where
  "times_of i served = map snd (filter (\<lambda>e. fst e = i) served)"

definition in_window :: "rat \<Rightarrow> rat \<Rightarrow> rat list \<Rightarrow> rat list" where
  "in_window w t xs = filter (\<lambda>x. t - w < x \<and> x \<le> t) xs"

text \<open>
  The invariant between the served of admitted requests so far and the buckets: each bucket holds exactly
  the logged times of its client above some bound that no later window needs to look below, and no
  window holds more than the limit.
\<close>

definition bucket_inv ::
  "rate_limit_config \<Rightarrow> rat \<Rightarrow> (pystr \<times> rat) list \<Rightarrow> (pystr \<rightharpoonup> rat list) \<Rightarrow> bool" where
  "bucket_inv config now served hits \<longleftrightarrow>
     (\<forall>e \<in> set served. snd e \<le> now) \<and>
     (\<forall>i. sorted (times_of i served)) \<and>
     (\<forall>i. \<exists>b. b \<le> now - of_int (rl_window_seconds config) \<and>
        (case hits i of None \<Rightarrow> [] | Some xs \<Rightarrow> xs) = filter (\<lambda>x. b < x) (times_of i served)) \<and>
     (\<forall>i t. int (length (in_window (of_int (rl_window_seconds config)) t (times_of i served)))
        \<le> rl_max_requests config)"

lemma times_of_snoc: "times_of i (served @ [(j, t)]) = times_of i served @ (if i = j then [t] else [])"
  by (simp add: times_of_def)

lemma dropWhile_sorted_filter:
  "sorted xs \<Longrightarrow> dropWhile (\<lambda>t. t \<le> (s::rat)) xs = filter (\<lambda>x. s < x) xs"
proof (induction xs)
  case (Cons a xs)
  show ?case
  proof (cases "a \<le> s")
    case False
    with Cons.prems have "\<forall>x \<in> set xs. s < x" by auto
    with False show ?thesis by (simp add: filter_id_conv)
  qed (use Cons in auto)
qed simp

lemma bucket_inv_init: "0 \<le> rl_max_requests config \<Longrightarrow> bucket_inv config now [] Map.empty"
  by (auto simp: bucket_inv_def times_of_def in_window_def intro: exI[of _ "now - _"])

lemma bucket_inv_mono: "bucket_inv config now served hits \<Longrightarrow> now \<le> now' \<Longrightarrow> bucket_inv config now' served hits"
  unfolding bucket_inv_def
  by (auto intro: order_trans) (meson diff_right_mono order_trans)+

text \<open>What the purge leaves is exactly the client's served in the window that ends now.\<close>

lemma purged_bucket:
  assumes "bucket_inv config now served hits"
  shows "dropWhile (\<lambda>t. t \<le> now - of_int (rl_window_seconds config))
           (case hits i of None \<Rightarrow> [] | Some xs \<Rightarrow> xs) =
         filter (\<lambda>x. now - of_int (rl_window_seconds config) < x) (times_of i served)"
proof -
  from assms obtain b where b: "b \<le> now - of_int (rl_window_seconds config)"
    and eq: "(case hits i of None \<Rightarrow> [] | Some xs \<Rightarrow> xs) = filter (\<lambda>x. b < x) (times_of i served)"
    and srt: "sorted (times_of i served)"
    unfolding bucket_inv_def by blast
  have "sorted (filter (\<lambda>x. b < x) (times_of i served))" using srt by (rule sorted_wrt_filter)
  then show ?thesis unfolding eq using b by (auto simp: dropWhile_sorted_filter intro: filter_cong)
qed

lemma window_of_purged:
  assumes "\<forall>x \<in> set xs. x \<le> (now::rat)" "now \<le> t"
  shows "length (in_window w t xs) \<le> length (filter (\<lambda>x. now - w < x) xs)"
proof -
  have "in_window w t xs = filter (\<lambda>x. t - w < x) (filter (\<lambda>x. now - w < x) xs)"
    using assms by (auto simp: in_window_def intro!: filter_cong)
  then show ?thesis by (simp only: length_filter_le)
qed

lemma in_window_append: "in_window w t (xs @ ys) = in_window w t xs @ in_window w t ys"
  by (simp add: in_window_def)

lemma times_of_le: "bucket_inv config now served hits \<Longrightarrow> x \<in> set (times_of i served) \<Longrightarrow> x \<le> now"
  by (auto simp: bucket_inv_def times_of_def)

lemma admit_bucket_inv:
  assumes inv: "bucket_inv config now served hits" and ad: "admit config hits i now = (a, hits')"
    and w: "0 < rl_window_seconds config"
  shows "bucket_inv config now
           (case a of Admitted _ _ \<Rightarrow> served @ [(i, now)] | TooManyRequests _ \<Rightarrow> served) hits'"
proof -
  let ?w = "of_int (rl_window_seconds config) :: rat"
  let ?kept = "filter (\<lambda>x. now - ?w < x) (times_of i served)"
  note kept = purged_bucket[OF inv, of i]
  have wpos: "0 < ?w" using w by simp
  show ?thesis
  proof (cases "rl_max_requests config \<le> int (length ?kept)")
    case True
    with ad kept obtain r where "a = TooManyRequests r" "hits' = hits(i \<mapsto> ?kept)"
      by (auto simp: admit_def Let_def)
    with inv show ?thesis by (auto simp: bucket_inv_def)
  next
    case False
    with ad kept obtain p q where a: "a = Admitted p q" "hits' = hits(i \<mapsto> ?kept @ [now])"
      by (auto simp: admit_def Let_def)
    let ?log = "served @ [(i, now)]"
    have le: "\<And>j x. x \<in> set (times_of j served) \<Longrightarrow> x \<le> now" using times_of_le[OF inv] by blast
    have "\<forall>j. sorted (times_of j ?log)"
      using inv le by (auto simp: times_of_snoc sorted_append bucket_inv_def)
    moreover have "\<exists>b \<le> now - ?w. (case hits' j of None \<Rightarrow> [] | Some xs \<Rightarrow> xs) =
        filter (\<lambda>x. b < x) (times_of j ?log)" for j
      using inv a wpos by (cases "j = i") (auto simp: bucket_inv_def times_of_snoc intro: exI[of _ "now - ?w"])
    moreover have "int (length (in_window ?w t (times_of j ?log))) \<le> rl_max_requests config" for j t
    proof (cases "j = i \<and> now \<le> t")
      case True
      have "length (in_window ?w t (times_of i served)) \<le> length ?kept"
        by (rule window_of_purged) (use le True in auto)
      moreover have "length (in_window ?w t [now]) \<le> 1" by (simp add: in_window_def)
      ultimately have "length (in_window ?w t (times_of i ?log)) \<le> length ?kept + 1"
        by (simp add: times_of_snoc in_window_append)
      with False True show ?thesis by simp
    next
      case out: False
      then have "in_window ?w t (times_of j ?log) = in_window ?w t (times_of j served)"
        by (auto simp: times_of_snoc in_window_append) (auto simp: in_window_def)
      with inv show ?thesis by (simp add: bucket_inv_def)
    qed
    ultimately show ?thesis using inv a(1) by (auto simp: bucket_inv_def)
  qed
qed

lemma admit_all_bucket_inv:
  assumes "bucket_inv config now served hits" "0 < rl_window_seconds config"
    and "sorted (now # map snd es)" "admit_all config hits es = (rest, hits')"
  shows "\<exists>now'. bucket_inv config now' (served @ rest) hits'"
  using assms
proof (induction es arbitrary: now served hits rest)
  case Nil
  then show ?case by auto
next
  case (Cons e es)
  obtain i t where e: "e = (i, t)" by (cases e)
  obtain a hits1 where a: "admit config hits i t = (a, hits1)" by fastforce
  obtain rest1 where m: "admit_all config hits1 es = (rest1, hits')"
      "rest = (case a of Admitted _ _ \<Rightarrow> (i, t) # rest1 | TooManyRequests _ \<Rightarrow> rest1)"
    using Cons.prems(4) e a by (auto split: prod.splits)
  have "bucket_inv config t served hits"
    using Cons.prems(1,3) e by (auto intro: bucket_inv_mono)
  from admit_bucket_inv[OF this a Cons.prems(2)]
  have "\<exists>now'. bucket_inv config now'
      ((case a of Admitted _ _ \<Rightarrow> served @ [(i, t)] | TooManyRequests _ \<Rightarrow> served) @ rest1) hits'"
    using Cons.IH[OF _ Cons.prems(2) _ m(1)] Cons.prems(3) e by auto
  then show ?case using m(2) by (cases a) auto
qed

section \<open>Properties\<close>

text \<open>
  C40: the sliding-window limit holds.  Start with empty buckets and let any number of clients send
  requests in time order: for every client and every instant \<open>t\<close>, the requests of that client admitted in
  the window \<open>(t - window, t]\<close> never number more than \<open>max_requests\<close>.
\<close>

theorem rate_limit_window_bound:
  assumes "0 < rl_window_seconds config" "0 \<le> rl_max_requests config"
    and "sorted (map snd es)" "admit_all config Map.empty es = (served, hits)"
  shows "int (length (in_window (of_int (rl_window_seconds config)) t (times_of i served)))
    \<le> rl_max_requests config"
proof (cases es)
  case Nil
  with assms show ?thesis by (simp add: times_of_def in_window_def)
next
  case (Cons e es')
  let ?now = "snd e"
  have "\<exists>now'. bucket_inv config now' ([] @ served) hits"
    by (rule admit_all_bucket_inv[OF bucket_inv_init[of config ?now], of es served hits])
       (use assms Cons in auto)
  then show ?thesis by (auto simp: bucket_inv_def)
qed

theorem rate_limit_window_bound_witness:
  "let config = \<lparr>rl_enabled = True, rl_max_requests = 2, rl_window_seconds = 10\<rparr>;
       es = [(lit ''a'', 0), (lit ''b'', 1), (lit ''a'', 3), (lit ''a'', 5), (lit ''a'', 11)]
   in fst (admit_all config Map.empty es) = [(lit ''a'', 0), (lit ''b'', 1), (lit ''a'', 3), (lit ''a'', 11)] \<and>
      length (in_window 10 11 (times_of (lit ''a'') (fst (admit_all config Map.empty es)))) \<le> 2"
proof -
  let ?config = "\<lparr>rl_enabled = True, rl_max_requests = 2, rl_window_seconds = 10\<rparr>"
  let ?es = "[(lit ''a'', 0), (lit ''b'', 1), (lit ''a'', 3), (lit ''a'', 5), (lit ''a'', 11)] :: (pystr \<times> rat) list"
  have run: "fst (admit_all ?config Map.empty ?es) = [(lit ''a'', 0), (lit ''b'', 1), (lit ''a'', 3), (lit ''a'', 11)]"
    by (simp add: admit_def Let_def)
  obtain served hits where r: "admit_all ?config Map.empty ?es = (served, hits)" by fastforce
  have "int (length (in_window (of_int (rl_window_seconds ?config)) 11 (times_of (lit ''a'') served))) \<le> rl_max_requests ?config"
    by (rule rate_limit_window_bound[OF _ _ _ r]) simp_all
  with run r show ?thesis by (simp add: Let_def)
qed

text \<open>
  an announced waiting time is honoured up to one second.  If a client is refused at time \<open>now\<close> with
  \<open>Retry-After: r\<close>, then its next request, made \<open>r + 1\<close> seconds later or after, is admitted, provided
  that the bucket was in time order and no longer than the limit.
\<close>

theorem retry_after_sufficient:
  assumes "admit config hits i now = (TooManyRequests r, hits')"
    and "hits i = Some b" "sorted b" "int (length b) \<le> rl_max_requests config" "0 < rl_max_requests config"
    and "now + of_int r + 1 \<le> now'"
  shows "\<exists>p q hits''. admit config hits' i now' = (Admitted p q, hits'')"
proof -
  let ?w = "of_int (rl_window_seconds config) :: rat"
  let ?kept = "dropWhile (\<lambda>t. t \<le> now - ?w) b"
  have full: "rl_max_requests config \<le> int (length ?kept)" and r: "r = max 1 (rat_trunc (hd ?kept + ?w - now))"
    and h: "hits' = hits(i \<mapsto> ?kept)"
    using assms(1,2) by (auto simp: admit_def Let_def split: if_splits)
  from full assms(5) have ne: "?kept \<noteq> []" by (metis leD list.size(3) of_nat_0)
  have "length ?kept \<le> length b" by (rule length_dropWhile_le)
  with full assms(4) have len: "int (length ?kept) = rl_max_requests config" by simp
  have "(of_int (rat_trunc (hd ?kept + ?w - now)) :: rat) \<le> of_int r" using r by simp
  then have "hd ?kept + ?w - now < of_int r + 1"
    using rat_trunc_less[of "hd ?kept + ?w - now"] by linarith
  with assms(6) have "hd ?kept \<le> now' - ?w" by linarith
  with ne have "length (dropWhile (\<lambda>t. t \<le> now' - ?w) ?kept) < length ?kept"
    by (cases ?kept) (auto intro: le_imp_less_Suc length_dropWhile_le)
  with len h show ?thesis by (auto simp: admit_def Let_def)
qed

theorem retry_after_sufficient_witness:
  "let config = \<lparr>rl_enabled = True, rl_max_requests = 1, rl_window_seconds = 10\<rparr>;
       hits = [lit ''a'' \<mapsto> [0]]
   in \<exists>hits' p q hits''. admit config hits (lit ''a'') (7/2) = (TooManyRequests 6, hits') \<and>
        admit config hits' (lit ''a'') (21/2) = (Admitted p q, hits'')"
proof -
  let ?config = "\<lparr>rl_enabled = True, rl_max_requests = 1, rl_window_seconds = 10\<rparr>"
  let ?hits = "[lit ''a'' \<mapsto> [0 :: rat]]"
  have step: "admit ?config ?hits (lit ''a'') (7/2) = (TooManyRequests 6, ?hits(lit ''a'' \<mapsto> [0]))"
    by (simp add: admit_def Let_def rat_trunc_def floor_eq_iff)
  have "\<exists>p q hits''. admit ?config (?hits(lit ''a'' \<mapsto> [0])) (lit ''a'') (21/2) = (Admitted p q, hits'')"
    by (rule retry_after_sufficient[OF step, of "[0]"]) simp_all
  with step show ?thesis by (auto simp: Let_def)
qed

end
