(* ===== verification/Sql_Script.thy ===== *)
theory Sql_Script
  imports Py_Value
begin

text \<open>
  Model of the splitting and classification half of \<open>ppbase/services/sql_console.py\<close>
  (\<open>_skip_quoted\<close>, \<open>split_statements\<close>, \<open>_top_level_words\<close>, \<open>_object_command\<close>, \<open>_classify\<close>,
  \<open>analyze_script\<close>).  The scanner keeps the source's index arithmetic.  Unicode character classes and
  \<open>str.upper\<close> come from the runtime record.  The theorems: a quoted literal never splits a script and never
  contributes a keyword, whatever it contains; every statement that starts a transaction command is
  forbidden, also behind \<open>EXPLAIN ANALYZE\<close>; a comment ends at a line feed only; and the two places where the scanner leaves its intended
  behaviour (a non-ASCII digit, a quote at the very start).
\<close>

section \<open>Scanning\<close>

definition char_at :: "pystr \<Rightarrow> nat \<Rightarrow> nat option" where
  "char_at s i = (if i < length s then Some (s ! i) else None)"

function skip_quoted_from :: "pystr \<Rightarrow> nat \<Rightarrow> nat \<Rightarrow> bool \<Rightarrow> nat" where
  "skip_quoted_from sql i quote backslash_escapes =
     (if i < length sql then
        (if backslash_escapes \<and> sql ! i = 92
         then skip_quoted_from sql (i + 2) quote backslash_escapes
         else if sql ! i = quote then
           (if i + 1 < length sql \<and> sql ! (i + 1) = quote
            then skip_quoted_from sql (i + 2) quote backslash_escapes
            else i + 1)
         else skip_quoted_from sql (i + 1) quote backslash_escapes)
      else length sql)"
  by pat_completeness auto
termination by (relation "measure (\<lambda>(sql, i, _, _). length sql - i)") auto

declare skip_quoted_from.simps [simp del]

definition skip_quoted :: "pystr \<Rightarrow> nat \<Rightarrow> nat \<Rightarrow> bool \<Rightarrow> nat" where
  "skip_quoted sql start quote backslash_escapes = skip_quoted_from sql (start + 1) quote backslash_escapes"

text \<open>The nested block comment loop, from just past the opening marker.\<close>

function skip_block_comment :: "pystr \<Rightarrow> nat \<Rightarrow> nat \<Rightarrow> nat" where
  "skip_block_comment sql i depth =
     (if i < length sql \<and> 0 < depth then
        (if prefix (lit ''/*'') (drop i sql) then skip_block_comment sql (i + 2) (depth + 1)
         else if prefix (lit ''*/'') (drop i sql) then skip_block_comment sql (i + 2) (depth - 1)
         else skip_block_comment sql (i + 1) depth)
      else i)"
  by pat_completeness auto
termination by (relation "measure (\<lambda>(sql, i, _). length sql - i)") auto

declare skip_block_comment.simps [simp del]

text \<open>\<open>sql.find(needle, start)\<close>, \<open>None\<close> for \<open>-1\<close>.\<close>

function find_from :: "pystr \<Rightarrow> pystr \<Rightarrow> nat \<Rightarrow> nat option" where
  "find_from needle sql i =
     (if prefix needle (drop i sql) \<and> i \<le> length sql then Some i
      else if i < length sql then find_from needle sql (i + 1) else None)"
  by pat_completeness auto
termination by (relation "measure (\<lambda>(_, sql, i). length sql - i)") auto

declare find_from.simps [simp del]

definition ident_start :: "nat \<Rightarrow> bool" where
  "ident_start c \<longleftrightarrow> (65 \<le> c \<and> c \<le> 90) \<or> (97 \<le> c \<and> c \<le> 122) \<or> c = 95"

definition ident_part :: "nat \<Rightarrow> bool" where
  "ident_part c \<longleftrightarrow> ident_start c \<or> is_ascii_digit c"

text \<open>\<open>_DOLLAR_TAG_RE.match(sql, i)\<close>: the matched tag.\<close>

definition dollar_tag :: "pystr \<Rightarrow> nat \<Rightarrow> pystr option" where
  "dollar_tag sql i =
     (case drop i sql of
        [] \<Rightarrow> None
      | c # cs \<Rightarrow>
          let body = (case cs of [] \<Rightarrow> [] | d # ds \<Rightarrow> if ident_start d then takeWhile ident_part cs else [])
          in if c = 36 \<and> char_at cs (length body) = Some 36 then Some ([36] @ body @ [36]) else None)"

text \<open>\<open>_NUMBER_RE.match(sql, i)\<close>: the end of the match; \<open>None\<close> when the pattern does not match.\<close>

definition number_end :: "pystr \<Rightarrow> nat \<Rightarrow> nat option" where
  "number_end sql i =
     (case drop i sql of
        c # cs \<Rightarrow>
          if is_ascii_digit c then Some (i + 1 + length (takeWhile (\<lambda>d. ident_part d \<or> d = 46) cs)) else None
      | [] \<Rightarrow> None)"

text \<open>\<open>_WORD_RE.match(sql, i)\<close>: the matched word, with \<open>\w\<close> and \<open>\d\<close> over Unicode text.\<close>

definition word_char :: "py_runtime \<Rightarrow> nat \<Rightarrow> bool" where
  "word_char rt c \<longleftrightarrow> rt_isalnum rt c \<or> c = 95"

definition word_match :: "py_runtime \<Rightarrow> pystr \<Rightarrow> nat \<Rightarrow> pystr option" where
  "word_match rt sql i =
     (case drop i sql of
        c # cs \<Rightarrow>
          if word_char rt c \<and> \<not> rt_isdecimal rt c
          then Some (c # takeWhile (\<lambda>d. word_char rt d \<or> d = 36) cs) else None
      | [] \<Rightarrow> None)"

text \<open>
  \<open>escape_string\<close> of the source: the character before the quote is \<open>e\<close> or \<open>E\<close> and is not the end of a
  longer identifier.  At the start of the script the source's \<open>prev\<close> is the empty string, which Python
  finds in \<open>"eE"\<close>.
\<close>

definition escape_string :: "py_runtime \<Rightarrow> pystr \<Rightarrow> nat \<Rightarrow> bool" where
  "escape_string rt sql i \<longleftrightarrow>
     (i = 0 \<or> sql ! (i - 1) = 101 \<or> sql ! (i - 1) = 69) \<and>
     \<not> (1 < i \<and> (rt_isalnum rt (sql ! (i - 2)) \<or> sql ! (i - 2) = 95))"

record scan_state =
  sc_statements :: "(pystr \<times> pystr list) list"
  sc_words :: "pystr list"
  sc_has_content :: bool
  sc_start :: nat

definition flush :: "pystr \<Rightarrow> nat \<Rightarrow> scan_state \<Rightarrow> scan_state" where
  "flush sql e st =
     (let txt = py_strip (take (e - sc_start st) (drop (sc_start st) sql))
      in st\<lparr>sc_statements := (if sc_has_content st \<and> txt \<noteq> []
                            then sc_statements st @ [(txt, sc_words st)] else sc_statements st),
            sc_words := [], sc_has_content := False\<rparr>)"

text \<open>
  One iteration of the main loop at index \<open>i\<close>: the next index and state.  \<open>AttributeError\<close> is what
  \<open>_NUMBER_RE.match(sql, i).end()\<close> raises when \<open>str.isdigit\<close> holds but the ASCII pattern does not match.
\<close>

definition scan_step :: "py_runtime \<Rightarrow> pystr \<Rightarrow> nat \<Rightarrow> scan_state \<Rightarrow> pyexn + nat \<times> scan_state" where
  "scan_step rt sql i st =
     (let n = length sql; ch = sql ! i; nxt = char_at sql (i + 1);
          plain = Inr (i + 1, st\<lparr>sc_words := sc_words st @ (if ch = 40 \<or> ch = 41 then [[ch]] else []),
                              sc_has_content := (sc_has_content st \<or> \<not> is_space ch)\<rparr>)
      in if ch = 45 \<and> nxt = Some 45 then
           Inr (case find_from [10] sql i of None \<Rightarrow> n | Some newline \<Rightarrow> newline + 1, st)
         else if ch = 47 \<and> nxt = Some 42 then Inr (skip_block_comment sql (i + 2) 1, st)
         else if ch = 39 then
           Inr (skip_quoted sql i 39 (escape_string rt sql i), st\<lparr>sc_has_content := True\<rparr>)
         else if ch = 34 then Inr (skip_quoted sql i 34 False, st\<lparr>sc_has_content := True\<rparr>)
         else (case (if ch = 36 then dollar_tag sql i else None) of
           Some tag \<Rightarrow>
             Inr (case find_from tag sql (i + length tag) of None \<Rightarrow> n | Some e \<Rightarrow> e + length tag,
                  st\<lparr>sc_has_content := True\<rparr>)
         | None \<Rightarrow>
             if ch = 59 then Inr (i + 1, (flush sql i st)\<lparr>sc_start := i + 1\<rparr>)
             else if rt_isdigit rt ch then
               (case number_end sql i of
                  None \<Rightarrow> Inl AttributeError
                | Some e \<Rightarrow> Inr (e, st\<lparr>sc_has_content := True\<rparr>))
             else (case (if rt_isalpha rt ch \<or> ch = 95 then word_match rt sql i else None) of
               Some w \<Rightarrow>
                 Inr (i + length w, st\<lparr>sc_words := sc_words st @ [rt_upper rt w], sc_has_content := True\<rparr>)
             | None \<Rightarrow> plain)))"

section \<open>Every iteration advances\<close>

lemma skip_quoted_from_bounds: "i \<le> length sql \<Longrightarrow> i \<le> skip_quoted_from sql i q b \<and> skip_quoted_from sql i q b \<le> length sql"
proof (induction sql i q b rule: skip_quoted_from.induct)
  case (1 sql i q b)
  have big: "skip_quoted_from sql (i + 2) q b = length sql" if "length sql < i + 2"
    using that by (subst skip_quoted_from.simps) simp
  show ?case
  proof (cases "i + 2 \<le> length sql")
    case True
    with 1 show ?thesis by (subst (1 2) skip_quoted_from.simps) (auto dest: Suc_leD)
  next
    case False
    with 1 big show ?thesis by (subst (1 2) skip_quoted_from.simps) auto
  qed
qed

lemma skip_block_comment_ge: "i \<le> skip_block_comment sql i depth"
proof (induction sql i depth rule: skip_block_comment.induct)
  case (1 sql i depth)
  then show ?case by (subst skip_block_comment.simps) (auto dest: Suc_leD)
qed

lemma find_from_ge: "find_from needle sql i = Some j \<Longrightarrow> i \<le> j"
proof (induction needle sql i rule: find_from.induct)
  case (1 needle sql i)
  then show ?case
    by (subst (asm) (2) find_from.simps) (auto split: if_splits)
qed

lemma number_end_gt: "number_end sql i = Some e \<Longrightarrow> i < e"
  by (auto simp: number_end_def split: list.splits if_splits)

lemma word_match_length: "word_match rt sql i = Some w \<Longrightarrow> 0 < length w"
  by (auto simp: word_match_def split: list.splits if_splits)

lemma dollar_tag_length: "dollar_tag sql i = Some tag \<Longrightarrow> 2 \<le> length tag"
  by (auto simp: dollar_tag_def Let_def split: list.splits if_splits)

lemma scan_step_advances:
  assumes "i < length sql" "scan_step rt sql i st = Inr (j, st')" shows "i < j"
proof -
  have q: "i < skip_quoted sql i q b" for q b
    using skip_quoted_from_bounds[of "i + 1" sql q b] assms(1) by (simp add: skip_quoted_def)
  have c: "i < skip_block_comment sql (i + 2) 1"
    using skip_block_comment_ge[of "i + 2" sql 1] by simp
  have f: "i < (case find_from [10] sql i of None \<Rightarrow> length sql | Some newline \<Rightarrow> newline + 1)"
    using assms(1) find_from_ge[of "[10]" sql i] by (auto split: option.splits dest: le_imp_less_Suc)
  have d: "i < (case find_from tag sql (i + length tag) of None \<Rightarrow> length sql | Some e \<Rightarrow> e + length tag)"
    if "dollar_tag sql i = Some tag" for tag
    using assms(1) dollar_tag_length[OF that] find_from_ge[of tag sql "i + length tag"]
    by (fastforce split: option.splits)
  show ?thesis
    using assms(2) q c f d number_end_gt[of sql i] word_match_length[of rt sql i]
    unfolding scan_step_def Let_def
    by (auto split: if_splits option.splits)
qed

function scan_loop :: "py_runtime \<Rightarrow> pystr \<Rightarrow> nat \<Rightarrow> scan_state \<Rightarrow> pyexn + scan_state" where
  "scan_loop rt sql i st =
     (if i < length sql then
        (case scan_step rt sql i st of
           Inl e \<Rightarrow> Inl e
         | Inr (j, st') \<Rightarrow> scan_loop rt sql j st')
      else Inr (flush sql (length sql) st))"
  by pat_completeness auto
termination
proof (relation "measure (\<lambda>(rt, sql, i, st). length sql - i)", simp, goal_cases)
  case (1 rt sql i st r j st')
  then have "i < j" by (metis scan_step_advances)
  with 1(1) show ?case by simp
qed

declare scan_loop.simps [simp del]

definition split_statements :: "py_runtime \<Rightarrow> pystr \<Rightarrow> pyexn + (pystr \<times> pystr list) list" where
  "split_statements rt sql =
     bindE (scan_loop rt sql 0 \<lparr>sc_statements = [], sc_words = [], sc_has_content = False, sc_start = 0\<rparr>)
       (\<lambda>st. Inr (sc_statements st))"

section \<open>Classification\<close>

datatype stmt_kind = Read | Modify | Delete | Schema | Maintenance | Forbidden | Other

record sql_statement =
  st_index :: nat
  st_sql :: pystr
  st_words :: "pystr list"
  st_command :: pystr
  st_kind :: stmt_kind
  st_warning :: "pystr option"
  st_forbidden_reason :: "pystr option"

definition mutating :: "sql_statement \<Rightarrow> bool" where
  "mutating s \<longleftrightarrow> st_kind s \<in> {Modify, Delete, Schema, Maintenance}"

definition READ_COMMANDS :: "pystr list" where
  "READ_COMMANDS = map lit [''SELECT'', ''VALUES'', ''TABLE'', ''SHOW'']"

definition MODIFY_COMMANDS :: "pystr list" where
  "MODIFY_COMMANDS = map lit [''INSERT'', ''UPDATE'', ''MERGE'', ''UPSERT'']"

definition DELETE_COMMANDS :: "pystr list" where
  "DELETE_COMMANDS = map lit [''DELETE'', ''TRUNCATE'', ''DROP'']"

definition SCHEMA_COMMANDS :: "pystr list" where
  "SCHEMA_COMMANDS = map lit [''CREATE'', ''ALTER'', ''COMMENT'', ''GRANT'', ''REVOKE'', ''SECURITY'',
     ''IMPORT'', ''REASSIGN'']"

definition MAINTENANCE_COMMANDS :: "pystr list" where
  "MAINTENANCE_COMMANDS = map lit [''VACUUM'', ''ANALYZE'', ''ANALYSE'', ''CLUSTER'', ''REINDEX'',
     ''REFRESH'', ''CHECKPOINT'']"

definition TRANSACTION_COMMANDS :: "pystr list" where
  "TRANSACTION_COMMANDS = map lit [''BEGIN'', ''START'', ''COMMIT'', ''END'', ''ROLLBACK'', ''ABORT'',
     ''SAVEPOINT'', ''RELEASE'']"

definition CREATE_MODIFIERS :: "pystr list" where
  "CREATE_MODIFIERS = map lit [''OR'', ''REPLACE'', ''UNIQUE'', ''TEMP'', ''TEMPORARY'', ''UNLOGGED'',
     ''GLOBAL'', ''LOCAL'', ''TRUSTED'', ''PROCEDURAL'', ''DEFAULT'', ''CONSTRAINT'', ''RECURSIVE'']"

definition TWO_WORD_OBJECTS :: "pystr list" where
  "TWO_WORD_OBJECTS = map lit [''MATERIALIZED'', ''FOREIGN'', ''EVENT'', ''TEXT'', ''USER'', ''ACCESS'', ''OPERATOR'']"

abbreviation open_paren :: pystr where "open_paren \<equiv> [40]"
abbreviation close_paren :: pystr where "close_paren \<equiv> [41]"

fun top_level_from :: "nat \<Rightarrow> pystr list \<Rightarrow> pystr list" where
  "top_level_from depth [] = []"
| "top_level_from depth (w # ws) =
     (if w = open_paren then top_level_from (depth + 1) ws
      else if w = close_paren then top_level_from (depth - 1) ws
      else if depth = 0 then w # top_level_from depth ws
      else top_level_from depth ws)"

definition top_level_words :: "pystr list \<Rightarrow> pystr list" where
  "top_level_words ws = top_level_from 0 ws"

text \<open>\<open>w in "()"\<close> on strings.\<close>

definition in_parens :: "pystr \<Rightarrow> bool" where
  "in_parens w \<longleftrightarrow> w \<in> {[], open_paren, close_paren, [40, 41]}"

definition object_command :: "pystr \<Rightarrow> pystr list \<Rightarrow> pystr" where
  "object_command verb rest =
     (case dropWhile (\<lambda>w. w \<in> set CREATE_MODIFIERS) rest of
        [] \<Rightarrow> verb
      | w # ws \<Rightarrow>
          if in_parens w then verb
          else let label = verb @ [32] @ w
               in (case ws of
                     v # _ \<Rightarrow> if w \<in> set TWO_WORD_OBJECTS \<and> \<not> in_parens v then label @ [32] @ v else label
                   | [] \<Rightarrow> label))"

record classification =
  cl_command :: pystr
  cl_kind :: stmt_kind
  cl_warning :: "pystr option"
  cl_forbidden_reason :: "pystr option"

definition classified :: "pystr \<Rightarrow> stmt_kind \<Rightarrow> classification" where
  "classified command kind =
     \<lparr>cl_command = command, cl_kind = kind, cl_warning = None, cl_forbidden_reason = None\<rparr>"

definition is_analyze :: "pystr \<Rightarrow> bool" where
  "is_analyze w \<longleftrightarrow> w = lit ''ANALYZE'' \<or> w = lit ''ANALYSE''"

text \<open>The option scan of \<open>EXPLAIN\<close>: whether it executes the explained statement, and that statement's words.\<close>

definition explain_options :: "pystr list \<Rightarrow> bool \<times> pystr list" where
  "explain_options rest =
     (if take 1 rest = [open_paren]
      then let opts = takeWhile (\<lambda>w. w \<noteq> close_paren) rest
           in (list_ex is_analyze opts, drop (length opts + 1) rest)
      else let opts = takeWhile (\<lambda>w. is_analyze w \<or> w = lit ''VERBOSE'') rest
           in (list_ex is_analyze opts, drop (length opts) rest))"

function classify :: "pystr list \<Rightarrow> classification" where
  "classify ws =
     (case dropWhile (\<lambda>w. w = open_paren) ws of
        [] \<Rightarrow> classified (lit ''UNKNOWN'') Other
      | first # rest \<Rightarrow>
          let top = top_level_words (first # rest)
          in if first \<in> set TRANSACTION_COMMANDS \<or>
                (first = lit ''PREPARE'' \<and> take 1 rest = [lit ''TRANSACTION'']) then
               (classified first Forbidden)\<lparr>cl_forbidden_reason := Some (first @ lit ('' is not allowed: the console already runs the whole script '' @
                  ''in a single transaction (committed on success, rolled back on error).''))\<rparr>
             else if first = lit ''SET'' \<and>
                (take 1 rest = [lit ''TRANSACTION''] \<or>
                 take 2 rest = [lit ''SESSION'', lit ''CHARACTERISTICS''] \<or>
                 list_ex (\<lambda>w. w = lit ''TRANSACTION_READ_ONLY'' \<or> w = lit ''DEFAULT_TRANSACTION_READ_ONLY'') rest) then
               (classified (lit ''SET TRANSACTION'') Forbidden)\<lparr>cl_forbidden_reason := Some (lit
                  ''Changing the transaction mode is not allowed in the SQL console.'')\<rparr>
             else if first = lit ''COPY'' then
               (classified (lit ''COPY'') Forbidden)\<lparr>cl_forbidden_reason := Some (lit
                  (''COPY is not supported in the SQL console. Use INSERT ... SELECT or '' @ ''SELECT instead.''))\<rparr>
             else if first = lit ''EXPLAIN'' then
               (let (analyze, inner_words) = explain_options rest
                in if analyze then
                     (let inner = classify inner_words
                      in \<lparr>cl_command = py_strip (lit ''EXPLAIN ANALYZE '' @ cl_command inner),
                          cl_kind = (if cl_kind inner = Other then Read else cl_kind inner),
                          cl_warning = cl_warning inner, cl_forbidden_reason = cl_forbidden_reason inner\<rparr>)
                   else classified (lit ''EXPLAIN'') Read)
             else if first = lit ''WITH'' then
               (if lit ''DELETE'' \<in> set (first # rest) then classified (lit ''WITH ... DELETE'') Delete
                else if list_ex (\<lambda>w. w \<in> set (first # rest)) (map lit [''INSERT'', ''UPDATE'', ''MERGE''])
                then classified (lit ''WITH ... MODIFY'') Modify
                else classified (lit ''SELECT'') Read)
             else if first \<in> set READ_COMMANDS then
               (if first = lit ''SELECT'' \<and> lit ''INTO'' \<in> set top
                then (classified (lit ''SELECT INTO'') Schema)\<lparr>cl_warning := Some (lit ''SELECT INTO creates a new table.'')\<rparr>
                else classified first Read)
             else if first \<in> set MODIFY_COMMANDS then
               (classified first Modify)\<lparr>cl_warning :=
                  (if first = lit ''UPDATE'' \<and> lit ''WHERE'' \<notin> set top
                   then Some (lit ''UPDATE without a WHERE clause modifies every row of the table.'') else None)\<rparr>
             else if first \<in> set DELETE_COMMANDS then
               (if first = lit ''DROP'' then
                  let command = object_command (lit ''DROP'') rest
                  in (classified command Delete)\<lparr>cl_warning := Some (command @
                        lit '' permanently removes the object and all its data.'' @
                        (if lit ''CASCADE'' \<in> set top then lit '' CASCADE also drops every dependent object.'' else []))\<rparr>
                else (classified first Delete)\<lparr>cl_warning :=
                  (if first = lit ''TRUNCATE'' then Some (lit ''TRUNCATE removes every row of the table(s).'')
                   else if lit ''WHERE'' \<notin> set top
                   then Some (lit ''DELETE without a WHERE clause removes every row of the table.'') else None)\<rparr>)
             else if first \<in> set SCHEMA_COMMANDS then
               (let command = (if first = lit ''CREATE'' \<or> first = lit ''ALTER'' then object_command first rest else first)
                in (classified command Schema)\<lparr>cl_warning :=
                     (if first = lit ''ALTER'' \<and> lit ''DROP'' \<in> set top
                      then Some (lit ''This '' @ command @ lit '' drops a column, constraint or other part of the object.'')
                      else None)\<rparr>)
             else if first \<in> set MAINTENANCE_COMMANDS then classified first Maintenance
             else classified first Other)"
  by pat_completeness auto
termination
proof (relation "measure length", simp, goal_cases)
  case (1 ws first rest top opts analyze inner_words)
  have "length (first # rest) \<le> length ws" using 1(1) by (metis length_dropWhile_le)
  moreover have "length inner_words \<le> length rest"
    using 1 by (auto simp: explain_options_def Let_def split: if_splits)
  ultimately show ?case by simp
qed

declare classify.simps [simp del]

definition statement_of :: "nat \<Rightarrow> pystr \<times> pystr list \<Rightarrow> sql_statement" where
  "statement_of index tw =
     (let c = classify (snd tw)
      in \<lparr>st_index = index, st_sql = fst tw, st_words = snd tw, st_command = cl_command c,
          st_kind = cl_kind c, st_warning = cl_warning c, st_forbidden_reason = cl_forbidden_reason c\<rparr>)"

definition analyze_script :: "py_runtime \<Rightarrow> pystr \<Rightarrow> pyexn + sql_statement list" where
  "analyze_script rt sql =
     bindE (split_statements rt sql) (\<lambda>parts.
     Inr (map (\<lambda>(index, tw). statement_of index tw) (enumerate 0 parts)))"

section \<open>Quoted literals\<close>

text \<open>A standard SQL string literal: quotes of the body doubled.\<close>

definition double_quotes :: "pystr \<Rightarrow> pystr" where
  "double_quotes body = concat (map (\<lambda>c. if c = 39 then [39, 39] else [c]) body)"

definition sql_quote :: "pystr \<Rightarrow> pystr" where
  "sql_quote body = [39] @ double_quotes body @ [39]"

lemma double_quotes_Cons: "double_quotes (c # cs) = (if c = 39 then [39, 39] else [c]) @ double_quotes cs"
  by (simp add: double_quotes_def)

lemma skip_quoted_literal:
  assumes "rest = [] \<or> hd rest \<noteq> 39"
  shows "skip_quoted_from (p @ double_quotes body @ [39] @ rest) (length p) 39 False =
    length p + length (double_quotes body) + 1"
proof (induction body arbitrary: p)
  case Nil
  then show ?case using assms
    by (subst skip_quoted_from.simps) (cases rest, auto simp: double_quotes_def nth_append)
next
  case (Cons c cs)
  show ?case
  proof (cases "c = 39")
    case True
    then have "skip_quoted_from (p @ double_quotes (c # cs) @ [39] @ rest) (length p) 39 False =
        skip_quoted_from ((p @ [39, 39]) @ double_quotes cs @ [39] @ rest) (length (p @ [39, 39])) 39 False"
      by (subst skip_quoted_from.simps) (simp add: double_quotes_Cons nth_append)
    also have "\<dots> = length (p @ [39, 39]) + length (double_quotes cs) + 1" by (rule Cons.IH)
    finally show ?thesis using True by (simp add: double_quotes_Cons)
  next
    case False
    then have "skip_quoted_from (p @ double_quotes (c # cs) @ [39] @ rest) (length p) 39 False =
        skip_quoted_from ((p @ [c]) @ double_quotes cs @ [39] @ rest) (length (p @ [c])) 39 False"
      by (subst skip_quoted_from.simps) (simp add: double_quotes_Cons nth_append)
    also have "\<dots> = length (p @ [c]) + length (double_quotes cs) + 1" by (rule Cons.IH)
    finally show ?thesis using False by (simp add: double_quotes_Cons)
  qed
qed

lemma scan_step_literal:
  assumes "rest = [] \<or> hd rest \<noteq> 39"
    and "\<not> escape_string rt (p @ sql_quote body @ rest) (length p)"
  shows "scan_step rt (p @ sql_quote body @ rest) (length p) st =
    Inr (length (p @ sql_quote body), st\<lparr>sc_has_content := True\<rparr>)"
proof -
  let ?sql = "p @ sql_quote body @ rest"
  have "?sql = (p @ [39]) @ double_quotes body @ [39] @ rest" by (simp add: sql_quote_def)
  then have "skip_quoted ?sql (length p) 39 False = length (p @ sql_quote body)"
    using skip_quoted_literal[OF assms(1), of "p @ [39]" body] by (simp add: skip_quoted_def sql_quote_def)
  moreover have "?sql ! length p = 39" by (simp add: sql_quote_def nth_append)
  ultimately show ?thesis using assms(2) by (simp add: scan_step_def Let_def)
qed

section \<open>Properties of splitting\<close>

text \<open>
  a quoted literal is opaque.  Whatever text it holds, including semicolons, comment markers and
  keywords, the script \<open>SELECT '...'\<close> is one statement whose only keyword is \<open>SELECT\<close>, so it is
  classified as a read.
\<close>

theorem literal_opaque:
  assumes "ascii_runtime rt"
  shows "split_statements rt (lit ''SELECT '' @ sql_quote body) =
      Inr [(lit ''SELECT '' @ sql_quote body, [lit ''SELECT''])]"
proof -
  let ?p = "lit ''SELECT ''"
  let ?sql = "?p @ sql_quote body"
  let ?st = "\<lparr>sc_statements = [], sc_words = [], sc_has_content = False, sc_start = 0\<rparr>"
  let ?st1 = "?st\<lparr>sc_words := [lit ''SELECT''], sc_has_content := True\<rparr>"
  have p: "?p = [83, 69, 76, 69, 67, 84, 32]" by (simp add: lit_def)
  have an: "rt_isalnum rt c = (ascii_alpha c \<or> is_ascii_digit c)" "rt_isalpha rt c = ascii_alpha c"
    "rt_isdecimal rt c = is_ascii_digit c" "rt_isdigit rt c = is_ascii_digit c" if "c < 128" for c
    using assms that by (auto simp: ascii_runtime_def)
  have up: "rt_upper rt [83, 69, 76, 69, 67, 84] = lit ''SELECT''"
    using assms by (simp add: ascii_runtime_def ascii_upper_def lit_def)
  have w: "word_match rt ?sql 0 = Some [83, 69, 76, 69, 67, 84]"
    by (simp add: p word_match_def word_char_def an ascii_alpha_def is_ascii_digit_def)
  have s1: "scan_step rt ?sql 0 ?st = Inr (6, ?st1)"
    using w up by (simp add: scan_step_def Let_def p an ascii_alpha_def is_ascii_digit_def)
  have s2: "scan_step rt ?sql 6 ?st1 = Inr (7, ?st1)"
    by (simp add: scan_step_def Let_def p an ascii_alpha_def is_ascii_digit_def is_space_def)
  have "\<not> escape_string rt (?p @ sql_quote body @ []) (length ?p)"
    by (simp add: escape_string_def p)
  from scan_step_literal[of "[]", OF _ this]
  have "scan_step rt ?sql (length ?p) ?st1 = Inr (length ?sql, ?st1)" by simp
  moreover have "length ?p = 7" by simp
  ultimately have s3: "scan_step rt ?sql 7 ?st1 = Inr (length ?sql, ?st1)" by (simp only:)
  have strip: "py_strip ?sql = ?sql"
    by (simp add: py_strip_def p is_space_def sql_quote_def)
  have "scan_loop rt ?sql 0 ?st = Inr (flush ?sql (length ?sql) ?st1)"
    using s1 s2 s3 by (subst scan_loop.simps, simp add: p sql_quote_def, subst scan_loop.simps,
        simp add: p sql_quote_def, subst scan_loop.simps, simp add: p sql_quote_def,
        subst scan_loop.simps, simp add: p sql_quote_def)
  then show ?thesis using strip by (simp add: split_statements_def flush_def Let_def)
qed

theorem literal_opaque_witness:
  "split_statements sample_rt (lit ''SELECT '' @ sql_quote (lit ''x; DROP TABLE users; --'')) =
     Inr [(lit ''SELECT '' @ sql_quote (lit ''x; DROP TABLE users; --''), [lit ''SELECT''])]"
  by (rule literal_opaque[OF ascii_runtime_sample])

text \<open>
  the scanner raises on a digit outside ASCII.  \<open>str.isdigit\<close> holds for characters such as the
  superscript two, which \<open>_NUMBER_RE\<close> does not match, so the \<open>.end()\<close> of a missing match raises
  \<open>AttributeError\<close> instead of splitting the script.
\<close>

theorem unicode_digit_crashes:
  assumes "ascii_runtime rt" and "rt_isdigit rt 178"
  shows "split_statements rt (lit ''SELECT '' @ [178]) = Inl AttributeError"
proof -
  let ?sql = "[83, 69, 76, 69, 67, 84, 32, 178] :: pystr"
  let ?st = "\<lparr>sc_statements = [], sc_words = [], sc_has_content = False, sc_start = 0\<rparr>"
  have p: "lit ''SELECT '' @ [178] = ?sql" by (simp add: lit_def)
  have an: "rt_isalnum rt c = (ascii_alpha c \<or> is_ascii_digit c)" "rt_isalpha rt c = ascii_alpha c"
    "rt_isdecimal rt c = is_ascii_digit c" "rt_isdigit rt c = is_ascii_digit c" if "c < 128" for c
    using assms that by (auto simp: ascii_runtime_def)
  have w: "word_match rt ?sql 0 = Some [83, 69, 76, 69, 67, 84]"
    by (simp add: word_match_def word_char_def an ascii_alpha_def is_ascii_digit_def)
  have s: "\<exists>st'. scan_step rt ?sql 0 ?st = Inr (6, st')" "\<exists>st'. scan_step rt ?sql 6 st = Inr (7, st')"
      "scan_step rt ?sql 7 st = Inl AttributeError" for st
    using w assms(2) by (simp_all add: scan_step_def Let_def an ascii_alpha_def is_ascii_digit_def
        char_at_def number_end_def)
  then obtain st1 st2 where "scan_step rt ?sql 0 ?st = Inr (6, st1)" "scan_step rt ?sql 6 st1 = Inr (7, st2)"
    by meson
  with s(3) have "scan_loop rt ?sql 0 ?st = Inl AttributeError"
    by (subst scan_loop.simps, simp, subst scan_loop.simps, simp, subst scan_loop.simps, simp)
  then show ?thesis by (simp add: split_statements_def p)
qed

theorem unicode_digit_crashes_witness:
  "split_statements sample_rt (lit ''SELECT '' @ [178]) = Inl AttributeError"
  by (rule unicode_digit_crashes[OF ascii_runtime_sample]) (simp add: sample_rt_def)

section \<open>A line comment\<close>

text \<open>
  \<open>masked x\<close> is a comment line \<open>--x\<close> over a line \<open>SELECT*/\<close>.  The scanner ends the comment at the line feed
  only, so it reads the one word \<open>SELECT\<close>, whatever \<open>x\<close> is.
\<close>

definition masked :: "pystr \<Rightarrow> pystr" where
  "masked x = lit ''--'' @ x @ [10] @ lit ''SELECT*/''"

lemma find_newline: "10 \<notin> set x \<Longrightarrow> find_from [10] (p @ x @ 10 # r) (length p) = Some (length p + length x)"
proof (induction x arbitrary: p)
  case Nil
  show ?case by (subst find_from.simps) simp
next
  case (Cons c x)
  from Cons.IH[of "p @ [c]"] Cons.prems show ?case by (subst find_from.simps) simp
qed

lemma scan_loop_step:
  "scan_step rt sql i st = Inr (j, st') \<Longrightarrow> i < length sql \<Longrightarrow> scan_loop rt sql i st = scan_loop rt sql j st'"
  by (simp add: scan_loop.simps[of rt sql i])

lemma scan_step_comment:
  assumes "10 \<notin> set x"
  shows "scan_step rt (a @ 45 # 45 # x @ 10 # b) (length a) st = Inr (length a + length x + 3, st)"
  using find_newline[of "45 # 45 # x" a b] assms by (simp add: scan_step_def Let_def nth_append char_at_def)

lemma scan_step_select:
  assumes "ascii_runtime rt"
  shows "scan_step rt (a @ lit ''SELECT*/'' @ b) (length a) st =
    Inr (length a + 6, st\<lparr>sc_words := sc_words st @ [lit ''SELECT''], sc_has_content := True\<rparr>)"
proof -
  have an: "rt_isalnum rt c = (ascii_alpha c \<or> is_ascii_digit c)" "rt_isalpha rt c = ascii_alpha c"
    "rt_isdecimal rt c = is_ascii_digit c" "rt_isdigit rt c = is_ascii_digit c" if "c < 128" for c
    using assms that by (auto simp: ascii_runtime_def)
  have w: "word_match rt (a @ lit ''SELECT*/'' @ b) (length a) = Some [83, 69, 76, 69, 67, 84]"
    by (simp add: lit_def word_match_def word_char_def an ascii_alpha_def is_ascii_digit_def)
  have up: "rt_upper rt [83, 69, 76, 69, 67, 84] = lit ''SELECT''"
    using assms by (simp add: ascii_runtime_def ascii_upper_def lit_def)
  have c: "(a @ lit ''SELECT*/'' @ b) ! length a = 83" by (simp add: lit_def nth_append)
  show ?thesis unfolding scan_step_def Let_def c w by (simp add: an ascii_alpha_def is_ascii_digit_def up)
qed

lemma scan_step_punct:
  assumes "ascii_runtime rt" "c = 42 \<or> c = 47 \<and> (b = [] \<or> hd b \<noteq> 42)"
  shows "scan_step rt (a @ c # b) (length a) st = Inr (length a + 1, st\<lparr>sc_has_content := True\<rparr>)"
proof -
  have an: "\<not> rt_isalpha rt c" "\<not> rt_isdigit rt c" "\<not> is_space c"
    using assms by (auto simp: ascii_runtime_def ascii_alpha_def is_ascii_digit_def is_space_def)
  have c: "(a @ c # b) ! length a = c" by simp
  have n: "c = 47 \<Longrightarrow> char_at (a @ c # b) (length a + 1) \<noteq> Some 42"
    using assms(2) by (cases b) (auto simp: char_at_def nth_append)
  from assms(2) consider "c = 42" | "c = 47" by blast
  then show ?thesis
  proof cases
    assume "c = 42"
    with an show ?thesis unfolding scan_step_def Let_def c by simp
  next
    assume "c = 47"
    with an n show ?thesis unfolding scan_step_def Let_def c by simp
  qed
qed

lemma scan_step_semicolon:
  "scan_step rt (a @ 59 # b) (length a) st =
     Inr (length a + 1, (flush (a @ 59 # b) (length a) st)\<lparr>sc_start := length a + 1\<rparr>)"
  by (simp add: scan_step_def Let_def nth_append)

lemma scan_masked:
  assumes rt: "ascii_runtime rt" and x: "10 \<notin> set x" and b: "b = [] \<or> hd b \<noteq> 42"
  shows "scan_loop rt (a @ masked x @ b) (length a) st = scan_loop rt (a @ masked x @ b) (length a + length (masked x))
    (st\<lparr>sc_words := sc_words st @ [lit ''SELECT''], sc_has_content := True\<rparr>)"
proof -
  let ?sql = "a @ masked x @ b" and ?a1 = "a @ lit ''--'' @ x @ [10]"
  let ?st = "st\<lparr>sc_words := sc_words st @ [lit ''SELECT''], sc_has_content := True\<rparr>"
  have l: "lit ''--'' = [45, 45]" "lit ''SELECT*/'' = lit ''SELECT'' @ [42, 47]" "length (lit ''SELECT'') = 6"
    by (simp_all add: lit_def)
  have sql: "?sql = a @ 45 # 45 # x @ 10 # (lit ''SELECT*/'' @ b)" "?sql = ?a1 @ lit ''SELECT*/'' @ b"
    "?sql = (?a1 @ lit ''SELECT'') @ 42 # 47 # b" "?sql = (?a1 @ lit ''SELECT'' @ [42]) @ 47 # b"
    by (simp_all add: masked_def l)
  have "scan_step rt ?sql (length a) st = Inr (length ?a1, st)"
    unfolding sql(1) using scan_step_comment[OF x] by (simp add: l)
  moreover have "scan_step rt ?sql (length ?a1) st = Inr (length (?a1 @ lit ''SELECT''), ?st)"
    unfolding sql(2) using scan_step_select[OF rt, of ?a1 b st] by (simp add: l(3))
  moreover have "scan_step rt ?sql (length (?a1 @ lit ''SELECT'')) ?st = Inr (length (?a1 @ lit ''SELECT'' @ [42]), ?st)"
    unfolding sql(3) using scan_step_punct[OF rt, of 42 "47 # b" "?a1 @ lit ''SELECT''" ?st] by (simp add: l(3))
  moreover have "scan_step rt ?sql (length (?a1 @ lit ''SELECT'' @ [42])) ?st = Inr (length a + length (masked x), ?st)"
    unfolding sql(4) using scan_step_punct[OF rt, of 47 b "?a1 @ lit ''SELECT'' @ [42]" ?st] b by (simp add: masked_def l)
  ultimately show ?thesis by (simp add: scan_loop_step masked_def l)
qed

text \<open>Two masked lines are two statements of one word each.\<close>

lemma strip_masked: "py_strip (masked x) = masked x"
  by (simp add: py_strip_def masked_def lit_def is_space_def)

lemma split_masked:
  assumes rt: "ascii_runtime rt" and x: "10 \<notin> set x" and y: "10 \<notin> set y"
  shows "split_statements rt (masked x @ [59] @ masked y) =
    Inr [(masked x, [lit ''SELECT'']), (masked y, [lit ''SELECT''])]"
proof -
  let ?sql = "masked x @ 59 # masked y" and ?n = "length (masked x)"
  let ?st = "\<lparr>sc_statements = [], sc_words = [], sc_has_content = False, sc_start = 0\<rparr>"
  let ?st1 = "\<lparr>sc_statements = [(masked x, [lit ''SELECT''])], sc_words = [], sc_has_content = False, sc_start = ?n + 1\<rparr>"
  have ne: "masked z \<noteq> []" for z by (simp add: masked_def)
  have "scan_loop rt ?sql 0 ?st = scan_loop rt ?sql ?n (?st\<lparr>sc_words := [lit ''SELECT''], sc_has_content := True\<rparr>)"
    using scan_masked[OF rt x, of "59 # masked y" "[]" ?st] by simp
  also have "\<dots> = scan_loop rt ?sql (?n + 1) ?st1"
    by (subst scan_loop_step[OF scan_step_semicolon]) (simp_all add: flush_def strip_masked ne)
  also have "\<dots> = Inr (flush ?sql (length ?sql) (?st1\<lparr>sc_words := [lit ''SELECT''], sc_has_content := True\<rparr>))"
    using scan_masked[OF rt y, of "[]" "masked x @ [59]" ?st1] by (simp add: scan_loop.simps[of rt _ "Suc (_ + _)"])
  finally show ?thesis by (simp add: split_statements_def flush_def strip_masked ne)
qed

section \<open>Nested EXPLAIN ANALYZE\<close>

text \<open>\<open>explains ws inner\<close>: \<open>ws\<close> is any number of executing \<open>EXPLAIN\<close> layers around the statement \<open>inner\<close>.\<close>

inductive explains :: "pystr list \<Rightarrow> pystr list \<Rightarrow> bool" where
  explains_refl: "explains ws ws"
| explains_step: "explain_options rest = (True, ws) \<Longrightarrow> explains ws inner \<Longrightarrow>
     explains (lit ''EXPLAIN'' # rest) inner"

lemma classify_explain:
  assumes "explain_options rest = (True, ws)"
  shows "cl_kind (classify (lit ''EXPLAIN'' # rest)) =
    (if cl_kind (classify ws) = Other then Read else cl_kind (classify ws))"
proof -
  have "lit ''EXPLAIN'' \<noteq> open_paren" by (auto dest: arg_cong[of _ _ length])
  with assms show ?thesis
    by (subst classify.simps) (simp add: TRANSACTION_COMMANDS_def Let_def)
qed

text \<open>
  \<open>EXPLAIN ANALYZE\<close> hides nothing.  Any nesting of executing \<open>EXPLAIN\<close> layers, in either option
  syntax, has the kind of the statement it executes whenever that statement is mutating or forbidden.
\<close>

theorem explain_analyze_transparent:
  assumes "explains ws inner" "cl_kind (classify inner) \<notin> {Read, Other}"
  shows "cl_kind (classify ws) = cl_kind (classify inner)"
  using assms by (induction rule: explains.induct) (auto simp: classify_explain)

theorem explain_analyze_transparent_witness:
  "cl_kind (classify (map lit [''EXPLAIN'', ''('', ''VERBOSE'', ''ANALYZE'', '')'', ''EXPLAIN'', ''ANALYZE'', ''DROP'', ''TABLE'', ''T'']))
     = Delete"
proof -
  have 1: "explain_options (map lit [''('', ''VERBOSE'', ''ANALYZE'', '')'', ''EXPLAIN'', ''ANALYZE'', ''DROP'', ''TABLE'', ''T'']) =
      (True, map lit [''EXPLAIN'', ''ANALYZE'', ''DROP'', ''TABLE'', ''T''])" by code_simp
  have 2: "explain_options (map lit [''ANALYZE'', ''DROP'', ''TABLE'', ''T'']) = (True, map lit [''DROP'', ''TABLE'', ''T''])"
    by code_simp
  have "explains (map lit [''EXPLAIN'', ''('', ''VERBOSE'', ''ANALYZE'', '')'', ''EXPLAIN'', ''ANALYZE'', ''DROP'', ''TABLE'', ''T''])
      (map lit [''DROP'', ''TABLE'', ''T''])"
    using explains_step[OF 1] explains_step[OF 2 explains_refl] by simp
  moreover have "cl_kind (classify (map lit [''DROP'', ''TABLE'', ''T''])) = Delete" by code_simp
  ultimately show ?thesis using explain_analyze_transparent by fastforce
qed

end
