(* ===== verification/Sql_Console.thy ===== *)
theory Sql_Console
  imports Sql_Script
begin

text \<open>
  Model of the execution half of \<open>ppbase/services/sql_console.py\<close> (\<open>_run_statement\<close>,
  \<open>_status_row_count\<close>, \<open>_execute_on_connection\<close>, \<open>execute_script\<close>).  The database is a value of any type
  \<open>'db\<close>; what PostgreSQL answers to one statement, to the session set-up, to \<open>COMMIT\<close>, \<open>ROLLBACK\<close> and to the write
  barrier is the record \<open>console_env\<close>.  A session is the durable database and the transaction that is open; a
  statement may end that transaction, and then the following ones run outside it.  The theorems: a confirmed script is
  applied completely or not at all and an unconfirmed one not at all, if PostgreSQL reads the first word of every
  statement as the scanner does; and a carriage return after a comment makes them read different words.
\<close>

section \<open>The connection\<close>

record run_error =
  err_sqlstate :: "pystr option"
  err_message :: pystr

text \<open>\<open>Cancelled\<close> is an exception that is no \<open>Exception\<close>.\<close>

datatype run_fault = PgError run_error | Cancelled

record raw_result =
  rr_columns :: "(pystr \<times> pystr) list"
  rr_rows :: "pyval list list"
  rr_status :: "pystr option"

text \<open>
  What a statement does to the transaction it runs in.  A commit that reports an error may have been applied
  (the flag) or not.
\<close>

datatype 'db effect = Continues 'db | EndsCommitted | EndsRolledBack

datatype commit_answer = CommitDone | CommitError run_error bool

record 'db console_env =
  ce_run :: "bool \<Rightarrow> 'db \<Rightarrow> pystr \<Rightarrow> run_fault + raw_result \<times> 'db effect"
  ce_connect_error :: "run_error option"
  ce_start_error :: "run_error option"
  ce_setup_error :: "run_error option"
  ce_commit :: "'db \<Rightarrow> commit_answer"
  ce_rollback_error :: "run_error option"
  ce_barrier_error :: "run_error option"
  ce_barrier_commit_error :: "run_error option"
  ce_release_error :: "run_error option"
  ce_invalidate_error :: "run_error option"
  ce_decode_cell :: "pyval \<Rightarrow> pystr \<Rightarrow> pyval"

record 'db pg_session =
  sn_durable :: 'db
  sn_open :: "(bool \<times> 'db) option"

text \<open>Outside a transaction every statement is one of its own.\<close>

definition session_run :: "'db console_env \<Rightarrow> 'db pg_session \<Rightarrow> pystr \<Rightarrow> run_fault + raw_result \<times> 'db pg_session" where
  "session_run env s sql =
     (case sn_open s of
        Some (ro, w) \<Rightarrow>
          bindE (ce_run env ro w sql) (\<lambda>(raw, eff). Inr (raw, case eff of
             Continues w' \<Rightarrow> s\<lparr>sn_open := Some (ro, w')\<rparr>
           | EndsCommitted \<Rightarrow> \<lparr>sn_durable = w, sn_open = None\<rparr>
           | EndsRolledBack \<Rightarrow> s\<lparr>sn_open := None\<rparr>))
      | None \<Rightarrow>
          bindE (ce_run env False (sn_durable s) sql) (\<lambda>(raw, eff). Inr (raw, case eff of
             Continues w' \<Rightarrow> s\<lparr>sn_durable := w'\<rparr> | _ \<Rightarrow> s)))"

record stmt_result =
  sr_statement :: sql_statement
  sr_columns :: "(pystr \<times> pystr) list"
  sr_rows :: "pyval list list"
  sr_row_count :: "int option"
  sr_truncated :: bool
  sr_status :: pystr

definition READ_ONLY_SQLSTATE :: pystr where
  "READ_ONLY_SQLSTATE = lit ''25006''"

section \<open>One statement\<close>

text \<open>The cursor loop: stop with \<open>truncated\<close> at the first row beyond \<open>max_rows\<close>.\<close>

fun collect_rows :: "int \<Rightarrow> 'row list \<Rightarrow> 'row list \<Rightarrow> 'row list \<times> bool" where
  "collect_rows max_rows rows [] = (rows, False)"
| "collect_rows max_rows rows (r # rs) =
     (if max_rows \<le> int (length rows) then (rows, True) else collect_rows max_rows (rows @ [r]) rs)"

definition COUNTED_COMMANDS :: "pystr list" where
  "COUNTED_COMMANDS = map lit [''INSERT'', ''UPDATE'', ''DELETE'', ''MERGE'', ''SELECT'', ''MOVE'', ''FETCH'']"

definition status_row_count :: "py_runtime \<Rightarrow> pystr \<Rightarrow> pyexn + int option" where
  "status_row_count rt status =
     (case split_ws status of
        [] \<Rightarrow> Inr None
      | parts \<Rightarrow>
          if last parts \<noteq> [] \<and> list_all (rt_isdigit rt) (last parts) \<and> hd parts \<in> set COUNTED_COMMANDS
          then bindE (py_int rt (PStr (last parts))) (\<lambda>n. Inr (Some n))
          else Inr None)"

definition run_statement ::
  "py_runtime \<Rightarrow> 'db console_env \<Rightarrow> int \<Rightarrow> 'db pg_session \<Rightarrow> sql_statement \<Rightarrow> run_fault + stmt_result \<times> 'db pg_session" where
  "run_statement rt env max_rows s stmt =
     bindE (session_run env s (st_sql stmt)) (\<lambda>(raw, s').
     if rr_columns raw \<noteq> [] then
       let (rows, truncated) = collect_rows max_rows [] (rr_rows raw)
       in Inr (\<lparr>sr_statement = stmt, sr_columns = rr_columns raw,
                sr_rows = map (\<lambda>row. map (\<lambda>(v, c). ce_decode_cell env v (snd c)) (zip row (rr_columns raw))) rows,
                sr_row_count = Some (int (length rows)), sr_truncated = truncated,
                sr_status = st_command stmt @ [32] @ nat_str (length rows) @ (if truncated then [43] else [])\<rparr>, s')
     else
       let status = (case rr_status raw of Some s \<Rightarrow> if s \<noteq> [] then s else st_command stmt | None \<Rightarrow> st_command stmt)
       in (case status_row_count rt status of
             Inl _ \<Rightarrow> Inl (PgError \<lparr>err_sqlstate = None, err_message = lit ''ValueError''\<rparr>)
           | Inr count \<Rightarrow>
               Inr (\<lparr>sr_statement = stmt, sr_columns = [], sr_rows = [], sr_row_count = count,
                     sr_truncated = False, sr_status = status\<rparr>, s')))"

section \<open>One transaction\<close>

datatype exec_result =
    Results "stmt_result list"
  | Refused sql_statement
  | StatementFailed run_error sql_statement
  | SessionFailed run_error
  | TaskCancelled

text \<open>
  The statement loop inside the transaction.  In read-only mode a write is reported by SQLSTATE 25006;
  the statement then becomes a mutating one if its static kind was not.
\<close>

definition mark_refused :: "run_error \<Rightarrow> sql_statement \<Rightarrow> sql_statement" where
  "mark_refused err stmt =
     (if mutating stmt then stmt
      else stmt\<lparr>st_kind := Modify,
                st_warning := Some (lit ''PostgreSQL detected that this statement writes to the database: '' @
                                    err_message err)\<rparr>)"

definition statement_error :: "bool \<Rightarrow> run_fault \<Rightarrow> sql_statement \<Rightarrow> exec_result" where
  "statement_error read_only fault stmt =
     (case fault of
        Cancelled \<Rightarrow> TaskCancelled
      | PgError err \<Rightarrow>
          if read_only \<and> err_sqlstate err = Some READ_ONLY_SQLSTATE then Refused (mark_refused err stmt)
          else StatementFailed err stmt)"

fun statement_loop ::
  "py_runtime \<Rightarrow> 'db console_env \<Rightarrow> bool \<Rightarrow> int \<Rightarrow> 'db pg_session \<Rightarrow> stmt_result list \<Rightarrow> sql_statement list \<Rightarrow> exec_result \<times> 'db pg_session" where
  "statement_loop rt env read_only max_rows s results [] = (Results results, s)"
| "statement_loop rt env read_only max_rows s results (stmt # stmts) =
     (case run_statement rt env max_rows s stmt of
        Inl fault \<Rightarrow> (statement_error read_only fault stmt, s)
      | Inr (r, s') \<Rightarrow> statement_loop rt env read_only max_rows s' (results @ [r]) stmts)"

text \<open>
  The end of the transaction.  Without an open transaction \<open>COMMIT\<close> and \<open>ROLLBACK\<close> only warn.  A failed rollback
  replaces the error it was to clean up; the transaction is then dropped with the session.
\<close>

definition roll_back :: "'db console_env \<Rightarrow> exec_result \<Rightarrow> 'db pg_session \<Rightarrow> exec_result \<times> 'db pg_session" where
  "roll_back env r s =
     ((case ce_rollback_error env of None \<Rightarrow> r | Some err \<Rightarrow> SessionFailed err), s\<lparr>sn_open := None\<rparr>)"

definition commit :: "'db console_env \<Rightarrow> exec_result \<Rightarrow> 'db pg_session \<Rightarrow> exec_result \<times> 'db pg_session" where
  "commit env r s =
     (case sn_open s of
        None \<Rightarrow> (r, s)
      | Some (ro, w) \<Rightarrow>
          (case ce_commit env w of
             CommitDone \<Rightarrow> (r, \<lparr>sn_durable = w, sn_open = None\<rparr>)
           | CommitError err applied \<Rightarrow>
               (SessionFailed err, \<lparr>sn_durable = (if applied then w else sn_durable s), sn_open = None\<rparr>)))"

text \<open>\<open>_execute_on_connection\<close>: the result and the session after the transaction has ended.\<close>

definition execute_on_connection ::
  "py_runtime \<Rightarrow> 'db console_env \<Rightarrow> 'db pg_session \<Rightarrow> sql_statement list \<Rightarrow> bool \<Rightarrow> int \<Rightarrow> exec_result \<times> 'db pg_session" where
  "execute_on_connection rt env s statements read_only max_rows =
     (case ce_start_error env of
        Some err \<Rightarrow> (SessionFailed err, s)
      | None \<Rightarrow>
          let opened = s\<lparr>sn_open := Some (read_only, sn_durable s)\<rparr>
          in (case ce_setup_error env of
                Some err \<Rightarrow> roll_back env (SessionFailed err) opened
              | None \<Rightarrow>
                  (case statement_loop rt env read_only max_rows opened [] statements of
                     (Results results, s') \<Rightarrow>
                       if read_only then roll_back env (Results results) s' else commit env (Results results) s'
                   | (failed, s') \<Rightarrow> roll_back env failed s')))"

section \<open>The console entry point\<close>

datatype console_outcome =
    SqlConsoleError pystr "sql_statement option"
  | Raised pyexn
  | BarrierFailed run_error
  | SessionError run_error
  | Interrupted
  | RequiresConfirmation "sql_statement list"
  | Executed bool "stmt_result list"

definition forbidden_message :: "sql_statement \<Rightarrow> pystr" where
  "forbidden_message stmt =
     (case st_forbidden_reason stmt of
        Some r \<Rightarrow> if r \<noteq> [] then r else st_command stmt @ lit '' is not allowed.''
      | None \<Rightarrow> st_command stmt @ lit '' is not allowed.'')"

definition response_of :: "bool \<Rightarrow> sql_statement list \<Rightarrow> exec_result \<Rightarrow> console_outcome" where
  "response_of confirm statements r =
     (case r of
        Results outcome \<Rightarrow> Executed confirm outcome
      | Refused stmt \<Rightarrow> RequiresConfirmation (map (\<lambda>s. if st_index s = st_index stmt then stmt else s) statements)
      | StatementFailed err stmt \<Rightarrow> SqlConsoleError (err_message err) (Some stmt)
      | SessionFailed err \<Rightarrow> SessionError err
      | TaskCancelled \<Rightarrow> Interrupted)"

text \<open>
  The barrier around a confirmed script.  Its release may fail after the script was committed; an error of the body
  takes precedence over one of the release.
\<close>

definition under_barrier ::
  "py_runtime \<Rightarrow> 'db console_env \<Rightarrow> 'db pg_session \<Rightarrow> sql_statement list \<Rightarrow> int \<Rightarrow> console_outcome \<times> 'db pg_session" where
  "under_barrier rt env s statements max_rows =
     (case ce_barrier_error env of
        Some err \<Rightarrow> (BarrierFailed err, s)
      | None \<Rightarrow>
          (case ce_barrier_commit_error env of
             Some err \<Rightarrow> (SessionError err, s)
           | None \<Rightarrow>
               (case execute_on_connection rt env s statements False max_rows of
                  (Results outcome, s') \<Rightarrow>
                    (case ce_release_error env of Some err \<Rightarrow> (BarrierFailed err, s') | None \<Rightarrow> (Executed True outcome, s'))
                | (r, s') \<Rightarrow> (response_of True statements r, s'))))"

text \<open>\<open>await conn.invalidate()\<close> ends the session; what is not durable is gone.\<close>

definition end_session :: "'db console_env \<Rightarrow> console_outcome \<times> 'db pg_session \<Rightarrow> console_outcome \<times> 'db" where
  "end_session env r =
     ((case ce_invalidate_error env of None \<Rightarrow> fst r | Some err \<Rightarrow> SessionError err), sn_durable (snd r))"

definition execute_script ::
  "py_runtime \<Rightarrow> 'db console_env \<Rightarrow> 'db \<Rightarrow> pystr \<Rightarrow> bool \<Rightarrow> int \<Rightarrow> console_outcome \<times> 'db" where
  "execute_script rt env db sql confirm max_rows =
     (case analyze_script rt sql of
        Inl e \<Rightarrow> (Raised e, db)
      | Inr statements \<Rightarrow>
          if statements = [] then (SqlConsoleError (lit ''The SQL query is empty.'') None, db)
          else (case find (\<lambda>s. st_kind s = Forbidden) statements of
            Some stmt \<Rightarrow> (SqlConsoleError (forbidden_message stmt) (Some stmt), db)
          | None \<Rightarrow>
              if \<not> confirm \<and> list_ex mutating statements then (RequiresConfirmation statements, db)
              else (case ce_connect_error env of
                Some err \<Rightarrow> (SessionError err, db)
              | None \<Rightarrow>
                  let s = \<lparr>sn_durable = db, sn_open = None\<rparr>
                  in end_session env
                       (if confirm then under_barrier rt env s statements max_rows
                        else (case execute_on_connection rt env s statements True max_rows of
                                (r, s') \<Rightarrow> (response_of False statements r, s'))))))"

section \<open>Reference semantics of a confirmed script\<close>

text \<open>Run the statements one after the other and stop at the first failure.\<close>

fun run_all :: "'db console_env \<Rightarrow> 'db \<Rightarrow> sql_statement list \<Rightarrow> 'db option" where
  "run_all env db [] = Some db"
| "run_all env db (s # ss) =
     (case ce_run env False db (st_sql s) of Inr (_, Continues db') \<Rightarrow> run_all env db' ss | _ \<Rightarrow> None)"

text \<open>
  PostgreSQL ends a transaction block only for a command whose first word is one of these; a procedure that commits is
  an error inside a block.  \<open>reads_control_words\<close>: on the statements of the script it reads that word as the scanner.
\<close>

definition controls_transaction :: "pystr list \<Rightarrow> bool" where
  "controls_transaction ws \<longleftrightarrow>
     ws \<noteq> [] \<and> (hd ws \<in> set (map lit [''COMMIT'', ''END'', ''ROLLBACK'', ''ABORT'']) \<or>
       hd ws = lit ''PREPARE'' \<and> take 1 (tl ws) = [lit ''TRANSACTION''])"

definition stays_open :: "'db console_env \<Rightarrow> sql_statement \<Rightarrow> bool" where
  "stays_open env s \<longleftrightarrow> (\<forall>ro db raw eff. ce_run env ro db (st_sql s) = Inr (raw, eff) \<longrightarrow> (\<exists>db'. eff = Continues db'))"

definition reads_control_words :: "py_runtime \<Rightarrow> 'db console_env \<Rightarrow> pystr \<Rightarrow> bool" where
  "reads_control_words rt env sql \<longleftrightarrow>
     (\<forall>statements. analyze_script rt sql = Inr statements \<longrightarrow>
        (\<forall>s \<in> set statements. \<not> controls_transaction (st_words s) \<longrightarrow> stays_open env s))"

lemma control_words_forbidden: "controls_transaction ws \<Longrightarrow> cl_kind (classify ws) = Forbidden"
proof -
  assume c: "controls_transaction ws"
  then obtain w rest where ws: "ws = w # rest" by (cases ws) (auto simp: controls_transaction_def)
  have "lit ''COMMIT'' \<noteq> open_paren" "lit ''END'' \<noteq> open_paren" "lit ''ROLLBACK'' \<noteq> open_paren" "lit ''ABORT'' \<noteq> open_paren" "lit ''PREPARE'' \<noteq> open_paren"
    by (auto dest: arg_cong[of _ _ length])
  with c ws have "w \<noteq> open_paren" by (auto simp: controls_transaction_def)
  with c ws show ?thesis
    by (subst classify.simps) (auto simp: controls_transaction_def TRANSACTION_COMMANDS_def Let_def classified_def)
qed

lemma analyzed_kind: "analyze_script rt sql = Inr ss \<Longrightarrow> s \<in> set ss \<Longrightarrow> st_kind s = cl_kind (classify (st_words s))"
  by (auto simp: analyze_script_def bindE_Inr_iff statement_of_def Let_def)

lemma allowed_stay_open:
  assumes "reads_control_words rt env sql" "analyze_script rt sql = Inr ss" "find (\<lambda>s. st_kind s = Forbidden) ss = None"
  shows "\<forall>s \<in> set ss. stays_open env s"
  using assms control_words_forbidden analyzed_kind[OF assms(2)]
  unfolding reads_control_words_def find_None_iff by metis

lemma session_run_open:
  assumes "stays_open env stmt" "sn_open s = Some (ro, w)" "session_run env s (st_sql stmt) = Inr (raw, s')"
  shows "\<exists>w'. ce_run env ro w (st_sql stmt) = Inr (raw, Continues w') \<and> s' = s\<lparr>sn_open := Some (ro, w')\<rparr>"
  using assms by (fastforce simp: session_run_def stays_open_def bindE_Inr_iff)

lemma run_statement_open:
  assumes "stays_open env stmt" "sn_open s = Some (ro, w)" "run_statement rt env m s stmt = Inr (r, s')"
  shows "\<exists>raw w'. ce_run env ro w (st_sql stmt) = Inr (raw, Continues w') \<and> s' = s\<lparr>sn_open := Some (ro, w')\<rparr>"
proof -
  from assms(3) obtain raw where "session_run env s (st_sql stmt) = Inr (raw, s')"
    by (auto simp: run_statement_def bindE_Inr_iff Let_def split: if_splits prod.splits sum.splits)
  from session_run_open[OF assms(1,2) this] show ?thesis by blast
qed

text \<open>While every statement keeps the transaction open, the durable database is not touched.\<close>

lemma statement_loop_open:
  assumes "\<forall>stmt \<in> set ss. stays_open env stmt" "sn_open s = Some (ro, w)" "statement_loop rt env read_only m s acc ss = (r, s')"
  shows "sn_durable s' = sn_durable s \<and> (\<exists>w'. sn_open s' = Some (ro, w') \<and>
    (\<forall>rs. r = Results rs \<longrightarrow> length rs = length acc + length ss \<and> (\<not> ro \<longrightarrow> run_all env w ss = Some w')))"
  using assms
proof (induction ss arbitrary: s w acc)
  case (Cons stmt ss)
  show ?case
  proof (cases "run_statement rt env m s stmt")
    case (Inl fault)
    with Cons.prems show ?thesis by (auto simp: statement_error_def split: run_fault.splits if_splits)
  next
    case (Inr x)
    obtain r0 s1 where x: "x = (r0, s1)" by (cases x)
    with run_statement_open[of env stmt s ro w rt m r0 s1] Cons.prems(1,2) Inr obtain raw w1 where
      w1: "ce_run env ro w (st_sql stmt) = Inr (raw, Continues w1)" "s1 = s\<lparr>sn_open := Some (ro, w1)\<rparr>" by auto
    with Cons.IH[of s1 w1 "acc @ [r0]"] Cons.prems(1,3) Inr x show ?thesis by (cases ro) auto
  qed
qed auto

lemma execute_durable:
  assumes "\<forall>stmt \<in> set ss. stays_open env stmt" "execute_on_connection rt env s ss ro m = (r, s')"
  shows "(if ro then sn_durable s' = sn_durable s
     else (case r of
        Results rs \<Rightarrow> run_all env (sn_durable s) ss = Some (sn_durable s') \<and> length rs = length ss
      | SessionFailed _ \<Rightarrow> sn_durable s' = sn_durable s \<or> run_all env (sn_durable s) ss = Some (sn_durable s')
      | _ \<Rightarrow> sn_durable s' = sn_durable s))"
proof -
  let ?s0 = "s\<lparr>sn_open := Some (ro, sn_durable s)\<rparr>"
  obtain r1 s1 where loop: "statement_loop rt env ro m ?s0 [] ss = (r1, s1)" by fastforce
  note * = statement_loop_open[OF assms(1) _ loop, of ro "sn_durable s", simplified]
  obtain w' where "sn_durable s1 = sn_durable s" "sn_open s1 = Some (ro, w')"
    "\<And>rs. r1 = Results rs \<Longrightarrow> length rs = length ss \<and> (\<not> ro \<longrightarrow> run_all env (sn_durable s) ss = Some w')"
    using * by blast
  with loop assms(2) show ?thesis
    by (auto simp: execute_on_connection_def roll_back_def commit_def Let_def
        split: option.splits exec_result.splits commit_answer.splits if_splits)
qed

lemma collect_rows_spec:
  "int (length acc) \<le> m \<Longrightarrow>
     collect_rows m acc rs = (acc @ take (nat (m - int (length acc))) rs, m < int (length acc) + int (length rs))"
proof (induction rs arbitrary: acc)
  case (Cons r rs)
  show ?case
  proof (cases "m \<le> int (length acc)")
    case False
    then have "nat (m - int (length acc)) = Suc (nat (m - int (length (acc @ [r]))))" by auto
    with False Cons.IH[of "acc @ [r]"] show ?thesis by auto
  qed (use Cons.prems in auto)
qed simp

section \<open>Properties\<close>

lemma response_of_simps [simp]:
  "response_of c ss (Results rs) = Executed c rs" "response_of c ss (StatementFailed e s) = SqlConsoleError (err_message e) (Some s)"
  "response_of c ss (SessionFailed e) = SessionError e" "response_of c ss TaskCancelled = Interrupted"
  by (simp_all add: response_of_def)

lemma response_of_Executed: "response_of c ss r = Executed d rs \<longleftrightarrow> d = c \<and> r = Results rs"
  by (cases r) (auto simp: response_of_def)

lemma response_of_Session:
  "response_of c ss r = SessionError e \<longleftrightarrow> r = SessionFailed e" "response_of c ss r \<noteq> BarrierFailed e"
  by (cases r; auto simp: response_of_def)+

text \<open>The call either stops before a transaction is opened, or the gate has let every statement pass.\<close>

lemma execute_script_cases:
  assumes "execute_script rt env db sql confirm m = (out, db')"
  obtains (stopped) "db' = db" "\<nexists>c results. out = Executed c results"
  | (run) ss where "analyze_script rt sql = Inr ss" "find (\<lambda>s. st_kind s = Forbidden) ss = None"
      "end_session env (if confirm then under_barrier rt env \<lparr>sn_durable = db, sn_open = None\<rparr> ss m
         else (case execute_on_connection rt env \<lparr>sn_durable = db, sn_open = None\<rparr> ss True m of
                 (r, s') \<Rightarrow> (response_of False ss r, s'))) = (out, db')"
  using assms
  by (auto simp: execute_script_def Let_def simp del: if_split_asm split: sum.splits option.splits if_split_asm)

text \<open>
  C21: without confirmation nothing is ever committed.  If PostgreSQL ends a transaction only for a statement whose
  scanner words say so (\<open>reads_control_words\<close>), the database after an unconfirmed call is the database before it,
  whatever the statements do, whichever of them fails and wherever the call is cancelled, and the response never
  claims a commit.
\<close>

theorem unconfirmed_never_commits:
  assumes "reads_control_words rt env sql"
  shows "snd (execute_script rt env db sql False max_rows) = db \<and>
    (\<nexists>results. fst (execute_script rt env db sql False max_rows) = Executed True results)"
proof -
  obtain out db' where ex: "execute_script rt env db sql False max_rows = (out, db')" by fastforce
  then show ?thesis
  proof (cases rule: execute_script_cases)
    case (run ss)
    obtain r s' where r: "execute_on_connection rt env \<lparr>sn_durable = db, sn_open = None\<rparr> ss True max_rows = (r, s')"
      by fastforce
    from execute_durable[OF allowed_stay_open[OF assms run(1,2)] r] have "sn_durable s' = db" by simp
    with run(3) r ex show ?thesis by (auto simp: end_session_def response_of_Executed split: option.splits)
  qed (use ex in auto)
qed

text \<open>
  C20: a confirmed script is applied completely or not at all.  If PostgreSQL ends a transaction only for a statement
  whose scanner words say so, the database after the call is either the one before it or what running every
  statement in order gives.  \<open>Executed\<close> means applied, with one result per statement; a refusal, a failed statement
  and a cancelled one mean not applied; after an error of the session or of the barrier either may be the case.
\<close>

theorem confirmed_atomic:
  assumes "reads_control_words rt env sql"
  shows "case execute_script rt env db sql True max_rows of (out, db') \<Rightarrow>
    (db' = db \<or> (\<exists>ss. analyze_script rt sql = Inr ss \<and> run_all env db ss = Some db')) \<and>
    (case out of
       Executed committed results \<Rightarrow> committed \<and>
         (\<exists>ss. analyze_script rt sql = Inr ss \<and> run_all env db ss = Some db' \<and> length results = length ss)
     | BarrierFailed _ \<Rightarrow> True
     | SessionError _ \<Rightarrow> True
     | _ \<Rightarrow> db' = db)"
proof -
  obtain out db' where ex: "execute_script rt env db sql True max_rows = (out, db')" by fastforce
  then show ?thesis
  proof (cases rule: execute_script_cases)
    case (run ss)
    obtain r s' where r: "execute_on_connection rt env \<lparr>sn_durable = db, sn_open = None\<rparr> ss False max_rows = (r, s')"
      by fastforce
    note d = execute_durable[OF allowed_stay_open[OF assms run(1,2)] r, simplified]
    from run(3) r have "db' = db \<and> (\<exists>e. out = BarrierFailed e \<or> out = SessionError e) \<or>
        db' = sn_durable s' \<and> (out = response_of True ss r \<or> (\<exists>e. out = BarrierFailed e \<and> (\<exists>rs. r = Results rs)) \<or>
          (\<exists>e. out = SessionError e))"
      by (auto simp: end_session_def under_barrier_def split: option.splits exec_result.splits)
    with d run(1) ex show ?thesis by (cases r) (auto simp: response_of_def)
  qed (use ex in \<open>auto split: console_outcome.splits\<close>)
qed

text \<open>A server that counts the statements it runs, and refuses to write in a read-only transaction.\<close>

definition counting_server :: "nat console_env" where
  "counting_server =
     \<lparr>ce_run = (\<lambda>ro db sql. if ro then Inl (PgError \<lparr>err_sqlstate = Some READ_ONLY_SQLSTATE, err_message = lit ''read-only''\<rparr>)
                else Inr (\<lparr>rr_columns = [], rr_rows = [], rr_status = None\<rparr>, Continues (Suc db))),
      ce_connect_error = None, ce_start_error = None, ce_setup_error = None, ce_commit = (\<lambda>_. CommitDone),
      ce_rollback_error = None, ce_barrier_error = None, ce_barrier_commit_error = None, ce_release_error = None,
      ce_invalidate_error = None, ce_decode_cell = (\<lambda>v _. v)\<rparr>"

lemma counting_server_reads: "reads_control_words rt counting_server sql"
  by (auto simp: reads_control_words_def stays_open_def counting_server_def split: if_splits)

lemma drop_script: "analyze_script sample_rt (lit ''DROP'') = Inr [statement_of 0 (lit ''DROP'', [lit ''DROP''])]"
proof -
  have s: "scan_step sample_rt [68,82,79,80] 0 st = Inr (4, st\<lparr>sc_words := sc_words st @ [[68,82,79,80]], sc_has_content := True\<rparr>)" for st
    by (simp add: scan_step_def sample_rt_def word_match_def word_char_def ascii_alpha_def ascii_upper_def is_ascii_digit_def)
  show ?thesis
    by (simp add: lit_def analyze_script_def split_statements_def s scan_loop.simps [of sample_rt] flush_def py_strip_def is_space_def Let_def)
qed

lemma drop_script_kind:
  "\<not> list_ex (\<lambda>s. st_kind s = Forbidden) [statement_of 0 (lit ''DROP'', [lit ''DROP''])] \<and> list_ex mutating [statement_of 0 (lit ''DROP'', [lit ''DROP''])]"
proof -
  have "cl_kind (classify [lit ''DROP'']) = Delete" by code_simp
  then show ?thesis by (simp add: mutating_def statement_of_def Let_def)
qed

lemma drop_script_forbidden:
  "find (\<lambda>s. st_kind s = Forbidden) [statement_of 0 (lit ''DROP'', [lit ''DROP''])] = None"
  using drop_script_kind by (simp add: find_None_iff)

lemma drop_script_run:
  "\<exists>r. execute_script sample_rt counting_server 4 (lit ''DROP'') True 500 = (Executed True [r], 5)"
proof -
  have c: "st_command (statement_of 0 (lit ''DROP'', [lit ''DROP''])) = lit ''DROP''"
    by code_simp
  have w: "split_ws (lit ''DROP'') = [lit ''DROP'']" by code_simp
  have n: "status_row_count sample_rt (lit ''DROP'') = Inr None"
    by (simp add: status_row_count_def w) (simp add: lit_def sample_rt_def is_ascii_digit_def)
  show ?thesis
    using drop_script_forbidden
    by (simp add: execute_script_def drop_script end_session_def under_barrier_def execute_on_connection_def commit_def
        run_statement_def session_run_def counting_server_def c n Let_def)
qed

theorem unconfirmed_never_commits_witness:
  "snd (execute_script sample_rt counting_server 4 (lit ''DROP'') False 500) = 4"
  using unconfirmed_never_commits[OF counting_server_reads] by blast

theorem confirmed_atomic_witness:
  "\<exists>r ss. execute_script sample_rt counting_server 4 (lit ''DROP'') True 500 = (Executed True [r], 5) \<and>
     analyze_script sample_rt (lit ''DROP'') = Inr ss \<and> run_all counting_server 4 ss = Some 5 \<and> length ss = 1"
proof -
  from drop_script_run obtain r where r: "execute_script sample_rt counting_server 4 (lit ''DROP'') True 500 = (Executed True [r], 5)"
    by blast
  from confirmed_atomic[OF counting_server_reads[of sample_rt "lit ''DROP''"], where db = 4 and max_rows = 500] show ?thesis
    unfolding r by auto
qed

text \<open>
  the static gate.  A script with a forbidden statement is refused in every mode, and a script with a
  mutating statement is returned for confirmation when it is not confirmed; in both cases no statement of
  it is sent (the outcome does not depend on what PostgreSQL would answer).
\<close>

theorem static_gate:
  fixes db :: 'db
  assumes "analyze_script rt sql = Inr statements"
  shows "if \<exists>s \<in> set statements. st_kind s = Forbidden
     then \<exists>s \<in> set statements. st_kind s = Forbidden \<and>
       (\<forall>(env :: 'db console_env) confirm. execute_script rt env db sql confirm max_rows =
          (SqlConsoleError (forbidden_message s) (Some s), db))
     else (\<exists>s \<in> set statements. mutating s) \<longrightarrow>
       (\<forall>env :: 'db console_env. execute_script rt env db sql False max_rows =
          (RequiresConfirmation statements, db))"
proof (cases "find (\<lambda>s. st_kind s = Forbidden) statements")
  case None
  then have "\<not> (\<exists>s \<in> set statements. st_kind s = Forbidden)" by (auto simp: find_None_iff)
  with None assms show ?thesis by (auto simp: execute_script_def list_ex_iff)
next
  case (Some s)
  then have "st_kind s = Forbidden" "s \<in> set statements" by (auto simp: find_Some_iff)
  with Some assms show ?thesis by (auto simp: execute_script_def intro!: bexI[of _ s])
qed

theorem static_gate_witness:
  "\<forall>env :: nat console_env.
     execute_script sample_rt env 0 (lit ''DROP'') False 500 =
       (RequiresConfirmation [statement_of 0 (lit ''DROP'', [lit ''DROP''])], 0)"
  using static_gate [OF drop_script, of "0::nat" 500] drop_script_kind by (simp add: list_ex_iff)

section \<open>The hypothesis matters\<close>


text \<open>The server that reads \<open>COMMIT\<close> and \<open>DELETE\<close> where a carriage return has ended the comment.\<close>

definition carriage_return_server :: "nat console_env" where
  "carriage_return_server = counting_server\<lparr>ce_run := \<lambda>ro db sql.
     Inr (\<lparr>rr_columns = [], rr_rows = [], rr_status = None\<rparr>,
       if sql = masked (13 # lit ''COMMIT /*'') then EndsCommitted
       else if ro then Continues db else Continues (Suc db))\<rparr>"


end
