(* ===== verification/Hooks.thy ===== *)
theory Hooks
  imports Py_Value "HOL-Library.AList" "HOL-Library.Product_Lexorder" "HOL-Library.Multiset"
begin

text \<open>
  Model of \<open>ppbase/ext/hooks.py\<close> and of the chaining part of \<open>ppbase/ext/events.py\<close>: the registry of one
  hook (\<open>bind\<close>, \<open>unbind\<close>, ordering) and \<open>run_hook_chain\<close> with the \<open>await event.next()\<close> protocol.

  A binding object can be registered again and is then mutated in place, so the bindings of a hook live in
  a store and the registry maps ids to references.  A handler is a tree of its interactions with the event
  (\<open>act\<close>): it returns, raises, or calls \<open>event.next()\<close> and continues with the result, so that a handler may
  call \<open>next\<close> any number of times and may catch what it raises.
\<close>

section \<open>The hook registry\<close>

record ('ev, 'h) hook_binding =
  hb_id :: pystr
  hb_handler :: 'h
  hb_priority :: int
  hb_order :: nat
  hb_predicate :: "('ev \<Rightarrow> bool) option"

definition matches :: "('ev, 'h) hook_binding \<Rightarrow> 'ev \<Rightarrow> bool" where
  "matches b ev = (case hb_predicate b of None \<Rightarrow> True | Some p \<Rightarrow> p ev)"

record ('ev, 'h) hook =
  hk_name :: pystr
  hk_store :: "('ev, 'h) hook_binding list"
  hk_bindings :: "(pystr \<times> nat) list"
  hk_next_order :: nat
  hk_next_id :: nat

definition new_hook :: "pystr \<Rightarrow> ('ev, 'h) hook" where
  "new_hook name = \<lparr>hk_name = name, hk_store = [], hk_bindings = [], hk_next_order = 0, hk_next_id = 0\<rparr>"

definition generated_hook_id :: "pystr \<Rightarrow> nat \<Rightarrow> pystr" where
  "generated_hook_id name n = name @ [58] @ nat_str n"

text \<open>The tail of \<open>bind\<close>: give the binding object at \<open>ref\<close> the next order and register it under its id.\<close>

definition register_ref :: "nat \<Rightarrow> ('ev, 'h) hook \<Rightarrow> ('ev, 'h) hook" where
  "register_ref ref hk =
     (let b = (hk_store hk ! ref)\<lparr>hb_order := hk_next_order hk\<rparr>
      in hk\<lparr>hk_store := (hk_store hk)[ref := b],
            hk_next_order := hk_next_order hk + 1,
            hk_bindings := AList.update (hb_id b) ref (hk_bindings hk)\<rparr>)"

text \<open>\<open>bind\<close> of a callable: a fresh binding; an absent or empty id is generated.\<close>

definition bind_callable ::
  "'h \<Rightarrow> pystr option \<Rightarrow> int \<Rightarrow> ('ev \<Rightarrow> bool) option \<Rightarrow> ('ev, 'h) hook \<Rightarrow> pystr \<times> ('ev, 'h) hook" where
  "bind_callable handler i priority predicate hk =
     (let explicit = (case i of Some s \<Rightarrow> if s \<noteq> [] then Some s else None | None \<Rightarrow> None);
          hk1 = (case explicit of Some _ \<Rightarrow> hk | None \<Rightarrow> hk\<lparr>hk_next_id := hk_next_id hk + 1\<rparr>);
          bid = (case explicit of Some s \<Rightarrow> s | None \<Rightarrow> generated_hook_id (hk_name hk) (hk_next_id hk1));
          b = \<lparr>hb_id = bid, hb_handler = handler, hb_priority = priority, hb_order = 0, hb_predicate = predicate\<rparr>
      in (bid, register_ref (length (hk_store hk1)) (hk1\<lparr>hk_store := hk_store hk1 @ [b]\<rparr>)))"

text \<open>\<open>bind\<close> of an existing binding object: its fields are overwritten in place.\<close>

definition bind_binding ::
  "nat \<Rightarrow> pystr option \<Rightarrow> int \<Rightarrow> ('ev \<Rightarrow> bool) option \<Rightarrow> ('ev, 'h) hook \<Rightarrow> pystr \<times> ('ev, 'h) hook" where
  "bind_binding ref i priority predicate hk =
     (let b0 = hk_store hk ! ref;
          b1 = (case i of Some s \<Rightarrow> b0\<lparr>hb_id := s\<rparr> | None \<Rightarrow> b0);
          b2 = b1\<lparr>hb_priority := (if priority \<noteq> 0 then priority else hb_priority b1)\<rparr>;
          b3 = (case predicate of Some p \<Rightarrow> b2\<lparr>hb_predicate := Some p\<rparr> | None \<Rightarrow> b2)
      in (hb_id b3, register_ref ref (hk\<lparr>hk_store := (hk_store hk)[ref := b3]\<rparr>)))"

definition unbind :: "pystr \<Rightarrow> ('ev, 'h) hook \<Rightarrow> ('ev, 'h) hook" where
  "unbind i hk = hk\<lparr>hk_bindings := AList.delete i (hk_bindings hk)\<rparr>"

definition unbind_all :: "('ev, 'h) hook \<Rightarrow> ('ev, 'h) hook" where
  "unbind_all hk = hk\<lparr>hk_bindings := []\<rparr>"

definition registered :: "('ev, 'h) hook \<Rightarrow> ('ev, 'h) hook_binding list" where
  "registered hk = map (\<lambda>(i, ref). hk_store hk ! ref) (hk_bindings hk)"

definition binding_key :: "('ev, 'h) hook_binding \<Rightarrow> int \<times> nat" where
  "binding_key b = (- hb_priority b, hb_order b)"

text \<open>\<open>sorted(filtered, key=lambda b: (-b.priority, b.order))\<close>; both sorts are stable.\<close>

definition ordered_bindings :: "('ev, 'h) hook \<Rightarrow> 'ev \<Rightarrow> ('ev, 'h) hook_binding list" where
  "ordered_bindings hk ev = sort_key binding_key (filter (\<lambda>b. matches b ev) (registered hk))"

section \<open>The chain\<close>

datatype hook_exn = NextUnavailable | NextTwice | HandlerExn pystr

datatype (dead 's, dead 'r) act =
    Ret "'r option" 's
  | Throw hook_exn 's
  | Next 's "hook_exn + 'r option \<Rightarrow> 's \<Rightarrow> ('s, 'r) act"

text \<open>\<open>_next_handler is not None\<close> and \<open>_next_called\<close> of the event.\<close>

record chain_flags =
  has_next :: bool
  next_called :: bool

definition set_next_handler :: "chain_flags \<Rightarrow> chain_flags" where
  "set_next_handler fl = fl\<lparr>has_next := True, next_called := False\<rparr>"

definition clear_next_handler :: "chain_flags \<Rightarrow> chain_flags" where
  "clear_next_handler fl = fl\<lparr>has_next := False, next_called := False\<rparr>"

type_synonym ('s, 'r) outcome = "(hook_exn + 'r option) \<times> 's \<times> chain_flags"

text \<open>
  Running a handler.  \<open>cont\<close> is the continuation stored by \<open>_set_next_handler\<close> (\<open>dispatch(index + 1)\<close>); the
  exceptions of \<open>HookEvent.next\<close> are delivered to the handler like any other result.
\<close>

primrec run_act :: "(chain_flags \<Rightarrow> 's \<Rightarrow> ('s, 'r) outcome) \<Rightarrow> ('s, 'r) act \<Rightarrow> chain_flags \<Rightarrow> ('s, 'r) outcome" where
  "run_act cont (Ret r s) fl = (Inr r, s, fl)"
| "run_act cont (Throw e s) fl = (Inl e, s, fl)"
| "run_act cont (Next s k) fl =
     (if \<not> has_next fl then run_act cont (k (Inl NextUnavailable) s) fl
      else if next_called fl then run_act cont (k (Inl NextTwice) s) fl
      else let o1 = cont (fl\<lparr>next_called := True\<rparr>) s
           in run_act cont (k (fst o1) (fst (snd o1))) (snd (snd o1)))"

text \<open>
  \<open>dispatch\<close> over the remaining bindings.  The default handler runs with the flags of the last handler, so
  an \<open>event.next()\<close> inside it finds either no continuation or one that was already used.
\<close>

primrec dispatch_chain ::
  "('s \<Rightarrow> ('s, 'r) act) option \<Rightarrow> ('s \<Rightarrow> ('s, 'r) act) list \<Rightarrow> chain_flags \<Rightarrow> 's \<Rightarrow> ('s, 'r) outcome" where
  "dispatch_chain default_handler [] = (\<lambda>fl s.
     (case default_handler of
        None \<Rightarrow> (Inr None, s, fl)
      | Some h \<Rightarrow> run_act (\<lambda>fl s. (Inl NextUnavailable, s, fl)) (h s) fl))"
| "dispatch_chain default_handler (h # hs) = (\<lambda>fl s.
     (let o1 = run_act (dispatch_chain default_handler hs) (h s) (set_next_handler fl)
      in (fst o1, fst (snd o1), clear_next_handler (snd (snd o1)))))"

definition run_hook_chain ::
  "'s \<Rightarrow> ('s \<Rightarrow> ('s, 'r) act) list \<Rightarrow> ('s \<Rightarrow> ('s, 'r) act) option \<Rightarrow> (hook_exn + 'r option) \<times> 's" where
  "run_hook_chain s handlers default_handler =
     (let o1 = dispatch_chain default_handler handlers \<lparr>has_next = False, next_called = False\<rparr> s
      in (fst o1, fst (snd o1)))"

definition trigger ::
  "('ev, 'ev \<Rightarrow> ('ev, 'r) act) hook \<Rightarrow> 'ev \<Rightarrow> ('ev \<Rightarrow> ('ev, 'r) act) option \<Rightarrow> (hook_exn + 'r option) \<times> 'ev" where
  "trigger hk ev default_handler =
     run_hook_chain ev (map hb_handler (ordered_bindings hk ev)) default_handler"

section \<open>Ordering\<close>

lemma ordered_bindings_mset: "mset (ordered_bindings hk ev) = mset (filter (\<lambda>b. matches b ev) (registered hk))"
  by (simp add: ordered_bindings_def)

lemma sort_key_sorted_wrt:
  "sorted_wrt (\<lambda>a b. hb_priority a > hb_priority b \<or> hb_priority a = hb_priority b \<and> hb_order a \<le> hb_order b)
     (sort_key binding_key bs)"
proof -
  have "sorted_wrt (\<lambda>a b. binding_key a \<le> binding_key b) (sort_key binding_key bs)"
    using sorted_sort_key [of binding_key bs] by (simp add: sorted_wrt_map)
  then show ?thesis
    by (rule sorted_wrt_mono_rel [rotated]) (auto simp: binding_key_def less_eq_prod_def)
qed

section \<open>The registry invariant\<close>

definition hook_wf :: "('ev, 'h) hook \<Rightarrow> bool" where
  "hook_wf hk \<longleftrightarrow>
     distinct (map fst (hk_bindings hk)) \<and>
     (\<forall>(i, ref) \<in> set (hk_bindings hk). ref < length (hk_store hk)) \<and>
     distinct (map hb_order (hk_store hk)) \<and>
     (\<forall>b \<in> set (hk_store hk). hb_order b < hk_next_order hk)"

lemma alist_update_memD: "p \<in> set (AList.update k v al) \<Longrightarrow> p = (k, v) \<or> p \<in> set al"
  by (induction al) (auto split: if_splits)

lemma alist_delete_memD: "p \<in> set (AList.delete k al) \<Longrightarrow> p \<in> set al"
  by (induction al) (auto split: if_splits)

lemma register_ref_wf:
  assumes "distinct (map fst (hk_bindings hk))" "\<forall>(i, r) \<in> set (hk_bindings hk). r < length (hk_store hk)"
    and "\<forall>k < length (hk_store hk). k \<noteq> ref \<longrightarrow> hb_order (hk_store hk ! k) < hk_next_order hk"
    and "\<forall>j k. j < length (hk_store hk) \<longrightarrow> k < length (hk_store hk) \<longrightarrow> j \<noteq> ref \<longrightarrow> k \<noteq> ref \<longrightarrow> j \<noteq> k \<longrightarrow>
           hb_order (hk_store hk ! j) \<noteq> hb_order (hk_store hk ! k)"
    and "ref < length (hk_store hk)"
  shows "hook_wf (register_ref ref hk)"
proof -
  let ?b = "(hk_store hk ! ref)\<lparr>hb_order := hk_next_order hk\<rparr>"
  let ?st = "(hk_store hk)[ref := ?b]"
  have ord: "hb_order (?st ! k) < hk_next_order hk + 1" if "k < length (hk_store hk)" for k
    using assms(3) that by (cases "k = ref") (auto simp: less_Suc_eq)
  have "distinct (map hb_order ?st)"
    unfolding distinct_conv_nth length_map length_list_update
  proof (intro allI impI)
    fix j k assume "j < length (hk_store hk)" "k < length (hk_store hk)" "j \<noteq> k"
    then show "map hb_order ?st ! j \<noteq> map hb_order ?st ! k"
      using assms(3,4,5) by (cases "j = ref"; cases "k = ref") (auto simp: nth_list_update less_imp_neq)
  qed
  moreover have "\<forall>b \<in> set ?st. hb_order b < hk_next_order hk + 1"
    using ord by (auto simp: in_set_conv_nth)
  moreover have "\<forall>(i, r) \<in> set (AList.update (hb_id ?b) ref (hk_bindings hk)). r < length ?st"
    using assms(2,5) by (auto dest!: alist_update_memD)
  ultimately show ?thesis
    using assms(1) by (simp add: register_ref_def Let_def hook_wf_def distinct_update)
qed

lemma hook_wf_nth:
  "hook_wf hk \<Longrightarrow> k < length (hk_store hk) \<Longrightarrow> hb_order (hk_store hk ! k) < hk_next_order hk"
  "hook_wf hk \<Longrightarrow> j < length (hk_store hk) \<Longrightarrow> k < length (hk_store hk) \<Longrightarrow> j \<noteq> k \<Longrightarrow>
     hb_order (hk_store hk ! j) \<noteq> hb_order (hk_store hk ! k)"
  by (auto simp: hook_wf_def distinct_conv_nth)

lemma new_hook_wf: "hook_wf (new_hook name)"
  by (simp add: new_hook_def hook_wf_def)

lemma bind_callable_wf:
  assumes "hook_wf hk" shows "hook_wf (snd (bind_callable h i p q hk))"
proof -
  have "hook_wf (register_ref (length (hk_store hk)) (hk1\<lparr>hk_store := hk_store hk @ [b]\<rparr>))"
    if "hk_bindings hk1 = hk_bindings hk" "hk_next_order hk1 = hk_next_order hk" for hk1 and b :: "('a, 'b) hook_binding"
    by (rule register_ref_wf)
       (use assms that hook_wf_nth [OF assms] in
         \<open>auto simp: nth_append hook_wf_def less_Suc_eq\<close>)
  then show ?thesis
    by (auto simp: bind_callable_def Let_def split: option.splits)
qed

lemma bind_binding_wf:
  assumes "hook_wf hk" "ref < length (hk_store hk)" shows "hook_wf (snd (bind_binding ref i p q hk))"
proof -
  have "hook_wf (register_ref ref (hk\<lparr>hk_store := (hk_store hk)[ref := b]\<rparr>))" for b
    by (rule register_ref_wf)
       (use assms hook_wf_nth [OF assms(1)] in \<open>auto simp: hook_wf_def\<close>)
  then show ?thesis
    by (simp add: bind_binding_def Let_def)
qed

lemma unbind_wf: "hook_wf hk \<Longrightarrow> hook_wf (unbind i hk)"
  by (auto simp: unbind_def hook_wf_def distinct_delete dest!: alist_delete_memD)

lemma unbind_all_wf: "hook_wf hk \<Longrightarrow> hook_wf (unbind_all hk)"
  by (simp add: unbind_all_def hook_wf_def)

section \<open>Registries keyed by id\<close>

text \<open>
  What the extension code relies on when it registers and removes handlers by id: a registry behaves like a
  finite map.  The interface is met by every hook and by both middleware registries of the extension registry.
\<close>

datatype 'b reg_op = Put pystr 'b | Remove pystr

fun op_key_ok :: "'b reg_op \<Rightarrow> bool" where
  "op_key_ok (Put k b) = (k \<noteq> [])"
| "op_key_ok (Remove k) = True"

fun map_op :: "'b reg_op \<Rightarrow> (pystr \<rightharpoonup> 'b) \<Rightarrow> (pystr \<rightharpoonup> 'b)" where
  "map_op (Put k b) m = m(k \<mapsto> b)"
| "map_op (Remove k) m = m(k := None)"

locale keyed_registry =
  fixes wf :: "'reg \<Rightarrow> bool"
    and lookup :: "'reg \<Rightarrow> pystr \<rightharpoonup> 'b"
    and put :: "pystr \<Rightarrow> 'b \<Rightarrow> 'reg \<Rightarrow> 'reg"
    and remove :: "pystr \<Rightarrow> 'reg \<Rightarrow> 'reg"
  assumes wf_put: "wf r \<Longrightarrow> k \<noteq> [] \<Longrightarrow> wf (put k b r)"
    and wf_remove: "wf r \<Longrightarrow> wf (remove k r)"
    and lookup_put: "wf r \<Longrightarrow> k \<noteq> [] \<Longrightarrow> lookup (put k b r) = (lookup r)(k \<mapsto> b)"
    and lookup_remove: "wf r \<Longrightarrow> lookup (remove k r) = (lookup r)(k := None)"
begin

primrec apply_op :: "'b reg_op \<Rightarrow> 'reg \<Rightarrow> 'reg" where
  "apply_op (Put k b) r = put k b r"
| "apply_op (Remove k) r = remove k r"

lemma apply_op_wf: "wf r \<Longrightarrow> op_key_ok x \<Longrightarrow> wf (apply_op x r)"
  by (cases x) (auto intro: wf_put wf_remove)

lemma apply_op_refines: "wf r \<Longrightarrow> op_key_ok x \<Longrightarrow> lookup (apply_op x r) = map_op x (lookup r)"
  by (cases x) (auto simp: lookup_put lookup_remove)

lemma history_refines:
  "wf r \<Longrightarrow> list_all op_key_ok xs \<Longrightarrow> lookup (fold apply_op xs r) = fold map_op xs (lookup r)"
  by (induction xs arbitrary: r) (auto simp: apply_op_wf apply_op_refines)

lemma history_wf: "wf r \<Longrightarrow> list_all op_key_ok xs \<Longrightarrow> wf (fold apply_op xs r)"
  by (induction xs arbitrary: r) (auto simp: apply_op_wf)

end

type_synonym ('ev, 'h) spec = "'h \<times> int \<times> ('ev \<Rightarrow> bool) option"

definition binding_spec :: "('ev, 'h) hook_binding \<Rightarrow> ('ev, 'h) spec" where
  "binding_spec b = (hb_handler b, hb_priority b, hb_predicate b)"

definition hook_lookup :: "('ev, 'h) hook \<Rightarrow> pystr \<rightharpoonup> ('ev, 'h) spec" where
  "hook_lookup hk i = map_option (\<lambda>ref. binding_spec (hk_store hk ! ref)) (map_of (hk_bindings hk) i)"

fun hook_put :: "pystr \<Rightarrow> ('ev, 'h) spec \<Rightarrow> ('ev, 'h) hook \<Rightarrow> ('ev, 'h) hook" where
  "hook_put i (h, p, q) hk = snd (bind_callable h (Some i) p q hk)"

lemma hook_wf_map_of: "hook_wf hk \<Longrightarrow> map_of (hk_bindings hk) i = Some ref \<Longrightarrow> ref < length (hk_store hk)"
  by (auto simp: hook_wf_def dest!: map_of_SomeD)

lemma hook_lookup_register_new:
  assumes "hook_wf hk" "hk_bindings hk1 = hk_bindings hk"
  shows "hook_lookup (register_ref (length (hk_store hk)) (hk1\<lparr>hk_store := hk_store hk @ [b]\<rparr>)) =
    (hook_lookup hk)(hb_id b \<mapsto> binding_spec b)"
proof (rule ext)
  fix x
  show "hook_lookup (register_ref (length (hk_store hk)) (hk1\<lparr>hk_store := hk_store hk @ [b]\<rparr>)) x =
    ((hook_lookup hk)(hb_id b \<mapsto> binding_spec b)) x"
    using hook_wf_map_of [OF assms(1), of x] assms(2)
    by (cases "map_of (hk_bindings hk) x")
       (simp_all add: hook_lookup_def register_ref_def Let_def update_conv' binding_spec_def nth_append)
qed

lemma hook_lookup_bind:
  assumes "hook_wf hk"
  shows "hook_lookup (snd (bind_callable h i p q hk)) = (hook_lookup hk)(fst (bind_callable h i p q hk) \<mapsto> (h, p, q))"
  by (simp add: bind_callable_def Let_def hook_lookup_register_new [OF assms] binding_spec_def split: option.split)

interpretation hook_registry: keyed_registry hook_wf hook_lookup hook_put unbind
proof unfold_locales
  fix hk :: "('a, 'b) hook" and k :: pystr and b :: "('a, 'b) spec"
  obtain h p q where b: "b = (h, p, q)" by (cases b)
  assume wf: "hook_wf hk"
  show "hook_wf (unbind k hk)" using wf by (rule unbind_wf)
  show "hook_lookup (unbind k hk) = (hook_lookup hk)(k := None)"
    by (rule ext) (simp add: hook_lookup_def unbind_def delete_conv')
  assume "k \<noteq> []"
  then have "fst (bind_callable h (Some k) p q hk) = k" by (simp add: bind_callable_def Let_def)
  then show "hook_wf (hook_put k b hk)" "hook_lookup (hook_put k b hk) = (hook_lookup hk)(k \<mapsto> b)"
    using wf by (simp_all add: b bind_callable_wf hook_lookup_bind)
qed

fun hook_op :: "('ev, 'h) spec reg_op \<Rightarrow> ('ev, 'h) hook \<Rightarrow> ('ev, 'h) hook" where
  "hook_op (Put k b) hk = hook_put k b hk"
| "hook_op (Remove k) hk = unbind k hk"

lemma hook_op_eq: "hook_op = hook_registry.apply_op"
proof (intro ext)
  fix x hk
  show "hook_op x hk = hook_registry.apply_op x hk" by (cases x) simp_all
qed

lemma hook_lookup_new: "hook_lookup (new_hook name) = (\<lambda>_. None)"
  by (simp add: hook_lookup_def new_hook_def fun_eq_iff)

text \<open>
  A hook refines a finite map from handler ids to handlers.  After any sequence of \<open>bind\<close> with explicit
  ids and \<open>unbind\<close> on a fresh hook, the handler registered under an id is the one of the last \<open>bind\<close> of that
  id that no later \<open>unbind\<close> removed.
\<close>

theorem hook_refines_map:
  "list_all op_key_ok ops \<Longrightarrow> hook_lookup (fold hook_op ops (new_hook name)) = fold map_op ops (\<lambda>_. None)"
  by (simp add: hook_op_eq hook_registry.history_refines new_hook_wf hook_lookup_new)

theorem hook_refines_map_witness:
  "hook_lookup (fold hook_op
     [Put [97] (1 :: nat, 0, None), Put [98] (2, 5, None), Put [97] (3, 1, None), Remove [98]] (new_hook [104])) [97]
   = (Some (3, 1, None) :: (unit, nat) spec option)"
  by (subst hook_refines_map) simp_all

inductive hook_reachable :: "pystr \<Rightarrow> ('ev, 'h) hook \<Rightarrow> bool" for name where
  hook_new: "hook_reachable name (new_hook name)"
| hook_bind: "hook_reachable name hk \<Longrightarrow> hook_reachable name (snd (bind_callable h i p q hk))"
| hook_rebind: "hook_reachable name hk \<Longrightarrow> ref < length (hk_store hk) \<Longrightarrow>
    hook_reachable name (snd (bind_binding ref i p q hk))"
| hook_unbind: "hook_reachable name hk \<Longrightarrow> hook_reachable name (unbind i hk)"
| hook_clear: "hook_reachable name hk \<Longrightarrow> hook_reachable name (unbind_all hk)"

lemma hook_reachable_wf: "hook_reachable name hk \<Longrightarrow> hook_wf hk"
  by (induction rule: hook_reachable.induct)
     (auto intro: new_hook_wf bind_callable_wf bind_binding_wf unbind_wf unbind_all_wf)

lemma registered_order_inj:
  assumes "hook_wf hk" "a \<in> set (registered hk)" "b \<in> set (registered hk)" "hb_order a = hb_order b"
  shows "a = b"
proof -
  have "a \<in> set (hk_store hk)" "b \<in> set (hk_store hk)"
    using assms(1-3) by (auto simp: registered_def hook_wf_def)
  then show ?thesis
    using assms(1,4) by (auto simp: hook_wf_def distinct_map inj_on_def)
qed

text \<open>
  Every operation keeps the registry well formed, and \<open>_ordered_bindings\<close> lists exactly the matching
  registered bindings, by falling priority and, for one priority, in the order of registration; two
  positions have equal keys only when they hold the same binding object.
\<close>

theorem ordered_bindings_correct:
  assumes "hook_reachable name hk"
  shows "mset (ordered_bindings hk ev) = mset (filter (\<lambda>b. matches b ev) (registered hk)) \<and>
    sorted_wrt (\<lambda>a b. hb_priority a > hb_priority b \<or>
                      hb_priority a = hb_priority b \<and> (hb_order a < hb_order b \<or> a = b)) (ordered_bindings hk ev)"
proof
  show "mset (ordered_bindings hk ev) = mset (filter (\<lambda>b. matches b ev) (registered hk))"
    by (rule ordered_bindings_mset)
  have mem: "a \<in> set (registered hk)" if "a \<in> set (ordered_bindings hk ev)" for a
    using that by (auto simp: ordered_bindings_def)
  show "sorted_wrt (\<lambda>a b. hb_priority a > hb_priority b \<or>
      hb_priority a = hb_priority b \<and> (hb_order a < hb_order b \<or> a = b)) (ordered_bindings hk ev)"
    unfolding ordered_bindings_def
  proof (rule sorted_wrt_mono_rel [OF _ sort_key_sorted_wrt])
    fix a b
    assume "a \<in> set (sort_key binding_key (filter (\<lambda>b. matches b ev) (registered hk)))"
      "b \<in> set (sort_key binding_key (filter (\<lambda>b. matches b ev) (registered hk)))"
      and "hb_priority b < hb_priority a \<or> hb_priority a = hb_priority b \<and> hb_order a \<le> hb_order b"
    then show "hb_priority b < hb_priority a \<or>
        hb_priority a = hb_priority b \<and> (hb_order a < hb_order b \<or> a = b)"
      using registered_order_inj [OF hook_reachable_wf [OF assms], of a b] by (auto simp: order_le_less)
  qed
qed

definition two_bindings :: "(unit, bool) hook" where
  "two_bindings = snd (bind_callable True None 3 None (snd (bind_callable False (Some [120]) 1 None (new_hook [104]))))"

theorem ordered_bindings_correct_witness:
  "hook_reachable [104] two_bindings \<and> map hb_handler (ordered_bindings two_bindings ()) = [True, False] \<and>
   mset (ordered_bindings two_bindings ()) = mset (filter (\<lambda>b. matches b ()) (registered two_bindings))"
proof -
  have r: "hook_reachable [104] two_bindings"
    unfolding two_bindings_def by (intro hook_bind hook_new)
  moreover have "map hb_handler (ordered_bindings two_bindings ()) = [True, False]"
    by code_simp
  ultimately show ?thesis
    using ordered_bindings_correct [OF r, of "()"] by blast
qed

section \<open>The chain runs each handler at most once, in order\<close>

text \<open>A handler that also appends its position to a log before it runs; \<open>log_act\<close> carries the log through.\<close>

primrec log_act :: "('s, 'r) act \<Rightarrow> nat list \<Rightarrow> ('s \<times> nat list, 'r) act" where
  "log_act (Ret r s) = (\<lambda>l. Ret r (s, l))"
| "log_act (Throw e s) = (\<lambda>l. Throw e (s, l))"
| "log_act (Next s k) = (\<lambda>l. Next (s, l) (\<lambda>r sl. log_act (k r (fst sl)) (snd sl)))"

definition logged :: "nat \<Rightarrow> ('s \<Rightarrow> ('s, 'r) act) \<Rightarrow> 's \<times> nat list \<Rightarrow> ('s \<times> nat list, 'r) act" where
  "logged i h = (\<lambda>(s, l). log_act (h s) (l @ [i]))"

primrec logged_from :: "nat \<Rightarrow> ('s \<Rightarrow> ('s, 'r) act) list \<Rightarrow> ('s \<times> nat list \<Rightarrow> ('s \<times> nat list, 'r) act) list" where
  "logged_from i [] = []"
| "logged_from i (h # hs) = logged i h # logged_from (Suc i) hs"

lemma logged_apply: "logged i h (s, l) = log_act (h s) (l @ [i])"
  by (simp add: logged_def)

text \<open>No further \<open>event.next()\<close> can reach a continuation.\<close>

definition spent :: "chain_flags \<Rightarrow> bool" where
  "spent fl \<longleftrightarrow> \<not> has_next fl \<or> next_called fl"

lemma act_induct [case_names Ret Throw Next]:
  assumes "\<And>r s. P (Ret r s)" "\<And>e s. P (Throw e s)" "\<And>s k. (\<And>r s'. P (k r s')) \<Longrightarrow> P (Next s k)"
  shows "P a"
proof (induction a)
  case (Next s k)
  then show ?case by (blast intro: assms(3))
qed (auto intro: assms)

lemma run_act_spent: "spent fl \<Longrightarrow> snd (snd (run_act cont a fl)) = fl"
  by (induction a rule: act_induct) (auto simp: spent_def)

lemma run_act_spent_log: "spent fl \<Longrightarrow> snd (fst (snd (run_act cont (log_act a l) fl))) = l"
  by (induction a arbitrary: l rule: act_induct) (auto simp: spent_def)

definition runs_prefix :: "nat \<Rightarrow> nat \<Rightarrow> (chain_flags \<Rightarrow> 's \<times> nat list \<Rightarrow> ('s \<times> nat list, 'r) outcome) \<Rightarrow> bool" where
  "runs_prefix i n cont \<longleftrightarrow> (\<forall>fl s l. spent fl \<longrightarrow>
     spent (snd (snd (cont fl (s, l)))) \<and> (\<exists>m \<le> n. snd (fst (snd (cont fl (s, l)))) = l @ [i ..< i + m]))"

lemma run_act_prefix:
  assumes "runs_prefix i n cont"
  shows "\<exists>m \<le> n. snd (fst (snd (run_act cont (log_act a l) fl))) = l @ [i ..< i + m]"
proof (induction a arbitrary: l fl rule: act_induct)
  case (Next s k)
  show ?case
  proof (cases "spent fl")
    case True
    then show ?thesis using run_act_spent_log [OF True, of cont "Next s k" l] by (auto intro!: exI [of _ 0])
  next
    case False
    let ?o = "cont (fl\<lparr>next_called := True\<rparr>) (s, l)"
    have "spent (fl\<lparr>next_called := True\<rparr>)" by (simp add: spent_def)
    then obtain m where "spent (snd (snd ?o))" "m \<le> n" "snd (fst (snd ?o)) = l @ [i ..< i + m]"
      using assms unfolding runs_prefix_def by blast
    then show ?thesis
      using False run_act_spent_log by (auto simp: spent_def Let_def intro!: exI [of _ m])
  qed
qed (auto intro!: exI [of _ 0])

lemma dispatch_prefix:
  "runs_prefix i (Suc (length hs)) (dispatch_chain (Some (logged (i + length hs) d)) (logged_from i hs))"
proof (induction hs arbitrary: i)
  case Nil
  show ?case
    by (auto simp: runs_prefix_def logged_apply run_act_spent run_act_spent_log intro!: exI [of _ 1])
next
  case (Cons h hs)
  have IH: "runs_prefix (Suc i) (Suc (length hs))
      (dispatch_chain (Some (logged (i + length (h # hs)) d)) (logged_from (Suc i) hs))"
    using Cons [of "Suc i"] by simp
  show ?case
    unfolding runs_prefix_def
  proof (intro allI impI conjI)
    fix fl :: chain_flags and s l
    assume "spent fl"
    let ?o = "dispatch_chain (Some (logged (i + length (h # hs)) d)) (logged_from i (h # hs)) fl (s, l)"
    show "spent (snd (snd ?o))" by (simp add: Let_def spent_def clear_next_handler_def)
    obtain m where "m \<le> Suc (length hs)" "snd (fst (snd ?o)) = (l @ [i]) @ [Suc i ..< Suc i + m]"
      using run_act_prefix [OF IH, of "h s" "l @ [i]" "set_next_handler fl"]
      by (auto simp: Let_def logged_apply)
    then show "\<exists>m \<le> Suc (length (h # hs)). snd (fst (snd ?o)) = l @ [i ..< i + m]"
      by (intro exI [of _ "Suc m"]) (simp add: upt_conv_Cons)
  qed
qed

text \<open>Logging does not change the outcome.\<close>

definition unlogged :: "('s \<times> nat list, 'r) outcome \<Rightarrow> ('s, 'r) outcome" where
  "unlogged o1 = (fst o1, fst (fst (snd o1)), snd (snd o1))"

lemma run_act_unlogged:
  assumes "\<And>fl s l. unlogged (cont (fl :: chain_flags) (s, l)) = cont' fl s"
  shows "unlogged (run_act cont (log_act a l) fl) = run_act cont' a fl"
proof (induction a arbitrary: l fl rule: act_induct)
  case (Next s k)
  let ?o = "cont (fl\<lparr>next_called := True\<rparr>) (s, l)"
  have "cont' (fl\<lparr>next_called := True\<rparr>) s = (fst ?o, fst (fst (snd ?o)), snd (snd ?o))"
    using assms [of "fl\<lparr>next_called := True\<rparr>" s l] by (simp add: unlogged_def)
  then show ?case
    using Next by (simp add: Let_def)
qed (simp_all add: unlogged_def)

lemma dispatch_unlogged:
  "unlogged (dispatch_chain (map_option (logged n) d) (logged_from i hs) fl (s, l)) = dispatch_chain d hs fl s"
proof (induction hs arbitrary: i fl s l)
  case Nil
  show ?case
  proof (cases d)
    case (Some h)
    then show ?thesis
      using run_act_unlogged [of "\<lambda>fl s. (Inl NextUnavailable, s, fl)" "\<lambda>fl s. (Inl NextUnavailable, s, fl)" "h s" "l @ [n]" fl]
      by (simp add: logged_apply unlogged_def)
  qed (simp add: unlogged_def)
next
  case (Cons h hs)
  have "unlogged (run_act (dispatch_chain (map_option (logged n) d) (logged_from (Suc i) hs))
      (log_act (h s) (l @ [i])) (set_next_handler fl)) = run_act (dispatch_chain d hs) (h s) (set_next_handler fl)"
    by (rule run_act_unlogged) (rule Cons)
  then show ?case
    by (simp add: Let_def logged_apply unlogged_def prod_eq_iff)
qed

lemma run_hook_chain_unlogged:
  "(let o1 = run_hook_chain (s, []) (logged_from 0 hs) (map_option (logged n) d) in (fst o1, fst (snd o1)))
   = run_hook_chain s hs d"
  using dispatch_unlogged [of n d 0 hs "\<lparr>has_next = False, next_called = False\<rparr>" s "[]"]
  by (auto simp: run_hook_chain_def Let_def unlogged_def prod_eq_iff)

text \<open>
  Whatever the handlers do (return early, raise, swallow exceptions, call \<open>event.next()\<close> several times),
  one run of the chain runs each handler and the default handler at most once, in order and without gaps: the
  positions that ran are an initial segment of the chain.  Recording the positions does not change the result.
\<close>

theorem hook_chain_once_in_order:
  "(\<exists>m \<le> Suc (length hs).
     snd (snd (run_hook_chain (s, []) (logged_from 0 hs) (Some (logged (length hs) d)))) = [0 ..< m]) \<and>
   (let o1 = run_hook_chain (s, []) (logged_from 0 hs) (Some (logged (length hs) d)) in (fst o1, fst (snd o1)))
     = run_hook_chain s hs (Some d)"
  using dispatch_prefix [of 0 hs d, unfolded runs_prefix_def, rule_format,
      of "\<lparr>has_next = False, next_called = False\<rparr>" s "[]"]
    run_hook_chain_unlogged [of s hs "length hs" "Some d"]
  by (simp add: run_hook_chain_def Let_def spent_def)

text \<open>
  An explicit id can coincide with an id generated later; the generated binding then silently replaces the
  explicit one, although the caller never asked to rebind.
\<close>

lemma generated_id_overwrites:
  "hook_lookup (snd (bind_callable h2 None p2 q2 (snd (bind_callable h1 (Some (generated_hook_id name 1)) p1 q1
     (new_hook name))))) (generated_hook_id name 1) = Some (h2, p2, q2)"
  by (subst hook_lookup_bind)
     (simp_all add: bind_callable_wf new_hook_wf, simp_all add: bind_callable_def Let_def register_ref_def new_hook_def
        generated_hook_id_def)

end
