(* ===== verification/Ext_Registry.thy ===== *)
theory Ext_Registry
  imports Hooks
begin

text \<open>
  Model of \<open>ppbase/ext/registry.py\<close>: the per-instance registry of hooks, route and HTTP middlewares and
  extension routes, its freezing at application start, the collision check and the mounting of routes, and
  the request path of a route with middlewares.

  An operation returns its result or exception together with the registry it leaves behind, because a failed
  \<open>add_route\<close> has already consumed middleware ids.  Endpoints, FastAPI keyword arguments and responses are
  type parameters; the FastAPI router is what \<open>mount_routes\<close> hands to it, in order.
\<close>

section \<open>State\<close>

datatype reg_error = Frozen | EmptyMethods | NotCallable | UnknownHook pystr

definition HOOK_NAMES :: "pystr list" where
  "HOOK_NAMES = map lit
     [''bootstrap'', ''serve'', ''terminate'', ''records_list_request'', ''record_view_request'',
      ''record_create_request'', ''record_update_request'', ''record_delete_request'',
      ''record_auth_with_password_request'', ''record_auth_with_oauth2_request'', ''record_request_otp_request'',
      ''record_auth_with_otp_request'', ''record_auth_refresh_request'', ''record_auth_request'',
      ''file_download_request'', ''file_token_request'', ''realtime_connect_request'',
      ''realtime_subscribe_request'', ''realtime_message_send'']"

record ('ev, 'h, 'ep) route_def =
  rd_path :: pystr
  rd_methods :: "pystr list"
  rd_endpoint :: 'ep
  rd_middlewares :: "('ev, 'h) hook_binding list"
  rd_order :: nat

type_synonym ('ev, 'h) hook_dict = "(pystr \<times> ('ev, 'h) hook) list"
type_synonym ('ev, 'h) binding_dict = "(pystr \<times> ('ev, 'h) hook_binding) list"

record ('ev, 'h, 'ep) ext_registry =
  er_hooks :: "('ev, 'h) hook_dict"
  er_global :: "('ev, 'h) binding_dict"
  er_mw_order :: nat
  er_mw_id :: nat
  er_http :: "('ev, 'h) binding_dict"
  er_http_order :: nat
  er_http_id :: nat
  er_routes :: "('ev, 'h, 'ep) route_def list"
  er_route_order :: nat
  er_frozen :: bool

definition new_registry :: "('ev, 'h, 'ep) ext_registry" where
  "new_registry = \<lparr>er_hooks = map (\<lambda>name. (name, new_hook name)) HOOK_NAMES, er_global = [], er_mw_order = 0,
     er_mw_id = 0, er_http = [], er_http_order = 0, er_http_id = 0, er_routes = [], er_route_order = 0,
     er_frozen = False\<rparr>"

definition get_hook :: "pystr \<Rightarrow> ('ev, 'h, 'ep) ext_registry \<Rightarrow> reg_error + ('ev, 'h) hook" where
  "get_hook name reg = (case map_of (er_hooks reg) name of None \<Rightarrow> Inl (UnknownHook name) | Some hk \<Rightarrow> Inr hk)"

definition freeze :: "('ev, 'h, 'ep) ext_registry \<Rightarrow> ('ev, 'h, 'ep) ext_registry" where
  "freeze reg = reg\<lparr>er_frozen := True\<rparr>"

definition ensure_mutable :: "('ev, 'h, 'ep) ext_registry \<Rightarrow> reg_error + unit" where
  "ensure_mutable reg = guardE (er_frozen reg) Frozen"

section \<open>Middlewares\<close>

definition explicit_id :: "pystr option \<Rightarrow> pystr option" where
  "explicit_id i = (case i of Some s \<Rightarrow> if s \<noteq> [] then Some s else None | None \<Rightarrow> None)"

definition new_middleware_binding ::
  "'h \<Rightarrow> pystr option \<Rightarrow> int \<Rightarrow> ('ev \<Rightarrow> bool) option \<Rightarrow> ('ev, 'h, 'ep) ext_registry
    \<Rightarrow> ('ev, 'h) hook_binding \<times> ('ev, 'h, 'ep) ext_registry" where
  "new_middleware_binding handler i priority predicate reg =
     (let reg1 = (case explicit_id i of Some _ \<Rightarrow> reg | None \<Rightarrow> reg\<lparr>er_mw_id := er_mw_id reg + 1\<rparr>);
          bid = (case explicit_id i of Some s \<Rightarrow> s
                 | None \<Rightarrow> generated_hook_id (lit ''route_middleware'') (er_mw_id reg1))
      in (\<lparr>hb_id = bid, hb_handler = handler, hb_priority = priority, hb_order = er_mw_order reg1,
           hb_predicate = predicate\<rparr>,
          reg1\<lparr>er_mw_order := er_mw_order reg1 + 1\<rparr>))"

definition new_http_middleware_binding ::
  "'h \<Rightarrow> pystr option \<Rightarrow> int \<Rightarrow> ('ev \<Rightarrow> bool) option \<Rightarrow> ('ev, 'h, 'ep) ext_registry
    \<Rightarrow> ('ev, 'h) hook_binding \<times> ('ev, 'h, 'ep) ext_registry" where
  "new_http_middleware_binding handler i priority predicate reg =
     (let reg1 = (case explicit_id i of Some _ \<Rightarrow> reg | None \<Rightarrow> reg\<lparr>er_http_id := er_http_id reg + 1\<rparr>);
          bid = (case explicit_id i of Some s \<Rightarrow> s
                 | None \<Rightarrow> generated_hook_id (lit ''http_middleware'') (er_http_id reg1))
      in (\<lparr>hb_id = bid, hb_handler = handler, hb_priority = priority, hb_order = er_http_order reg1,
           hb_predicate = predicate\<rparr>,
          reg1\<lparr>er_http_order := er_http_order reg1 + 1\<rparr>))"

type_synonym ('ev, 'h, 'ep, 'a) reg_result = "(reg_error + 'a) \<times> ('ev, 'h, 'ep) ext_registry"

text \<open>A guarded operation: \<open>ensure_mutable\<close> first, and a frozen registry is left as it is.\<close>

definition when_mutable ::
  "(('ev, 'h, 'ep) ext_registry \<Rightarrow> ('ev, 'h, 'ep, 'a) reg_result) \<Rightarrow> ('ev, 'h, 'ep) ext_registry
    \<Rightarrow> ('ev, 'h, 'ep, 'a) reg_result" where
  "when_mutable f reg = (case ensure_mutable reg of Inl e \<Rightarrow> (Inl e, reg) | Inr _ \<Rightarrow> f reg)"

definition register_middleware ::
  "'h \<Rightarrow> pystr option \<Rightarrow> int \<Rightarrow> ('ev \<Rightarrow> bool) option \<Rightarrow> ('ev, 'h, 'ep) ext_registry
    \<Rightarrow> ('ev, 'h, 'ep, ('ev, 'h) hook_binding) reg_result" where
  "register_middleware handler i priority predicate = when_mutable (\<lambda>reg.
     (let (b, reg1) = new_middleware_binding handler i priority predicate reg in (Inr b, reg1)))"

definition register_http_middleware ::
  "'h \<Rightarrow> pystr option \<Rightarrow> int \<Rightarrow> ('ev \<Rightarrow> bool) option \<Rightarrow> ('ev, 'h, 'ep) ext_registry
    \<Rightarrow> ('ev, 'h, 'ep, pystr) reg_result" where
  "register_http_middleware handler i priority predicate = when_mutable (\<lambda>reg.
     (let (b, reg1) = new_http_middleware_binding handler i priority predicate reg
      in (Inr (hb_id b), reg1\<lparr>er_http := AList.update (hb_id b) b (er_http reg1)\<rparr>)))"

definition add_global_middleware ::
  "'h \<Rightarrow> pystr option \<Rightarrow> int \<Rightarrow> ('ev \<Rightarrow> bool) option \<Rightarrow> ('ev, 'h, 'ep) ext_registry
    \<Rightarrow> ('ev, 'h, 'ep, pystr) reg_result" where
  "add_global_middleware handler i priority predicate = when_mutable (\<lambda>reg.
     (let (b, reg1) = new_middleware_binding handler i priority predicate reg
      in (Inr (hb_id b), reg1\<lparr>er_global := AList.update (hb_id b) b (er_global reg1)\<rparr>)))"

definition remove_global_middleware ::
  "pystr \<Rightarrow> ('ev, 'h, 'ep) ext_registry \<Rightarrow> ('ev, 'h, 'ep, unit) reg_result" where
  "remove_global_middleware i = when_mutable (\<lambda>reg. (Inr (), reg\<lparr>er_global := AList.delete i (er_global reg)\<rparr>))"

definition remove_http_middleware ::
  "pystr \<Rightarrow> ('ev, 'h, 'ep) ext_registry \<Rightarrow> ('ev, 'h, 'ep, unit) reg_result" where
  "remove_http_middleware i = when_mutable (\<lambda>reg. (Inr (), reg\<lparr>er_http := AList.delete i (er_http reg)\<rparr>))"

definition sort_middlewares :: "('ev, 'h) hook_binding list \<Rightarrow> ('ev, 'h) hook_binding list" where
  "sort_middlewares bs = sort_key binding_key bs"

definition get_http_middlewares :: "('ev, 'h, 'ep) ext_registry \<Rightarrow> ('ev, 'h) hook_binding list" where
  "get_http_middlewares reg = sort_middlewares (map snd (er_http reg))"

datatype ('ev, 'h) mw_input = MwBinding "('ev, 'h) hook_binding" | MwCallable 'h | MwOther

fun normalize_route_middlewares ::
  "('ev, 'h) mw_input list \<Rightarrow> ('ev, 'h, 'ep) ext_registry
    \<Rightarrow> ('ev, 'h, 'ep, ('ev, 'h) hook_binding list) reg_result" where
  "normalize_route_middlewares [] reg = (Inr [], reg)"
| "normalize_route_middlewares (MwBinding b # items) reg =
     (let (r, reg1) = normalize_route_middlewares items reg in (bindE r (\<lambda>bs. Inr (b # bs)), reg1))"
| "normalize_route_middlewares (MwOther # items) reg = (Inl NotCallable, reg)"
| "normalize_route_middlewares (MwCallable h # items) reg =
     (let (b, reg1) = new_middleware_binding h None 0 None reg;
          (r, reg2) = normalize_route_middlewares items reg1
      in (bindE r (\<lambda>bs. Inr (b # bs)), reg2))"

section \<open>Routes\<close>

definition normalized_methods :: "py_runtime \<Rightarrow> pystr list \<Rightarrow> pystr list" where
  "normalized_methods rt methods = map (rt_upper rt) (filter (\<lambda>m. py_strip m \<noteq> []) methods)"

definition unbound_ids :: "pystr list \<Rightarrow> pystr list" where
  "unbound_ids unbind_ids = filter (\<lambda>i. i \<noteq> []) (map py_strip unbind_ids)"

definition combined_middlewares ::
  "('ev, 'h, 'ep) ext_registry \<Rightarrow> ('ev, 'h) hook_binding list \<Rightarrow> pystr list \<Rightarrow> ('ev, 'h) hook_binding list" where
  "combined_middlewares reg route_middlewares unbind_ids =
     (let sorted_mw = sort_middlewares (map snd (er_global reg) @ route_middlewares);
          ids = unbound_ids unbind_ids
      in if ids \<noteq> [] then filter (\<lambda>b. hb_id b \<notin> set ids) sorted_mw else sorted_mw)"

definition add_route ::
  "py_runtime \<Rightarrow> pystr \<Rightarrow> pystr list \<Rightarrow> 'ep \<Rightarrow> ('ev, 'h) mw_input list \<Rightarrow> pystr list \<Rightarrow> ('ev, 'h, 'ep) ext_registry
    \<Rightarrow> ('ev, 'h, 'ep, unit) reg_result" where
  "add_route rt path methods endpoint middlewares unbind_ids = when_mutable (\<lambda>reg.
     (let ms = normalized_methods rt methods
      in if ms = [] then (Inl EmptyMethods, reg)
         else case normalize_route_middlewares middlewares reg of
                (Inl e, reg1) \<Rightarrow> (Inl e, reg1)
              | (Inr mws, reg1) \<Rightarrow>
                  (Inr (), reg1\<lparr>er_routes := er_routes reg1 @
                      [\<lparr>rd_path = path, rd_methods = ms, rd_endpoint = endpoint,
                        rd_middlewares = combined_middlewares reg1 mws unbind_ids, rd_order = er_route_order reg1\<rparr>],
                    er_route_order := er_route_order reg1 + 1\<rparr>)))"

text \<open>A route the application already has: its methods (empty when it has none), path and name.\<close>

record app_route =
  ar_methods :: "pystr list"
  ar_path :: pystr
  ar_name :: pystr

datatype collision = ConflictsExisting pystr pystr pystr | ConflictsExtension pystr pystr pystr

definition existing_routes :: "py_runtime \<Rightarrow> app_route list \<Rightarrow> ((pystr \<times> pystr) \<times> pystr) list" where
  "existing_routes rt rs = fold (\<lambda>r d.
     if ar_methods r = [] \<or> ar_path r = [] then d
     else fold (\<lambda>m. AList.update (rt_upper rt m, ar_path r) (ar_name r)) (ar_methods r) d) rs []"

fun collide_methods ::
  "((pystr \<times> pystr) \<times> pystr) list \<Rightarrow> pystr \<Rightarrow> pystr \<Rightarrow> pystr list
    \<Rightarrow> collision list \<times> ((pystr \<times> pystr) \<times> pystr) list \<Rightarrow> collision list \<times> ((pystr \<times> pystr) \<times> pystr) list" where
  "collide_methods ex name path [] st = st"
| "collide_methods ex name path (m # ms) (out, seen) =
     collide_methods ex name path ms
       (out @ (case map_of ex (m, path) of Some n \<Rightarrow> [ConflictsExisting m path n] | None \<Rightarrow> [])
            @ (case map_of seen (m, path) of Some n \<Rightarrow> [ConflictsExtension m path n] | None \<Rightarrow> []),
        AList.update (m, path) name seen)"

definition detect_route_collisions ::
  "py_runtime \<Rightarrow> ('ep \<Rightarrow> pystr) \<Rightarrow> app_route list \<Rightarrow> ('ev, 'h, 'ep) route_def list \<Rightarrow> collision list" where
  "detect_route_collisions rt endpoint_name app_routes routes =
     fst (fold (\<lambda>r. collide_methods (existing_routes rt app_routes) (endpoint_name (rd_endpoint r)) (rd_path r) (rd_methods r))
       routes ([], []))"

text \<open>\<open>mount_routes\<close>: the routes handed to the router, by order, or the collisions.\<close>

definition mount_routes ::
  "py_runtime \<Rightarrow> ('ep \<Rightarrow> pystr) \<Rightarrow> app_route list \<Rightarrow> nat \<Rightarrow> ('ev, 'h, 'ep) ext_registry
    \<Rightarrow> collision list + ('ev, 'h, 'ep) route_def list" where
  "mount_routes rt endpoint_name app_routes start_index reg =
     (let routes = drop start_index (er_routes reg);
          collisions = detect_route_collisions rt endpoint_name app_routes routes
      in if routes = [] then Inr []
         else if collisions \<noteq> [] then Inl collisions
         else Inr (sort_key rd_order routes))"

text \<open>
  \<open>ExtensionAPIRoute.get_route_handler\<close>: the wire result of one request.  \<open>new_event\<close> builds the event of the
  request and \<open>load_auth\<close> fills it in; the chain carries responses and other values, and only the latter are
  encoded.
\<close>

datatype ('resp, 'v) chain_value = VResponse 'resp | VOther 'v

datatype ('resp, 'v) route_response = Original 'resp | NoContent | JsonBody 'v

definition default_route_handler ::
  "('ev \<Rightarrow> 'req option) \<Rightarrow> ('req \<Rightarrow> hook_exn + 'resp) \<Rightarrow> 'ev \<Rightarrow> ('ev, ('resp, 'v) chain_value) act" where
  "default_route_handler request_of original ev =
     (case request_of ev of
        None \<Rightarrow> Throw (HandlerExn (lit ''Route middleware event is missing request.'')) ev
      | Some req \<Rightarrow> (case original req of Inl e \<Rightarrow> Throw e ev | Inr resp \<Rightarrow> Ret (Some (VResponse resp)) ev))"

definition route_handler ::
  "('req \<Rightarrow> 'ev) \<Rightarrow> ('ev \<Rightarrow> 'ev) \<Rightarrow> ('ev \<Rightarrow> 'req option) \<Rightarrow> ('req \<Rightarrow> hook_exn + 'resp)
    \<Rightarrow> ('ev, 'ev \<Rightarrow> ('ev, ('resp, 'v) chain_value) act) hook_binding list \<Rightarrow> 'req
    \<Rightarrow> hook_exn + ('resp, 'v) route_response" where
  "route_handler new_event load_auth request_of original middlewares req =
     (if middlewares = [] then map_sum id Original (original req)
      else let ev = load_auth (new_event req);
               matched = filter (\<lambda>b. matches b ev) middlewares
           in case fst (run_hook_chain ev (map hb_handler matched)
                          (Some (default_route_handler request_of original))) of
                Inl e \<Rightarrow> Inl e
              | Inr None \<Rightarrow> Inr NoContent
              | Inr (Some (VResponse resp)) \<Rightarrow> Inr (Original resp)
              | Inr (Some (VOther v)) \<Rightarrow> Inr (JsonBody v))"

section \<open>Freezing\<close>

lemma when_mutable_frozen: "er_frozen reg \<Longrightarrow> when_mutable f reg = (Inl Frozen, reg)"
  by (simp add: when_mutable_def ensure_mutable_def)

lemma when_mutable_open: "\<not> er_frozen reg \<Longrightarrow> when_mutable f reg = f reg"
  by (simp add: when_mutable_def ensure_mutable_def)

text \<open>One call of a registering or removing method of the registry, or of \<open>freeze\<close>.\<close>

inductive ext_step :: "('ev, 'h, 'ep) ext_registry \<Rightarrow> ('ev, 'h, 'ep) ext_registry \<Rightarrow> bool" where
  step_freeze: "ext_step reg (freeze reg)"
| step_register: "ext_step reg (snd (register_middleware h i p q reg))"
| step_http: "ext_step reg (snd (register_http_middleware h i p q reg))"
| step_global: "ext_step reg (snd (add_global_middleware h i p q reg))"
| step_rm_global: "ext_step reg (snd (remove_global_middleware i reg))"
| step_rm_http: "ext_step reg (snd (remove_http_middleware i reg))"
| step_route: "ext_step reg (snd (add_route rt path ms ep mws ub reg))"

lemma ext_step_frozen: "ext_step reg reg' \<Longrightarrow> er_frozen reg \<Longrightarrow> reg' = reg"
  by (induction rule: ext_step.induct)
     (simp_all add: when_mutable_frozen freeze_def register_middleware_def register_http_middleware_def
        add_global_middleware_def remove_global_middleware_def remove_http_middleware_def add_route_def)

text \<open>
  Once the registry is frozen, no later sequence of calls changes it: no route, middleware, id counter or
  order counter moves.
\<close>

theorem frozen_forever:
  "er_frozen reg \<Longrightarrow> ext_step\<^sup>*\<^sup>* reg reg' \<Longrightarrow> reg' = reg"
  by (rotate_tac 1, induction rule: rtranclp_induct) (auto dest: ext_step_frozen)

theorem frozen_forever_witness:
  "snd (add_route sample_rt [47] [[103]] True [] []
     (snd (add_global_middleware False None 0 None (freeze new_registry))))
   = (freeze new_registry :: (unit, bool, bool) ext_registry)"
  by (rule frozen_forever)
     (simp add: freeze_def, rule converse_rtranclp_into_rtranclp, rule step_global, rule r_into_rtranclp, rule step_route)

section \<open>The middleware registries are finite maps\<close>

definition spec_dict :: "('ev, 'h) binding_dict \<Rightarrow> pystr \<rightharpoonup> ('ev, 'h) spec" where
  "spec_dict d i = map_option binding_spec (map_of d i)"

fun global_put :: "pystr \<Rightarrow> ('ev, 'h) spec \<Rightarrow> ('ev, 'h, 'ep) ext_registry \<Rightarrow> ('ev, 'h, 'ep) ext_registry" where
  "global_put i (h, p, q) reg = snd (add_global_middleware h (Some i) p q reg)"

fun http_put :: "pystr \<Rightarrow> ('ev, 'h) spec \<Rightarrow> ('ev, 'h, 'ep) ext_registry \<Rightarrow> ('ev, 'h, 'ep) ext_registry" where
  "http_put i (h, p, q) reg = snd (register_http_middleware h (Some i) p q reg)"

lemma spec_dict_update: "spec_dict (AList.update i b d) = (spec_dict d)(i \<mapsto> binding_spec b)"
  by (rule ext) (simp add: spec_dict_def update_conv')

lemma spec_dict_delete: "spec_dict (AList.delete i d) = (spec_dict d)(i := None)"
  by (rule ext) (simp add: spec_dict_def delete_conv')

lemmas ext_op_defs = add_global_middleware_def register_http_middleware_def remove_global_middleware_def
  remove_http_middleware_def new_middleware_binding_def new_http_middleware_binding_def explicit_id_def

interpretation global_registry: keyed_registry "\<lambda>reg. \<not> er_frozen reg" "\<lambda>reg. spec_dict (er_global reg)"
    global_put "\<lambda>i reg. snd (remove_global_middleware i reg)"
proof unfold_locales
  fix reg :: "('a, 'b, 'c) ext_registry" and k :: pystr and b :: "('a, 'b) spec"
  assume "\<not> er_frozen reg"
  note simps = when_mutable_open [OF this] ext_op_defs Let_def spec_dict_update spec_dict_delete binding_spec_def
  show "\<not> er_frozen (snd (remove_global_middleware k reg))"
    "spec_dict (er_global (snd (remove_global_middleware k reg))) = (spec_dict (er_global reg))(k := None)"
    using \<open>\<not> er_frozen reg\<close> by (simp_all add: simps)
  assume "k \<noteq> []"
  then show "\<not> er_frozen (global_put k b reg)"
    "spec_dict (er_global (global_put k b reg)) = (spec_dict (er_global reg))(k \<mapsto> b)"
    using \<open>\<not> er_frozen reg\<close> by (cases b; simp add: simps)+
qed

interpretation http_registry: keyed_registry "\<lambda>reg. \<not> er_frozen reg" "\<lambda>reg. spec_dict (er_http reg)"
    http_put "\<lambda>i reg. snd (remove_http_middleware i reg)"
proof unfold_locales
  fix reg :: "('a, 'b, 'c) ext_registry" and k :: pystr and b :: "('a, 'b) spec"
  assume "\<not> er_frozen reg"
  note simps = when_mutable_open [OF this] ext_op_defs Let_def spec_dict_update spec_dict_delete binding_spec_def
  show "\<not> er_frozen (snd (remove_http_middleware k reg))"
    "spec_dict (er_http (snd (remove_http_middleware k reg))) = (spec_dict (er_http reg))(k := None)"
    using \<open>\<not> er_frozen reg\<close> by (simp_all add: simps)
  assume "k \<noteq> []"
  then show "\<not> er_frozen (http_put k b reg)"
    "spec_dict (er_http (http_put k b reg)) = (spec_dict (er_http reg))(k \<mapsto> b)"
    using \<open>\<not> er_frozen reg\<close> by (cases b; simp add: simps)+
qed

section \<open>Collisions\<close>

definition route_keys :: "('ev, 'h, 'ep) route_def \<Rightarrow> (pystr \<times> pystr) list" where
  "route_keys r = map (\<lambda>m. (m, rd_path r)) (rd_methods r)"

definition app_route_keys :: "py_runtime \<Rightarrow> app_route list \<Rightarrow> (pystr \<times> pystr) set" where
  "app_route_keys rt rs = {(rt_upper rt m, ar_path r) | m r. r \<in> set rs \<and> m \<in> set (ar_methods r) \<and> ar_path r \<noteq> []}"

lemma existing_methods_dom:
  "fst ` set (fold (\<lambda>m. AList.update (rt_upper rt m, p) n) ms d) = (\<lambda>m. (rt_upper rt m, p)) ` set ms \<union> fst ` set d"
  by (induction ms arbitrary: d) (auto simp: dom_update)

lemma existing_routes_fold_dom:
  "fst ` set (fold (\<lambda>r d. if ar_methods r = [] \<or> ar_path r = [] then d
     else fold (\<lambda>m. AList.update (rt_upper rt m, ar_path r) (ar_name r)) (ar_methods r) d) rs d)
   = app_route_keys rt rs \<union> fst ` set d"
proof (induction rs arbitrary: d)
  case (Cons r rs)
  have *: "app_route_keys rt (r # rs) =
      (if ar_methods r = [] \<or> ar_path r = [] then {} else (\<lambda>m. (rt_upper rt m, ar_path r)) ` set (ar_methods r))
        \<union> app_route_keys rt rs"
    by (auto simp: app_route_keys_def)
  show ?case unfolding fold_simps o_apply Cons.IH by (simp add: * existing_methods_dom Un_ac)
qed (simp add: app_route_keys_def)

lemma existing_routes_None: "map_of (existing_routes rt rs) k = None \<longleftrightarrow> k \<notin> app_route_keys rt rs"
  using existing_routes_fold_dom [of rt rs "[]"] by (simp add: existing_routes_def map_of_eq_None_iff)

lemma collide_methods_spec:
  assumes "collide_methods ex name path ms (out, seen) = (out', seen')"
  shows "(out' = [] \<longleftrightarrow> out = [] \<and> distinct ms \<and>
            (\<forall>m \<in> set ms. map_of ex (m, path) = None \<and> (m, path) \<notin> fst ` set seen)) \<and>
         fst ` set seen' = (\<lambda>m. (m, path)) ` set ms \<union> fst ` set seen"
  using assms
proof (induction ms arbitrary: out seen)
  case (Cons m ms)
  let ?c = "(case map_of ex (m, path) of Some n \<Rightarrow> [ConflictsExisting m path n] | None \<Rightarrow> [])
            @ (case map_of seen (m, path) of Some n \<Rightarrow> [ConflictsExtension m path n] | None \<Rightarrow> [])"
  have c: "?c = [] \<longleftrightarrow> map_of ex (m, path) = None \<and> (m, path) \<notin> fst ` set seen"
    by (simp add: map_of_eq_None_iff [symmetric] split: option.split)
  have "collide_methods ex name path ms (out @ ?c, AList.update (m, path) name seen) = (out', seen')"
    using Cons.prems by simp
  note IH = Cons.IH [OF this, unfolded dom_update]
  have out': "out' = [] \<longleftrightarrow> (out = [] \<and> ?c = []) \<and> distinct ms \<and>
      (\<forall>m' \<in> set ms. map_of ex (m', path) = None \<and> m' \<noteq> m \<and> (m', path) \<notin> fst ` set seen)"
    using IH by (simp del: append_is_Nil_conv add: append_is_Nil_conv [of out])
  have "fst ` set seen' = (\<lambda>m. (m, path)) ` set (m # ms) \<union> fst ` set seen"
    using IH by (simp add: insert_commute Un_ac)
  moreover have "out' = [] \<longleftrightarrow> out = [] \<and> distinct (m # ms) \<and>
      (\<forall>m \<in> set (m # ms). map_of ex (m, path) = None \<and> (m, path) \<notin> fst ` set seen)"
    by (subst out', subst c) auto
  ultimately show ?case by blast
qed simp

lemma collide_routes_spec:
  assumes "fold (\<lambda>r. collide_methods ex (name (rd_endpoint r)) (rd_path r) (rd_methods r)) rs (out, seen) = (out', seen')"
  shows "out' = [] \<longleftrightarrow> out = [] \<and> distinct (concat (map route_keys rs)) \<and>
           (\<forall>k \<in> set (concat (map route_keys rs)). map_of ex k = None \<and> k \<notin> fst ` set seen)"
  using assms
proof (induction rs arbitrary: out seen)
  case (Cons r rs)
  obtain o1 s1 where o1: "collide_methods ex (name (rd_endpoint r)) (rd_path r) (rd_methods r) (out, seen) = (o1, s1)"
    by (cases "collide_methods ex (name (rd_endpoint r)) (rd_path r) (rd_methods r) (out, seen)")
  have dist: "distinct (route_keys r) = distinct (rd_methods r)"
    by (simp add: route_keys_def distinct_map inj_on_def)
  have keys: "set (route_keys r) = (\<lambda>m. (m, rd_path r)) ` set (rd_methods r)"
    by (simp add: route_keys_def)
  show ?case
  proof -
    have "out' = [] \<longleftrightarrow> o1 = [] \<and> distinct (concat (map route_keys rs)) \<and>
        (\<forall>k \<in> set (concat (map route_keys rs)). map_of ex k = None \<and> k \<notin> fst ` set s1)"
      using Cons.IH [of o1 s1] Cons.prems o1 by simp
    moreover have "o1 = [] \<longleftrightarrow> out = [] \<and> distinct (route_keys r) \<and>
        (\<forall>k \<in> set (route_keys r). map_of ex k = None \<and> k \<notin> fst ` set seen)"
      using collide_methods_spec [OF o1] by (simp add: dist keys)
    moreover have "fst ` set s1 = set (route_keys r) \<union> fst ` set seen"
      using collide_methods_spec [OF o1] by (simp add: keys)
    ultimately show ?thesis
      by (simp only: list.map concat.simps distinct_append set_append) blast
  qed
qed simp

text \<open>
  \<open>_detect_route_collisions\<close> is exact: it reports nothing if and only if the method/path pairs of the
  extension routes are pairwise different and none of them belongs to a route the application already has.
\<close>

theorem no_collisions_iff:
  "detect_route_collisions rt name app_routes routes = [] \<longleftrightarrow>
     distinct (concat (map route_keys routes)) \<and>
     set (concat (map route_keys routes)) \<inter> app_route_keys rt app_routes = {}"
proof -
  obtain out seen where o1: "fold (\<lambda>r. collide_methods (existing_routes rt app_routes) (name (rd_endpoint r)) (rd_path r)
      (rd_methods r)) routes ([], []) = (out, seen)"
    by (cases "fold (\<lambda>r. collide_methods (existing_routes rt app_routes) (name (rd_endpoint r)) (rd_path r)
      (rd_methods r)) routes ([], [])")
  show ?thesis
    using collide_routes_spec [OF o1] o1 by (auto simp: detect_route_collisions_def existing_routes_None)
qed

section \<open>Routes\<close>

lemma new_middleware_binding_frame:
  "new_middleware_binding h i p q reg = (b, reg') \<Longrightarrow> er_global reg' = er_global reg \<and> er_routes reg' = er_routes reg"
  by (auto simp: new_middleware_binding_def Let_def split: option.splits)

lemma normalize_frame:
  "normalize_route_middlewares items reg = (r, reg') \<Longrightarrow> er_global reg' = er_global reg \<and> er_routes reg' = er_routes reg"
proof (induction items reg arbitrary: r reg' rule: normalize_route_middlewares.induct)
  case (4 h items reg)
  obtain b reg1 where b: "new_middleware_binding h None 0 None reg = (b, reg1)"
    by (cases "new_middleware_binding h None 0 None reg")
  obtain r2 reg2 where r2: "normalize_route_middlewares items reg1 = (r2, reg2)"
    by (cases "normalize_route_middlewares items reg1")
  have "reg' = reg2" using 4(2) by (simp add: b r2 Let_def)
  then show ?case using 4(1) [OF refl b [symmetric] r2] new_middleware_binding_frame [OF b] b by simp
qed (auto split: prod.splits)

text \<open>
  A route that \<open>add_route\<close> accepts has at least one method, and its middlewares are the global ones
  registered so far together with those of the route, without the unbound ids, by falling priority and then
  registration order; the earlier routes are kept.
\<close>

theorem add_route_correct:
  assumes "add_route rt path methods ep mws ub reg = (Inr (), reg')"
  shows "\<exists>r new. er_routes reg' = er_routes reg @ [r] \<and>
    rd_path r = path \<and> rd_methods r = normalized_methods rt methods \<and> rd_methods r \<noteq> [] \<and>
    fst (normalize_route_middlewares mws reg) = Inr new \<and>
    mset (rd_middlewares r) =
      filter_mset (\<lambda>b. hb_id b \<notin> set (unbound_ids ub)) (mset (map snd (er_global reg)) + mset new) \<and>
    sorted_wrt (\<lambda>a b. hb_priority a > hb_priority b \<or> hb_priority a = hb_priority b \<and> hb_order a \<le> hb_order b)
      (rd_middlewares r)"
proof -
  have open_reg: "\<not> er_frozen reg"
    using assms by (auto simp: add_route_def when_mutable_frozen)
  obtain n reg1 where n: "normalize_route_middlewares mws reg = (n, reg1)"
    by (cases "normalize_route_middlewares mws reg")
  obtain new where new: "n = Inr new" and ms: "normalized_methods rt methods \<noteq> []"
    and reg': "reg' = reg1\<lparr>er_routes := er_routes reg1 @ [\<lparr>rd_path = path, rd_methods = normalized_methods rt methods,
        rd_endpoint = ep, rd_middlewares = combined_middlewares reg1 new ub, rd_order = er_route_order reg1\<rparr>],
        er_route_order := er_route_order reg1 + 1\<rparr>"
    using assms by (auto simp: add_route_def when_mutable_open [OF open_reg] n Let_def split: if_splits sum.splits)
  have "mset (combined_middlewares reg1 new ub) =
      filter_mset (\<lambda>b. hb_id b \<notin> set (unbound_ids ub)) (mset (map snd (er_global reg)) + mset new)"
    using normalize_frame [OF n]
    by (cases "unbound_ids ub = []") (simp_all add: combined_middlewares_def Let_def sort_middlewares_def mset_filter)
  moreover have "sorted_wrt (\<lambda>a b. hb_priority a > hb_priority b \<or> hb_priority a = hb_priority b \<and> hb_order a \<le> hb_order b)
      (combined_middlewares reg1 new ub)"
    by (simp add: combined_middlewares_def Let_def sort_middlewares_def sort_key_sorted_wrt sorted_wrt_filter)
  ultimately show ?thesis
    using normalize_frame [OF n] by (simp add: reg' n new ms)
qed

theorem add_route_correct_witness:
  "\<exists>r new. er_routes (snd (add_route sample_rt [47] [[71, 69, 84]] True [MwCallable False] [] new_registry)) =
      er_routes (new_registry :: (unit, bool, bool) ext_registry) @ [r] \<and> rd_methods r \<noteq> [] \<and>
      fst (normalize_route_middlewares [MwCallable False] (new_registry :: (unit, bool, bool) ext_registry)) = Inr new"
proof -
  let ?r = "add_route sample_rt [47] [[71, 69, 84]] True [MwCallable False] [] (new_registry :: (unit, bool, bool) ext_registry)"
  have "fst ?r = Inr ()"
    by (simp add: add_route_def when_mutable_def ensure_mutable_def new_registry_def normalized_methods_def
      py_strip_def is_space_def new_middleware_binding_def explicit_id_def Let_def)
  then have "?r = (Inr (), snd ?r)" by (metis prod.collapse)
  from add_route_correct [OF this] show ?thesis by blast
qed

end
