(* ===== verification/Field_Types.thy ===== *)
theory Field_Types
  imports Storage_Safety
begin

text \<open>
  Model of \<open>ppbase/models/field_types.py\<close>: the fourteen field types, a field definition and one validator per
  type, dispatched by \<open>validate_field_value\<close>.

  A validator returns the cleaned value, \<open>FieldError\<close> with the field name and error code of the
  \<open>FieldValidationError\<close> it raises (the message is not kept), or \<open>Raised\<close> for an exception the source does not
  catch.  Options are dynamically typed, as in the source, so a badly typed option ends in \<open>Raised\<close>.
\<close>

section \<open>Field definitions\<close>

datatype field_type =
  Text | Editor | Number | Bool | Email | Url | Date | Autodate | Select | File | Relation | Json | Password | GeoPoint

record field_definition =
  fd_id :: pystr
  fd_name :: pystr
  fd_type :: field_type
  fd_required :: bool
  fd_system :: bool
  fd_hidden :: bool
  fd_presentable :: bool
  fd_options :: "(pystr \<times> pyval) list"

datatype field_code =
    ValidationRequired | MinText | MaxText | InvalidFormat | MaxSize | NotANumber | OnlyInt | MinNumber | MaxNumber
  | InvalidEmail | InvalidEmailDomain | InvalidUrl | InvalidUrlDomain | InvalidDate | MinDate | MaxDate
  | MaxSelect | InvalidSelectValue | InvalidFilename | InvalidGeoPoint

datatype field_error = FieldError pystr field_code | Raised pyexn

type_synonym field_result = "field_error + pyval"

definition field_fail :: "field_definition \<Rightarrow> field_code \<Rightarrow> field_error" where
  "field_fail fd c = FieldError (fd_name fd) c"

definition opt :: "field_definition \<Rightarrow> string \<Rightarrow> pyval" where
  "opt fd k = dict_get (fd_options fd) (lit k)"

text \<open>An exception that is not caught leaves the validator.\<close>

definition uncaught :: "pyexn + 'a \<Rightarrow> field_error + 'a" where
  "uncaught r = (case r of Inl e \<Rightarrow> Inl (Raised e) | Inr x \<Rightarrow> Inr x)"

text \<open>\<open>x < y\<close> between an integer and an option, iteration and \<open>s in x\<close> for text \<open>s\<close>.\<close>

fun num_val :: "pyval \<Rightarrow> pyfloat option" where
  "num_val (PInt n) = Some (FFin (of_int n))"
| "num_val (PBool b) = Some (FFin (if b then 1 else 0))"
| "num_val (PFloat f) = Some f"
| "num_val _ = None"

definition num_less :: "pyval \<Rightarrow> pyval \<Rightarrow> pyexn + bool" where
  "num_less a b =
     (case (num_val a, num_val b) of (Some x, Some y) \<Rightarrow> Inr (flt_less x y) | _ \<Rightarrow> Inl TypeError)"

fun py_iter :: "pyval \<Rightarrow> pyexn + pyval list" where
  "py_iter (PList xs) = Inr xs"
| "py_iter (PStr s) = Inr (map (\<lambda>c. PStr [c]) s)"
| "py_iter (PDict d) = Inr (map (PStr \<circ> fst) d)"
| "py_iter _ = Inl TypeError"

fun str_in :: "pystr \<Rightarrow> pyval \<Rightarrow> pyexn + bool" where
  "str_in s (PList xs) = Inr (PStr s \<in> set xs)"
| "str_in s (PStr t) = Inr (sublist s t)"
| "str_in s (PDict d) = Inr (s \<in> fst ` set d)"
| "str_in s _ = Inl TypeError"

text \<open>\<open>str(value) if value is not None else ""\<close>.\<close>

definition str_or_blank :: "py_runtime \<Rightarrow> pyval \<Rightarrow> pystr" where
  "str_or_blank rt v = (if v = PNone then [] else py_str rt v)"

section \<open>Text\<close>

definition check_required :: "field_definition \<Rightarrow> bool \<Rightarrow> field_error + unit" where
  "check_required fd blank = guardE (fd_required fd \<and> blank) (field_fail fd ValidationRequired)"

definition check_min_len :: "py_runtime \<Rightarrow> field_definition \<Rightarrow> pyval \<Rightarrow> pystr \<Rightarrow> field_error + unit" where
  "check_min_len rt fd min_len s =
     (if min_len = PNone then Inr ()
      else bindE (uncaught (py_int rt min_len)) (\<lambda>n. guardE (int (length s) < n) (field_fail fd MinText)))"

definition check_max_len :: "py_runtime \<Rightarrow> field_definition \<Rightarrow> pyval \<Rightarrow> pystr \<Rightarrow> field_error + unit" where
  "check_max_len rt fd max_len s =
     (if max_len = PNone then Inr ()
      else bindE (uncaught (py_int rt max_len)) (\<lambda>n. guardE (int (length s) > n) (field_fail fd MaxText)))"

definition check_pattern :: "py_runtime \<Rightarrow> field_definition \<Rightarrow> pyval \<Rightarrow> pystr \<Rightarrow> field_error + unit" where
  "check_pattern rt fd pattern s =
     (if \<not> truthy pattern then Inr ()
      else case pattern of
             PStr p \<Rightarrow> bindE (uncaught (rt_re_search rt p s)) (\<lambda>ok. guardE (\<not> ok) (field_fail fd InvalidFormat))
           | _ \<Rightarrow> Inl (Raised TypeError))"

text \<open>\<open>max_size not in (None, "", 0) and len(s.encode()) > int(max_size)\<close>.\<close>

definition check_max_size :: "py_runtime \<Rightarrow> field_definition \<Rightarrow> pyval \<Rightarrow> pystr \<Rightarrow> field_error + unit" where
  "check_max_size rt fd max_size s =
     (if is_none_blank_zero max_size then Inr ()
      else case utf8_encode s of
             None \<Rightarrow> Inl (Raised ValueError)
           | Some bytes \<Rightarrow> bindE (uncaught (py_int rt max_size))
               (\<lambda>n. guardE (int (length bytes) > n) (field_fail fd MaxSize)))"

definition validate_text :: "py_runtime \<Rightarrow> field_definition \<Rightarrow> pyval \<Rightarrow> field_result" where
  "validate_text rt fd v =
     (let s = str_or_blank rt v
      in bindE (check_required fd (s = [])) (\<lambda>_.
         if s = [] then Inr (PStr s)
         else bindE (check_min_len rt fd (opt fd ''min'') s) (\<lambda>_.
              bindE (check_max_len rt fd (opt fd ''max'') s) (\<lambda>_.
              bindE (check_pattern rt fd (opt fd ''pattern'') s) (\<lambda>_. Inr (PStr s))))))"

definition validate_editor :: "py_runtime \<Rightarrow> field_definition \<Rightarrow> pyval \<Rightarrow> field_result" where
  "validate_editor rt fd v =
     (let s = str_or_blank rt v
      in bindE (check_required fd (s = [])) (\<lambda>_.
         if s = [] then Inr (PStr s)
         else bindE (check_max_size rt fd (opt fd ''maxSize'') s) (\<lambda>_. Inr (PStr s))))"

definition validate_password :: "py_runtime \<Rightarrow> field_definition \<Rightarrow> pyval \<Rightarrow> field_result" where
  "validate_password rt fd v =
     (let s = str_or_blank rt v;
          min_len = dict_get_or (fd_options fd) (lit ''min'') (PInt 8);
          max_len = dict_get_or (fd_options fd) (lit ''max'') (PInt 71)
      in bindE (check_required fd (s = [])) (\<lambda>_.
         if s = [] then Inr (PStr s)
         else bindE (check_min_len rt fd min_len s) (\<lambda>_.
              bindE (check_max_len rt fd max_len s) (\<lambda>_.
              bindE (check_pattern rt fd (opt fd ''pattern'') s) (\<lambda>_. Inr (PStr s))))))"

section \<open>Numbers and booleans\<close>

text \<open>\<open>float(value)\<close> where \<open>TypeError\<close> and \<open>ValueError\<close> are caught and become the field error \<open>c\<close>.\<close>

definition float_or_fail :: "py_runtime \<Rightarrow> field_definition \<Rightarrow> field_code \<Rightarrow> pyval \<Rightarrow> field_error + pyfloat" where
  "float_or_fail rt fd c v =
     (case py_float rt v of
        Inr f \<Rightarrow> Inr f
      | Inl e \<Rightarrow> Inl (if e = TypeError \<or> e = ValueError then field_fail fd c else Raised e))"

definition number_input :: "py_runtime \<Rightarrow> field_definition \<Rightarrow> pyval \<Rightarrow> field_error + pyfloat" where
  "number_input rt fd v =
     (if v = PNone \<or> (case v of PStr s \<Rightarrow> py_strip s = [] | _ \<Rightarrow> False) then Inr (FFin 0)
      else float_or_fail rt fd NotANumber v)"

definition check_bound ::
  "py_runtime \<Rightarrow> pyval \<Rightarrow> (pyfloat \<Rightarrow> bool) \<Rightarrow> field_error \<Rightarrow> field_error + unit" where
  "check_bound rt bound violates e =
     (if bound = PNone then Inr ()
      else bindE (uncaught (py_float rt bound)) (\<lambda>b. guardE (violates b) e))"

definition validate_number :: "py_runtime \<Rightarrow> field_definition \<Rightarrow> pyval \<Rightarrow> field_result" where
  "validate_number rt fd v =
     bindE (number_input rt fd v) (\<lambda>f.
     (case f of
        FFin q \<Rightarrow>
          let only_int = truthy (dict_get_or (fd_options fd) (lit ''onlyInt'') (PBool False))
          in bindE (check_required fd (q = 0)) (\<lambda>_.
             bindE (if only_int
                    then bindE (uncaught (py_float rt (PInt (rat_trunc q)))) (\<lambda>g.
                           guardE (FFin q \<noteq> g) (field_fail fd OnlyInt))
                    else Inr ()) (\<lambda>_.
             bindE (check_bound rt (opt fd ''min'') (\<lambda>b. flt_less (FFin q) b) (field_fail fd MinNumber)) (\<lambda>_.
             bindE (check_bound rt (opt fd ''max'') (\<lambda>b. flt_less b (FFin q)) (field_fail fd MaxNumber)) (\<lambda>_.
             Inr (if only_int then PInt (rat_trunc q) else PFloat (FFin q))))))
      | _ \<Rightarrow> Inl (field_fail fd NotANumber)))"

definition validate_bool :: "py_runtime \<Rightarrow> field_definition \<Rightarrow> pyval \<Rightarrow> field_result" where
  "validate_bool rt fd v =
     (let b = truthy v in bindE (check_required fd (\<not> b)) (\<lambda>_. Inr (PBool b)))"

section \<open>E-mail addresses and URLs\<close>

text \<open>\<open>^[^@\s]+@[^@\s]+\.[^@\s]+$\<close> on stripped text: one \<open>@\<close>, no white space, an inner dot after it.\<close>

definition email_re :: "pystr \<Rightarrow> bool" where
  "email_re s \<longleftrightarrow>
     (case split_on 64 s of
        [l, d] \<Rightarrow> l \<noteq> [] \<and> \<not> list_ex is_space s \<and> 46 \<in> set (butlast (tl d))
      | _ \<Rightarrow> False)"

text \<open>
  \<open>^https?://\S+$\<close> without case on stripped text; under \<open>re.IGNORECASE\<close> the letter \<open>s\<close> also matches U+017F.
\<close>

definition url_re :: "pystr \<Rightarrow> bool" where
  "url_re s \<longleftrightarrow>
     (let rest = (\<lambda>t. take 3 t = [58, 47, 47] \<and> drop 3 t \<noteq> [] \<and> \<not> list_ex is_space (drop 3 t))
      in map ascii_lower (take 4 s) = lit ''http'' \<and>
         (rest (drop 4 s) \<or>
          (case drop 4 s of c # t \<Rightarrow> (ascii_lower c = 115 \<or> c = 383) \<and> rest t | [] \<Rightarrow> False)))"

text \<open>\<open>[d.lower() for d in domains]\<close> and the two domain tests shared by e-mail addresses and URLs.\<close>

definition lower_all :: "py_runtime \<Rightarrow> pyval \<Rightarrow> pyexn + pystr list" where
  "lower_all rt domains =
     bindE (py_iter domains) (mapE (\<lambda>d. case d of PStr s \<Rightarrow> Inr (rt_lower rt s) | _ \<Rightarrow> Inl AttributeError))"

definition check_domain ::
  "py_runtime \<Rightarrow> field_definition \<Rightarrow> field_code \<Rightarrow> pystr \<Rightarrow> field_error + unit" where
  "check_domain rt fd c domain =
     (let only_domains = py_or (dict_get_or (fd_options fd) (lit ''onlyDomains'') (PList [])) (PList []);
          except_domains = py_or (dict_get_or (fd_options fd) (lit ''exceptDomains'') (PList [])) (PList [])
      in bindE (if truthy only_domains
                then bindE (uncaught (lower_all rt only_domains)) (\<lambda>ds. guardE (domain \<notin> set ds) (field_fail fd c))
                else Inr ()) (\<lambda>_.
         if truthy except_domains
         then bindE (uncaught (lower_all rt except_domains)) (\<lambda>ds. guardE (domain \<in> set ds) (field_fail fd c))
         else Inr ()))"

definition validate_email :: "py_runtime \<Rightarrow> field_definition \<Rightarrow> pyval \<Rightarrow> field_result" where
  "validate_email rt fd v =
     (let s = py_strip (str_or_blank rt v)
      in bindE (check_required fd (s = [])) (\<lambda>_.
         if s = [] then Inr (PStr s)
         else bindE (guardE (\<not> email_re s) (field_fail fd InvalidEmail)) (\<lambda>_.
              bindE (check_domain rt fd InvalidEmailDomain (rt_lower rt (last (split_on 64 s)))) (\<lambda>_. Inr (PStr s)))))"

definition validate_url :: "py_runtime \<Rightarrow> field_definition \<Rightarrow> pyval \<Rightarrow> field_result" where
  "validate_url rt fd v =
     (let s = py_strip (str_or_blank rt v)
      in bindE (check_required fd (s = [])) (\<lambda>_.
         if s = [] then Inr (PStr s)
         else bindE (guardE (\<not> url_re s) (field_fail fd InvalidUrl)) (\<lambda>_.
              let host = (case rt_hostname rt s of None \<Rightarrow> [] | Some h \<Rightarrow> h)
              in bindE (check_domain rt fd InvalidUrlDomain (rt_lower rt host)) (\<lambda>_. Inr (PStr s)))))"

section \<open>Dates\<close>

definition replace_z :: "pystr \<Rightarrow> pystr" where
  "replace_z s = concat (map (\<lambda>c. if c = 90 then lit ''+00:00'' else [c]) s)"

definition option_date :: "py_runtime \<Rightarrow> pyval \<Rightarrow> field_error + pydt" where
  "option_date rt v =
     (case rt_fromisoformat rt (replace_z (py_str rt v)) of None \<Rightarrow> Inl (Raised ValueError) | Some d \<Rightarrow> Inr d)"

text \<open>The parsed input; \<open>None\<close> when it is blank.\<close>

definition date_input :: "py_runtime \<Rightarrow> field_definition \<Rightarrow> pyval \<Rightarrow> field_error + pydt option" where
  "date_input rt fd v =
     (if v = PNone \<or> v = PStr [] then Inr None
      else case v of
             PDatetime d \<Rightarrow> Inr (Some d)
           | _ \<Rightarrow> let s = py_strip (py_str rt v)
                  in if s = [] then Inr None
                     else case rt_fromisoformat rt (replace_z s) of
                            None \<Rightarrow> Inl (field_fail fd InvalidDate)
                          | Some d \<Rightarrow> Inr (Some d))"

definition validate_date :: "py_runtime \<Rightarrow> field_definition \<Rightarrow> pyval \<Rightarrow> field_result" where
  "validate_date rt fd v =
     bindE (date_input rt fd v) (\<lambda>i.
     (case i of
        None \<Rightarrow> bindE (check_required fd True) (\<lambda>_. Inr PNone)
      | Some d \<Rightarrow>
          let min_date = opt fd ''min''; max_date = opt fd ''max''
          in bindE (if truthy min_date
                    then bindE (option_date rt min_date) (\<lambda>b. bindE (uncaught (dt_less d b)) (\<lambda>lt.
                           guardE lt (field_fail fd MinDate)))
                    else Inr ()) (\<lambda>_.
             bindE (if truthy max_date
                    then bindE (option_date rt max_date) (\<lambda>b. bindE (uncaught (dt_less b d)) (\<lambda>lt.
                           guardE lt (field_fail fd MaxDate)))
                    else Inr ()) (\<lambda>_.
             Inr (PDatetime d)))))"

definition validate_autodate :: "py_runtime \<Rightarrow> field_definition \<Rightarrow> pyval \<Rightarrow> field_result" where
  "validate_autodate rt fd v =
     (case v of
        PDatetime d \<Rightarrow> Inr (PStr (rt_strftime rt d))
      | _ \<Rightarrow> Inr (PStr (if v = PNone \<or> v = PStr [] then [] else py_str rt v)))"

section \<open>Selections, files and relations\<close>

definition max_select :: "field_definition \<Rightarrow> pyval" where
  "max_select fd = py_or (dict_get_or (fd_options fd) (lit ''maxSelect'') (PInt 1)) (PInt 1)"

definition is_multi :: "field_definition \<Rightarrow> field_error + bool" where
  "is_multi fd = uncaught (num_less (PInt 1) (max_select fd))"

definition check_max_select :: "field_definition \<Rightarrow> 'a list \<Rightarrow> field_error + unit" where
  "check_max_select fd xs =
     bindE (uncaught (num_less (max_select fd) (PInt (int (length xs))))) (\<lambda>gt. guardE gt (field_fail fd MaxSelect))"

text \<open>Deduplication that keeps the first occurrence.\<close>

fun dedup :: "pystr list \<Rightarrow> pystr list \<Rightarrow> pystr list" where
  "dedup seen [] = []"
| "dedup seen (v # vs) = (if v \<in> set seen then dedup seen vs else v # dedup (v # seen) vs)"

definition check_allowed :: "field_definition \<Rightarrow> pyval \<Rightarrow> pystr \<Rightarrow> field_error + unit" where
  "check_allowed fd allowed s =
     (if truthy allowed
      then bindE (uncaught (str_in s allowed)) (\<lambda>ok. guardE (\<not> ok) (field_fail fd InvalidSelectValue))
      else Inr ())"

definition select_allowed :: "field_definition \<Rightarrow> pyval" where
  "select_allowed fd = py_or (dict_get_or (fd_options fd) (lit ''values'') (PList [])) (PList [])"

fun select_list :: "py_runtime \<Rightarrow> pyval \<Rightarrow> pystr list" where
  "select_list rt PNone = []"
| "select_list rt (PList xs) = map (py_str rt) xs"
| "select_list rt v = [py_str rt v]"

definition validate_select :: "py_runtime \<Rightarrow> field_definition \<Rightarrow> pyval \<Rightarrow> field_result" where
  "validate_select rt fd v =
     bindE (is_multi fd) (\<lambda>multi.
     if multi then
       let xs = select_list rt v; unique = dedup [] xs
       in bindE (check_required fd (xs = [])) (\<lambda>_.
          bindE (check_max_select fd unique) (\<lambda>_.
          bindE (mapE (check_allowed fd (select_allowed fd)) unique) (\<lambda>_. Inr (PList (map PStr unique)))))
     else
       let s = str_or_blank rt v
       in bindE (check_required fd (s = [])) (\<lambda>_.
          bindE (if s \<noteq> [] then check_allowed fd (select_allowed fd) s else Inr ()) (\<lambda>_. Inr (PStr s))))"

text \<open>\<open>[str(v) for v in raw if v]\<close>, used by files and by multiple relations.\<close>

fun truthy_list :: "py_runtime \<Rightarrow> pyval \<Rightarrow> pystr list" where
  "truthy_list rt PNone = []"
| "truthy_list rt (PList xs) = map (py_str rt) (filter truthy xs)"
| "truthy_list rt v = (if truthy v then [py_str rt v] else [])"

definition check_file_reference :: "py_runtime \<Rightarrow> field_definition \<Rightarrow> pystr \<Rightarrow> field_error + pystr" where
  "check_file_reference rt fd s =
     (if is_remote_file_reference rt (PStr s) then Inr s
      else case validate_file_reference (PStr s) of
             Inl _ \<Rightarrow> Inl (field_fail fd InvalidFilename)
           | Inr _ \<Rightarrow> Inr s)"

definition validate_file :: "py_runtime \<Rightarrow> field_definition \<Rightarrow> pyval \<Rightarrow> field_result" where
  "validate_file rt fd v =
     bindE (is_multi fd) (\<lambda>multi.
     bindE (mapE (check_file_reference rt fd) (truthy_list rt v)) (\<lambda>xs.
     if multi then
       bindE (check_required fd (xs = [])) (\<lambda>_.
       bindE (check_max_select fd xs) (\<lambda>_. Inr (PList (map PStr xs))))
     else
       let s = (if xs = [] then [] else last xs)
       in bindE (check_required fd (s = [])) (\<lambda>_. Inr (PStr s))))"

definition validate_relation :: "py_runtime \<Rightarrow> field_definition \<Rightarrow> pyval \<Rightarrow> field_result" where
  "validate_relation rt fd v =
     bindE (is_multi fd) (\<lambda>multi.
     if multi then
       let xs = truthy_list rt v
       in bindE (check_required fd (xs = [])) (\<lambda>_.
          bindE (check_max_select fd xs) (\<lambda>_. Inr (PList (map PStr xs))))
     else
       let s = str_or_blank rt v
       in bindE (check_required fd (s = [])) (\<lambda>_. Inr (PStr s)))"

section \<open>JSON and geographic points\<close>

definition json_parsed :: "py_runtime \<Rightarrow> pyval \<Rightarrow> pyval" where
  "json_parsed rt v =
     (case v of
        PStr s \<Rightarrow>
          (case py_strip s of
             c # cs \<Rightarrow>
               if c \<in> set (lit ''{[tfn'') \<or> c = 34 \<or> rt_isdigit rt c \<or> c = 45
               then (case rt_json_loads rt (c # cs) of Some w \<Rightarrow> w | None \<Rightarrow> v) else v
           | [] \<Rightarrow> v)
      | _ \<Rightarrow> v)"

definition validate_json :: "py_runtime \<Rightarrow> field_definition \<Rightarrow> pyval \<Rightarrow> field_result" where
  "validate_json rt fd v =
     bindE (check_required fd (v = PNone)) (\<lambda>_.
     if v = PNone then Inr PNone
     else let w = json_parsed rt v
          in if is_none_blank_zero (opt fd ''maxSize'') then Inr w
             else bindE (uncaught (rt_json_dumps rt w)) (\<lambda>encoded.
                  bindE (check_max_size rt fd (opt fd ''maxSize'') encoded) (\<lambda>_. Inr w)))"

definition flt_between :: "rat \<Rightarrow> pyfloat \<Rightarrow> rat \<Rightarrow> bool" where
  "flt_between lo f hi = (case f of FFin q \<Rightarrow> lo \<le> q \<and> q \<le> hi | _ \<Rightarrow> False)"

definition geo_point :: "pyfloat \<Rightarrow> pyfloat \<Rightarrow> pyval" where
  "geo_point lon lat = PDict [(lit ''lon'', PFloat lon), (lit ''lat'', PFloat lat)]"

definition validate_geo_point :: "py_runtime \<Rightarrow> field_definition \<Rightarrow> pyval \<Rightarrow> field_result" where
  "validate_geo_point rt fd v =
     (case v of
        PNone \<Rightarrow> bindE (check_required fd True) (\<lambda>_. Inr (geo_point (FFin 0) (FFin 0)))
      | PDict d \<Rightarrow>
          bindE (float_or_fail rt fd InvalidGeoPoint (dict_get_or d (lit ''lon'') (PInt 0))) (\<lambda>lon.
          bindE (float_or_fail rt fd InvalidGeoPoint (dict_get_or d (lit ''lat'') (PInt 0))) (\<lambda>lat.
          bindE (guardE (\<not> flt_between (-180) lon 180) (field_fail fd InvalidGeoPoint)) (\<lambda>_.
          bindE (guardE (\<not> flt_between (-90) lat 90) (field_fail fd InvalidGeoPoint)) (\<lambda>_.
          bindE (check_required fd (lon = FFin 0 \<and> lat = FFin 0)) (\<lambda>_.
          Inr (geo_point lon lat))))))
      | _ \<Rightarrow> Inl (field_fail fd InvalidGeoPoint))"

section \<open>Dispatch\<close>

definition validate_field_value :: "py_runtime \<Rightarrow> field_definition \<Rightarrow> pyval \<Rightarrow> field_result" where
  "validate_field_value rt fd v =
     (case fd_type fd of
        Text \<Rightarrow> validate_text rt fd v
      | Editor \<Rightarrow> validate_editor rt fd v
      | Number \<Rightarrow> validate_number rt fd v
      | Bool \<Rightarrow> validate_bool rt fd v
      | Email \<Rightarrow> validate_email rt fd v
      | Url \<Rightarrow> validate_url rt fd v
      | Date \<Rightarrow> validate_date rt fd v
      | Autodate \<Rightarrow> validate_autodate rt fd v
      | Select \<Rightarrow> validate_select rt fd v
      | File \<Rightarrow> validate_file rt fd v
      | Relation \<Rightarrow> validate_relation rt fd v
      | Json \<Rightarrow> validate_json rt fd v
      | Password \<Rightarrow> validate_password rt fd v
      | GeoPoint \<Rightarrow> validate_geo_point rt fd v)"

section \<open>The contract of a validator\<close>

text \<open>
  What the record service relies on: a cleaned value is a fixed point (a record that is loaded and saved again
  is not changed or refused), and an error is reported under the name of the field.
\<close>

locale field_validator =
  fixes validate :: "field_definition \<Rightarrow> pyval \<Rightarrow> field_result"
  assumes idem: "validate fd v = Inr w \<Longrightarrow> validate fd w = Inr w"
    and own_name: "validate fd v = Inl (FieldError n c) \<Longrightarrow> n = fd_name fd"
begin

lemma validate_twice: "bindE (validate fd v) (validate fd) = validate fd v"
  by (cases "validate fd v") (auto simp: idem)

lemma validate_iterate: "validate fd v = Inr w \<Longrightarrow> ((\<lambda>r. bindE r (validate fd)) ^^ n) (Inr w) = Inr w"
  by (induction n) (auto simp: idem)

end

lemma uncaught_iff [res_simps]:
  "uncaught r = Inr x \<longleftrightarrow> r = Inr x" "uncaught r = Inl e \<longleftrightarrow> (\<exists>x. r = Inl x \<and> e = Raised x)"
  by (auto simp: uncaught_def split: sum.splits)

lemma field_fail_iff [res_simps]: "FieldError n c = field_fail fd c' \<longleftrightarrow> n = fd_name fd \<and> c = c'"
  by (auto simp: field_fail_def)

lemma str_or_blank_PStr [simp]: "str_or_blank rt (PStr s) = s"
  by (simp add: str_or_blank_def)

lemmas check_defs = check_required_def check_min_len_def check_max_len_def check_pattern_def check_max_size_def
  check_bound_def check_domain_def check_max_select_def check_allowed_def is_multi_def option_date_def

interpretation text_field: field_validator "validate_text rt" for rt
  by unfold_locales
     (auto simp: validate_text_def check_defs res_simps Let_def split: if_splits pyval.splits)

interpretation editor_field: field_validator "validate_editor rt" for rt
  by unfold_locales
     (auto simp: validate_editor_def check_defs res_simps Let_def split: if_splits option.splits)

interpretation password_field: field_validator "validate_password rt" for rt
  by unfold_locales
     (auto simp: validate_password_def check_defs res_simps Let_def split: if_splits pyval.splits)

interpretation boolean_field: field_validator "validate_bool rt" for rt
  by unfold_locales (auto simp: validate_bool_def check_defs res_simps Let_def)

interpretation email_field: field_validator "validate_email rt" for rt
  by unfold_locales
     (auto simp: validate_email_def check_defs res_simps Let_def split: if_splits)

interpretation url_field: field_validator "validate_url rt" for rt
  by unfold_locales
     (auto simp: validate_url_def check_defs res_simps Let_def split: if_splits)

interpretation autodate_field: field_validator "validate_autodate rt" for rt
  by unfold_locales (auto simp: validate_autodate_def split: pyval.splits if_splits)

lemma float_or_fail_own: "float_or_fail rt fd c v = Inl (FieldError n c') \<Longrightarrow> n = fd_name fd"
  by (auto simp: float_or_fail_def field_fail_def split: sum.splits if_splits)

lemma float_or_fail_PFloat [simp]: "float_or_fail rt fd c (PFloat f) = Inr f"
  by (simp add: float_or_fail_def)

lemma number_input_own: "number_input rt fd v = Inl (FieldError n c) \<Longrightarrow> n = fd_name fd"
  by (auto simp: number_input_def split: if_splits dest: float_or_fail_own)

lemma number_input_number:
  "number_input rt fd (PFloat f) = Inr f"
  "py_float rt (PInt k) = Inr f \<Longrightarrow> number_input rt fd (PInt k) = Inr f"
  by (simp_all add: number_input_def float_or_fail_def)

lemma validate_number_Inr:
  "validate_number rt fd v = Inr w \<longleftrightarrow>
    (\<exists>q. number_input rt fd v = Inr (FFin q) \<and> (fd_required fd \<longrightarrow> q \<noteq> 0) \<and>
       check_bound rt (opt fd ''min'') (\<lambda>b. flt_less (FFin q) b) (field_fail fd MinNumber) = Inr () \<and>
       check_bound rt (opt fd ''max'') (\<lambda>b. flt_less b (FFin q)) (field_fail fd MaxNumber) = Inr () \<and>
       (if truthy (dict_get_or (fd_options fd) (lit ''onlyInt'') (PBool False))
        then py_float rt (PInt (rat_trunc q)) = Inr (FFin q) \<and> w = PInt (rat_trunc q)
        else w = PFloat (FFin q)))"
  by (cases "number_input rt fd v")
     (auto simp: validate_number_def check_required_def res_simps Let_def simp del: py_float.simps split: pyfloat.split)

interpretation number_field: field_validator "validate_number rt" for rt
proof
  fix fd v w n c
  show "validate_number rt fd w = Inr w" if "validate_number rt fd v = Inr w"
    using that unfolding validate_number_Inr
    by (auto simp: number_input_number simp del: py_float.simps split: if_splits)
  show "n = fd_name fd" if "validate_number rt fd v = Inl (FieldError n c)"
    using that
    by (cases "number_input rt fd v")
       (auto simp: validate_number_def check_required_def check_bound_def res_simps Let_def field_fail_def
          number_input_own simp del: py_float.simps split: pyfloat.splits if_splits)
qed

definition date_bounds :: "py_runtime \<Rightarrow> field_definition \<Rightarrow> pydt \<Rightarrow> field_error + unit" where
  "date_bounds rt fd d =
     bindE (if truthy (opt fd ''min'')
            then bindE (option_date rt (opt fd ''min'')) (\<lambda>b. bindE (uncaught (dt_less d b)) (\<lambda>lt.
                   guardE lt (field_fail fd MinDate)))
            else Inr ()) (\<lambda>_.
      if truthy (opt fd ''max'')
      then bindE (option_date rt (opt fd ''max'')) (\<lambda>b. bindE (uncaught (dt_less b d)) (\<lambda>lt.
             guardE lt (field_fail fd MaxDate)))
      else Inr ())"

lemma validate_date_eq:
  "validate_date rt fd v =
     bindE (date_input rt fd v) (\<lambda>i. case i of
        None \<Rightarrow> bindE (check_required fd True) (\<lambda>_. Inr PNone)
      | Some d \<Rightarrow> bindE (date_bounds rt fd d) (\<lambda>_. Inr (PDatetime d)))"
  unfolding validate_date_def date_bounds_def Let_def bindE_assoc ..

lemma date_input_own: "date_input rt fd v = Inl (FieldError n c) \<Longrightarrow> n = fd_name fd"
  by (auto simp: date_input_def Let_def field_fail_def split: if_splits pyval.splits option.splits)

lemma date_bounds_own: "date_bounds rt fd d = Inl (FieldError n c) \<Longrightarrow> n = fd_name fd"
  by (auto simp: date_bounds_def option_date_def res_simps split: if_splits option.splits)

interpretation date_field: field_validator "validate_date rt" for rt
proof
  fix fd v w n c
  show "validate_date rt fd w = Inr w" if ok: "validate_date rt fd v = Inr w"
  proof -
    have inputs: "date_input rt fd PNone = Inr None" "date_input rt fd (PDatetime d) = Inr (Some d)" for d
      by (simp_all add: date_input_def)
    obtain i where "date_input rt fd v = Inr i" using ok by (auto simp: validate_date_eq bindE_Inr_iff)
    with ok show ?thesis
      by (cases i) (auto simp: validate_date_eq check_required_def res_simps inputs)
  qed
  show "n = fd_name fd" if "validate_date rt fd v = Inl (FieldError n c)"
    using that
    by (auto simp: validate_date_eq check_required_def res_simps dest: date_input_own date_bounds_own
          split: option.splits)
qed

lemma geo_point_get [simp]:
  "dict_get_or [(lit ''lon'', PFloat x), (lit ''lat'', PFloat y)] (lit ''lon'') d = PFloat x"
  "dict_get_or [(lit ''lon'', PFloat x), (lit ''lat'', PFloat y)] (lit ''lat'') d = PFloat y"
  by (simp_all add: dict_get_or_def lit_def)

interpretation geo_point_field: field_validator "validate_geo_point rt" for rt
proof
  fix fd v w n c
  show "validate_geo_point rt fd w = Inr w" if "validate_geo_point rt fd v = Inr w"
    using that
    by (auto simp: validate_geo_point_def geo_point_def check_defs res_simps flt_between_def split: pyval.splits)
  show "n = fd_name fd" if "validate_geo_point rt fd v = Inl (FieldError n c)"
    using that
    by (auto simp: validate_geo_point_def check_defs res_simps field_fail_def dest!: float_or_fail_own
          split: pyval.splits)
qed

lemma dedup_set: "set (dedup seen xs) = set xs - set seen"
  by (induction seen xs rule: dedup.induct) auto

lemma dedup_distinct: "distinct (dedup seen xs)"
  by (induction seen xs rule: dedup.induct) (auto simp: dedup_set)

lemma dedup_distinct_id: "distinct xs \<Longrightarrow> set xs \<inter> set seen = {} \<Longrightarrow> dedup seen xs = xs"
  by (induction seen xs rule: dedup.induct) auto

lemma dedup_idem [simp]: "dedup [] (dedup [] xs) = dedup [] xs"
  by (simp add: dedup_distinct dedup_distinct_id)

lemma dedup_Nil_iff [simp]: "dedup [] xs = [] \<longleftrightarrow> xs = []"
  using dedup_set [of "[]" xs] by (metis Diff_empty empty_set set_empty)

lemma mapE_Inl_ex: "mapE f xs = Inl e \<Longrightarrow> \<exists>x \<in> set xs. f x = Inl e"
  by (induction xs) (auto simp: res_simps)

lemma mapE_Inr_ball: "mapE f xs = Inr ys \<Longrightarrow> x \<in> set xs \<Longrightarrow> \<exists>y. f x = Inr y"
  by (induction xs arbitrary: ys) (auto simp: res_simps)

lemma mapE_same: "(\<And>x y. f x = Inr y \<Longrightarrow> y = x) \<Longrightarrow> mapE f xs = Inr ys \<Longrightarrow> ys = xs"
  by (induction xs arbitrary: ys) (auto simp: res_simps)

lemma map_PStr_strs [simp]: "map (py_str rt) (map PStr xs) = xs" "map (py_str rt \<circ> PStr) xs = xs"
  by (induction xs) auto

lemma is_multi_own: "is_multi fd \<noteq> Inl (FieldError n c)"
  by (auto simp: is_multi_def uncaught_def split: sum.splits)

lemma check_required_own: "check_required fd b = Inl (FieldError n c) \<Longrightarrow> n = fd_name fd"
  by (auto simp: check_required_def res_simps)

lemma check_max_select_own: "check_max_select fd xs = Inl (FieldError n c) \<Longrightarrow> n = fd_name fd"
  by (auto simp: check_max_select_def res_simps)

lemma check_allowed_own: "check_allowed fd a s = Inl (FieldError n c) \<Longrightarrow> n = fd_name fd"
  by (auto simp: check_allowed_def res_simps split: if_splits)

lemmas own_names = check_required_own check_max_select_own check_allowed_own

lemma select_list_strs [simp]: "select_list rt (PList (map PStr xs)) = xs"
  by (simp add: comp_def)

interpretation select_field: field_validator "validate_select rt" for rt
proof
  fix fd v w n c
  assume "validate_select rt fd v = Inr w"
  then obtain multi where m: "is_multi fd = Inr multi" by (auto simp: validate_select_def res_simps)
  then show "validate_select rt fd w = Inr w"
    using \<open>validate_select rt fd v = Inr w\<close>
    by (cases multi) (auto simp: validate_select_def check_required_def bindE_Inr_iff guardE_iff Let_def
          simp del: select_list.simps)
next
  fix fd v w n c
  assume "validate_select rt fd v = Inl (FieldError n c)"
  then show "n = fd_name fd"
    by (auto simp: validate_select_def bindE_Inl_iff Let_def is_multi_own dest: own_names dest!: mapE_Inl_ex
          split: if_splits)
qed

lemma truthy_list_strs: "truthy_list rt (PList (map PStr xs)) = filter (\<lambda>s. s \<noteq> []) xs"
  by (induction xs) auto

lemma truthy_list_nonblank: "s \<in> set (truthy_list rt v) \<Longrightarrow> s \<noteq> []"
  by (cases v) (auto simp: py_str_Nil int_str_def split: if_splits)

lemma truthy_list_idem [simp]: "truthy_list rt (PList (map PStr (truthy_list rt v))) = truthy_list rt v"
  using truthy_list_nonblank by (auto simp: truthy_list_strs filter_id_conv simp del: truthy_list.simps)

interpretation relation_field: field_validator "validate_relation rt" for rt
proof
  fix fd v w n c
  assume "validate_relation rt fd v = Inr w"
  then obtain multi where m: "is_multi fd = Inr multi" by (auto simp: validate_relation_def res_simps)
  then show "validate_relation rt fd w = Inr w"
    using \<open>validate_relation rt fd v = Inr w\<close>
    by (cases multi) (auto simp: validate_relation_def check_required_def bindE_Inr_iff guardE_iff Let_def
          simp del: truthy_list.simps)
next
  fix fd v w n c
  assume "validate_relation rt fd v = Inl (FieldError n c)"
  then show "n = fd_name fd"
    by (auto simp: validate_relation_def bindE_Inl_iff Let_def is_multi_own dest: own_names split: if_splits)
qed

lemma check_file_reference_same: "check_file_reference rt fd s = Inr s' \<Longrightarrow> s' = s"
  by (auto simp: check_file_reference_def split: if_splits sum.splits)

lemma check_file_reference_own: "check_file_reference rt fd s = Inl (FieldError n c) \<Longrightarrow> n = fd_name fd"
  by (auto simp: check_file_reference_def field_fail_def split: if_splits sum.splits)

lemma mapE_check_file_reference: "mapE (check_file_reference rt fd) xs = Inr ys \<Longrightarrow> ys = xs"
  by (erule mapE_same [rotated]) (rule check_file_reference_same)

lemma truthy_list_PStr: "truthy_list rt (PStr s) = (if s = [] then [] else [s])"
  by simp

interpretation file_field: field_validator "validate_file rt" for rt
proof
  fix fd v w n c
  assume w: "validate_file rt fd v = Inr w"
  then obtain multi xs where m: "is_multi fd = Inr multi" and xs: "mapE (check_file_reference rt fd) (truthy_list rt v) = Inr xs"
    by (auto simp: validate_file_def bindE_Inr_iff)
  then have eq: "xs = truthy_list rt v" by (simp add: mapE_check_file_reference)
  show "validate_file rt fd w = Inr w"
  proof (cases multi)
    case True
    with w m xs show ?thesis
      by (auto simp: validate_file_def check_required_def bindE_Inr_iff guardE_iff eq simp del: truthy_list.simps)
  next
    case False
    with w m xs have w: "w = PStr (if xs = [] then [] else last xs)" "fd_required fd \<longrightarrow> w \<noteq> PStr []"
      by (auto simp: validate_file_def check_required_def bindE_Inr_iff guardE_iff Let_def simp del: truthy_list.simps)
    have "check_file_reference rt fd (last xs) = Inr (last xs)" if "xs \<noteq> []"
      using mapE_Inr_ball [OF xs [unfolded eq], of "last xs"] that check_file_reference_same
      by (metis eq last_in_set)
    with w m False show ?thesis
      by (auto simp: validate_file_def check_required_def truthy_list_PStr Let_def simp del: truthy_list.simps)
  qed
next
  fix fd v w n c
  assume "validate_file rt fd v = Inl (FieldError n c)"
  then show "n = fd_name fd"
    by (auto simp: validate_file_def bindE_Inl_iff Let_def is_multi_own dest: own_names check_file_reference_own
          dest!: mapE_Inl_ex split: if_splits simp del: truthy_list.simps)
qed

section \<open>Properties\<close>

text \<open>
  C38: Validation is stable.  For every field type except JSON, validating a cleaned value again accepts it and
  returns it unchanged, whatever the field's options and the raw value were (exceptions included: validating
  twice in a row is the same as validating once).
\<close>

theorem validation_stable:
  assumes "fd_type fd \<noteq> Json"
  shows "bindE (validate_field_value rt fd v) (validate_field_value rt fd) = validate_field_value rt fd v"
  using assms
  by (cases "fd_type fd")
     (simp_all add: validate_field_value_def [abs_def] text_field.validate_twice editor_field.validate_twice
        number_field.validate_twice boolean_field.validate_twice email_field.validate_twice url_field.validate_twice
        date_field.validate_twice autodate_field.validate_twice select_field.validate_twice file_field.validate_twice
        relation_field.validate_twice password_field.validate_twice geo_point_field.validate_twice)

definition sample_field :: "field_type \<Rightarrow> bool \<Rightarrow> (pystr \<times> pyval) list \<Rightarrow> field_definition" where
  "sample_field ty req opts = \<lparr>fd_id = [], fd_name = [102], fd_type = ty, fd_required = req, fd_system = False,
     fd_hidden = False, fd_presentable = False, fd_options = opts\<rparr>"

theorem validation_stable_witness:
  "bindE (validate_field_value sample_rt (sample_field Email True []) (PStr (lit '' a@b.c '')))
      (validate_field_value sample_rt (sample_field Email True []))
   = validate_field_value sample_rt (sample_field Email True []) (PStr (lit '' a@b.c ''))"
  by (rule validation_stable) (simp add: sample_field_def)

text \<open>The values that count as blank in an accepted record.\<close>

fun blank_value :: "pyval \<Rightarrow> bool" where
  "blank_value PNone = True"
| "blank_value (PBool b) = (\<not> b)"
| "blank_value (PInt n) = (n = 0)"
| "blank_value (PFloat f) = (f = FFin 0)"
| "blank_value (PStr s) = (s = [])"
| "blank_value (PList xs) = (xs = [])"
| "blank_value (PDict d) = (d = [(lit ''lon'', PFloat (FFin 0)), (lit ''lat'', PFloat (FFin 0))])"
| "blank_value (PDatetime d) = False"

lemma text_like_required:
  "fd_required fd \<Longrightarrow> validate_text rt fd v = Inr w \<Longrightarrow> \<not> blank_value w"
  "fd_required fd \<Longrightarrow> validate_editor rt fd v = Inr w \<Longrightarrow> \<not> blank_value w"
  "fd_required fd \<Longrightarrow> validate_password rt fd v = Inr w \<Longrightarrow> \<not> blank_value w"
  "fd_required fd \<Longrightarrow> validate_email rt fd v = Inr w \<Longrightarrow> \<not> blank_value w"
  "fd_required fd \<Longrightarrow> validate_url rt fd v = Inr w \<Longrightarrow> \<not> blank_value w"
  "fd_required fd \<Longrightarrow> validate_bool rt fd v = Inr w \<Longrightarrow> \<not> blank_value w"
  by (auto simp: validate_text_def validate_editor_def validate_password_def validate_email_def validate_url_def
        validate_bool_def check_required_def bindE_Inr_iff guardE_iff Let_def split: if_splits)

lemma list_like_required:
  "fd_required fd \<Longrightarrow> validate_select rt fd v = Inr w \<Longrightarrow> \<not> blank_value w"
  "fd_required fd \<Longrightarrow> validate_file rt fd v = Inr w \<Longrightarrow> \<not> blank_value w"
  "fd_required fd \<Longrightarrow> validate_relation rt fd v = Inr w \<Longrightarrow> \<not> blank_value w"
  by (auto simp: validate_select_def validate_file_def validate_relation_def check_required_def bindE_Inr_iff
        guardE_iff Let_def split: if_splits)

lemma number_required:
  "fd_required fd \<Longrightarrow> py_float rt (PInt 0) = Inr (FFin 0) \<Longrightarrow> validate_number rt fd v = Inr w \<Longrightarrow> \<not> blank_value w"
  unfolding validate_number_Inr by (auto simp del: py_float.simps split: if_splits)

lemma date_required: "fd_required fd \<Longrightarrow> validate_date rt fd v = Inr w \<Longrightarrow> \<not> blank_value w"
  by (auto simp: validate_date_eq check_required_def bindE_Inr_iff split: option.splits)

lemma geo_required: "fd_required fd \<Longrightarrow> validate_geo_point rt fd v = Inr w \<Longrightarrow> \<not> blank_value w"
  by (auto simp: validate_geo_point_def geo_point_def check_required_def bindE_Inr_iff guardE_iff split: pyval.splits)

text \<open>
  A required field never ends up blank.  Except for autodate (never checked) and JSON (see
  \<open>required_json_null\<close>), an accepted value of a required field is not null, empty text, an empty list,
  false, zero or the zero point.  The only fact used of the runtime is \<open>float(0) == 0.0\<close>.
\<close>

theorem required_not_blank:
  assumes "fd_required fd" "fd_type fd \<noteq> Autodate" "fd_type fd \<noteq> Json"
    and "py_float rt (PInt 0) = Inr (FFin 0)"
    and "validate_field_value rt fd v = Inr w"
  shows "\<not> blank_value w"
  using assms
  by (cases "fd_type fd")
     (simp_all add: validate_field_value_def text_like_required list_like_required number_required date_required
        geo_required del: py_float.simps)

theorem required_not_blank_witness:
  "validate_field_value sample_rt (sample_field Bool True []) (PInt 7) = Inr (PBool True) \<and> \<not> blank_value (PBool True)"
proof -
  have "validate_field_value sample_rt (sample_field Bool True []) (PInt 7) = Inr (PBool True)"
    by (simp add: validate_field_value_def sample_field_def validate_bool_def check_required_def)
  moreover have "fd_required (sample_field Bool True [])" "fd_type (sample_field Bool True []) \<noteq> Autodate"
    "fd_type (sample_field Bool True []) \<noteq> Json" "py_float sample_rt (PInt 0) = Inr (FFin 0)"
    by (simp_all add: sample_field_def sample_rt_def)
  ultimately show ?thesis using required_not_blank by blast
qed

text \<open>A required JSON field accepts the text \<open>null\<close> and stores null: only the raw value is checked.\<close>

lemma required_json_null:
  "rt_json_loads rt (lit ''null'') = Some PNone \<Longrightarrow> is_none_blank_zero (opt fd ''maxSize'') \<Longrightarrow>
     validate_json rt fd (PStr (lit ''null'')) = Inr PNone"
  by (simp add: validate_json_def json_parsed_def check_required_def lit_def py_strip_def is_space_def)

text \<open>
  Multiple selections, on every branch: the error order of the source, and on success the distinct
  choices in the order of their first occurrence.
\<close>

theorem select_multi_correct:
  assumes "map_of (fd_options fd) (lit ''maxSelect'') = Some (PInt k)" "1 < k"
    and "map_of (fd_options fd) (lit ''values'') = Some (PList (map PStr allowed))"
  shows "let xs = select_list rt v; unique = dedup [] xs in
    distinct unique \<and> set unique = set xs \<and>
    validate_select rt fd v =
      (if fd_required fd \<and> xs = [] then Inl (field_fail fd ValidationRequired)
       else if k < int (card (set xs)) then Inl (field_fail fd MaxSelect)
       else if allowed \<noteq> [] \<and> \<not> set xs \<subseteq> set allowed then Inl (field_fail fd InvalidSelectValue)
       else Inr (PList (map PStr unique)))"
proof -
  let ?xs = "select_list rt v" and ?u = "dedup [] (select_list rt v)"
  have u: "distinct ?u" "set ?u = set ?xs" by (simp_all add: dedup_distinct dedup_set)
  then have len: "length ?u = card (set ?xs)" using distinct_card by metis
  have ms: "max_select fd = PInt k"
    using assms(1,2) by (simp add: max_select_def dict_get_or_def py_or_def)
  have multi: "is_multi fd = Inr True"
    using assms(2) by (simp add: is_multi_def ms num_less_def uncaught_def)
  have "rat_of_int k < rat_of_nat n \<longleftrightarrow> k < int n" for n
    by (metis of_int_less_iff of_int_of_nat_eq)
  then have cms: "check_max_select fd ?u = guardE (k < int (card (set ?xs))) (field_fail fd MaxSelect)"
    by (simp add: check_max_select_def ms num_less_def uncaught_def len)
  have allowed: "select_allowed fd = PList (map PStr allowed)"
    using assms(3) by (simp add: select_allowed_def dict_get_or_def py_or_def)
  have ca: "check_allowed fd (select_allowed fd) s =
      guardE (allowed \<noteq> [] \<and> s \<notin> set allowed) (field_fail fd InvalidSelectValue)" for s
    by (simp add: check_allowed_def allowed uncaught_def image_iff)
  have all: "mapE (check_allowed fd (select_allowed fd)) ys =
      (if allowed \<noteq> [] \<and> \<not> set ys \<subseteq> set allowed then Inl (field_fail fd InvalidSelectValue)
       else Inr (map (\<lambda>_. ()) ys))" for ys
    by (induction ys) (auto simp: ca guardE_def)
  show ?thesis
    unfolding validate_select_def multi bindE.simps if_True Let_def cms all u(2)
    using u by (simp add: check_required_def guardE_def)
qed

theorem select_multi_correct_witness:
  "validate_select sample_rt
      (sample_field Select False [(lit ''maxSelect'', PInt 2), (lit ''values'', PList (map PStr [[97], [98]]))])
      (PList [PStr [98], PStr [97], PStr [98]]) = Inr (PList [PStr [98], PStr [97]])"
  using select_multi_correct [of
      "sample_field Select False [(lit ''maxSelect'', PInt 2), (lit ''values'', PList (map PStr [[97], [98]]))]" 2
      "[[97], [98]]" sample_rt "PList [PStr [98], PStr [97], PStr [98]]"]
  by (simp add: sample_field_def lit_def insert_commute insert_absorb2)

definition integral_floats :: "py_runtime \<Rightarrow> bool" where
  "integral_floats rt \<longleftrightarrow> (\<forall>q. rt_float_of_int rt (rat_trunc q) = Some (FFin q) \<longrightarrow> q = of_int (rat_trunc q))"

lemma check_bound_Inr: "check_bound rt b P e = Inr u \<longleftrightarrow> b = PNone \<or> (\<exists>f. py_float rt b = Inr f \<and> \<not> P f)"
  by (auto simp: check_bound_def res_simps simp del: py_float.simps)

text \<open>
  An accepted number lies within the configured bounds, is finite, and is an integer when \<open>onlyInt\<close> is
  set.  \<open>integral_floats\<close> is the fact that \<open>float(int(x)) == x\<close> holds only for integral \<open>x\<close>.
\<close>

theorem number_in_range:
  assumes "integral_floats rt" "validate_number rt fd v = Inr w"
  shows "\<exists>q. num_val w = Some (FFin q) \<and>
    (opt fd ''min'' = PNone \<or> (\<exists>b. py_float rt (opt fd ''min'') = Inr b \<and> \<not> flt_less (FFin q) b)) \<and>
    (opt fd ''max'' = PNone \<or> (\<exists>b. py_float rt (opt fd ''max'') = Inr b \<and> \<not> flt_less b (FFin q))) \<and>
    (truthy (opt fd ''onlyInt'') \<longrightarrow> (\<exists>n. w = PInt n))"
proof -
  obtain q where q: "number_input rt fd v = Inr (FFin q)"
    "opt fd ''min'' = PNone \<or> (\<exists>b. py_float rt (opt fd ''min'') = Inr b \<and> \<not> flt_less (FFin q) b)"
    "opt fd ''max'' = PNone \<or> (\<exists>b. py_float rt (opt fd ''max'') = Inr b \<and> \<not> flt_less b (FFin q))"
    and w: "if truthy (dict_get_or (fd_options fd) (lit ''onlyInt'') (PBool False))
      then py_float rt (PInt (rat_trunc q)) = Inr (FFin q) \<and> w = PInt (rat_trunc q) else w = PFloat (FFin q)"
    using assms(2) unfolding validate_number_Inr check_bound_Inr by blast
  have only: "truthy (dict_get_or (fd_options fd) (lit ''onlyInt'') (PBool False)) = truthy (opt fd ''onlyInt'')"
    by (simp add: opt_def dict_get_def dict_get_or_def split: option.split)
  have "num_val w = Some (FFin q)"
    using w assms(1) by (auto simp: integral_floats_def split: if_splits option.splits)
  with q(2,3) w show ?thesis
    unfolding only by (intro exI [of _ q]) (simp del: py_float.simps split: if_splits)
qed

lemma integral_floats_sample: "integral_floats sample_rt"
  by (auto simp: integral_floats_def sample_rt_def split: if_splits)

theorem number_in_range_witness:
  "\<exists>q. num_val (PFloat (FFin 3)) = Some (FFin q) \<and>
     (\<exists>b. py_float sample_rt (PInt 1) = Inr b \<and> \<not> flt_less (FFin q) b)"
proof -
  let ?fd = "sample_field Number False [(lit ''min'', PInt 1)]"
  have o: "opt ?fd ''min'' = PInt 1" "opt ?fd ''max'' = PNone"
    by (simp_all add: opt_def sample_field_def dict_get_def lit_def)
  have "validate_number sample_rt ?fd (PFloat (FFin 3)) = Inr (PFloat (FFin 3))"
    unfolding validate_number_Inr
    by (simp add: number_input_def float_or_fail_def check_bound_Inr o)
       (simp add: sample_rt_def sample_field_def dict_get_or_def lit_def)
  from number_in_range [OF integral_floats_sample this] show ?thesis by (auto simp: o)
qed

definition file_value_refs :: "pyval \<Rightarrow> pystr list" where
  "file_value_refs w = (case w of PStr s \<Rightarrow> if s = [] then [] else [s]
     | PList xs \<Rightarrow> concat (map (\<lambda>x. case x of PStr s \<Rightarrow> [s] | _ \<Rightarrow> []) xs) | _ \<Rightarrow> [])"

text \<open>
  Every file reference a file field accepts is either a remote URL or a single safe path component of at
  most 255 bytes.
\<close>

theorem accepted_files_safe:
  assumes "validate_file rt fd v = Inr w" "s \<in> set (file_value_refs w)"
  shows "is_remote_file_reference rt (PStr s) \<or> validate_file_reference (PStr s) = Inr s"
proof -
  obtain multi xs where xs: "mapE (check_file_reference rt fd) (truthy_list rt v) = Inr xs"
    and w: "w = PList (map PStr xs) \<or> w = PStr (if xs = [] then [] else last xs)"
    using assms(1) by (auto simp: validate_file_def bindE_Inr_iff Let_def split: if_splits)
  have "concat (map (\<lambda>x. case x of PStr s \<Rightarrow> [s] | _ \<Rightarrow> []) (map PStr xs)) = xs" by (induction xs) auto
  then have "s \<in> set xs"
    using w assms(2) by (auto simp: file_value_refs_def split: if_splits)
  then have "check_file_reference rt fd s = Inr s"
    using mapE_Inr_ball [OF xs, of s] mapE_check_file_reference [OF xs] check_file_reference_same by metis
  then have "is_remote_file_reference rt (PStr s) \<or> is_ok (validate_file_reference (PStr s))"
    by (auto simp: check_file_reference_def split: if_splits sum.splits)
  moreover have "r = s" if "validate_file_reference (PStr s) = Inr r" for r
    using that by (simp add: validate_file_reference_def validate_single_component_iff)
  ultimately show ?thesis by (cases "validate_file_reference (PStr s)") auto
qed

theorem accepted_files_safe_witness:
  "is_remote_file_reference sample_rt (PStr (lit ''a.png'')) \<or>
     validate_file_reference (PStr (lit ''a.png'')) = Inr (lit ''a.png'')"
proof -
  let ?fd = "sample_field File False []"
  have r: "validate_file_reference (PStr (lit ''a.png'')) = Inr (lit ''a.png'')" by code_simp
  have "validate_file sample_rt ?fd (PStr (lit ''a.png'')) = Inr (PStr (lit ''a.png''))"
    by (simp add: validate_file_def is_multi_def max_select_def dict_get_or_def py_or_def num_less_def uncaught_def
      check_file_reference_def r check_required_def sample_field_def)
  then show ?thesis
    by (rule accepted_files_safe) (simp add: file_value_refs_def)
qed

end
