(* ===== verification/Copy_Format.thy ===== *)
theory Copy_Format
  imports Py_Value
begin

text \<open>
  Model of \<open>ppbase/backup/copy_format.py\<close>: the container \<open>data.copy\<close> of compressed table segments, its
  metadata and layout check, the streaming writer and the guarded streaming reader, and the COPY export and
  import built on them.

  The write function of the sink, \<open>zlib\<close>, SHA-256 and PostgreSQL are not under \<open>src/\<close>; the operations they
  offer are the record \<open>copy_env\<close>.  A hash object is the bytes fed to it so far.  The inner reader loop runs as
  long as \<open>zlib\<close> reports unconsumed input, so it is a \<open>partial_function\<close>: \<open>None\<close> means that it never stops.
\<close>

type_synonym bytes = "nat list"

datatype copy_error =
    BadIdentifier | IdentifierTooLong | BadInt | BadSha | NoColumns | DuplicateColumn | BadCompression | BadFields
  | BadColumns | NotContiguous | LengthOverflow | PastEnd | ClaimsData | RatioCap | Budget | NotCovering
  | NoBytesAccepted | WriterClosed | SegmentIsOpen | AlreadyFinished | Truncated | InflatesPast | InvalidZlib
  | SizeMismatch | TrailingCompressed | UnusedBytes | CompressedHash | RawHash | BadStatus | RowCountMismatch
  | CopyRaised pyexn

definition COMPRESSION_ZLIB :: pystr where
  "COMPRESSION_ZLIB = lit ''zlib''"

definition CHUNK_SIZE :: nat where
  "CHUNK_SIZE = 1048576"

definition DEFAULT_MAX_RATIO :: int where
  "DEFAULT_MAX_RATIO = 200"

definition DEFAULT_MAX_TOTAL :: int where
  "DEFAULT_MAX_TOTAL = 64 * 1073741824"

section \<open>Field validation\<close>

definition ident_char :: "nat \<Rightarrow> bool" where
  "ident_char c \<longleftrightarrow> ascii_alpha c \<or> c = 95 \<or> is_ascii_digit c"

fun identifier_pattern :: "pystr \<Rightarrow> bool" where
  "identifier_pattern [] = False"
| "identifier_pattern (c # cs) = ((ascii_alpha c \<or> c = 95) \<and> list_all ident_char cs)"

definition IDENTIFIER_MAX_BYTES :: nat where
  "IDENTIFIER_MAX_BYTES = 63"

text \<open>An identifier is ASCII, so its UTF-8 length is its length.\<close>

definition validate_identifier :: "pyval \<Rightarrow> copy_error + pystr" where
  "validate_identifier v =
     (case v of
        PStr s \<Rightarrow> if \<not> identifier_pattern s then Inl BadIdentifier
                  else if IDENTIFIER_MAX_BYTES < length s then Inl IdentifierTooLong else Inr s
      | _ \<Rightarrow> Inl BadIdentifier)"

definition validate_non_negative_int :: "pyval \<Rightarrow> copy_error + int" where
  "validate_non_negative_int v = (case v of PInt n \<Rightarrow> if n < 0 then Inl BadInt else Inr n | _ \<Rightarrow> Inl BadInt)"

definition lower_hex :: "nat \<Rightarrow> bool" where
  "lower_hex c \<longleftrightarrow> is_ascii_digit c \<or> (97 \<le> c \<and> c \<le> 102)"

definition validate_sha256 :: "pyval \<Rightarrow> copy_error + pystr" where
  "validate_sha256 v =
     (case v of PStr s \<Rightarrow> if length s = 64 \<and> list_all lower_hex s then Inr s else Inl BadSha | _ \<Rightarrow> Inl BadSha)"

section \<open>Segment metadata\<close>

record copy_segment =
  cs_table :: pystr
  cs_columns :: "pystr list"
  cs_offset :: int
  cs_compressed_size :: int
  cs_compressed_sha256 :: pystr
  cs_uncompressed_size :: int
  cs_uncompressed_sha256 :: pystr
  cs_row_count :: int
  cs_compression :: pystr

fun validate_columns :: "pystr list \<Rightarrow> pyval list \<Rightarrow> copy_error + pystr list" where
  "validate_columns seen [] = Inr []"
| "validate_columns seen (c # cs) =
     bindE (validate_identifier c) (\<lambda>name.
       if name \<in> set seen then Inl DuplicateColumn
       else bindE (validate_columns (name # seen) cs) (\<lambda>names. Inr (name # names)))"

text \<open>\<open>value not in frozenset(...)\<close> raises \<open>TypeError\<close> for an unhashable value.\<close>

definition validate_compression :: "pyval \<Rightarrow> copy_error + pystr" where
  "validate_compression v =
     (case v of
        PStr s \<Rightarrow> if s = COMPRESSION_ZLIB then Inr s else Inl BadCompression
      | PList _ \<Rightarrow> Inl (CopyRaised TypeError)
      | PDict _ \<Rightarrow> Inl (CopyRaised TypeError)
      | _ \<Rightarrow> Inl BadCompression)"

text \<open>\<open>CopySegment(...)\<close>: the constructor with \<open>__post_init__\<close>.\<close>

definition mk_segment ::
  "pyval \<Rightarrow> pyval list \<Rightarrow> pyval \<Rightarrow> pyval \<Rightarrow> pyval \<Rightarrow> pyval \<Rightarrow> pyval \<Rightarrow> pyval \<Rightarrow> pyval \<Rightarrow> copy_error + copy_segment" where
  "mk_segment table columns off csize csha usize usha rows compression =
     bindE (validate_identifier table) (\<lambda>t.
     bindE (guardE (columns = []) NoColumns) (\<lambda>_.
     bindE (validate_columns [] columns) (\<lambda>cols.
     bindE (validate_non_negative_int off) (\<lambda>o1.
     bindE (validate_non_negative_int csize) (\<lambda>cz.
     bindE (validate_non_negative_int usize) (\<lambda>uz.
     bindE (validate_non_negative_int rows) (\<lambda>rc.
     bindE (validate_sha256 csha) (\<lambda>ch.
     bindE (validate_sha256 usha) (\<lambda>uh.
     bindE (validate_compression compression) (\<lambda>comp.
     Inr \<lparr>cs_table = t, cs_columns = cols, cs_offset = o1, cs_compressed_size = cz, cs_compressed_sha256 = ch,
       cs_uncompressed_size = uz, cs_uncompressed_sha256 = uh, cs_row_count = rc, cs_compression = comp\<rparr>))))))))))"

definition end_offset :: "copy_segment \<Rightarrow> int" where
  "end_offset s = cs_offset s + cs_compressed_size s"

definition segment_keys :: "pystr list" where
  "segment_keys = map lit [''table'', ''columns'', ''offset'', ''compressed_size'', ''compressed_sha256'',
     ''uncompressed_size'', ''uncompressed_sha256'', ''row_count'', ''compression'']"

definition to_dict :: "copy_segment \<Rightarrow> pyval" where
  "to_dict s = PDict (zip segment_keys
     [PStr (cs_table s), PList (map PStr (cs_columns s)), PInt (cs_offset s), PInt (cs_compressed_size s),
      PStr (cs_compressed_sha256 s), PInt (cs_uncompressed_size s), PStr (cs_uncompressed_sha256 s),
      PInt (cs_row_count s), PStr (cs_compression s)])"

definition from_dict :: "pyval \<Rightarrow> copy_error + copy_segment" where
  "from_dict v =
     (case v of
        PDict d \<Rightarrow>
          if fst ` set d \<noteq> set segment_keys then Inl BadFields
          else (case dict_get d (lit ''columns'') of
                  PList columns \<Rightarrow>
                    mk_segment (dict_get d (lit ''table'')) columns (dict_get d (lit ''offset''))
                      (dict_get d (lit ''compressed_size'')) (dict_get d (lit ''compressed_sha256''))
                      (dict_get d (lit ''uncompressed_size'')) (dict_get d (lit ''uncompressed_sha256''))
                      (dict_get d (lit ''row_count'')) (dict_get d (lit ''compression''))
                | _ \<Rightarrow> Inl BadColumns)
      | _ \<Rightarrow> Inl BadFields)"

section \<open>Layout\<close>

definition check_ratio :: "int \<Rightarrow> copy_segment \<Rightarrow> copy_error + unit" where
  "check_ratio max_ratio s =
     (if cs_compressed_size s = 0 then guardE (cs_uncompressed_size s \<noteq> 0) ClaimsData
      else guardE (cs_uncompressed_size s > cs_compressed_size s * max_ratio) RatioCap)"

fun layout_loop :: "int \<Rightarrow> int \<Rightarrow> int \<Rightarrow> int \<Rightarrow> int \<Rightarrow> copy_segment list \<Rightarrow> copy_error + unit" where
  "layout_loop total_size budget max_ratio cursor acc [] = guardE (cursor \<noteq> total_size) NotCovering"
| "layout_loop total_size budget max_ratio cursor acc (s # ss) =
     bindE (guardE (cs_offset s \<noteq> cursor) NotContiguous) (\<lambda>_.
     bindE (guardE (end_offset s < cs_offset s) LengthOverflow) (\<lambda>_.
     bindE (guardE (end_offset s > total_size) PastEnd) (\<lambda>_.
     bindE (check_ratio max_ratio s) (\<lambda>_.
     bindE (guardE (acc + cs_uncompressed_size s > budget) Budget) (\<lambda>_.
     layout_loop total_size budget max_ratio (end_offset s) (acc + cs_uncompressed_size s) ss)))))"

definition validate_segment_layout ::
  "copy_segment list \<Rightarrow> int \<Rightarrow> int \<Rightarrow> int \<Rightarrow> copy_error + copy_segment list" where
  "validate_segment_layout segments total_size max_total_uncompressed max_ratio =
     bindE (layout_loop total_size max_total_uncompressed max_ratio 0 0 segments) (\<lambda>_. Inr segments)"

section \<open>Writing\<close>

text \<open>
  The operations of the sink, of \<open>zlib.compressobj\<close> / \<open>zlib.decompressobj\<close> and of SHA-256.  \<open>ce_write\<close> gives the
  count of accepted bytes, or \<open>None\<close> as buffered sinks do; \<open>ce_decompress\<close> takes the input and \<open>max_length\<close>.
\<close>

record ('s, 'c, 'd) copy_env =
  ce_write :: "'s \<Rightarrow> bytes \<Rightarrow> nat option \<times> 's"
  ce_tell :: "'s \<Rightarrow> int"
  ce_compressobj :: 'c
  ce_compress :: "'c \<Rightarrow> bytes \<Rightarrow> bytes \<times> 'c"
  ce_flush :: "'c \<Rightarrow> bytes"
  ce_decompressobj :: 'd
  ce_decompress :: "'d \<Rightarrow> bytes \<Rightarrow> nat \<Rightarrow> (bytes \<times> 'd) option"
  ce_tail :: "'d \<Rightarrow> bytes"
  ce_dflush :: "'d \<Rightarrow> (bytes \<times> 'd) option"
  ce_eof :: "'d \<Rightarrow> bool"
  ce_unused :: "'d \<Rightarrow> bytes"
  ce_sha :: "bytes \<Rightarrow> pystr"

record 's seg_writer =
  sw_sink :: 's
  sw_base :: int
  sw_written :: nat
  sw_closed :: bool
  sw_open :: bool

definition new_writer :: "('s, 'c, 'd) copy_env \<Rightarrow> 's \<Rightarrow> 's seg_writer" where
  "new_writer env sink =
     \<lparr>sw_sink = sink, sw_base = ce_tell env sink, sw_written = 0, sw_closed = False, sw_open = False\<rparr>"

text \<open>The loop of \<open>_emit\<close> over the bytes not yet accepted.\<close>

function emit_loop :: "('s, 'c, 'd) copy_env \<Rightarrow> bytes \<Rightarrow> 's \<Rightarrow> (copy_error + unit) \<times> 's" where
  "emit_loop env rest sink =
     (if rest = [] then (Inr (), sink)
      else case ce_write env sink rest of
             (None, sink1) \<Rightarrow> (Inr (), sink1)
           | (Some n, sink1) \<Rightarrow>
               if n = 0 then (Inl NoBytesAccepted, sink1) else emit_loop env (drop n rest) sink1)"
  by pat_completeness auto
termination by (relation "measure (\<lambda>(env, rest, sink). length rest)") auto

declare emit_loop.simps [simp del]

definition emit :: "('s, 'c, 'd) copy_env \<Rightarrow> bytes \<Rightarrow> 's seg_writer \<Rightarrow> (copy_error + unit) \<times> 's seg_writer" where
  "emit env data w =
     (if data = [] then (Inr (), w)
      else case emit_loop env data (sw_sink w) of
             (Inl e, sink) \<Rightarrow> (Inl e, w\<lparr>sw_sink := sink\<rparr>)
           | (Inr _, sink) \<Rightarrow> (Inr (), w\<lparr>sw_sink := sink, sw_written := sw_written w + length data\<rparr>))"

record 'c open_segment =
  os_table :: pystr
  os_columns :: "pyval list"
  os_offset :: nat
  os_compressor :: 'c
  os_raw_hash :: bytes
  os_comp_hash :: bytes
  os_uncompressed_size :: nat
  os_compressed_size :: nat
  os_done :: bool

definition begin_segment ::
  "('s, 'c, 'd) copy_env \<Rightarrow> pyval \<Rightarrow> pyval list \<Rightarrow> 's seg_writer \<Rightarrow> (copy_error + 'c open_segment) \<times> 's seg_writer" where
  "begin_segment env table columns w =
     (if sw_closed w then (Inl WriterClosed, w)
      else if sw_open w then (Inl SegmentIsOpen, w)
      else case validate_identifier table of
             Inl e \<Rightarrow> (Inl e, w)
           | Inr t \<Rightarrow>
               (Inr \<lparr>os_table = t, os_columns = columns, os_offset = sw_written w, os_compressor = ce_compressobj env,
                  os_raw_hash = [], os_comp_hash = [], os_uncompressed_size = 0, os_compressed_size = 0,
                  os_done = False\<rparr>, w\<lparr>sw_open := True\<rparr>))"

text \<open>Account for compressed output and emit it; the \<open>if compressed:\<close> blocks of \<open>feed\<close> and \<open>finish\<close>.\<close>

definition put_compressed ::
  "('s, 'c, 'd) copy_env \<Rightarrow> bytes \<Rightarrow> 'c open_segment \<Rightarrow> 's seg_writer
    \<Rightarrow> (copy_error + unit) \<times> 'c open_segment \<times> 's seg_writer" where
  "put_compressed env z seg w =
     (if z = [] then (Inr (), seg, w)
      else let seg1 = seg\<lparr>os_comp_hash := os_comp_hash seg @ z, os_compressed_size := os_compressed_size seg + length z\<rparr>;
               (r, w1) = emit env z w
           in (r, seg1, w1))"

definition feed ::
  "('s, 'c, 'd) copy_env \<Rightarrow> bytes \<Rightarrow> 'c open_segment \<Rightarrow> 's seg_writer
    \<Rightarrow> (copy_error + unit) \<times> 'c open_segment \<times> 's seg_writer" where
  "feed env data seg w =
     (if os_done seg then (Inl AlreadyFinished, seg, w)
      else if data = [] then (Inr (), seg, w)
      else let (z, c) = ce_compress env (os_compressor seg) data
           in put_compressed env z
                (seg\<lparr>os_raw_hash := os_raw_hash seg @ data,
                     os_uncompressed_size := os_uncompressed_size seg + length data,
                     os_compressor := c\<rparr>) w)"

definition finish ::
  "('s, 'c, 'd) copy_env \<Rightarrow> pyval \<Rightarrow> 'c open_segment \<Rightarrow> 's seg_writer
    \<Rightarrow> (copy_error + copy_segment) \<times> 'c open_segment \<times> 's seg_writer" where
  "finish env row_count seg w =
     (if os_done seg then (Inl AlreadyFinished, seg, w)
      else case put_compressed env (ce_flush env (os_compressor seg)) (seg\<lparr>os_done := True\<rparr>) w of
             (Inl e, seg1, w1) \<Rightarrow> (Inl e, seg1, w1)
           | (Inr _, seg1, w1) \<Rightarrow>
               (mk_segment (PStr (os_table seg1)) (os_columns seg1) (PInt (int (os_offset seg1)))
                  (PInt (int (os_compressed_size seg1))) (PStr (ce_sha env (os_comp_hash seg1)))
                  (PInt (int (os_uncompressed_size seg1))) (PStr (ce_sha env (os_raw_hash seg1)))
                  row_count (PStr COMPRESSION_ZLIB),
                seg1, w1\<lparr>sw_open := False\<rparr>))"

fun feed_all ::
  "('s, 'c, 'd) copy_env \<Rightarrow> bytes list \<Rightarrow> 'c open_segment \<Rightarrow> 's seg_writer
    \<Rightarrow> (copy_error + unit) \<times> 'c open_segment \<times> 's seg_writer" where
  "feed_all env [] seg w = (Inr (), seg, w)"
| "feed_all env (c # cs) seg w =
     (case feed env c seg w of
        (Inl e, seg1, w1) \<Rightarrow> (Inl e, seg1, w1)
      | (Inr _, seg1, w1) \<Rightarrow> feed_all env cs seg1 w1)"

definition write_segment ::
  "('s, 'c, 'd) copy_env \<Rightarrow> pyval \<Rightarrow> pyval list \<Rightarrow> bytes list \<Rightarrow> pyval \<Rightarrow> 's seg_writer
    \<Rightarrow> (copy_error + copy_segment) \<times> 's seg_writer" where
  "write_segment env table columns chunks row_count w =
     (case begin_segment env table columns w of
        (Inl e, w1) \<Rightarrow> (Inl e, w1)
      | (Inr seg, w1) \<Rightarrow>
          (case feed_all env chunks seg w1 of
             (Inl e, seg1, w2) \<Rightarrow> (Inl e, w2)
           | (Inr _, seg1, w2) \<Rightarrow> (case finish env row_count seg1 w2 of (r, seg2, w3) \<Rightarrow> (r, w3))))"

section \<open>Reading\<close>

record 'd reader_state =
  rs_d :: 'd
  rs_produced :: int
  rs_comp_hash :: bytes
  rs_raw_hash :: bytes
  rs_yielded :: "bytes list"

text \<open>The inner loop over \<open>pending\<close>; the yielded chunks are collected in the state.\<close>

partial_function (option) inflate_pending ::
  "('s, 'c, 'd) copy_env \<Rightarrow> int \<Rightarrow> bytes \<Rightarrow> 'd reader_state \<Rightarrow> ((copy_error + unit) \<times> 'd reader_state) option" where
  "inflate_pending env usize pending st =
     (case ce_decompress env (rs_d st) pending (nat (usize - rs_produced st + 1)) of
        None \<Rightarrow> Some (Inl InvalidZlib, st)
      | Some (plain, d) \<Rightarrow>
          (let st1 = st\<lparr>rs_d := d, rs_produced := rs_produced st + int (length plain)\<rparr>
           in if rs_produced st1 > usize then Some (Inl InflatesPast, st1)
              else let st2 = (if plain = [] then st1
                              else st1\<lparr>rs_raw_hash := rs_raw_hash st1 @ plain, rs_yielded := rs_yielded st1 @ [plain]\<rparr>)
                   in if ce_tail env d = [] then Some (Inr (), st2)
                      else inflate_pending env usize (ce_tail env d) st2))"

text \<open>The outer loop, at file position \<open>pos\<close> with \<open>remaining\<close> compressed bytes to read.\<close>

function read_loop ::
  "('s, 'c, 'd) copy_env \<Rightarrow> bytes \<Rightarrow> int \<Rightarrow> nat \<Rightarrow> nat \<Rightarrow> 'd reader_state
    \<Rightarrow> ((copy_error + unit) \<times> 'd reader_state) option" where
  "read_loop env content usize pos remaining st =
     (if remaining = 0 then Some (Inr (), st)
      else let want = min CHUNK_SIZE remaining;
               chunk = take want (drop pos content)
           in if length chunk \<noteq> want then Some (Inl Truncated, st)
              else case inflate_pending env usize chunk (st\<lparr>rs_comp_hash := rs_comp_hash st @ chunk\<rparr>) of
                     None \<Rightarrow> None
                   | Some (Inl e, st1) \<Rightarrow> Some (Inl e, st1)
                   | Some (Inr _, st1) \<Rightarrow> read_loop env content usize (pos + want) (remaining - want) st1)"
  by pat_completeness auto
termination
  by (relation "measure (\<lambda>(env, content, usize, pos, remaining, st). remaining)") (auto simp: CHUNK_SIZE_def)

declare read_loop.simps [simp del]

text \<open>What follows the loop: flush and the final checks.\<close>

definition read_end ::
  "('s, 'c, 'd) copy_env \<Rightarrow> copy_segment \<Rightarrow> 'd reader_state \<Rightarrow> bytes list \<times> (copy_error + unit)" where
  "read_end env s st =
     (case ce_dflush env (rs_d st) of
        None \<Rightarrow> (rs_yielded st, Inl InvalidZlib)
      | Some (tail, d) \<Rightarrow>
          if rs_produced st + int (length tail) \<noteq> cs_uncompressed_size s then (rs_yielded st, Inl SizeMismatch)
          else let yielded = (if tail = [] then rs_yielded st else rs_yielded st @ [tail]);
                   raw = rs_raw_hash st @ tail
               in (yielded,
                   if \<not> ce_eof env d then Inl TrailingCompressed
                   else if ce_unused env d \<noteq> [] then Inl UnusedBytes
                   else if ce_sha env (rs_comp_hash st) \<noteq> cs_compressed_sha256 s then Inl CompressedHash
                   else if ce_sha env raw \<noteq> cs_uncompressed_sha256 s then Inl RawHash
                   else Inr ()))"

text \<open>\<open>iter_uncompressed\<close>: the chunks yielded and how the iteration ended.\<close>

definition iter_uncompressed ::
  "('s, 'c, 'd) copy_env \<Rightarrow> bytes \<Rightarrow> int \<Rightarrow> int \<Rightarrow> copy_segment \<Rightarrow> (bytes list \<times> (copy_error + unit)) option" where
  "iter_uncompressed env content total_size max_ratio s =
     (if end_offset s > total_size then Some ([], Inl PastEnd)
      else case check_ratio max_ratio s of
             Inl e \<Rightarrow> Some ([], Inl e)
           | Inr _ \<Rightarrow>
               if cs_compression s \<noteq> COMPRESSION_ZLIB then Some ([], Inl BadCompression)
               else case read_loop env content (cs_uncompressed_size s) (nat (cs_offset s)) (nat (cs_compressed_size s))
                           \<lparr>rs_d = ce_decompressobj env, rs_produced = 0, rs_comp_hash = [], rs_raw_hash = [], rs_yielded = []\<rparr> of
                      None \<Rightarrow> None
                    | Some (Inl e, st) \<Rightarrow> Some (rs_yielded st, Inl e)
                    | Some (Inr _, st) \<Rightarrow> Some (read_end env s st))"

section \<open>COPY export and import\<close>

definition all_digits :: "py_runtime \<Rightarrow> pystr \<Rightarrow> bool" where
  "all_digits rt s \<longleftrightarrow> s \<noteq> [] \<and> list_all (rt_isdigit rt) s"

definition parse_copy_row_count :: "py_runtime \<Rightarrow> pyval \<Rightarrow> copy_error + int" where
  "parse_copy_row_count rt status =
     (case status of
        PStr s \<Rightarrow>
          (case split_ws s of
             [a, b] \<Rightarrow> if a \<noteq> lit ''COPY'' \<or> \<not> all_digits rt b then Inl BadStatus
                       else (case rt_int_of_str rt b of None \<Rightarrow> Inl (CopyRaised ValueError) | Some n \<Rightarrow> Inr n)
           | _ \<Rightarrow> Inl BadStatus)
      | _ \<Rightarrow> Inl BadStatus)"

definition quoted_name :: "pystr \<Rightarrow> pystr" where
  "quoted_name s = [34] @ s @ [34]"

fun comma_join :: "pystr list \<Rightarrow> pystr" where
  "comma_join [] = []"
| "comma_join [s] = s"
| "comma_join (s # ss) = s @ [44, 32] @ comma_join ss"

definition export_query :: "pystr \<Rightarrow> pystr \<Rightarrow> pystr list \<Rightarrow> pystr" where
  "export_query schema table columns =
     lit ''SELECT '' @ comma_join (map quoted_name columns) @ lit '' FROM '' @ quoted_name schema @ [46] @ quoted_name table"

text \<open>
  \<open>copy_out\<close> is PostgreSQL: for a query it gives the chunks it streams and the final status, or the
  exception of the driver.
\<close>

definition export_table_segment ::
  "py_runtime \<Rightarrow> ('s, 'c, 'd) copy_env \<Rightarrow> (pystr \<Rightarrow> bytes list \<times> (pyexn + pyval)) \<Rightarrow> pyval \<Rightarrow> pyval list \<Rightarrow> pyval
    \<Rightarrow> 's seg_writer \<Rightarrow> (copy_error + copy_segment) \<times> 's seg_writer" where
  "export_table_segment rt env copy_out table columns schema w =
     (case bindE (validate_identifier schema) (\<lambda>sch. bindE (validate_identifier table) (\<lambda>t.
             bindE (guardE (columns = []) NoColumns) (\<lambda>_.
             bindE (mapE validate_identifier columns) (\<lambda>cols. Inr (export_query sch t cols))))) of
        Inl e \<Rightarrow> (Inl e, w)
      | Inr query \<Rightarrow>
          (case begin_segment env table columns w of
             (Inl e, w1) \<Rightarrow> (Inl e, w1)
           | (Inr seg, w1) \<Rightarrow>
               (case feed_all env (fst (copy_out query)) seg w1 of
                  (Inl e, seg1, w2) \<Rightarrow> (Inl e, w2)
                | (Inr _, seg1, w2) \<Rightarrow>
                    (case bindE (case snd (copy_out query) of Inl e \<Rightarrow> Inl (CopyRaised e) | Inr st \<Rightarrow> Inr st)
                            (parse_copy_row_count rt) of
                       Inl e \<Rightarrow> (Inl e, w2)
                     | Inr rows \<Rightarrow> (case finish env (PInt rows) seg1 w2 of (r, seg2, w3) \<Rightarrow> (r, w3))))))"

text \<open>
  \<open>copy_in\<close> receives the table, the columns, the schema and the chunks it can pull; when the iterator raised, the
  driver aborts the COPY and the error leaves \<open>copy_to_table\<close>.
\<close>

definition import_table_segment ::
  "py_runtime \<Rightarrow> ('s, 'c, 'd) copy_env \<Rightarrow> (pystr \<Rightarrow> pystr list \<Rightarrow> pystr \<Rightarrow> bytes list \<Rightarrow> pyexn + pyval)
    \<Rightarrow> bytes \<Rightarrow> int \<Rightarrow> int \<Rightarrow> copy_segment \<Rightarrow> pyval \<Rightarrow> (copy_error + unit) option" where
  "import_table_segment rt env copy_in content total_size max_ratio s schema =
     (case validate_identifier schema of
        Inl e \<Rightarrow> Some (Inl e)
      | Inr sch \<Rightarrow>
          (case iter_uncompressed env content total_size max_ratio s of
             None \<Rightarrow> None
           | Some (chunks, Inl e) \<Rightarrow> Some (Inl e)
           | Some (chunks, Inr _) \<Rightarrow>
               Some (bindE (case copy_in (cs_table s) (cs_columns s) sch chunks of Inl e \<Rightarrow> Inl (CopyRaised e) | Inr st \<Rightarrow> Inr st)
                 (\<lambda>st. bindE (parse_copy_row_count rt st) (\<lambda>imported.
                   guardE (imported \<noteq> cs_row_count s) RowCountMismatch)))))"

section \<open>Metadata round trip\<close>

lemma validate_identifier_Inr:
  "validate_identifier v = Inr s \<longleftrightarrow> v = PStr s \<and> identifier_pattern s \<and> length s \<le> IDENTIFIER_MAX_BYTES"
  by (auto simp: validate_identifier_def not_less split: pyval.splits if_splits)

lemma validate_non_negative_int_Inr: "validate_non_negative_int v = Inr n \<longleftrightarrow> v = PInt n \<and> 0 \<le> n"
  by (auto simp: validate_non_negative_int_def split: pyval.splits if_splits)

lemma validate_sha256_Inr: "validate_sha256 v = Inr s \<longleftrightarrow> v = PStr s \<and> length s = 64 \<and> list_all lower_hex s"
  by (auto simp: validate_sha256_def split: pyval.splits if_splits)

lemma validate_compression_Inr: "validate_compression v = Inr s \<longleftrightarrow> v = PStr s \<and> s = COMPRESSION_ZLIB"
  by (auto simp: validate_compression_def split: pyval.splits if_splits)

lemma validate_columns_Inr:
  "validate_columns seen cs = Inr names \<longleftrightarrow>
     cs = map PStr names \<and> distinct names \<and> set names \<inter> set seen = {} \<and>
     (\<forall>n \<in> set names. identifier_pattern n \<and> length n \<le> IDENTIFIER_MAX_BYTES)"
proof (induction seen cs arbitrary: names rule: validate_columns.induct)
  case (2 seen c cs)
  have step: "validate_columns seen (c # cs) = Inr (n # ns) \<longleftrightarrow>
      validate_identifier c = Inr n \<and> n \<notin> set seen \<and> validate_columns (n # seen) cs = Inr ns" for n ns
    by (auto simp: bindE_Inr_iff)
  show ?case
  proof (cases names)
    case Nil
    then show ?thesis by (auto simp: bindE_Inr_iff)
  next
    case (Cons n ns)
    then show ?thesis using 2 [of n ns] unfolding Cons step validate_identifier_Inr by auto
  qed
qed auto

definition segment_valid :: "copy_segment \<Rightarrow> bool" where
  "segment_valid s \<longleftrightarrow>
     identifier_pattern (cs_table s) \<and> length (cs_table s) \<le> IDENTIFIER_MAX_BYTES \<and>
     cs_columns s \<noteq> [] \<and> distinct (cs_columns s) \<and>
     (\<forall>n \<in> set (cs_columns s). identifier_pattern n \<and> length n \<le> IDENTIFIER_MAX_BYTES) \<and>
     0 \<le> cs_offset s \<and> 0 \<le> cs_compressed_size s \<and> 0 \<le> cs_uncompressed_size s \<and> 0 \<le> cs_row_count s \<and>
     length (cs_compressed_sha256 s) = 64 \<and> list_all lower_hex (cs_compressed_sha256 s) \<and>
     length (cs_uncompressed_sha256 s) = 64 \<and> list_all lower_hex (cs_uncompressed_sha256 s) \<and>
     cs_compression s = COMPRESSION_ZLIB"

lemma mk_segment_Inr:
  "mk_segment table columns off csize csha usize usha rows compression = Inr s \<longleftrightarrow>
     segment_valid s \<and> table = PStr (cs_table s) \<and> columns = map PStr (cs_columns s) \<and> off = PInt (cs_offset s) \<and>
     csize = PInt (cs_compressed_size s) \<and> csha = PStr (cs_compressed_sha256 s) \<and>
     usize = PInt (cs_uncompressed_size s) \<and> usha = PStr (cs_uncompressed_sha256 s) \<and> rows = PInt (cs_row_count s) \<and>
     compression = PStr (cs_compression s)"
  by (cases s)
     (auto simp: mk_segment_def bindE_Inr_iff guardE_iff validate_identifier_Inr validate_columns_Inr
        validate_non_negative_int_Inr validate_sha256_Inr validate_compression_Inr segment_valid_def)

lemma to_dict_get:
  "map_of (zip segment_keys [a, b, c, d, e, f, g, h, i]) (lit ''table'') = Some a"
  "map_of (zip segment_keys [a, b, c, d, e, f, g, h, i]) (lit ''columns'') = Some b"
  "map_of (zip segment_keys [a, b, c, d, e, f, g, h, i]) (lit ''offset'') = Some c"
  "map_of (zip segment_keys [a, b, c, d, e, f, g, h, i]) (lit ''compressed_size'') = Some d"
  "map_of (zip segment_keys [a, b, c, d, e, f, g, h, i]) (lit ''compressed_sha256'') = Some e"
  "map_of (zip segment_keys [a, b, c, d, e, f, g, h, i]) (lit ''uncompressed_size'') = Some f"
  "map_of (zip segment_keys [a, b, c, d, e, f, g, h, i]) (lit ''uncompressed_sha256'') = Some g"
  "map_of (zip segment_keys [a, b, c, d, e, f, g, h, i]) (lit ''row_count'') = Some h"
  "map_of (zip segment_keys [a, b, c, d, e, f, g, h, i]) (lit ''compression'') = Some i"
  by (simp_all add: segment_keys_def lit_def)

lemma to_dict_keys: "fst ` set (zip segment_keys [a, b, c, d, e, f, g, h, i]) = set segment_keys"
  by (simp add: segment_keys_def)

lemma from_dict_to_dict: "segment_valid s \<Longrightarrow> from_dict (to_dict s) = Inr s"
  by (simp add: from_dict_def to_dict_def to_dict_keys dict_get_def to_dict_get mk_segment_Inr)

lemma from_dict_Inr:
  assumes "from_dict v = Inr s"
  shows "segment_valid s \<and> (\<exists>d d'. v = PDict d \<and> to_dict s = PDict d' \<and> map_of d' = map_of d)"
proof -
  obtain d columns where v: "v = PDict d" and keys: "fst ` set d = set segment_keys"
    and cols: "dict_get d (lit ''columns'') = PList columns"
    and mk: "mk_segment (dict_get d (lit ''table'')) columns (dict_get d (lit ''offset''))
      (dict_get d (lit ''compressed_size'')) (dict_get d (lit ''compressed_sha256''))
      (dict_get d (lit ''uncompressed_size'')) (dict_get d (lit ''uncompressed_sha256''))
      (dict_get d (lit ''row_count'')) (dict_get d (lit ''compression'')) = Inr s"
    using assms by (auto simp: from_dict_def split: pyval.splits if_splits)
  have get: "map_of d k = (if k \<in> set segment_keys then Some (dict_get d k) else None)" for k
    using keys by (auto simp: dict_get_def map_of_eq_None_iff split: option.split)
  let ?d = "zip segment_keys
     [PStr (cs_table s), PList (map PStr (cs_columns s)), PInt (cs_offset s), PInt (cs_compressed_size s),
      PStr (cs_compressed_sha256 s), PInt (cs_uncompressed_size s), PStr (cs_uncompressed_sha256 s),
      PInt (cs_row_count s), PStr (cs_compression s)]"
  have "map_of ?d k = map_of d k" for k
  proof (cases "k \<in> set segment_keys")
    case True
    then consider "k = lit ''table''" | "k = lit ''columns''" | "k = lit ''offset''" | "k = lit ''compressed_size''"
      | "k = lit ''compressed_sha256''" | "k = lit ''uncompressed_size''" | "k = lit ''uncompressed_sha256''"
      | "k = lit ''row_count''" | "k = lit ''compression''"
      unfolding segment_keys_def by auto
    then show ?thesis
      using mk True cols unfolding get mk_segment_Inr by cases (simp_all add: to_dict_get)
  next
    case False
    then have "map_of ?d k = None" unfolding map_of_eq_None_iff to_dict_keys .
    with False show ?thesis by (simp add: get)
  qed
  then have "map_of ?d = map_of d" by (rule ext)
  then show ?thesis using mk by (auto simp: mk_segment_Inr v to_dict_def)
qed

text \<open>
  The metadata of a segment survives \<open>schema.json\<close>: \<open>from_dict\<close> accepts exactly the images of \<open>to_dict\<close>
  (as dictionaries), and reading back what \<open>to_dict\<close> wrote gives the same segment.
\<close>

theorem segment_dict_roundtrip:
  "(\<exists>v. from_dict v = Inr s) \<longleftrightarrow> from_dict (to_dict s) = Inr s"
  using from_dict_to_dict from_dict_Inr by blast

section \<open>The layout check\<close>

fun contiguous :: "int \<Rightarrow> copy_segment list \<Rightarrow> bool" where
  "contiguous cur [] = True"
| "contiguous cur (s # ss) = (cs_offset s = cur \<and> contiguous (end_offset s) ss)"

definition ratio_ok :: "int \<Rightarrow> copy_segment \<Rightarrow> bool" where
  "ratio_ok max_ratio s \<longleftrightarrow>
     (if cs_compressed_size s = 0 then cs_uncompressed_size s = 0
      else cs_uncompressed_size s \<le> cs_compressed_size s * max_ratio)"

lemma check_ratio_Inr: "check_ratio r s = Inr u \<longleftrightarrow> ratio_ok r s"
  by (auto simp: check_ratio_def ratio_ok_def guardE_iff)

definition sizes_ok :: "copy_segment \<Rightarrow> bool" where
  "sizes_ok s \<longleftrightarrow> 0 \<le> cs_compressed_size s \<and> 0 \<le> cs_uncompressed_size s"

lemma sum_sizes_nonneg:
  "list_all sizes_ok ss \<Longrightarrow> 0 \<le> sum_list (map cs_compressed_size ss)"
  "list_all sizes_ok ss \<Longrightarrow> 0 \<le> sum_list (map cs_uncompressed_size ss)"
  by (induction ss) (auto simp: sizes_ok_def)

lemma layout_loop_iff:
  "list_all sizes_ok ss \<Longrightarrow>
   layout_loop total_size budget max_ratio cur acc ss = Inr u \<longleftrightarrow>
     contiguous cur ss \<and> cur + sum_list (map cs_compressed_size ss) = total_size \<and> list_all (ratio_ok max_ratio) ss \<and>
     (ss = [] \<or> acc + sum_list (map cs_uncompressed_size ss) \<le> budget)"
proof (induction ss arbitrary: cur acc)
  case (Cons s ss)
  have IH: "layout_loop total_size budget max_ratio (end_offset s) (acc + cs_uncompressed_size s) ss = Inr u \<longleftrightarrow>
     contiguous (end_offset s) ss \<and> end_offset s + sum_list (map cs_compressed_size ss) = total_size \<and>
     list_all (ratio_ok max_ratio) ss \<and>
     (ss = [] \<or> acc + cs_uncompressed_size s + sum_list (map cs_uncompressed_size ss) \<le> budget)"
    using Cons by simp
  have ok: "sizes_ok s" "list_all sizes_ok ss" using Cons.prems by auto
  have nonneg: "0 \<le> cs_compressed_size s" "0 \<le> sum_list (map cs_compressed_size ss)"
    "0 \<le> sum_list (map cs_uncompressed_size ss)"
    using ok(1) sum_sizes_nonneg [OF ok(2)] by (simp_all add: sizes_ok_def)
  show ?case
    unfolding layout_loop.simps bindE_Inr_iff guardE_iff check_ratio_Inr IH
    using nonneg by (auto simp: end_offset_def)
qed (auto simp: guardE_iff)

lemma contiguous_later:
  "contiguous c ts \<Longrightarrow> list_all sizes_ok ts \<Longrightarrow> i < length ts \<Longrightarrow> c \<le> cs_offset (ts ! i)"
proof (induction ts arbitrary: c i)
  case (Cons t ts)
  show ?case
  proof (cases i)
    case (Suc j)
    then have "end_offset t \<le> cs_offset (ts ! j)" using Cons.IH [of "end_offset t" j] Cons.prems by simp
    with Suc Cons.prems show ?thesis by (simp add: end_offset_def sizes_ok_def)
  qed (use Cons.prems in simp)
qed simp

lemma contiguous_partition:
  assumes "list_all sizes_ok ss" "contiguous cur ss" "cur \<le> p" "p < cur + sum_list (map cs_compressed_size ss)"
  shows "\<exists>!i. i < length ss \<and> cs_offset (ss ! i) \<le> p \<and> p < end_offset (ss ! i)"
  using assms
proof (induction ss arbitrary: cur)
  case (Cons s ss)
  have later: "end_offset s \<le> cs_offset (ss ! i)" if "i < length ss" for i
    using contiguous_later [of "end_offset s" ss i] Cons.prems that by simp
  show ?case
  proof (cases "p < end_offset s")
    case True
    show ?thesis
    proof (rule ex1I [of _ 0])
      show "0 < length (s # ss) \<and> cs_offset ((s # ss) ! 0) \<le> p \<and> p < end_offset ((s # ss) ! 0)"
        using Cons.prems True by simp
      show "i = 0" if "i < length (s # ss) \<and> cs_offset ((s # ss) ! i) \<le> p \<and> p < end_offset ((s # ss) ! i)" for i
        using that later [of "i - 1"] True by (cases i) auto
    qed
  next
    case False
    have "\<exists>!i. i < length ss \<and> cs_offset (ss ! i) \<le> p \<and> p < end_offset (ss ! i)"
      by (rule Cons.IH [of "end_offset s"]) (use Cons.prems False in \<open>auto simp: end_offset_def\<close>)
    then obtain i where i: "i < length ss" "cs_offset (ss ! i) \<le> p" "p < end_offset (ss ! i)"
      and uniq: "\<And>j. j < length ss \<and> cs_offset (ss ! j) \<le> p \<and> p < end_offset (ss ! j) \<Longrightarrow> j = i"
      by blast
    show ?thesis
    proof (rule ex1I [of _ "Suc i"])
      show "Suc i < length (s # ss) \<and> cs_offset ((s # ss) ! Suc i) \<le> p \<and> p < end_offset ((s # ss) ! Suc i)"
        using i by simp
      show "j = Suc i" if "j < length (s # ss) \<and> cs_offset ((s # ss) ! j) \<le> p \<and> p < end_offset ((s # ss) ! j)" for j
        using that uniq [of "j - 1"] False by (cases j) auto
    qed
  qed
qed simp

lemma segment_valid_sizes: "segment_valid s \<Longrightarrow> sizes_ok s"
  by (simp add: segment_valid_def sizes_ok_def)

lemma validate_segment_layout_iff:
  assumes "list_all segment_valid ss"
  shows "validate_segment_layout ss total_size budget max_ratio = Inr r \<longleftrightarrow>
    r = ss \<and> contiguous 0 ss \<and> sum_list (map cs_compressed_size ss) = total_size \<and>
    list_all (ratio_ok max_ratio) ss \<and> (ss = [] \<or> sum_list (map cs_uncompressed_size ss) \<le> budget)"
proof -
  have "list_all sizes_ok ss" using assms by (auto simp: list_all_iff segment_valid_sizes)
  then show ?thesis
    by (auto simp: validate_segment_layout_def bindE_Inr_iff layout_loop_iff)
qed

text \<open>
  An accepted layout tiles \<open>data.copy\<close>: every byte of the file belongs to exactly one segment, and the
  decompressed sizes stay within the ratio cap and the budget.
\<close>

theorem layout_partition:
  assumes "list_all segment_valid ss" "validate_segment_layout ss total_size budget max_ratio = Inr r"
  shows "r = ss \<and>
    (\<forall>p. 0 \<le> p \<and> p < total_size \<longrightarrow> (\<exists>!i. i < length ss \<and> cs_offset (ss ! i) \<le> p \<and> p < end_offset (ss ! i))) \<and>
    (\<forall>s \<in> set ss. end_offset s \<le> total_size \<and> cs_uncompressed_size s \<le> cs_compressed_size s * max_ratio) \<and>
    (ss = [] \<or> sum_list (map cs_uncompressed_size ss) \<le> budget)"
proof -
  have sz: "list_all sizes_ok ss" using assms(1) by (auto simp: list_all_iff segment_valid_sizes)
  note ok = assms(2) [unfolded validate_segment_layout_iff [OF assms(1)]]
  have "end_offset s \<le> total_size" if "s \<in> set ss" for s
  proof -
    have "contiguous c ts \<Longrightarrow> list_all sizes_ok ts \<Longrightarrow> t \<in> set ts \<Longrightarrow>
        end_offset t \<le> c + sum_list (map cs_compressed_size ts)" for c t ts
    proof (induction ts arbitrary: c)
      case (Cons u us)
      have "list_all sizes_ok us" "sizes_ok u" using Cons.prems by auto
      with Cons sum_sizes_nonneg(1) [of us] show ?case by (force simp: end_offset_def)
    qed simp
    from this [of 0 ss s] show ?thesis using ok sz that by simp
  qed
  moreover have "cs_uncompressed_size s \<le> cs_compressed_size s * max_ratio" if "s \<in> set ss" for s
    using ok that by (force simp: list_all_iff ratio_ok_def split: if_splits)
  moreover have "\<exists>!i. i < length ss \<and> cs_offset (ss ! i) \<le> p \<and> p < end_offset (ss ! i)" if "0 \<le> p \<and> p < total_size" for p
    using contiguous_partition [OF sz, of 0 p] ok that by simp
  ultimately show ?thesis using ok by blast
qed

section \<open>The writer\<close>

text \<open>What a binary sink promises: it appends the bytes it reports as accepted, or all of them.\<close>

definition lawful_sink :: "('s, 'c, 'd) copy_env \<Rightarrow> ('s \<Rightarrow> bytes) \<Rightarrow> bool" where
  "lawful_sink env content \<longleftrightarrow>
     (\<forall>s data n s'. ce_write env s data = (n, s') \<longrightarrow>
        (case n of None \<Rightarrow> content s' = content s @ data
         | Some k \<Rightarrow> k \<le> length data \<and> content s' = content s @ take k data))"

lemma lawful_sinkD:
  "lawful_sink env content \<Longrightarrow> ce_write env s data = (None, s') \<Longrightarrow> content s' = content s @ data"
  "lawful_sink env content \<Longrightarrow> ce_write env s data = (Some k, s') \<Longrightarrow> k \<le> length data \<and> content s' = content s @ take k data"
  unfolding lawful_sink_def by fastforce+

lemma emit_loop_content:
  assumes "lawful_sink env content"
  shows "emit_loop env rest sink = (Inr u, sink') \<Longrightarrow> content sink' = content sink @ rest"
proof (induction "length rest" arbitrary: rest sink rule: less_induct)
  case less
  show ?case
  proof (cases "rest = []")
    case True
    with less.prems show ?thesis by (simp add: emit_loop.simps)
  next
    case False
    obtain n s1 where w: "ce_write env sink rest = (n, s1)" by (cases "ce_write env sink rest")
    show ?thesis
    proof (cases n)
      case None
      then show ?thesis
        using less.prems False w lawful_sinkD(1) [OF assms] by (simp add: emit_loop.simps [of _ rest])
    next
      case (Some k)
      with less.prems False w have k: "0 < k" and rec: "emit_loop env (drop k rest) s1 = (Inr u, sink')"
        by (auto simp: emit_loop.simps [of _ rest] split: if_splits)
      have "content sink' = content s1 @ drop k rest"
        using less.hyps [OF _ rec] k False by simp
      then show ?thesis using lawful_sinkD(2) [OF assms, of sink rest k s1] w Some by simp
    qed
  qed
qed

lemma emit_content:
  assumes "lawful_sink env content" "emit env data w = (Inr u, w')"
  shows "content (sw_sink w') = content (sw_sink w) @ data \<and> sw_written w' = sw_written w + length data"
  using assms by (auto simp: emit_def dest: emit_loop_content split: if_splits sum.splits prod.splits)

lemma put_compressed_content:
  assumes "lawful_sink env content" "put_compressed env z seg w = (Inr u, seg', w')"
  shows "content (sw_sink w') = content (sw_sink w) @ z \<and> sw_written w' = sw_written w + length z \<and>
    seg' = seg\<lparr>os_comp_hash := os_comp_hash seg @ z, os_compressed_size := os_compressed_size seg + length z\<rparr>"
  using assms by (auto simp: put_compressed_def Let_def dest: emit_content split: if_splits prod.splits)

text \<open>The compressed stream of a list of chunks, as the compressor object produces it.\<close>

fun zfeed :: "('s, 'c, 'd) copy_env \<Rightarrow> 'c \<Rightarrow> bytes list \<Rightarrow> bytes \<times> 'c" where
  "zfeed env c [] = ([], c)"
| "zfeed env c (x # xs) =
     (if x = [] then zfeed env c xs
      else let (z, c1) = ce_compress env c x; (zs, c2) = zfeed env c1 xs in (z @ zs, c2))"

definition zlib_stream :: "('s, 'c, 'd) copy_env \<Rightarrow> bytes list \<Rightarrow> bytes" where
  "zlib_stream env chunks = (let (z, c) = zfeed env (ce_compressobj env) chunks in z @ ce_flush env c)"

definition fed :: "bytes \<Rightarrow> bytes \<Rightarrow> 'c \<Rightarrow> 'c open_segment \<Rightarrow> 'c open_segment" where
  "fed raw z c seg = seg\<lparr>os_raw_hash := os_raw_hash seg @ raw,
     os_uncompressed_size := os_uncompressed_size seg + length raw,
     os_comp_hash := os_comp_hash seg @ z, os_compressed_size := os_compressed_size seg + length z, os_compressor := c\<rparr>"

lemma feed_content:
  assumes "lawful_sink env content" "feed env x seg w = (Inr u, seg', w')"
    and "(z, c) = (if x = [] then ([], os_compressor seg) else ce_compress env (os_compressor seg) x)"
  shows "content (sw_sink w') = content (sw_sink w) @ z \<and> sw_written w' = sw_written w + length z \<and> seg' = fed x z c seg"
proof (cases "x = []")
  case True
  with assms show ?thesis by (auto simp: feed_def fed_def split: if_splits)
next
  case False
  with assms(2,3) have "put_compressed env z (seg\<lparr>os_raw_hash := os_raw_hash seg @ x,
      os_uncompressed_size := os_uncompressed_size seg + length x, os_compressor := c\<rparr>) w = (Inr u, seg', w')"
    by (auto simp: feed_def split: if_splits prod.splits)
  from put_compressed_content [OF assms(1) this] show ?thesis by (simp add: fed_def)
qed

lemma feed_all_content:
  assumes "lawful_sink env content"
  shows "feed_all env xs seg w = (Inr u, seg', w') \<Longrightarrow> zfeed env (os_compressor seg) xs = (z, c) \<Longrightarrow>
    content (sw_sink w') = content (sw_sink w) @ z \<and> sw_written w' = sw_written w + length z \<and>
    seg' = fed (concat xs) z c seg"
proof (induction xs arbitrary: seg w z c)
  case (Cons x xs)
  obtain r seg1 w1 where f: "feed env x seg w = (r, seg1, w1)" by (cases "feed env x seg w")
  with Cons.prems have r: "r = Inr ()" and rec: "feed_all env xs seg1 w1 = (Inr u, seg', w')"
    by (auto split: sum.splits)
  obtain z1 c1 where z1: "(z1, c1) = (if x = [] then ([], os_compressor seg) else ce_compress env (os_compressor seg) x)"
    by (metis surj_pair)
  note step = feed_content [OF assms f [unfolded r] z1]
  obtain z2 c2 where z2: "zfeed env c1 xs = (z2, c2)" by (cases "zfeed env c1 xs")
  have "os_compressor seg1 = c1" using step by (simp add: fed_def)
  with Cons.IH [OF rec] z2 have "content (sw_sink w') = content (sw_sink w1) @ z2 \<and>
      sw_written w' = sw_written w1 + length z2 \<and> seg' = fed (concat xs) z2 c2 seg1" by simp
  moreover have "z = z1 @ z2" "c = c2"
    using Cons.prems(2) z1 z2 by (auto split: if_splits prod.splits)
  ultimately show ?case using step by (simp add: fed_def)
qed (simp add: fed_def)

lemma write_segment_content:
  assumes "lawful_sink env content" "write_segment env table columns chunks rows w = (Inr s, w')"
  shows "content (sw_sink w') = content (sw_sink w) @ zlib_stream env chunks \<and>
    sw_written w' = sw_written w + length (zlib_stream env chunks) \<and> \<not> sw_open w' \<and> segment_valid s \<and>
    cs_offset s = int (sw_written w) \<and> cs_compressed_size s = int (length (zlib_stream env chunks)) \<and>
    cs_uncompressed_size s = int (length (concat chunks)) \<and>
    cs_compressed_sha256 s = ce_sha env (zlib_stream env chunks) \<and>
    cs_uncompressed_sha256 s = ce_sha env (concat chunks)"
proof -
  obtain t where b: "begin_segment env table columns w = (Inr \<lparr>os_table = t, os_columns = columns,
      os_offset = sw_written w, os_compressor = ce_compressobj env, os_raw_hash = [], os_comp_hash = [],
      os_uncompressed_size = 0, os_compressed_size = 0, os_done = False\<rparr>, w\<lparr>sw_open := True\<rparr>)"
    using assms(2) by (auto simp: write_segment_def begin_segment_def split: if_splits sum.splits)
  let ?seg = "\<lparr>os_table = t, os_columns = columns, os_offset = sw_written w, os_compressor = ce_compressobj env,
    os_raw_hash = [], os_comp_hash = [], os_uncompressed_size = 0, os_compressed_size = 0, os_done = False\<rparr>"
  obtain seg1 w1 seg2 where f: "feed_all env chunks ?seg (w\<lparr>sw_open := True\<rparr>) = (Inr (), seg1, w1)"
    and fin: "finish env rows seg1 w1 = (Inr s, seg2, w')"
    using assms(2) by (auto simp: write_segment_def b split: prod.splits sum.splits)
  obtain z c where z: "zfeed env (ce_compressobj env) chunks = (z, c)"
    by (cases "zfeed env (ce_compressobj env) chunks")
  have 1: "content (sw_sink w1) = content (sw_sink w) @ z" "sw_written w1 = sw_written w + length z"
    and seg1: "seg1 = fed (concat chunks) z c ?seg"
    using feed_all_content [OF assms(1) f] z by simp_all
  obtain w2 where p: "put_compressed env (ce_flush env c) (seg1\<lparr>os_done := True\<rparr>) w1 = (Inr (), seg2, w2)"
    and w': "w' = w2\<lparr>sw_open := False\<rparr>"
    and mk: "mk_segment (PStr (os_table seg2)) (os_columns seg2) (PInt (int (os_offset seg2)))
      (PInt (int (os_compressed_size seg2))) (PStr (ce_sha env (os_comp_hash seg2)))
      (PInt (int (os_uncompressed_size seg2))) (PStr (ce_sha env (os_raw_hash seg2))) rows (PStr COMPRESSION_ZLIB) = Inr s"
    using fin by (auto simp: finish_def seg1 fed_def split: prod.splits sum.splits)
  have stream: "zlib_stream env chunks = z @ ce_flush env c" by (simp add: zlib_stream_def z)
  show ?thesis
    using put_compressed_content [OF assms(1) p] 1 mk by (simp add: stream w' seg1 fed_def mk_segment_Inr)
qed

section \<open>Unconditional guarantees of the reader\<close>

definition reader_inv :: "int \<Rightarrow> 'd reader_state \<Rightarrow> bool" where
  "reader_inv usize st \<longleftrightarrow>
     rs_produced st = int (length (concat (rs_yielded st))) \<and> rs_raw_hash st = concat (rs_yielded st) \<and>
     rs_produced st \<le> usize"

definition inflate_post :: "int \<Rightarrow> 'd reader_state \<Rightarrow> (copy_error + unit) \<times> 'd reader_state \<Rightarrow> bool" where
  "inflate_post usize st y \<longleftrightarrow> (reader_inv usize st \<longrightarrow>
     int (length (concat (rs_yielded (snd y)))) \<le> usize \<and> rs_comp_hash (snd y) = rs_comp_hash st \<and>
     (is_ok (fst y) \<longrightarrow> reader_inv usize (snd y)))"

lemma inflate_pending_post:
  assumes "inflate_pending env usize pending st = Some y" shows "inflate_post usize st y"
  using assms
proof (rule inflate_pending.raw_induct [where P = "\<lambda>env usize pending st y. inflate_post usize st y", rotated], goal_cases)
  case (1 f env usize pending st y)
  note IH = 1(1) and eq = 1(2)
  show ?case
  proof (cases "ce_decompress env (rs_d st) pending (nat (usize - rs_produced st + 1))")
    case None
    with eq show ?thesis by (auto simp: inflate_post_def reader_inv_def)
  next
    case (Some pd)
    obtain plain d where pd: "pd = (plain, d)" by (cases pd)
    let ?st1 = "st\<lparr>rs_d := d, rs_produced := rs_produced st + int (length plain)\<rparr>"
    let ?st2 = "if plain = [] then ?st1
      else ?st1\<lparr>rs_raw_hash := rs_raw_hash ?st1 @ plain, rs_yielded := rs_yielded ?st1 @ [plain]\<rparr>"
    show ?thesis
    proof (cases "rs_produced st + int (length plain) > usize")
      case True
      with eq Some pd show ?thesis by (auto simp: inflate_post_def reader_inv_def Let_def)
    next
      case False
      have inv2: "reader_inv usize ?st2" "rs_comp_hash ?st2 = rs_comp_hash st" if "reader_inv usize st"
        using that False by (auto simp: reader_inv_def)
      from eq Some pd False have "ce_tail env d = [] \<and> y = (Inr (), ?st2) \<or> f env usize (ce_tail env d) ?st2 = Some y"
        by (auto simp: Let_def split: if_splits)
      then have "inflate_post usize ?st2 y \<or> y = (Inr (), ?st2)" using IH by blast
      with inv2 show ?thesis unfolding inflate_post_def by (auto simp: reader_inv_def)
    qed
  qed
qed

lemma read_loop_post:
  "read_loop env content usize pos remaining st = Some y \<Longrightarrow> reader_inv usize st \<Longrightarrow>
    int (length (concat (rs_yielded (snd y)))) \<le> usize \<and>
    (is_ok (fst y) \<longrightarrow> reader_inv usize (snd y) \<and>
       rs_comp_hash (snd y) = rs_comp_hash st @ take remaining (drop pos content) \<and> pos + remaining \<le> max pos (length content))"
proof (induction remaining arbitrary: pos st rule: less_induct)
  case (less remaining)
  show ?case
  proof (cases "remaining = 0")
    case True
    with less.prems show ?thesis by (auto simp: read_loop.simps reader_inv_def)
  next
    case False
    let ?want = "min CHUNK_SIZE remaining"
    let ?chunk = "take ?want (drop pos content)"
    let ?st1 = "st\<lparr>rs_comp_hash := rs_comp_hash st @ ?chunk\<rparr>"
    have want: "0 < ?want" using False by (simp add: CHUNK_SIZE_def)
    have inv1: "reader_inv usize ?st1" using less.prems(2) by (simp add: reader_inv_def)
    show ?thesis
    proof (cases "length ?chunk = ?want")
      case False
      then have "y = (Inl Truncated, st)" using less.prems(1) \<open>remaining \<noteq> 0\<close>
        by (subst (asm) read_loop.simps) (auto simp: Let_def)
      then show ?thesis using less.prems(2) by (auto simp: reader_inv_def)
    next
      case True
      obtain r st2 where p: "inflate_pending env usize ?chunk ?st1 = Some (r, st2)"
        using less.prems(1) \<open>remaining \<noteq> 0\<close> True
        by (subst (asm) read_loop.simps) (auto simp: Let_def split: option.splits)
      note post = inflate_pending_post [OF p, unfolded inflate_post_def, simplified, rule_format, OF inv1 [simplified]]
      show ?thesis
      proof (cases r)
        case (Inl e)
        then have "y = (Inl e, st2)" using less.prems(1) \<open>remaining \<noteq> 0\<close> True p
          by (subst (asm) read_loop.simps) (auto simp: Let_def)
        then show ?thesis using post by simp
      next
        case (Inr u)
        then have rec: "read_loop env content usize (pos + ?want) (remaining - ?want) st2 = Some y"
          using less.prems(1) \<open>remaining \<noteq> 0\<close> True p by (subst (asm) read_loop.simps) (auto simp: Let_def)
        have inv2: "reader_inv usize st2" using post Inr by simp
        have "take ?want (drop pos content) @ take (remaining - ?want) (drop (pos + ?want) content) =
            take remaining (drop pos content)"
          by (metis add.commute drop_drop le_add_diff_inverse min.cobounded2 take_add)
        moreover have "pos + ?want \<le> length content" using True want by auto
        ultimately show ?thesis
          using less.IH [OF _ rec inv2] want False post by auto
      qed
    qed
  qed
qed

text \<open>
  C30: The reader is safe against any archive and any behaviour of the decompressor.  The chunks it yields never
  exceed the recorded decompressed size; and when it ends without an error they have exactly that size and the
  recorded hash, and the compressed bytes it read lie completely inside the file and have the recorded hash.
\<close>

theorem reader_bounded_and_verified:
  assumes "iter_uncompressed env content total_size max_ratio s = Some (chunks, r)" "segment_valid s"
  shows "int (length (concat chunks)) \<le> cs_uncompressed_size s \<and>
    (is_ok r \<longrightarrow>
       int (length (concat chunks)) = cs_uncompressed_size s \<and>
       ce_sha env (concat chunks) = cs_uncompressed_sha256 s \<and>
       ce_sha env (take (nat (cs_compressed_size s)) (drop (nat (cs_offset s)) content)) = cs_compressed_sha256 s \<and>
       ratio_ok max_ratio s \<and> end_offset s \<le> total_size \<and>
       (cs_compressed_size s = 0 \<or> end_offset s \<le> int (length content)))"
proof -
  let ?init = "\<lparr>rs_d = ce_decompressobj env, rs_produced = 0, rs_comp_hash = [], rs_raw_hash = [], rs_yielded = []\<rparr>"
  have sizes: "0 \<le> cs_uncompressed_size s" "0 \<le> cs_offset s" "0 \<le> cs_compressed_size s"
    using assms(2) by (simp_all add: segment_valid_def)
  have inv: "reader_inv (cs_uncompressed_size s) ?init" using sizes by (simp add: reader_inv_def)
  show ?thesis
  proof (cases "chunks = [] \<and> \<not> is_ok r")
    case True
    then show ?thesis using sizes by simp
  next
    case False
    then have ok0: "end_offset s \<le> total_size" "check_ratio max_ratio s = Inr ()"
      using assms(1) by (cases "check_ratio max_ratio s"; auto simp: iter_uncompressed_def split: if_splits)+
    with False ok0 obtain r1 st where loop: "read_loop env content (cs_uncompressed_size s) (nat (cs_offset s))
        (nat (cs_compressed_size s)) ?init = Some (r1, st)"
      and res: "(chunks, r) = (case r1 of Inl e \<Rightarrow> (rs_yielded st, Inl e) | Inr _ \<Rightarrow> read_end env s st)"
      using assms(1)
      by (auto simp: iter_uncompressed_def split: if_splits sum.splits option.splits)
    have ok: "ratio_ok max_ratio s" "end_offset s \<le> total_size" using ok0 by (simp_all add: check_ratio_Inr)
    note post = read_loop_post [OF loop inv, simplified]
    show ?thesis
    proof (cases r1)
      case (Inl e)
      then show ?thesis using res post by simp
    next
      case (Inr u)
      then have r1: "is_ok r1" by simp
      have "nat (cs_offset s) + nat (cs_compressed_size s) \<le> max (nat (cs_offset s)) (length content)"
        using post r1 by simp
      then have "cs_compressed_size s = 0 \<or> end_offset s \<le> int (length content)"
        using sizes by (auto simp: end_offset_def max_def split: if_splits)
      then show ?thesis
        using res post Inr ok
        by (auto simp: read_end_def Let_def reader_inv_def split: option.splits if_splits prod.splits)
    qed
  qed
qed

section \<open>Writing and reading back\<close>

text \<open>
  What the \<open>zlib\<close> documentation promises of a decompression object fed with a complete stream \<open>z\<close> of the data
  \<open>p\<close>: it consumes its input from the left, never outputs more than \<open>max_length\<close>, makes progress as long as it
  reports unconsumed input, and at the end of the stream \<open>flush\<close> delivers what is left of \<open>p\<close>.  \<open>got\<close> and \<open>given\<close>
  are the input consumed and the output delivered so far.
\<close>

definition zlib_decodes ::
  "('s, 'c, 'd) copy_env \<Rightarrow> ('d \<Rightarrow> bytes) \<Rightarrow> ('d \<Rightarrow> bytes) \<Rightarrow> bytes \<Rightarrow> bytes \<Rightarrow> bool" where
  "zlib_decodes env got given z p \<longleftrightarrow>
     got (ce_decompressobj env) = [] \<and> given (ce_decompressobj env) = [] \<and>
     (\<forall>d inp m. 0 < m \<and> prefix (got d @ inp) z \<and> prefix (given d) p \<longrightarrow>
        (\<exists>x plain d'. ce_decompress env d inp m = Some (plain, d') \<and> length plain \<le> m \<and>
           inp = x @ ce_tail env d' \<and> got d' = got d @ x \<and> given d' = given d @ plain \<and> prefix (given d') p \<and>
           (ce_tail env d' \<noteq> [] \<longrightarrow> x \<noteq> [] \<or> plain \<noteq> []))) \<and>
     (\<forall>d. got d = z \<and> prefix (given d) p \<longrightarrow>
        (\<exists>t d'. ce_dflush env d = Some (t, d') \<and> given d @ t = p \<and> ce_eof env d' \<and> ce_unused env d' = []))"

definition zlib_inverse :: "('s, 'c, 'd) copy_env \<Rightarrow> bool" where
  "zlib_inverse env \<longleftrightarrow>
     (\<exists>got given. \<forall>chunks. zlib_decodes env got given (zlib_stream env chunks) (concat chunks))"

definition reading :: "('d \<Rightarrow> bytes) \<Rightarrow> bytes \<Rightarrow> 'd reader_state \<Rightarrow> bool" where
  "reading given p st \<longleftrightarrow>
     rs_produced st = int (length (given (rs_d st))) \<and> rs_raw_hash st = given (rs_d st) \<and>
     concat (rs_yielded st) = given (rs_d st) \<and> prefix (given (rs_d st)) p"

lemma inflate_pending_total:
  assumes z: "zlib_decodes env got given z p"
  shows "prefix (got (rs_d st) @ pending) z \<Longrightarrow> reading given p st \<Longrightarrow>
    \<exists>st'. inflate_pending env (int (length p)) pending st = Some (Inr (), st') \<and> reading given p st' \<and>
      got (rs_d st') = got (rs_d st) @ pending \<and> rs_comp_hash st' = rs_comp_hash st"
proof (induction "length pending + (length p - length (given (rs_d st)))" arbitrary: pending st rule: less_induct)
  case less
  let ?m = "nat (int (length p) - rs_produced st + 1)"
  have pre: "prefix (given (rs_d st)) p" and prod: "rs_produced st = int (length (given (rs_d st)))"
    using less.prems(2) by (simp_all add: reading_def)
  have "0 < ?m" using prefix_length_le [OF pre] prod by simp
  with z less.prems(1) pre obtain x plain d' where
    dec: "ce_decompress env (rs_d st) pending ?m = Some (plain, d')" and
    x: "pending = x @ ce_tail env d'" "got d' = got (rs_d st) @ x" and
    out: "given d' = given (rs_d st) @ plain" "prefix (given d') p" and
    progress: "ce_tail env d' \<noteq> [] \<longrightarrow> x \<noteq> [] \<or> plain \<noteq> []"
    unfolding zlib_decodes_def by blast
  let ?st1 = "st\<lparr>rs_d := d', rs_produced := rs_produced st + int (length plain)\<rparr>"
  let ?st2 = "if plain = [] then ?st1
    else ?st1\<lparr>rs_raw_hash := rs_raw_hash ?st1 @ plain, rs_yielded := rs_yielded ?st1 @ [plain]\<rparr>"
  have len: "length (given (rs_d st)) + length plain \<le> length p" using prefix_length_le [OF out(2)] out(1) by simp
  have unfold: "inflate_pending env (int (length p)) pending st =
      (if ce_tail env d' = [] then Some (Inr (), ?st2) else inflate_pending env (int (length p)) (ce_tail env d') ?st2)"
    using dec len prod by (subst inflate_pending.simps) (simp add: Let_def)
  have st2: "reading given p ?st2" "rs_d ?st2 = d'" "rs_comp_hash ?st2 = rs_comp_hash st"
    using less.prems(2) out by (auto simp: reading_def)
  show ?case
  proof (cases "ce_tail env d' = []")
    case True
    then show ?thesis using unfold st2 x by auto
  next
    case False
    have "length (ce_tail env d') + (length p - length (given (rs_d ?st2)))
        < length pending + (length p - length (given (rs_d st)))"
    proof -
      have "0 < length x + length plain" using progress False by auto
      moreover have "length pending = length x + length (ce_tail env d')" by (subst x(1)) simp
      ultimately show ?thesis unfolding st2(2) out(1) length_append using len by arith
    qed
    moreover have "prefix (got (rs_d ?st2) @ ce_tail env d') z" using less.prems(1) x st2(2) by simp
    ultimately obtain st' where "inflate_pending env (int (length p)) (ce_tail env d') ?st2 = Some (Inr (), st')"
      "reading given p st'" "got (rs_d st') = got (rs_d ?st2) @ ce_tail env d'" "rs_comp_hash st' = rs_comp_hash ?st2"
      using less.hyps [of "ce_tail env d'" ?st2] st2(1) by blast
    then show ?thesis using unfold False st2 x by auto
  qed
qed

lemma read_loop_total:
  assumes z: "zlib_decodes env got given z p" and file_part: "take (length z) (drop off content) = z"
  shows "k + remaining = length z \<Longrightarrow> reading given p st \<Longrightarrow> got (rs_d st) = take k z \<Longrightarrow> rs_comp_hash st = take k z \<Longrightarrow>
    \<exists>st'. read_loop env content (int (length p)) (off + k) remaining st = Some (Inr (), st') \<and> reading given p st' \<and>
      got (rs_d st') = z \<and> rs_comp_hash st' = z"
proof (induction remaining arbitrary: k st rule: less_induct)
  case (less remaining)
  show ?case
  proof (cases "remaining = 0")
    case True
    with less.prems show ?thesis by (auto simp: read_loop.simps)
  next
    case False
    let ?want = "min CHUNK_SIZE remaining"
    let ?chunk = "take ?want (drop (off + k) content)"
    have want: "0 < ?want" using False by (simp add: CHUNK_SIZE_def)
    have chunk: "?chunk = take ?want (drop k z)"
    proof -
      have "drop k z = take (length z - k) (drop (off + k) content)"
        by (subst file_part [symmetric]) (simp add: drop_take add.commute)
      then show ?thesis using less.prems(1) by (simp add: min_def)
    qed
    then have len: "length ?chunk = ?want" using less.prems(1) by simp
    have next_take: "take k z @ ?chunk = take (k + ?want) z" by (simp add: chunk take_add)
    let ?st1 = "st\<lparr>rs_comp_hash := rs_comp_hash st @ ?chunk\<rparr>"
    have "reading given p ?st1" using less.prems(2) by (simp add: reading_def)
    moreover have "prefix (got (rs_d ?st1) @ ?chunk) z"
      using less.prems(3) by (simp add: next_take) (metis append_take_drop_id prefixI)
    ultimately obtain st2 where st2: "inflate_pending env (int (length p)) ?chunk ?st1 = Some (Inr (), st2)"
      "reading given p st2" "got (rs_d st2) = take (k + ?want) z" "rs_comp_hash st2 = take (k + ?want) z"
      using inflate_pending_total [OF z, of ?st1 ?chunk] less.prems(3,4) next_take by auto
    have "read_loop env content (int (length p)) (off + k) remaining st =
        read_loop env content (int (length p)) (off + (k + ?want)) (remaining - ?want) st2"
      using False len st2(1) by (subst read_loop.simps) (simp add: Let_def add.assoc)
    then show ?thesis
      using less.IH [of "remaining - ?want" "k + ?want" st2] want False less.prems(1) st2 by simp
  qed
qed

text \<open>
  C31: Backup and restore of a table agree.  If a segment was written through a lawful sink (short writes
  allowed) into a fresh \<open>data.copy\<close> or after other segments, and \<open>zlib\<close> inverts itself, then reading the segment
  back terminates without an error and yields exactly the COPY bytes that were fed, provided the stream does not
  compress better than the reader's ratio cap.
\<close>

theorem segment_write_read:
  assumes "lawful_sink env content" "zlib_inverse env"
    and "length (content (sw_sink w)) = sw_written w"
    and "write_segment env table columns chunks rows w = (Inr s, w')"
    and "ratio_ok max_ratio s"
    and "content (sw_sink w') @ more_data = data_copy"
  shows "\<exists>ys. iter_uncompressed env data_copy (int (length data_copy)) max_ratio s = Some (ys, Inr ()) \<and> concat ys = concat chunks"
proof -
  let ?z = "zlib_stream env chunks" and ?p = "concat chunks" and ?off = "sw_written w"
  note w = write_segment_content [OF assms(1,4)]
  obtain got given where z: "zlib_decodes env got given ?z ?p" using assms(2) unfolding zlib_inverse_def by blast
  have file_part: "take (length ?z) (drop ?off data_copy) = ?z"
    using w assms(3,6) by (metis append.assoc append_eq_conv_conj)
  have total: "end_offset s \<le> int (length data_copy)"
    using w assms(3,6) by (auto simp: end_offset_def)
  let ?init = "\<lparr>rs_d = ce_decompressobj env, rs_produced = 0, rs_comp_hash = [], rs_raw_hash = [], rs_yielded = []\<rparr>"
  have init: "reading given ?p ?init" "got (rs_d ?init) = take 0 ?z"
    using z by (simp_all add: reading_def zlib_decodes_def)
  obtain st where st: "read_loop env data_copy (int (length ?p)) ?off (length ?z) ?init = Some (Inr (), st)"
    "reading given ?p st" "got (rs_d st) = ?z" "rs_comp_hash st = ?z"
    using read_loop_total [OF z file_part, of 0 "length ?z" ?init] init by auto
  obtain t d where fl: "ce_dflush env (rs_d st) = Some (t, d)" "given (rs_d st) @ t = ?p" "ce_eof env d" "ce_unused env d = []"
    using z st(2,3) unfolding zlib_decodes_def reading_def by blast
  have comp: "cs_compression s = COMPRESSION_ZLIB" using w by (simp add: segment_valid_def)
  have sizes: "rs_produced st + int (length t) = cs_uncompressed_size s"
    using fl(2) st(2) w by (simp add: reading_def) (metis length_append of_nat_add)
  have "iter_uncompressed env data_copy (int (length data_copy)) max_ratio s =
      Some (if t = [] then rs_yielded st else rs_yielded st @ [t], Inr ())"
  proof -
    have "check_ratio max_ratio s = Inr ()" using assms(5) by (simp add: check_ratio_Inr)
    moreover have "read_loop env data_copy (cs_uncompressed_size s) (nat (cs_offset s)) (nat (cs_compressed_size s)) ?init
        = Some (Inr (), st)"
      using st(1) w by simp
    ultimately have "iter_uncompressed env data_copy (int (length data_copy)) max_ratio s = Some (read_end env s st)"
      using total comp by (simp add: iter_uncompressed_def)
    moreover have "rs_raw_hash st @ t = ?p" using fl(2) st(2) by (simp add: reading_def)
    ultimately show ?thesis
      using w st(4) fl(1,3,4) sizes by (simp add: read_end_def Let_def)
  qed
  moreover have "concat (if t = [] then rs_yielded st else rs_yielded st @ [t]) = ?p"
    using fl(2) st(2) by (auto simp: reading_def)
  ultimately show ?thesis by blast
qed

lemma export_is_write_segment:
  assumes "export_table_segment rt env copy_out table columns schema w = (Inr s, w')"
  shows "\<exists>query rows. write_segment env table columns (fst (copy_out query)) (PInt rows) w = (Inr s, w')"
proof -
  obtain query seg w1 seg1 w2 rows seg2 where
    "begin_segment env table columns w = (Inr seg, w1)"
    "feed_all env (fst (copy_out query)) seg w1 = (Inr (), seg1, w2)"
    "finish env (PInt rows) seg1 w2 = (Inr s, seg2, w')"
    using assms by (auto simp: export_table_segment_def split: sum.splits prod.splits)
  then show ?thesis
    by (intro exI [of _ query] exI [of _ rows]) (simp add: write_segment_def)
qed

section \<open>The stored codec\<close>

text \<open>
  A concrete environment for closed examples: an in-memory sink that accepts two bytes per call, the codec that
  stores its input, and a constant hash.
\<close>

definition stored_env :: "(bytes, unit, bytes \<times> bytes) copy_env" where
  "stored_env =
     \<lparr>ce_write = (\<lambda>s data. (Some (min 2 (length data)), s @ take (min 2 (length data)) data)),
      ce_tell = (\<lambda>s. int (length s)), ce_compressobj = (), ce_compress = (\<lambda>c x. (x, ())), ce_flush = (\<lambda>c. []),
      ce_decompressobj = ([], []),
      ce_decompress = (\<lambda>d inp m. Some (take m inp, (fst d @ take m inp, drop m inp))),
      ce_tail = snd, ce_dflush = (\<lambda>d. Some ([], d)), ce_eof = (\<lambda>d. True), ce_unused = (\<lambda>d. []),
      ce_sha = (\<lambda>b. replicate 64 48)\<rparr>"

lemma lawful_sink_stored: "lawful_sink stored_env id"
  by (auto simp: lawful_sink_def stored_env_def)

lemma zfeed_stored: "zfeed stored_env () xs = (concat xs, ())"
  by (induction xs) (auto simp: stored_env_def)

lemma zlib_stream_stored: "zlib_stream stored_env xs = concat xs"
  by (simp add: zlib_stream_def zfeed_stored) (simp add: stored_env_def)

lemma zlib_inverse_stored: "zlib_inverse stored_env"
  unfolding zlib_inverse_def zlib_stream_stored
proof (intro exI [of _ fst] allI)
  fix chunks :: "bytes list"
  show "zlib_decodes stored_env fst fst (concat chunks) (concat chunks)"
    unfolding zlib_decodes_def
  proof (intro conjI allI impI)
    show "fst (ce_decompressobj stored_env) = []" "fst (ce_decompressobj stored_env) = []"
      by (simp_all add: stored_env_def)
  next
    fix d :: "bytes \<times> bytes" and inp :: bytes and m :: nat
    assume "0 < m \<and> prefix (fst d @ inp) (concat chunks) \<and> prefix (fst d) (concat chunks)"
    then show "\<exists>x plain d'. ce_decompress stored_env d inp m = Some (plain, d') \<and> length plain \<le> m \<and>
        inp = x @ ce_tail stored_env d' \<and> fst d' = fst d @ x \<and> fst d' = fst d @ plain \<and> prefix (fst d') (concat chunks) \<and>
        (ce_tail stored_env d' \<noteq> [] \<longrightarrow> x \<noteq> [] \<or> plain \<noteq> [])"
      by (intro exI [of _ "take m inp"] exI [of _ "(fst d @ take m inp, drop m inp)"])
         (auto simp: stored_env_def, metis append.assoc append_take_drop_id prefixE prefixI)
  next
    fix d :: "bytes \<times> bytes"
    assume "fst d = concat chunks \<and> prefix (fst d) (concat chunks)"
    then show "\<exists>t d'. ce_dflush stored_env d = Some (t, d') \<and> fst d @ t = concat chunks \<and> ce_eof stored_env d' \<and>
        ce_unused stored_env d' = []"
      by (simp add: stored_env_def)
  qed
qed

definition sample_segment :: copy_segment where
  "sample_segment = \<lparr>cs_table = [116], cs_columns = [[105]], cs_offset = 0, cs_compressed_size = 3,
     cs_compressed_sha256 = replicate 64 48, cs_uncompressed_size = 3, cs_uncompressed_sha256 = replicate 64 48,
     cs_row_count = 1, cs_compression = COMPRESSION_ZLIB\<rparr>"

lemma sample_segment_valid: "segment_valid sample_segment"
  by (simp add: segment_valid_def sample_segment_def IDENTIFIER_MAX_BYTES_def lower_hex_def is_ascii_digit_def
    ascii_alpha_def list_all_iff)

lemma sample_written:
  "write_segment stored_env (PStr [116]) [PStr [105]] [[49], [9, 10]] (PInt 1) (new_writer stored_env []) =
     (Inr sample_segment, \<lparr>sw_sink = [49, 9, 10], sw_base = 0, sw_written = 3, sw_closed = False, sw_open = False\<rparr>)"
proof -
  have mk: "mk_segment (PStr [116]) [PStr [105]] (PInt 0) (PInt 3) (PStr (replicate 64 48)) (PInt 3)
      (PStr (replicate 64 48)) (PInt 1) (PStr COMPRESSION_ZLIB) = Inr sample_segment"
    unfolding mk_segment_Inr using sample_segment_valid by (simp add: sample_segment_def)
  have "validate_identifier (PStr [116]) = Inr [116]"
    by (simp add: validate_identifier_Inr ascii_alpha_def IDENTIFIER_MAX_BYTES_def)
  with mk show ?thesis
    by (simp add: write_segment_def begin_segment_def new_writer_def feed_def put_compressed_def emit_def
      emit_loop.simps finish_def stored_env_def)
qed

theorem layout_partition_witness:
  "\<exists>!i. i < length [sample_segment] \<and> cs_offset ([sample_segment] ! i) \<le> 1 \<and> 1 < end_offset ([sample_segment] ! i)"
proof -
  have "validate_segment_layout [sample_segment] 3 DEFAULT_MAX_TOTAL DEFAULT_MAX_RATIO = Inr [sample_segment]"
    by (simp add: validate_segment_layout_def check_ratio_def end_offset_def sample_segment_def DEFAULT_MAX_TOTAL_def
      DEFAULT_MAX_RATIO_def)
  from layout_partition [OF _ this] have "\<forall>p. 0 \<le> p \<and> p < 3 \<longrightarrow> (\<exists>!i. i < length [sample_segment] \<and>
      cs_offset ([sample_segment] ! i) \<le> p \<and> p < end_offset ([sample_segment] ! i))"
    using sample_segment_valid by simp
  from this [rule_format, of 1] show ?thesis by simp
qed

theorem segment_write_read_witness:
  "\<exists>ys. iter_uncompressed stored_env [49, 9, 10, 99] 4 DEFAULT_MAX_RATIO sample_segment = Some (ys, Inr ()) \<and>
     concat ys = [49, 9, 10]"
  using segment_write_read [OF lawful_sink_stored zlib_inverse_stored _ sample_written, of DEFAULT_MAX_RATIO "[99]"
      "[49, 9, 10, 99]"]
  by (simp add: new_writer_def ratio_ok_def sample_segment_def DEFAULT_MAX_RATIO_def)

theorem reader_bounded_and_verified_witness:
  "\<exists>ys. iter_uncompressed stored_env [49, 9, 10] 3 DEFAULT_MAX_RATIO sample_segment = Some (ys, Inr ()) \<and>
     int (length (concat ys)) = cs_uncompressed_size sample_segment"
proof -
  obtain ys where ys: "iter_uncompressed stored_env [49, 9, 10] 3 DEFAULT_MAX_RATIO sample_segment = Some (ys, Inr ())"
    using segment_write_read [OF lawful_sink_stored zlib_inverse_stored _ sample_written, of DEFAULT_MAX_RATIO "[]"
      "[49, 9, 10]"]
    by (auto simp: new_writer_def ratio_ok_def sample_segment_def DEFAULT_MAX_RATIO_def)
  then show ?thesis using reader_bounded_and_verified [OF ys sample_segment_valid] by auto
qed

end
