(* ===== verification/Access_Control.thy ===== *)
theory Access_Control
  imports Py_Value "HOL-Library.AList" "HOL-Library.Multiset"
begin

text \<open>
  Model of the access-control services: API rules (\<open>services/rule_engine.py\<close>), the guard on client-supplied
  filters and sorts (\<open>services/client_filter_guard.py\<close>) and the resolution of request macros
  (\<open>services/request_macros.py\<close>).

  The database is a parameter: \<open>resolve\<close> finds a collection by id or name (\<open>None\<close> also stands for any
  exception, which the loader catches) and \<open>fetch\<close> reads one record.  The parse tree of a filter is the list of
  its subtrees, in the order of \<open>iter_subtrees\<close>.
\<close>

section \<open>Rules\<close>

datatype rule_decision = Allow | Deny | FilterBy pystr

definition is_admin :: "(pystr \<times> pyval) list option \<Rightarrow> bool" where
  "is_admin ctx = (case ctx of None \<Rightarrow> False | Some d \<Rightarrow> d \<noteq> [] \<and> truthy (dict_get d (lit ''is_admin'')))"

definition check_rule :: "pystr option \<Rightarrow> (pystr \<times> pyval) list option \<Rightarrow> rule_decision" where
  "check_rule rule ctx =
     (case rule of
        None \<Rightarrow> if is_admin ctx then Allow else Deny
      | Some r \<Rightarrow> if r = [] then Allow else if is_admin ctx then Allow else FilterBy r)"

text \<open>An \<open>AdminRecord\<close> is its id and e-mail address, when it has them.\<close>

definition build_auth_context ::
  "(pystr \<times> pyval) list option \<Rightarrow> (pyval option \<times> pyval option) option \<Rightarrow> (pystr \<times> pyval) list option" where
  "build_auth_context token_payload admin =
     (case admin of
        Some (aid, email) \<Rightarrow>
          Some [(lit ''is_admin'', PBool True),
                (lit ''@request.auth.id'', case aid of Some v \<Rightarrow> v | None \<Rightarrow> PStr []),
                (lit ''@request.auth.email'', case email of Some v \<Rightarrow> v | None \<Rightarrow> PStr [])]
      | None \<Rightarrow>
          (case token_payload of
             None \<Rightarrow> None
           | Some p \<Rightarrow>
               Some [(lit ''is_admin'', PBool False),
                     (lit ''@request.auth.id'', dict_get_or p (lit ''id'') (PStr [])),
                     (lit ''@request.auth.collectionId'', dict_get_or p (lit ''collectionId'') (PStr [])),
                     (lit ''@request.auth.type'', dict_get_or p (lit ''type'') (PStr []))]))"

section \<open>Collections and the cached loader\<close>

type_synonym definition_dict = "(pystr \<times> pyval) list"

record coll =
  co_id :: pystr
  co_name :: pystr
  co_type :: pystr
  co_schema :: "definition_dict list"

definition PROTECTED_FIELDS :: "pystr list" where
  "PROTECTED_FIELDS = map lit [''password'', ''password_hash'', ''passwordHash'', ''tokenKey'', ''token_key'']"

definition BASE_FIELDS :: "pystr list" where
  "BASE_FIELDS = map lit [''id'', ''created'', ''updated'']"

definition AUTH_FIELDS :: "pystr list" where
  "AUTH_FIELDS = map lit [''email'', ''emailVisibility'', ''email_visibility'', ''verified'']"

text \<open>A name that is not text can never equal a path segment and is left out.\<close>

definition schema_fields :: "coll \<Rightarrow> (pystr \<times> definition_dict) list" where
  "schema_fields c = fold (\<lambda>d acc.
     case dict_get d (lit ''name'') of
       PStr n \<Rightarrow> if n \<noteq> [] then AList.update n d acc else acc
     | _ \<Rightarrow> acc) (co_schema c) []"

text \<open>The arguments the loader is called with are dynamically typed; lists and dicts are not hashable.\<close>

fun hashable :: "pyval \<Rightarrow> bool" where
  "hashable (PList _) = False"
| "hashable (PDict _) = False"
| "hashable _ = True"

record loader =
  ld_collections :: "(pyval \<times> coll option) list"
  ld_records :: "((pystr \<times> pystr) \<times> definition_dict option) list"

definition new_loader :: loader where
  "new_loader = \<lparr>ld_collections = [], ld_records = []\<rparr>"

definition loader_collection :: "(pyval \<Rightarrow> coll option) \<Rightarrow> pyval \<Rightarrow> loader \<Rightarrow> coll option \<times> loader" where
  "loader_collection resolve k ld =
     (case map_of (ld_collections ld) k of
        Some r \<Rightarrow> (r, ld)
      | None \<Rightarrow> (resolve k, ld\<lparr>ld_collections := (k, resolve k) # ld_collections ld\<rparr>))"

definition loader_record ::
  "(pystr \<Rightarrow> pystr \<Rightarrow> definition_dict option) \<Rightarrow> pystr \<times> pystr \<Rightarrow> loader \<Rightarrow> definition_dict option \<times> loader" where
  "loader_record fetch k ld =
     (case map_of (ld_records ld) k of
        Some r \<Rightarrow> (r, ld)
      | None \<Rightarrow> (fetch (fst k) (snd k), ld\<lparr>ld_records := (k, fetch (fst k) (snd k)) # ld_records ld\<rparr>))"

section \<open>The guard on client filters and sorts\<close>

datatype filter_node = FieldPath "pystr list" | MacroNode pystr | OtherNode

definition before_colon :: "pystr \<Rightarrow> pystr" where
  "before_colon s = takeWhile (\<lambda>c. c \<noteq> 58) s"

definition node_path :: "filter_node \<Rightarrow> (pystr option \<times> pystr list) list" where
  "node_path n =
     (case n of
        FieldPath tokens \<Rightarrow> [(None, map before_colon tokens)]
      | MacroNode m \<Rightarrow>
          (let name = dropWhile (\<lambda>c. c = 64) m; parts = split_on 46 name
           in if prefix (lit ''collection.'') name \<and> 3 \<le> length parts
              then [(Some (before_colon (parts ! 1)), map before_colon (filter (\<lambda>p. p \<noteq> []) (drop 2 parts)))]
              else [])
      | OtherNode \<Rightarrow> [])"

definition paths :: "filter_node list \<Rightarrow> (pystr option \<times> pystr list) list" where
  "paths nodes = concat (map node_path nodes)"

definition sort_paths :: "pystr \<Rightarrow> pystr list list" where
  "sort_paths sort_str =
     map (split_on 46)
       (filter (\<lambda>p. p \<noteq> [] \<and> hd p \<noteq> 64)
         (map (\<lambda>p. dropWhile (\<lambda>c. c = 43 \<or> c = 45) (py_strip p)) (split_on 44 sort_str)))"

datatype guard_error = InvalidField pystr | InvalidCollection pystr | InvalidSyntax | GuardRaised pyexn

text \<open>\<open>segment.partition("_via_")\<close> when the separator occurs.\<close>

fun partition_via :: "pystr \<Rightarrow> (pystr \<times> pystr) option" where
  "partition_via [] = None"
| "partition_via (c # cs) =
     (if prefix (lit ''_via_'') (c # cs) then Some ([], drop 5 (c # cs))
      else map_option (\<lambda>(a, b). (c # a, b)) (partition_via cs))"

definition allowed_system :: "coll \<Rightarrow> pystr list" where
  "allowed_system c = BASE_FIELDS @ (if co_type c = lit ''auth'' then AUTH_FIELDS else [])"

text \<open>\<open>options.get("collectionId") or definition.get("collectionId") or ""\<close>.\<close>

definition relation_key :: "definition_dict \<Rightarrow> pyexn + pyval" where
  "relation_key d =
     (let o1 = dict_get d (lit ''options'')
      in if \<not> truthy o1 then Inr (let v = dict_get d (lit ''collectionId'') in if truthy v then v else PStr [])
         else case o1 of
                PDict od \<Rightarrow>
                  (let a = dict_get od (lit ''collectionId''); b = dict_get d (lit ''collectionId'')
                   in Inr (if truthy a then a else if truthy b then b else PStr []))
              | _ \<Rightarrow> Inl AttributeError)"

fun check_path ::
  "(pyval \<Rightarrow> coll option) \<Rightarrow> bool \<Rightarrow> coll \<Rightarrow> pystr list \<Rightarrow> loader \<Rightarrow> (guard_error + unit) \<times> loader" where
  "check_path resolve allow_hidden c [] ld = (Inr (), ld)"
| "check_path resolve allow_hidden c (seg # segs) ld =
     (if seg \<in> set PROTECTED_FIELDS then (Inl (InvalidField seg), ld)
      else case partition_via seg of
             Some (target_name, via_field) \<Rightarrow>
               (case loader_collection resolve (PStr target_name) ld of
                  (None, ld1) \<Rightarrow> (Inl (InvalidField seg), ld1)
                | (Some target, ld1) \<Rightarrow>
                    if map_of (schema_fields target) via_field = None then (Inl (InvalidField seg), ld1)
                    else check_path resolve allow_hidden target segs ld1)
           | None \<Rightarrow>
               if seg \<in> set (allowed_system c) then (Inr (), ld)
               else case map_of (schema_fields c) seg of
                      None \<Rightarrow> (Inl (InvalidField seg), ld)
                    | Some d \<Rightarrow>
                        if truthy (dict_get d (lit ''hidden'')) \<and> \<not> allow_hidden then (Inl (InvalidField seg), ld)
                        else if segs = [] then (Inr (), ld)
                        else if dict_get d (lit ''type'') \<noteq> PStr (lit ''relation'') then (Inr (), ld)
                        else case relation_key d of
                               Inl e \<Rightarrow> (Inl (GuardRaised e), ld)
                             | Inr k \<Rightarrow>
                                 if \<not> hashable k then (Inl (GuardRaised TypeError), ld)
                                 else case loader_collection resolve k ld of
                                        (None, ld1) \<Rightarrow> (Inl (InvalidField seg), ld1)
                                      | (Some target, ld1) \<Rightarrow> check_path resolve allow_hidden target segs ld1)"

fun check_references ::
  "(pyval \<Rightarrow> coll option) \<Rightarrow> bool \<Rightarrow> coll \<Rightarrow> (pystr option \<times> pystr list) list \<Rightarrow> loader
    \<Rightarrow> (guard_error + unit) \<times> loader" where
  "check_references resolve su c [] ld = (Inr (), ld)"
| "check_references resolve su c ((name, segs) # refs) ld =
     (if segs = [] then check_references resolve su c refs ld
      else let (start, ld1) = (case name of None \<Rightarrow> (Some c, ld) | Some n \<Rightarrow> loader_collection resolve (PStr n) ld)
           in case start of
                None \<Rightarrow> (Inl (InvalidCollection (case name of Some n \<Rightarrow> n | None \<Rightarrow> [])), ld1)
              | Some s \<Rightarrow>
                  (case check_path resolve su s segs ld1 of
                     (Inl e, ld2) \<Rightarrow> (Inl e, ld2)
                   | (Inr _, ld2) \<Rightarrow> check_references resolve su c refs ld2))"

text \<open>\<open>parse\<close> is the filter parser; a syntax error becomes \<open>InvalidSyntax\<close>.\<close>

definition client_references ::
  "(pystr \<Rightarrow> filter_node list option) \<Rightarrow> pystr \<Rightarrow> pystr \<Rightarrow> guard_error + (pystr option \<times> pystr list) list" where
  "client_references parse filter_str sort_str =
     bindE (if filter_str = [] then Inr []
            else case parse filter_str of None \<Rightarrow> Inl InvalidSyntax | Some nodes \<Rightarrow> Inr (paths nodes)) (\<lambda>refs.
     Inr (refs @ (if sort_str = [] then [] else map (\<lambda>p. (None, p)) (sort_paths sort_str))))"

definition assert_client_query_allowed ::
  "(pystr \<Rightarrow> filter_node list option) \<Rightarrow> (pyval \<Rightarrow> coll option) \<Rightarrow> coll \<Rightarrow> pystr \<Rightarrow> pystr \<Rightarrow> bool \<Rightarrow> guard_error + unit" where
  "assert_client_query_allowed parse resolve c filter_str sort_str is_superuser =
     bindE (client_references parse filter_str sort_str) (\<lambda>refs.
       fst (check_references resolve is_superuser c refs new_loader))"

section \<open>Request macros\<close>

definition TOKEN_AUTH_FIELDS :: "pystr list" where
  "TOKEN_AUTH_FIELDS = map lit [''id'', ''collectionId'', ''type'']"

definition to_utc :: "pydt \<Rightarrow> pydt" where
  "to_utc d = PyDt (dt_local d - (case dt_offset d of None \<Rightarrow> 0 | Some u \<Rightarrow> u)) (Some 0)"

definition to_param :: "py_runtime \<Rightarrow> pyval \<Rightarrow> pyexn + pyval" where
  "to_param rt v =
     (case v of
        PList _ \<Rightarrow> bindE (rt_json_dumps rt v) (\<lambda>s. Inr (PStr s))
      | PDict _ \<Rightarrow> bindE (rt_json_dumps rt v) (\<lambda>s. Inr (PStr s))
      | PDatetime d \<Rightarrow> Inr (PStr (rt_strftime rt (to_utc d)))
      | _ \<Rightarrow> Inr v)"

fun relation_target_in :: "definition_dict list \<Rightarrow> pystr \<Rightarrow> pyexn + pyval" where
  "relation_target_in [] f = Inr PNone"
| "relation_target_in (d # ds) f =
     (if dict_get d (lit ''name'') \<noteq> PStr f \<or> dict_get d (lit ''type'') \<noteq> PStr (lit ''relation'')
      then relation_target_in ds f
      else let o1 = dict_get d (lit ''options''); b = dict_get d (lit ''collectionId'')
           in if \<not> truthy o1 then Inr b
              else case o1 of
                     PDict od \<Rightarrow> (let a = dict_get od (lit ''collectionId'') in Inr (if truthy a then a else b))
                   | _ \<Rightarrow> Inl AttributeError)"

definition relation_target :: "coll \<Rightarrow> pystr \<Rightarrow> pyexn + pyval" where
  "relation_target c f = relation_target_in (co_schema c) f"

definition target_id_of :: "pyval \<Rightarrow> pyval" where
  "target_id_of v = (case v of PList (x # xs) \<Rightarrow> x | _ \<Rightarrow> v)"

definition as_record :: "pyval \<Rightarrow> definition_dict option" where
  "as_record v = (case v of PDict d \<Rightarrow> Some d | _ \<Rightarrow> None)"

fun walk ::
  "py_runtime \<Rightarrow> (pyval \<Rightarrow> coll option) \<Rightarrow> (pystr \<Rightarrow> pystr \<Rightarrow> definition_dict option) \<Rightarrow> coll \<Rightarrow> pyval \<Rightarrow> pystr option
    \<Rightarrow> pystr list \<Rightarrow> loader \<Rightarrow> (pyexn + pyval) \<times> loader" where
  "walk rt resolve fetch c v fname [] ld = (Inr v, ld)"
| "walk rt resolve fetch c v None (seg # segs) ld =
     (case as_record v of
        None \<Rightarrow> (Inr PNone, ld)
      | Some r \<Rightarrow> (case map_of r seg of None \<Rightarrow> (Inr PNone, ld) | Some w \<Rightarrow> walk rt resolve fetch c w (Some seg) segs ld))"
| "walk rt resolve fetch c v (Some f) (seg # segs) ld =
     (case relation_target c f of
        Inl e \<Rightarrow> (Inl e, ld)
      | Inr target \<Rightarrow>
          let tid = target_id_of v
          in if \<not> truthy target \<or> \<not> truthy tid then (Inr PNone, ld)
             else if seg = lit ''id'' then walk rt resolve fetch c tid None segs ld
             else if \<not> hashable target then (Inl TypeError, ld)
             else case loader_collection resolve target ld of
                    (None, ld1) \<Rightarrow> (Inr PNone, ld1)
                  | (Some c1, ld1) \<Rightarrow>
                      (case loader_record fetch (co_name c1, py_str rt tid) ld1 of
                         (None, ld2) \<Rightarrow> (Inr PNone, ld2)
                       | (Some r, ld2) \<Rightarrow>
                           (case map_of r seg of
                              None \<Rightarrow> (Inr PNone, ld2)
                            | Some w \<Rightarrow> walk rt resolve fetch c1 w (Some seg) segs ld2)))"

record request_ctx =
  rc_auth :: pyval
  rc_data :: pyval
  rc_resolved :: definition_dict

datatype macro_source = AuthMacro | BodyMacro | DataMacro

definition source_name :: "macro_source \<Rightarrow> pystr" where
  "source_name s = (case s of AuthMacro \<Rightarrow> lit ''auth'' | BodyMacro \<Rightarrow> lit ''body'' | DataMacro \<Rightarrow> lit ''data'')"

definition macro_key :: "macro_source \<times> pystr \<Rightarrow> pystr" where
  "macro_key m = lit ''request.'' @ source_name (fst m) @ [46] @ snd m"

text \<open>\<open>request_context.get("auth") or {}\<close>, then \<open>.get\<close>: anything truthy that is no dict raises.\<close>

definition as_dict :: "pyval \<Rightarrow> pyexn + definition_dict" where
  "as_dict v = (if \<not> truthy v then Inr [] else case v of PDict d \<Rightarrow> Inr d | _ \<Rightarrow> Inl AttributeError)"

text \<open>One macro: the value to store, or \<open>None\<close> when the loop continues without storing one.\<close>

definition resolve_auth ::
  "py_runtime \<Rightarrow> (pyval \<Rightarrow> coll option) \<Rightarrow> (pystr \<Rightarrow> pystr \<Rightarrow> definition_dict option) \<Rightarrow> definition_dict \<Rightarrow> pystr
    \<Rightarrow> loader \<Rightarrow> (pyexn + pyval option) \<times> loader" where
  "resolve_auth rt resolve fetch auth path ld =
     (if \<not> truthy (dict_get auth (lit ''id'')) \<or> \<not> truthy (dict_get auth (lit ''collectionId'')) then
        (Inr (Some (if path = lit ''collectionName'' then PStr [] else PNone)), ld)
      else case loader_collection resolve (PStr (py_str rt (dict_get auth (lit ''collectionId'')))) ld of
             (None, ld1) \<Rightarrow> (Inr None, ld1)
           | (Some ac, ld1) \<Rightarrow>
               if path = lit ''collectionName'' then (Inr (Some (PStr (co_name ac))), ld1)
               else (case loader_record fetch (co_name ac, py_str rt (dict_get auth (lit ''id''))) ld1 of
                       (r, ld2) \<Rightarrow>
                         (case walk rt resolve fetch ac (case r of None \<Rightarrow> PNone | Some d \<Rightarrow> PDict d) None (split_on 46 path) ld2 of
                            (v, ld3) \<Rightarrow> (bindE (bindE v (to_param rt)) (\<lambda>p. Inr (Some p)), ld3))))"

definition resolve_body ::
  "py_runtime \<Rightarrow> (pyval \<Rightarrow> coll option) \<Rightarrow> (pystr \<Rightarrow> pystr \<Rightarrow> definition_dict option) \<Rightarrow> coll option \<Rightarrow> pyval \<Rightarrow> pystr list
    \<Rightarrow> loader \<Rightarrow> (pyexn + pyval option) \<times> loader" where
  "resolve_body rt resolve fetch c data segs ld =
     (case (c, if truthy data then data else PDict []) of
        (Some co, PDict d) \<Rightarrow>
          if length segs = 1 then (Inr None, ld)
          else (case map_of d (hd segs) of
                  None \<Rightarrow> (Inr (Some PNone), ld)
                | Some v0 \<Rightarrow>
                    (case walk rt resolve fetch co (PDict [(hd segs, v0)]) None segs ld of
                       (v, ld1) \<Rightarrow> (bindE (bindE v (to_param rt)) (\<lambda>p. Inr (Some p)), ld1)))
      | _ \<Rightarrow> (Inr None, ld))"

definition resolve_one ::
  "py_runtime \<Rightarrow> (pyval \<Rightarrow> coll option) \<Rightarrow> (pystr \<Rightarrow> pystr \<Rightarrow> definition_dict option) \<Rightarrow> coll option \<Rightarrow> pyval
    \<Rightarrow> pyval \<Rightarrow> macro_source \<times> pystr \<Rightarrow> loader \<Rightarrow> (pyexn + pyval option) \<times> loader" where
  "resolve_one rt resolve fetch c auth data m ld =
     (let segs = split_on 46 (snd m)
      in if fst m = AuthMacro then
           if hd segs \<in> set TOKEN_AUTH_FIELDS \<and> length segs = 1 then (Inr None, ld)
           else (case as_dict auth of Inl e \<Rightarrow> (Inl e, ld) | Inr a \<Rightarrow> resolve_auth rt resolve fetch a (snd m) ld)
         else resolve_body rt resolve fetch c data segs ld)"

fun resolve_all ::
  "py_runtime \<Rightarrow> (pyval \<Rightarrow> coll option) \<Rightarrow> (pystr \<Rightarrow> pystr \<Rightarrow> definition_dict option) \<Rightarrow> coll option \<Rightarrow> pyval
    \<Rightarrow> pyval \<Rightarrow> (macro_source \<times> pystr) list \<Rightarrow> definition_dict \<Rightarrow> loader \<Rightarrow> pyexn + definition_dict" where
  "resolve_all rt resolve fetch c auth data [] resolved ld = Inr resolved"
| "resolve_all rt resolve fetch c auth data (m # ms) resolved ld =
     (if macro_key m \<in> fst ` set resolved then resolve_all rt resolve fetch c auth data ms resolved ld
      else case resolve_one rt resolve fetch c auth data m ld of
             (Inl e, ld1) \<Rightarrow> Inl e
           | (Inr None, ld1) \<Rightarrow> resolve_all rt resolve fetch c auth data ms resolved ld1
           | (Inr (Some v), ld1) \<Rightarrow>
               resolve_all rt resolve fetch c auth data ms (AList.update (macro_key m) v resolved) ld1)"

text \<open>
  \<open>matches\<close> is \<open>set(_MACRO_RE.findall(filter_str))\<close> in the order the set is iterated, which the source does not
  fix.
\<close>

definition resolve_request_macros ::
  "py_runtime \<Rightarrow> (pyval \<Rightarrow> coll option) \<Rightarrow> (pystr \<Rightarrow> pystr \<Rightarrow> definition_dict option) \<Rightarrow> coll option
    \<Rightarrow> (macro_source \<times> pystr) list \<Rightarrow> request_ctx \<Rightarrow> pyexn + request_ctx" where
  "resolve_request_macros rt resolve fetch c matches ctx =
     (if matches = [] then Inr ctx
      else bindE (resolve_all rt resolve fetch c (rc_auth ctx) (rc_data ctx) matches (rc_resolved ctx) new_loader) (\<lambda>resolved.
           Inr (ctx\<lparr>rc_resolved := resolved\<rparr>)))"

section \<open>Rules: a token never grants administrator access\<close>

text \<open>
  The decision of an API rule, for every rule and every caller: an administrator is always let through;
  without administrator rights a null rule denies, an empty rule allows and any other rule becomes a filter,
  whatever claims the token carries (also a claim named \<open>is_admin\<close>).
\<close>

theorem rule_decision_correct:
  "check_rule rule (build_auth_context payload admin) =
     (if admin \<noteq> None then Allow
      else case rule of None \<Rightarrow> Deny | Some r \<Rightarrow> if r = [] then Allow else FilterBy r)"
  by (cases payload; cases admin; cases rule)
     (auto simp: check_rule_def build_auth_context_def is_admin_def dict_get_def)

section \<open>The loader cache is transparent\<close>

locale cached_lookup =
  fixes lookup :: "'k \<Rightarrow> 's \<Rightarrow> 'v \<times> 's"
    and direct :: "'k \<Rightarrow> 'v"
    and consistent :: "'s \<Rightarrow> bool"
  assumes lookup_direct: "consistent s \<Longrightarrow> fst (lookup k s) = direct k"
    and lookup_consistent: "consistent s \<Longrightarrow> consistent (snd (lookup k s))"
begin

lemma lookup_cases:
  assumes "consistent s"
  obtains s' where "lookup k s = (direct k, s')" "consistent s'"
  using lookup_direct [OF assms] lookup_consistent [OF assms] by (metis prod.collapse)

lemma lookups_direct:
  "consistent s \<Longrightarrow> fst (fold (\<lambda>k (out, s). let (v, s1) = lookup k s in (out @ [v], s1)) ks (out, s)) = out @ map direct ks"
proof (induction ks arbitrary: out s)
  case (Cons k ks)
  obtain s' where "lookup k s = (direct k, s')" "consistent s'" using Cons.prems by (rule lookup_cases)
  with Cons.IH [of s' "out @ [direct k]"] show ?case by simp
qed simp

end

definition loader_ok :: "(pyval \<Rightarrow> coll option) \<Rightarrow> (pystr \<Rightarrow> pystr \<Rightarrow> definition_dict option) \<Rightarrow> loader \<Rightarrow> bool" where
  "loader_ok resolve fetch ld \<longleftrightarrow>
     (\<forall>(k, r) \<in> set (ld_collections ld). r = resolve k) \<and> (\<forall>(k, r) \<in> set (ld_records ld). r = fetch (fst k) (snd k))"

lemma loader_ok_new [simp]: "loader_ok resolve fetch new_loader"
  by (simp add: loader_ok_def new_loader_def)

interpretation collections: cached_lookup "loader_collection resolve" resolve "loader_ok resolve fetch" for resolve fetch
  by unfold_locales (auto simp: loader_collection_def loader_ok_def dest!: map_of_SomeD split: option.splits)

interpretation records: cached_lookup "loader_record fetch" "\<lambda>k. fetch (fst k) (snd k)" "loader_ok resolve fetch"
  for resolve fetch
  by unfold_locales (auto simp: loader_record_def loader_ok_def dest!: map_of_SomeD split: option.splits)

section \<open>What a client query can read\<close>

text \<open>
  \<open>visits resolve c segs c' x role\<close>: following the path \<open>segs\<close> from collection \<open>c\<close>, the query reads field \<open>x\<close> of
  collection \<open>c'\<close>, as a segment of the path (\<open>Named\<close>) or to join a back relation (\<open>Joined\<close>: the segment \<open>t_via_f\<close>
  compares field \<open>f\<close> of every record of \<open>t\<close>).  A back relation and a relation field lead to the next collection; a
  system field or a field of another type ends the traversal, because deeper segments then address parts of its value.
\<close>

datatype read_role = Named | Joined

inductive visits :: "(pyval \<Rightarrow> coll option) \<Rightarrow> coll \<Rightarrow> pystr list \<Rightarrow> coll \<Rightarrow> pystr \<Rightarrow> read_role \<Rightarrow> bool" for resolve where
  visit_field: "partition_via seg = None \<Longrightarrow> visits resolve c (seg # segs) c seg Named"
| visit_join: "partition_via seg = Some (t, f) \<Longrightarrow> resolve (PStr t) = Some c1 \<Longrightarrow> visits resolve c (seg # segs) c1 f Joined"
| visit_via: "partition_via seg = Some (t, f) \<Longrightarrow> resolve (PStr t) = Some c1 \<Longrightarrow> visits resolve c1 segs c' x role \<Longrightarrow>
    visits resolve c (seg # segs) c' x role"
| visit_relation: "partition_via seg = None \<Longrightarrow> seg \<notin> set (allowed_system c) \<Longrightarrow>
    map_of (schema_fields c) seg = Some d \<Longrightarrow> dict_get d (lit ''type'') = PStr (lit ''relation'') \<Longrightarrow>
    relation_key d = Inr k \<Longrightarrow> resolve k = Some c1 \<Longrightarrow> visits resolve c1 segs c' x role \<Longrightarrow>
    visits resolve c (seg # segs) c' x role"

inductive_cases visits_ConsE: "visits resolve c (seg # segs) c' x role"
inductive_cases visits_NilE: "visits resolve c [] c' x role"

definition readable :: "bool \<Rightarrow> coll \<Rightarrow> pystr \<Rightarrow> bool" where
  "readable superuser c x \<longleftrightarrow>
     x \<notin> set PROTECTED_FIELDS \<and>
     (x \<in> set (allowed_system c) \<or>
      (\<exists>d. map_of (schema_fields c) x = Some d \<and> (truthy (dict_get d (lit ''hidden'')) \<longrightarrow> superuser)))"

definition may_read :: "bool \<Rightarrow> read_role \<Rightarrow> coll \<Rightarrow> pystr \<Rightarrow> bool" where
  "may_read superuser role c x =
     (case role of Named \<Rightarrow> readable superuser c x | Joined \<Rightarrow> x \<in> dom (map_of (schema_fields c)))"

lemma check_path_ok:
  assumes "check_path resolve su c segs ld = (Inr (), ld')" "loader_ok resolve fetch ld"
  shows "loader_ok resolve fetch ld' \<and> (\<forall>c' x role. visits resolve c segs c' x role \<longrightarrow> may_read su role c' x)"
  using assms
proof (induction segs arbitrary: c ld)
  case Nil
  then show ?case by (auto elim: visits_NilE)
next
  case (Cons seg segs)
  have np: "seg \<notin> set PROTECTED_FIELDS" using Cons.prems(1) by (auto split: if_splits)
  show ?case
  proof (cases "partition_via seg")
    case (Some tf)
    obtain t f where tf: "tf = (t, f)" by (cases tf)
    obtain ld1 where l1: "loader_collection resolve (PStr t) ld = (resolve (PStr t), ld1)" "loader_ok resolve fetch ld1"
      using Cons.prems(2) by (rule collections.lookup_cases)
    obtain c1 where c1: "resolve (PStr t) = Some c1"
      using Cons.prems(1) np Some tf l1 by (auto split: option.splits)
    have rec: "check_path resolve su c1 segs ld1 = (Inr (), ld')" "f \<in> dom (map_of (schema_fields c1))"
      using Cons.prems(1) np Some tf l1 c1 by (auto split: if_splits option.splits)
    show ?thesis using Cons.IH [OF rec(1) l1(2)] rec(2) Some tf c1 by (auto simp: may_read_def elim!: visits_ConsE)
  next
    case None
    show ?thesis
    proof (cases "seg \<in> set (allowed_system c)")
      case True
      then show ?thesis using Cons.prems np None by (auto simp: may_read_def readable_def elim!: visits_ConsE)
    next
      case sys: False
      obtain d where d: "map_of (schema_fields c) seg = Some d" "truthy (dict_get d (lit ''hidden'')) \<longrightarrow> su"
        using Cons.prems(1) np None sys by (auto split: option.splits if_splits)
      have here: "readable su c seg" using d np by (auto simp: readable_def)
      show ?thesis
      proof (cases "segs = [] \<or> dict_get d (lit ''type'') \<noteq> PStr (lit ''relation'')")
        case True
        then have "ld' = ld" using Cons.prems(1) np None sys d by (auto split: if_splits)
        then show ?thesis using True Cons.prems(2) None d here by (auto simp: may_read_def elim!: visits_ConsE visits_NilE)
      next
        case False
        obtain k where k: "relation_key d = Inr k" "hashable k"
          using Cons.prems(1) np None sys d False by (auto split: sum.splits if_splits)
        obtain ld1 where l1: "loader_collection resolve k ld = (resolve k, ld1)" "loader_ok resolve fetch ld1"
          using Cons.prems(2) by (rule collections.lookup_cases)
        obtain c1 where c1: "resolve k = Some c1"
          using Cons.prems(1) np None sys d False k l1 by (auto split: option.splits if_splits)
        have rec: "check_path resolve su c1 segs ld1 = (Inr (), ld')"
          using Cons.prems(1) np None sys d False k l1 c1 by (auto split: if_splits)
        show ?thesis using Cons.IH [OF rec l1(2)] None d k c1 here by (auto simp: may_read_def elim!: visits_ConsE)
      qed
    qed
  qed
qed

definition reference_start :: "(pyval \<Rightarrow> coll option) \<Rightarrow> coll \<Rightarrow> pystr option \<Rightarrow> coll option" where
  "reference_start resolve c name = (case name of None \<Rightarrow> Some c | Some n \<Rightarrow> resolve (PStr n))"

lemma check_references_ok:
  assumes "check_references resolve su c refs ld = (Inr (), ld')" "loader_ok resolve fetch ld"
    and "(name, segs) \<in> set refs" "reference_start resolve c name = Some s" "visits resolve s segs c' x role"
  shows "may_read su role c' x"
  using assms
proof (induction refs arbitrary: ld)
  case (Cons ref refs)
  obtain n ss where ref: "ref = (n, ss)" by (cases ref)
  show ?case
  proof (cases "ss = []")
    case True
    then show ?thesis using Cons ref by (auto elim: visits_NilE)
  next
    case False
    obtain ld1 where l1: "(case n of None \<Rightarrow> (Some c, ld) | Some m \<Rightarrow> loader_collection resolve (PStr m) ld)
        = (reference_start resolve c n, ld1)" "loader_ok resolve fetch ld1"
      using Cons.prems(2) collections.lookup_cases [of resolve fetch ld]
      by (cases n) (auto simp: reference_start_def)
    obtain s1 ld2 where s1: "reference_start resolve c n = Some s1" "check_path resolve su s1 ss ld1 = (Inr (), ld2)"
      "check_references resolve su c refs ld2 = (Inr (), ld')"
      using Cons.prems(1) ref False l1 by (auto split: option.splits prod.splits sum.splits)
    note path = check_path_ok [OF s1(2) l1(2)]
    show ?thesis
    proof (cases "(name, segs) = (n, ss)")
      case True
      then show ?thesis using path Cons.prems(4,5) s1(1) by auto
    next
      case False
      then show ?thesis using Cons.IH [OF s1(3)] path Cons.prems(3-5) ref by auto
    qed
  qed
qed simp

text \<open>
  C11: What a client query that passes the guard reads.  Every field that a filter or sort reference names, along
  relations and back relations, is a system field or a known schema field, is none of the protected fields, and is hidden
  only if the caller is a superuser.  A field that only joins a back relation (\<open>f\<close> of \<open>t_via_f\<close>) has to exist, and
  nothing more: it may be hidden (\<open>hidden_back_relation_allowed\<close>), so a caller who is no superuser can learn of a hidden
  relation field which records it connects.
\<close>

theorem guarded_query_reads_only_readable:
  assumes "assert_client_query_allowed parse resolve c filter_str sort_str superuser = Inr ()"
    and "client_references parse filter_str sort_str = Inr refs"
    and "(name, segs) \<in> set refs" "reference_start resolve c name = Some s" "visits resolve s segs c' x role"
  shows "case role of
      Named \<Rightarrow> x \<notin> set PROTECTED_FIELDS \<and>
        (x \<in> set (allowed_system c') \<or>
         (\<exists>d. map_of (schema_fields c') x = Some d \<and> (truthy (dict_get d (lit ''hidden'')) \<longrightarrow> superuser)))
    | Joined \<Rightarrow> x \<in> dom (map_of (schema_fields c'))"
proof -
  have "fst (check_references resolve superuser c refs new_loader) = Inr ()"
    using assms(1,2) by (simp add: assert_client_query_allowed_def)
  then obtain ld' where "check_references resolve superuser c refs new_loader = (Inr (), ld')"
    by (metis prod.collapse)
  from check_references_ok[OF this loader_ok_new [of resolve "\<lambda>_ _. None"] assms(3-5)]
  show ?thesis by (cases role) (simp_all add: may_read_def readable_def)
qed

definition sample_users :: coll where
  "sample_users = \<lparr>co_id = [117], co_name = lit ''users'', co_type = lit ''auth'',
     co_schema = [[(lit ''name'', PStr (lit ''nick'')), (lit ''type'', PStr (lit ''text''))]]\<rparr>"

lemma sample_sort: "sort_paths (lit ''-nick'') = [[lit ''nick'']]"
  by (simp add: sort_paths_def lit_def split_on.simps py_strip_def is_space_def)

lemma sample_fields: "schema_fields sample_users = [(lit ''nick'', [(lit ''name'', PStr (lit ''nick'')), (lit ''type'', PStr (lit ''text''))])]"
  by (simp add: schema_fields_def sample_users_def dict_get_def lit_def)

theorem guarded_query_reads_only_readable_witness:
  "assert_client_query_allowed (\<lambda>_. None) (\<lambda>_. None) sample_users [] (lit ''-nick'') False = Inr () \<and>
   readable False sample_users (lit ''nick'')"
proof -
  have refs: "client_references (\<lambda>_. None) [] (lit ''-nick'') = Inr [(None, [lit ''nick''])]"
    by (simp add: client_references_def sample_sort)
  have via: "partition_via (lit ''nick'') = None" by (simp add: lit_def)
  have ok: "assert_client_query_allowed (\<lambda>_. None) (\<lambda>_. None) sample_users [] (lit ''-nick'') False = Inr ()"
    unfolding assert_client_query_allowed_def refs
    by (simp add: via sample_fields dict_get_def allowed_system_def)
       (simp add: lit_def PROTECTED_FIELDS_def BASE_FIELDS_def AUTH_FIELDS_def)
  moreover have "visits (\<lambda>_. None) sample_users [lit ''nick''] sample_users (lit ''nick'') Named"
    by (rule visit_field) (rule via)
  ultimately show ?thesis
    using guarded_query_reads_only_readable [OF ok refs, of None "[lit ''nick'']"] by (fastforce simp: reference_start_def readable_def)
qed

text \<open>
  The field behind a back relation is only required to exist: a hidden relation field can be used as
  \<open>posts_via_secret\<close> by a caller who is no superuser.
\<close>

lemma hidden_back_relation_allowed:
  assumes "resolve (PStr (lit ''posts'')) = Some t" "map_of (schema_fields t) (lit ''secret'') = Some d"
    "truthy (dict_get d (lit ''hidden''))"
  shows "fst (check_path resolve False c [lit ''posts_via_secret'', lit ''id''] new_loader) = Inr ()"
proof -
  have "partition_via (lit ''posts_via_secret'') = Some (lit ''posts'', lit ''secret'')" "partition_via (lit ''id'') = None"
    by (simp_all add: lit_def)
  then show ?thesis
    using assms(1,2)
    by (simp add: loader_collection_def new_loader_def allowed_system_def)
       (simp add: lit_def PROTECTED_FIELDS_def BASE_FIELDS_def)
qed

section \<open>Macro resolution does not depend on the iteration order\<close>

lemma walk_cache:
  assumes "loader_ok resolve fetch ld1" "loader_ok resolve fetch ld2"
  shows "fst (walk rt resolve fetch c v f segs ld1) = fst (walk rt resolve fetch c v f segs ld2) \<and>
    loader_ok resolve fetch (snd (walk rt resolve fetch c v f segs ld1))"
  using assms
proof (induction segs arbitrary: c v f ld1 ld2)
  case (Cons seg segs)
  show ?case
  proof (cases f)
    case None
    show ?thesis
    proof (cases "as_record v")
      case (Some r)
      then show ?thesis
        using None Cons.prems Cons.IH [of ld1 ld2] by (cases "map_of r seg") simp_all
    qed (use None Cons.prems in simp)
  next
    case (Some g)
    show ?thesis
    proof (cases "relation_target c g")
      case (Inl e)
      then show ?thesis using Some Cons.prems by simp
    next
      case (Inr target)
      let ?tid = "target_id_of v"
      obtain l1 where l1: "loader_collection resolve target ld1 = (resolve target, l1)" "loader_ok resolve fetch l1"
        using Cons.prems(1) by (rule collections.lookup_cases)
      obtain l2 where l2: "loader_collection resolve target ld2 = (resolve target, l2)" "loader_ok resolve fetch l2"
        using Cons.prems(2) by (rule collections.lookup_cases)
      show ?thesis
      proof (cases "resolve target")
        case None
        then show ?thesis using Some Inr Cons.prems l1 l2 Cons.IH [of ld1 ld2] by (simp add: Let_def)
      next
        case (Some c1)
        let ?k = "(co_name c1, py_str rt ?tid)"
        obtain m1 where m1: "loader_record fetch ?k l1 = (fetch (fst ?k) (snd ?k), m1)" "loader_ok resolve fetch m1"
          using l1(2) by (rule records.lookup_cases)
        obtain m2 where m2: "loader_record fetch ?k l2 = (fetch (fst ?k) (snd ?k), m2)" "loader_ok resolve fetch m2"
          using l2(2) by (rule records.lookup_cases)
        show ?thesis
          using \<open>f = Some g\<close> Some Inr Cons.prems l1 l2 m1 m2 Cons.IH [of ld1 ld2] Cons.IH [of m1 m2]
          by (simp add: Let_def split: option.split)
      qed
    qed
  qed
qed simp

lemma resolve_auth_cache:
  assumes "loader_ok resolve fetch ld1" "loader_ok resolve fetch ld2"
  shows "fst (resolve_auth rt resolve fetch a path ld1) = fst (resolve_auth rt resolve fetch a path ld2) \<and>
    loader_ok resolve fetch (snd (resolve_auth rt resolve fetch a path ld1))"
proof -
  let ?k = "PStr (py_str rt (dict_get a (lit ''collectionId'')))"
  obtain l1 where l1: "loader_collection resolve ?k ld1 = (resolve ?k, l1)" "loader_ok resolve fetch l1"
    using assms(1) by (rule collections.lookup_cases)
  obtain l2 where l2: "loader_collection resolve ?k ld2 = (resolve ?k, l2)" "loader_ok resolve fetch l2"
    using assms(2) by (rule collections.lookup_cases)
  show ?thesis
  proof (cases "resolve ?k")
    case None
    then show ?thesis using assms l1 l2 by (simp add: resolve_auth_def)
  next
    case (Some ac)
    let ?r = "(co_name ac, py_str rt (dict_get a (lit ''id'')))"
    obtain m1 where m1: "loader_record fetch ?r l1 = (fetch (fst ?r) (snd ?r), m1)" "loader_ok resolve fetch m1"
      using l1(2) by (rule records.lookup_cases)
    obtain m2 where m2: "loader_record fetch ?r l2 = (fetch (fst ?r) (snd ?r), m2)" "loader_ok resolve fetch m2"
      using l2(2) by (rule records.lookup_cases)
    show ?thesis
      using assms l1 l2 m1 m2 Some walk_cache [OF m1(2) m2(2)]
      by (simp add: resolve_auth_def case_prod_beta)
  qed
qed

lemma resolve_body_cache:
  assumes "loader_ok resolve fetch ld1" "loader_ok resolve fetch ld2"
  shows "fst (resolve_body rt resolve fetch c data segs ld1) = fst (resolve_body rt resolve fetch c data segs ld2) \<and>
    loader_ok resolve fetch (snd (resolve_body rt resolve fetch c data segs ld1))"
proof (cases "(c, if truthy data then data else PDict [])")
  case (Pair co d)
  show ?thesis
  proof (cases co)
    case None
    then show ?thesis using assms Pair by (simp add: resolve_body_def)
  next
    case (Some coll)
    show ?thesis
    proof (cases d)
      case (PDict dd)
      then show ?thesis
        using assms Pair Some walk_cache [OF assms] by (simp add: resolve_body_def case_prod_beta split: option.split)
    qed (use assms Pair Some in \<open>simp_all add: resolve_body_def\<close>)
  qed
qed

lemma resolve_one_cache:
  assumes "loader_ok resolve fetch ld1" "loader_ok resolve fetch ld2"
  shows "fst (resolve_one rt resolve fetch c auth data m ld1) = fst (resolve_one rt resolve fetch c auth data m ld2) \<and>
    loader_ok resolve fetch (snd (resolve_one rt resolve fetch c auth data m ld1))"
  using resolve_auth_cache [OF assms] resolve_body_cache [OF assms] assms
  by (simp add: resolve_one_def Let_def split: sum.split)

text \<open>What one macro stands for, computed with an empty cache.\<close>

definition macro_value ::
  "py_runtime \<Rightarrow> (pyval \<Rightarrow> coll option) \<Rightarrow> (pystr \<Rightarrow> pystr \<Rightarrow> definition_dict option) \<Rightarrow> coll option \<Rightarrow> pyval
    \<Rightarrow> pyval \<Rightarrow> macro_source \<times> pystr \<Rightarrow> pyexn + pyval option" where
  "macro_value rt resolve fetch c auth data m = fst (resolve_one rt resolve fetch c auth data m new_loader)"

lemma resolve_one_cases:
  assumes "loader_ok resolve fetch ld"
  obtains ld' where "resolve_one rt resolve fetch c auth data m ld = (macro_value rt resolve fetch c auth data m, ld')"
    "loader_ok resolve fetch ld'"
  using resolve_one_cache [OF assms loader_ok_new] unfolding macro_value_def by (metis prod.collapse)

lemma macro_key_inj: "macro_key m = macro_key m' \<longleftrightarrow> m = m'"
  by (cases m; cases m') (auto simp: macro_key_def source_name_def lit_def split: macro_source.splits)

lemma resolve_all_ok:
  assumes "loader_ok resolve fetch ld"
  shows "is_ok (resolve_all rt resolve fetch c auth data ms resolved ld) \<longleftrightarrow>
    (\<forall>m \<in> set ms. macro_key m \<notin> fst ` set resolved \<longrightarrow> is_ok (macro_value rt resolve fetch c auth data m))"
  using assms
proof (induction ms arbitrary: resolved ld)
  case (Cons m ms)
  let ?g = "macro_value rt resolve fetch c auth data"
  obtain ld1 where l1: "resolve_one rt resolve fetch c auth data m ld = (?g m, ld1)" "loader_ok resolve fetch ld1"
    using Cons.prems by (rule resolve_one_cases)
  show ?case
  proof (cases "macro_key m \<in> fst ` set resolved")
    case True
    then show ?thesis using Cons by simp
  next
    case False
    show ?thesis
    proof (cases "?g m")
      case (Inl e)
      then show ?thesis using False l1 by auto
    next
      case (Inr r)
      have "is_ok (?g m)" using Inr by simp
      show ?thesis
      proof (cases r)
        case None
        then show ?thesis using Inr False l1 Cons.IH [OF l1(2)] by simp
      next
        case (Some v)
        have "(\<forall>m' \<in> set ms. macro_key m' \<notin> fst ` set (AList.update (macro_key m) v resolved) \<longrightarrow> is_ok (?g m')) \<longleftrightarrow>
            (\<forall>m' \<in> set ms. macro_key m' \<notin> fst ` set resolved \<longrightarrow> is_ok (?g m'))"
          unfolding dom_update using \<open>is_ok (?g m)\<close> by (auto simp: macro_key_inj)
        then show ?thesis using Some Inr False l1 Cons.IH [OF l1(2)] by simp
      qed
    qed
  qed
qed simp

lemma resolve_all_map:
  assumes "loader_ok resolve fetch ld" "resolve_all rt resolve fetch c auth data ms resolved ld = Inr out"
  shows "map_of out k =
    (if map_of resolved k \<noteq> None then map_of resolved k
     else if \<exists>m \<in> set ms. macro_key m = k
     then (case macro_value rt resolve fetch c auth data (SOME m. macro_key m = k) of Inr v \<Rightarrow> v | Inl _ \<Rightarrow> None)
     else None)"
  using assms
proof (induction ms arbitrary: resolved ld)
  case (Cons m ms)
  let ?g = "macro_value rt resolve fetch c auth data"
  obtain ld1 where l1: "resolve_one rt resolve fetch c auth data m ld = (?g m, ld1)" "loader_ok resolve fetch ld1"
    using Cons.prems(1) by (rule resolve_one_cases)
  have some_m: "(SOME m'. macro_key m' = macro_key m) = m" by (rule some_equality) (auto simp: macro_key_inj)
  show ?case
  proof (cases "macro_key m \<in> fst ` set resolved")
    case True
    then have "map_of resolved (macro_key m) \<noteq> None" by (simp add: map_of_eq_None_iff)
    then show ?thesis using Cons.IH [OF Cons.prems(1)] Cons.prems(2) True by auto
  next
    case False
    then have n: "map_of resolved (macro_key m) = None" by (simp add: map_of_eq_None_iff)
    obtain r where r: "?g m = Inr r" using Cons.prems(2) False l1 by (cases "?g m") auto
    show ?thesis
    proof (cases r)
      case None
      then have "resolve_all rt resolve fetch c auth data ms resolved ld1 = Inr out"
        using Cons.prems(2) False l1 r by simp
      from Cons.IH [OF l1(2) this] show ?thesis using some_m r None n by auto
    next
      case (Some v)
      then have "resolve_all rt resolve fetch c auth data ms (AList.update (macro_key m) v resolved) ld1 = Inr out"
        using Cons.prems(2) False l1 r by simp
      from Cons.IH [OF l1(2) this] show ?thesis using some_m r Some n by (auto simp: update_conv')
    qed
  qed
qed simp

text \<open>
  Macro resolution is a function of the set of macros: in whatever order Python iterates over the set of
  matches, resolution succeeds or fails alike and, when it succeeds, stores the same value under every key,
  although the lookups share one cache.
\<close>

theorem macro_resolution_order_independent:
  assumes "set matches = set matches'" "resolve_request_macros rt resolve fetch c matches ctx = Inr ctx1"
  shows "\<exists>ctx2. resolve_request_macros rt resolve fetch c matches' ctx = Inr ctx2 \<and>
    map_of (rc_resolved ctx2) = map_of (rc_resolved ctx1) \<and> rc_auth ctx2 = rc_auth ctx1 \<and> rc_data ctx2 = rc_data ctx1"
proof (cases "matches = []")
  case True
  with assms show ?thesis by (simp add: resolve_request_macros_def)
next
  case False
  with assms(1) have ne: "matches' \<noteq> []" by auto
  let ?r = "\<lambda>ms. resolve_all rt resolve fetch c (rc_auth ctx) (rc_data ctx) ms (rc_resolved ctx) new_loader"
  obtain out1 where out1: "?r matches = Inr out1" "ctx1 = ctx\<lparr>rc_resolved := out1\<rparr>"
    using assms(2) False by (auto simp: resolve_request_macros_def bindE_Inr_iff)
  then have "is_ok (?r matches)" by simp
  then have "is_ok (?r matches')" unfolding resolve_all_ok [OF loader_ok_new] assms(1) .
  then obtain out2 where out2: "?r matches' = Inr out2" by (cases "?r matches'") auto
  have "map_of out2 k = map_of out1 k" for k
    unfolding resolve_all_map [OF loader_ok_new out1(1)] resolve_all_map [OF loader_ok_new out2] assms(1) ..
  then have "map_of out2 = map_of out1" by (rule ext)
  with out1 out2 ne show ?thesis by (simp add: resolve_request_macros_def)
qed

theorem macro_resolution_order_independent_witness:
  "\<exists>ctx2. resolve_request_macros sample_rt (\<lambda>_. None) (\<lambda>_ _. None) None [(AuthMacro, [98]), (AuthMacro, [97])]
     \<lparr>rc_auth = PNone, rc_data = PNone, rc_resolved = []\<rparr> = Inr ctx2 \<and>
     map_of (rc_resolved ctx2) = [macro_key (AuthMacro, [97]) \<mapsto> PNone, macro_key (AuthMacro, [98]) \<mapsto> PNone]"
proof -
  let ?ctx = "\<lparr>rc_auth = PNone, rc_data = PNone, rc_resolved = []\<rparr>"
  have "resolve_request_macros sample_rt (\<lambda>_. None) (\<lambda>_ _. None) None [(AuthMacro, [97]), (AuthMacro, [98])] ?ctx =
      Inr (?ctx\<lparr>rc_resolved := [(macro_key (AuthMacro, [97]), PNone), (macro_key (AuthMacro, [98]), PNone)]\<rparr>)"
    by (simp add: resolve_request_macros_def resolve_one_def resolve_auth_def as_dict_def dict_get_def macro_key_inj
      TOKEN_AUTH_FIELDS_def lit_def [of "''id''"] lit_def [of "''collectionId''"] lit_def [of "''type''"]
      lit_def [of "''collectionName''"])
  from macro_resolution_order_independent [OF _ this, of "[(AuthMacro, [98]), (AuthMacro, [97])]"]
  show ?thesis by (auto simp: insert_commute macro_key_inj fun_eq_iff)
qed

end
