(* ===== verification/Write_Barrier.thy ===== *)
theory Write_Barrier
  imports Py_Value
begin

text \<open>
  Model of \<open>ppbase/services/write_barrier.py\<close>: shared and exclusive leases on a PostgreSQL advisory lock, their
  acquisition, verification and release, the contexts built on them, and the process-wide cutover fence.

  PostgreSQL is a parameter: the record \<open>lock_server\<close> has the advisory-lock functions and, as observers, how
  often a session holds the lock in each mode.  Every SQL statement is an event: the server state it meets (other
  sessions act between two statements of one task), what becomes of it (delivered, or lost before or after the
  server executed it), whether the commit after it succeeds and the time left.  A loop that waits consumes events;
  \<open>None\<close> means that it is still waiting when the events end.
\<close>

section \<open>The server and its statements\<close>

record 'w lock_server =
  lk_try_shared :: "nat \<Rightarrow> 'w \<Rightarrow> bool \<times> 'w"
  lk_try_exclusive :: "nat \<Rightarrow> 'w \<Rightarrow> bool \<times> 'w"
  lk_unlock_shared :: "nat \<Rightarrow> 'w \<Rightarrow> bool \<times> 'w"
  lk_unlock_exclusive :: "nat \<Rightarrow> 'w \<Rightarrow> bool \<times> 'w"
  lk_end_session :: "nat \<Rightarrow> 'w \<Rightarrow> 'w"
  lk_shared :: "'w \<Rightarrow> nat \<Rightarrow> nat"
  lk_exclusive :: "'w \<Rightarrow> nat \<Rightarrow> nat"

datatype fate = Delivered | LostBefore | LostAfter

record 'w sql_event =
  se_world :: 'w
  se_fate :: fate
  se_commit :: bool
  se_remaining :: int

datatype barrier_error = TimedOut | ConnectionLost | BarrierMisuse | BadTimeout | BodyError pystr | CloseFailed

datatype lock_mode = Shared | Exclusive

definition run_sql :: "(nat \<Rightarrow> 'w \<Rightarrow> 'a \<times> 'w) \<Rightarrow> nat \<Rightarrow> 'w sql_event \<Rightarrow> 'a option \<times> 'w" where
  "run_sql f pid e =
     (case se_fate e of
        Delivered \<Rightarrow> (Some (fst (f pid (se_world e))), snd (f pid (se_world e)))
      | LostBefore \<Rightarrow> (None, se_world e)
      | LostAfter \<Rightarrow> (None, snd (f pid (se_world e))))"

definition try_lock :: "'w lock_server \<Rightarrow> lock_mode \<Rightarrow> nat \<Rightarrow> 'w \<Rightarrow> bool \<times> 'w" where
  "try_lock srv mode = (case mode of Shared \<Rightarrow> lk_try_shared srv | Exclusive \<Rightarrow> lk_try_exclusive srv)"

definition unlock :: "'w lock_server \<Rightarrow> lock_mode \<Rightarrow> nat \<Rightarrow> 'w \<Rightarrow> bool \<times> 'w" where
  "unlock srv mode = (case mode of Shared \<Rightarrow> lk_unlock_shared srv | Exclusive \<Rightarrow> lk_unlock_exclusive srv)"

definition held :: "'w lock_server \<Rightarrow> lock_mode \<Rightarrow> 'w \<Rightarrow> nat \<Rightarrow> nat" where
  "held srv mode = (case mode of Shared \<Rightarrow> lk_shared srv | Exclusive \<Rightarrow> lk_exclusive srv)"

section \<open>Acquisition\<close>

text \<open>\<open>SELECT pg_advisory_lock\<close> under \<open>asyncio.timeout\<close>: blocked until the lock is free in the state of an event.\<close>

fun wait_exclusive ::
  "'w lock_server \<Rightarrow> bool \<Rightarrow> nat \<Rightarrow> 'w sql_event list \<Rightarrow> ((barrier_error + unit) \<times> 'w) option" where
  "wait_exclusive srv finish pid [] = None"
| "wait_exclusive srv finish pid (e # es) =
     (let lost = (if se_remaining e \<le> 0 then TimedOut else ConnectionLost)
      in if se_fate e = LostBefore then Some (Inl lost, se_world e)
         else case lk_try_exclusive srv pid (se_world e) of
                (False, w1) \<Rightarrow> wait_exclusive srv finish pid es
              | (True, w1) \<Rightarrow>
                  if se_fate e = LostAfter then Some (Inl lost, w1)
                  else if finish \<and> \<not> se_commit e then Some (Inl lost, w1)
                  else Some (Inr (), w1))"

fun acquire_lock ::
  "'w lock_server \<Rightarrow> lock_mode \<Rightarrow> bool \<Rightarrow> nat \<Rightarrow> 'w sql_event list \<Rightarrow> ((barrier_error + unit) \<times> 'w) option" where
  "acquire_lock srv mode finish pid [] = None"
| "acquire_lock srv mode finish pid (e # es) =
     (case run_sql (try_lock srv mode) pid e of
        (None, w1) \<Rightarrow> Some (Inl ConnectionLost, w1)
      | (Some acquired, w1) \<Rightarrow>
          if finish \<and> \<not> se_commit e then Some (Inl ConnectionLost, w1)
          else if acquired then Some (Inr (), w1)
          else if se_remaining e \<le> 0 then Some (Inl TimedOut, w1)
          else if mode = Exclusive then wait_exclusive srv finish pid es
          else acquire_lock srv mode finish pid es)"

section \<open>Connections and leases\<close>

record conn =
  cn_session :: nat
  cn_closed :: bool
  cn_invalidated :: bool

record lease =
  le_conn :: conn
  le_mode :: lock_mode
  le_pid :: nat
  le_engine :: "nat option"
  le_owns :: bool
  le_acquired :: bool
  le_active :: bool
  le_owner :: "nat option"

text \<open>\<open>lease.active\<close> as seen by a task.\<close>

definition lease_active :: "nat \<Rightarrow> lease \<Rightarrow> bool" where
  "lease_active task le \<longleftrightarrow> le_active le \<and> le_acquired le \<and> le_owner le = Some task"

text \<open>
  \<open>_cleanup_connection\<close>: the physical session is terminated; \<open>works\<close> is whether the invalidation succeeds (a
  failure is only logged).
\<close>

definition cleanup_connection :: "'w lock_server \<Rightarrow> bool \<Rightarrow> conn \<Rightarrow> 'w \<Rightarrow> conn \<times> 'w" where
  "cleanup_connection srv works c w =
     (if works then (c\<lparr>cn_invalidated := True\<rparr>, lk_end_session srv (cn_session c) w) else (c, w))"

definition new_lease :: "conn \<Rightarrow> lock_mode \<Rightarrow> nat option \<Rightarrow> bool \<Rightarrow> lease" where
  "new_lease c mode engine owns = \<lparr>le_conn = c, le_mode = mode, le_pid = cn_session c, le_engine = engine, le_owns = owns,
     le_acquired = False, le_active = False, le_owner = None\<rparr>"

text \<open>
  \<open>_open_lease\<close> on a dedicated connection of \<open>engine\<close>, and \<open>_open_lease_on_connection\<close> on a borrowed one.
  \<open>connecting\<close> is the outcome of \<open>engine.connect()\<close>, \<open>identified\<close> whether the identity query succeeds, and \<open>w0\<close>
  the server state at that point.
\<close>

definition validate_timeout :: "pyfloat \<Rightarrow> barrier_error + unit" where
  "validate_timeout t = (case t of FFin q \<Rightarrow> if q < 0 then Inl BadTimeout else Inr () | _ \<Rightarrow> Inl BadTimeout)"

definition open_after_connect ::
  "'w lock_server \<Rightarrow> bool \<Rightarrow> lock_mode \<Rightarrow> nat option \<Rightarrow> bool \<Rightarrow> conn \<Rightarrow> bool \<Rightarrow> 'w \<Rightarrow> 'w sql_event list
    \<Rightarrow> ((barrier_error + lease) \<times> conn \<times> 'w) option" where
  "open_after_connect srv works mode engine owns c identified w0 es =
     (if \<not> identified then (case cleanup_connection srv works c w0 of (c1, w1) \<Rightarrow> Some (Inl ConnectionLost, c1, w1))
      else case acquire_lock srv mode owns (cn_session c) es of
             None \<Rightarrow> None
           | Some (Inl e, w1) \<Rightarrow> (case cleanup_connection srv works c w1 of (c1, w2) \<Rightarrow> Some (Inl e, c1, w2))
           | Some (Inr _, w1) \<Rightarrow> Some (Inr ((new_lease c mode engine owns)\<lparr>le_acquired := True\<rparr>), c, w1))"

definition open_lease ::
  "'w lock_server \<Rightarrow> bool \<Rightarrow> pyfloat \<Rightarrow> lock_mode \<Rightarrow> nat \<Rightarrow> barrier_error + conn \<Rightarrow> bool \<Rightarrow> 'w \<Rightarrow> 'w sql_event list
    \<Rightarrow> ((barrier_error + lease) \<times> conn option \<times> 'w) option" where
  "open_lease srv works timeout mode engine connecting identified w0 es =
     (case validate_timeout timeout of
        Inl e \<Rightarrow> Some (Inl e, None, w0)
      | Inr _ \<Rightarrow>
          (case connecting of
             Inl e \<Rightarrow> Some (Inl (if e = TimedOut then TimedOut else ConnectionLost), None, w0)
           | Inr c \<Rightarrow>
               (case open_after_connect srv works mode (Some engine) True c identified w0 es of
                  None \<Rightarrow> None
                | Some (Inl e, c1, w1) \<Rightarrow> Some (Inl e, Some (c1\<lparr>cn_closed := True\<rparr>), w1)
                | Some (Inr le, c1, w1) \<Rightarrow> Some (Inr le, Some c1, w1))))"

definition open_lease_on_connection ::
  "'w lock_server \<Rightarrow> bool \<Rightarrow> pyfloat \<Rightarrow> lock_mode \<Rightarrow> conn \<Rightarrow> bool \<Rightarrow> 'w \<Rightarrow> 'w sql_event list
    \<Rightarrow> ((barrier_error + lease) \<times> conn \<times> 'w) option" where
  "open_lease_on_connection srv works timeout mode c identified w0 es =
     (case validate_timeout timeout of
        Inl e \<Rightarrow> Some (Inl e, c, w0)
      | Inr _ \<Rightarrow>
          if cn_closed c \<or> cn_invalidated c then Some (Inl ConnectionLost, c, w0)
          else open_after_connect srv works mode None False c identified w0 es)"

section \<open>Release\<close>

text \<open>
  \<open>_release_lock\<close> inside \<open>_release_lease\<close>.  The connection may have been replaced since acquisition, so the
  session that executes the statement is the connection's current one.
\<close>

definition release_lock ::
  "'w lock_server \<Rightarrow> lease \<Rightarrow> 'w sql_event \<Rightarrow> (barrier_error + unit) \<times> 'w" where
  "release_lock srv le e =
     (case run_sql (unlock srv (le_mode le)) (cn_session (le_conn le)) e of
        (None, w1) \<Rightarrow> (Inl ConnectionLost, w1)
      | (Some unlocked, w1) \<Rightarrow>
          if le_owns le \<and> \<not> se_commit e then (Inl ConnectionLost, w1)
          else if cn_session (le_conn le) \<noteq> le_pid le \<or> \<not> unlocked then (Inl ConnectionLost, w1)
          else (Inr (), w1))"

text \<open>\<open>rollback_ok\<close> is the outcome of the rollback of an open transaction on an owned connection.\<close>

definition release_lease ::
  "'w lock_server \<Rightarrow> bool \<Rightarrow> bool \<Rightarrow> lease \<Rightarrow> 'w sql_event \<Rightarrow> (barrier_error + unit) \<times> lease \<times> 'w" where
  "release_lease srv works rollback_ok le e =
     (let fail = (\<lambda>w. case cleanup_connection srv works (le_conn le) w of
                        (c, w1) \<Rightarrow> (Inl ConnectionLost, le\<lparr>le_conn := c\<rparr>, w1))
      in if cn_closed (le_conn le) \<or> cn_invalidated (le_conn le) then (Inl ConnectionLost, le, se_world e)
         else if le_owns le \<and> \<not> rollback_ok then fail (se_world e)
         else if \<not> le_acquired le then (Inr (), le, se_world e)
         else case release_lock srv le e of
                (Inl _, w1) \<Rightarrow> fail w1
              | (Inr _, w1) \<Rightarrow> (Inr (), le\<lparr>le_acquired := False\<rparr>, w1))"

text \<open>\<open>assert_write_barrier_held\<close>: the query on \<open>pg_locks\<close>, whose outcome is the observers of the server.\<close>

definition assert_write_barrier_held ::
  "'w lock_server \<Rightarrow> bool \<Rightarrow> nat \<Rightarrow> lease \<Rightarrow> 'w sql_event \<Rightarrow> (barrier_error + unit) \<times> lease \<times> 'w" where
  "assert_write_barrier_held srv works task le e =
     (let fail = (\<lambda>w. case cleanup_connection srv works (le_conn le) w of
                        (c, w1) \<Rightarrow> (Inl ConnectionLost, le\<lparr>le_conn := c\<rparr>, w1));
          pid = cn_session (le_conn le)
      in if \<not> lease_active task le then (Inl ConnectionLost, le, se_world e)
         else if cn_closed (le_conn le) \<or> cn_invalidated (le_conn le) then (Inl ConnectionLost, le, se_world e)
         else if se_fate e \<noteq> Delivered then fail (se_world e)
         else if pid \<noteq> le_pid le \<or> held srv (le_mode le) (se_world e) pid = 0 then fail (se_world e)
         else (Inr (), le, se_world e))"

section \<open>Who may use a lease\<close>

definition current_write_barrier_lease :: "nat \<Rightarrow> lease option \<Rightarrow> lease option" where
  "current_write_barrier_lease task var =
     (case var of Some le \<Rightarrow> if lease_active task le then Some le else None | None \<Rightarrow> None)"

definition require_mode ::
  "lock_mode \<Rightarrow> nat \<Rightarrow> lease option \<Rightarrow> lease option \<Rightarrow> barrier_error + lease" where
  "require_mode mode task var given =
     (case (case given of Some le \<Rightarrow> Some le | None \<Rightarrow> current_write_barrier_lease task var) of
        None \<Rightarrow> Inl BarrierMisuse
      | Some le \<Rightarrow> if \<not> lease_active task le then Inl BarrierMisuse
                   else if le_mode le \<noteq> mode then Inl BarrierMisuse else Inr le)"

definition require_mutation_write_barrier :: "nat \<Rightarrow> lease option \<Rightarrow> lease option \<Rightarrow> barrier_error + lease" where
  "require_mutation_write_barrier = require_mode Shared"

definition require_exclusive_write_barrier :: "nat \<Rightarrow> lease option \<Rightarrow> lease option \<Rightarrow> barrier_error + lease" where
  "require_exclusive_write_barrier = require_mode Exclusive"

section \<open>The process fence\<close>

definition activate_fence :: "nat \<Rightarrow> nat" where
  "activate_fence n = n + 1"

definition release_fence :: "nat \<Rightarrow> nat" where
  "release_fence n = n - 1"

definition reject_fenced :: "nat \<Rightarrow> barrier_error + unit" where
  "reject_fenced n = guardE (0 < n) BarrierMisuse"

section \<open>Contexts\<close>

text \<open>
  \<open>_active_lease\<close> around a body: the body sees the lease as active and owned by the task and maps the server
  state to its result; the lease is then deactivated and released, the connection closed if it is owned, and the
  error of the body takes precedence.
\<close>

definition activate :: "nat \<Rightarrow> lease \<Rightarrow> lease" where
  "activate task le = le\<lparr>le_active := True, le_owner := Some task\<rparr>"

definition deactivate :: "lease \<Rightarrow> lease" where
  "deactivate le = le\<lparr>le_active := False, le_owner := None\<rparr>"

text \<open>
  What the release meets.  \<open>ex_conn\<close> is the lease's connection as the release finds it: while the body ran, it may have been closed or
  invalidated, or its PostgreSQL session may have been replaced.
\<close>

record 'w exit_outcome =
  ex_conn :: conn
  ex_works :: bool
  ex_rollback_ok :: bool
  ex_event :: "'w sql_event"
  ex_close_ok :: bool

definition leave_lease ::
  "'w lock_server \<Rightarrow> 'w exit_outcome \<Rightarrow> lease \<Rightarrow> barrier_error + 'a \<Rightarrow> (barrier_error + 'a) \<times> lease \<times> 'w" where
  "leave_lease srv ex le body =
     (case release_lease srv (ex_works ex) (ex_rollback_ok ex) ((deactivate le)\<lparr>le_conn := ex_conn ex\<rparr>) (ex_event ex) of
        (r, le1, w1) \<Rightarrow>
          (let le2 = (if le_owns le1 then le1\<lparr>le_conn := (le_conn le1)\<lparr>cn_closed := True\<rparr>\<rparr> else le1)
           in (case body of
                 Inl e \<Rightarrow> Inl e
               | Inr x \<Rightarrow> (case r of
                     Inl e \<Rightarrow> Inl e
                   | Inr _ \<Rightarrow> if le_owns le1 \<and> \<not> ex_close_ok ex then Inl CloseFailed else Inr x), le2, w1)))"

text \<open>
  \<open>mutation_write_barrier\<close>: \<open>fence1\<close> and \<open>fence2\<close> are the fence counts at admission and after the lock was
  granted.  The body is a function of the lease it gets.  A nested use joins the current lease of the task.
\<close>

definition mutation_write_barrier ::
  "'w lock_server \<Rightarrow> bool \<Rightarrow> nat \<Rightarrow> nat \<Rightarrow> nat \<Rightarrow> nat \<Rightarrow> lease option \<Rightarrow> pyfloat \<Rightarrow> barrier_error + conn \<Rightarrow> bool \<Rightarrow> 'w
    \<Rightarrow> 'w sql_event list \<Rightarrow> 'w exit_outcome \<Rightarrow> (lease \<Rightarrow> barrier_error + 'a)
    \<Rightarrow> ((barrier_error + 'a) \<times> 'w option) option" where
  "mutation_write_barrier srv works task engine fence1 fence2 var timeout connecting identified w0 es ex body =
     (case reject_fenced fence1 of
        Inl e \<Rightarrow> Some (Inl e, None)
      | Inr _ \<Rightarrow>
          (case current_write_barrier_lease task var of
             Some cur \<Rightarrow>
               if le_mode cur \<noteq> Shared then Some (Inl BarrierMisuse, None)
               else if le_engine cur \<noteq> None \<and> le_engine cur \<noteq> Some engine then Some (Inl BarrierMisuse, None)
               else Some (body cur, None)
           | None \<Rightarrow>
               (case open_lease srv works timeout Shared engine connecting identified w0 es of
                  None \<Rightarrow> None
                | Some (Inl e, _, w1) \<Rightarrow> Some (Inl e, Some w1)
                | Some (Inr le, _, _) \<Rightarrow>
                    (let r = bindE (reject_fenced fence2) (\<lambda>_. body (activate task le))
                     in case leave_lease srv ex (activate task le) r of (r1, _, w1) \<Rightarrow> Some (r1, Some w1)))))"

definition mutation_write_barrier_on_connection ::
  "'w lock_server \<Rightarrow> bool \<Rightarrow> nat \<Rightarrow> nat \<Rightarrow> nat \<Rightarrow> lease option \<Rightarrow> pyfloat \<Rightarrow> conn \<Rightarrow> bool \<Rightarrow> 'w
    \<Rightarrow> 'w sql_event list \<Rightarrow> 'w exit_outcome \<Rightarrow> (lease \<Rightarrow> barrier_error + 'a)
    \<Rightarrow> ((barrier_error + 'a) \<times> 'w option) option" where
  "mutation_write_barrier_on_connection srv works task fence1 fence2 var timeout c identified w0 es ex body =
     (case reject_fenced fence1 of
        Inl e \<Rightarrow> Some (Inl e, None)
      | Inr _ \<Rightarrow>
          (case current_write_barrier_lease task var of
             Some cur \<Rightarrow>
               if le_mode cur \<noteq> Shared then Some (Inl BarrierMisuse, None)
               else if le_conn cur \<noteq> c then Some (Inl BarrierMisuse, None)
               else Some (body cur, None)
           | None \<Rightarrow>
               (case open_lease_on_connection srv works timeout Shared c identified w0 es of
                  None \<Rightarrow> None
                | Some (Inl e, _, w1) \<Rightarrow> Some (Inl e, Some w1)
                | Some (Inr le, _, _) \<Rightarrow>
                    (let r = bindE (reject_fenced fence2) (\<lambda>_. body (activate task le))
                     in case leave_lease srv ex (activate task le) r of (r1, _, w1) \<Rightarrow> Some (r1, Some w1)))))"

text \<open>
  \<open>backup_write_barrier\<close>: exclusive lease, then the migration lock.  \<open>mig_enter\<close> and \<open>mig_exit\<close> are the outcomes of
  the context of \<open>migration_lock_on_connection\<close>, with its errors already mapped; an error of its exit replaces the
  result of the body.
\<close>

definition under_migration_lock ::
  "barrier_error + unit \<Rightarrow> barrier_error + unit \<Rightarrow> barrier_error + 'a \<Rightarrow> barrier_error + 'a" where
  "under_migration_lock mig_enter mig_exit body = bindE mig_enter (\<lambda>_. bindE mig_exit (\<lambda>_. body))"

definition backup_write_barrier ::
  "'w lock_server \<Rightarrow> bool \<Rightarrow> nat \<Rightarrow> nat \<Rightarrow> lease option \<Rightarrow> pyfloat \<Rightarrow> barrier_error + conn \<Rightarrow> bool \<Rightarrow> 'w
    \<Rightarrow> 'w sql_event list \<Rightarrow> barrier_error + unit \<Rightarrow> barrier_error + unit \<Rightarrow> 'w exit_outcome \<Rightarrow> (lease \<Rightarrow> barrier_error + 'a)
    \<Rightarrow> ((barrier_error + 'a) \<times> 'w option) option" where
  "backup_write_barrier srv works task engine var timeout connecting identified w0 es mig_enter mig_exit ex body =
     (if current_write_barrier_lease task var \<noteq> None then Some (Inl BarrierMisuse, None)
      else case open_lease srv works timeout Exclusive engine connecting identified w0 es of
             None \<Rightarrow> None
           | Some (Inl e, _, w1) \<Rightarrow> Some (Inl e, Some w1)
           | Some (Inr le, _, _) \<Rightarrow>
               (let r = under_migration_lock mig_enter mig_exit (body (activate task le))
                in case leave_lease srv ex (activate task le) r of (r1, _, w1) \<Rightarrow> Some (r1, Some w1)))"

section \<open>The retained barrier of a cutover\<close>

record retained =
  rb_lease :: lease
  rb_closed :: bool
  rb_fence :: bool

text \<open>\<open>close\<close> with the fence count of the process; every error ends as a lost connection.\<close>

definition retained_close ::
  "'w lock_server \<Rightarrow> bool \<Rightarrow> 'w exit_outcome \<Rightarrow> retained \<Rightarrow> nat \<Rightarrow> (barrier_error + unit) \<times> retained \<times> nat" where
  "retained_close srv mig_exit_ok ex rb fence =
     (if rb_closed rb then (Inr (), rb, fence)
      else case release_lease srv (ex_works ex) (ex_rollback_ok ex) ((deactivate (rb_lease rb))\<lparr>le_conn := ex_conn ex\<rparr>) (ex_event ex) of
             (r, le1, w1) \<Rightarrow>
               (if mig_exit_ok \<and> is_ok r \<and> ex_close_ok ex then Inr () else Inl ConnectionLost,
                \<lparr>rb_lease = le1\<lparr>le_conn := (le_conn le1)\<lparr>cn_closed := True\<rparr>\<rparr>, rb_closed = True, rb_fence = False\<rparr>,
                if rb_fence rb then release_fence fence else fence))"

definition acquire_retained ::
  "'w lock_server \<Rightarrow> bool \<Rightarrow> nat \<Rightarrow> nat \<Rightarrow> lease option \<Rightarrow> pyfloat \<Rightarrow> barrier_error + conn \<Rightarrow> bool \<Rightarrow> 'w
    \<Rightarrow> 'w sql_event list \<Rightarrow> barrier_error + unit \<Rightarrow> 'w sql_event \<Rightarrow> nat \<Rightarrow> ((barrier_error + retained) \<times> nat) option" where
  "acquire_retained srv works task engine var timeout connecting identified w0 es mig_enter verify fence =
     (if current_write_barrier_lease task var \<noteq> None then Some (Inl BarrierMisuse, fence)
      else case open_lease srv works timeout Exclusive engine connecting identified w0 es of
             None \<Rightarrow> None
           | Some (Inl e, _, w1) \<Rightarrow> Some (Inl e, fence)
           | Some (Inr le, _, _) \<Rightarrow>
               (case mig_enter of
                  Inl e \<Rightarrow> Some (Inl e, fence)
                | Inr _ \<Rightarrow>
                    (case assert_write_barrier_held srv works task (activate task le) verify of
                       (Inl e, le1, w1) \<Rightarrow> Some (Inl e, fence)
                     | (Inr _, le1, w1) \<Rightarrow>
                         if \<not> se_commit verify then Some (Inl ConnectionLost, fence)
                         else Some (Inr \<lparr>rb_lease = le, rb_closed = False, rb_fence = True\<rparr>, activate_fence fence))))"

section \<open>The laws of advisory locks\<close>

text \<open>
  The PostgreSQL documentation: session-level advisory locks stack; a shared lock conflicts with exclusive locks of
  other sessions, an exclusive one with all locks of other sessions; a failed try and a failed unlock change
  nothing; an unlock succeeds exactly when the session holds the lock; the end of a session releases its locks.
\<close>

definition same_locks :: "'w lock_server \<Rightarrow> 'w \<Rightarrow> 'w \<Rightarrow> bool" where
  "same_locks srv w w' \<longleftrightarrow> lk_shared srv w' = lk_shared srv w \<and> lk_exclusive srv w' = lk_exclusive srv w"

definition lock_laws :: "'w lock_server \<Rightarrow> bool" where
  "lock_laws srv \<longleftrightarrow>
     (\<forall>p w w'. lk_try_shared srv p w = (True, w') \<longrightarrow>
        (\<forall>q. q \<noteq> p \<longrightarrow> lk_exclusive srv w q = 0) \<and>
        lk_shared srv w' = (lk_shared srv w)(p := Suc (lk_shared srv w p)) \<and> lk_exclusive srv w' = lk_exclusive srv w) \<and>
     (\<forall>p w w'. lk_try_exclusive srv p w = (True, w') \<longrightarrow>
        (\<forall>q. q \<noteq> p \<longrightarrow> lk_exclusive srv w q = 0 \<and> lk_shared srv w q = 0) \<and>
        lk_exclusive srv w' = (lk_exclusive srv w)(p := Suc (lk_exclusive srv w p)) \<and> lk_shared srv w' = lk_shared srv w) \<and>
     (\<forall>p w w'. lk_try_shared srv p w = (False, w') \<longrightarrow> same_locks srv w w') \<and>
     (\<forall>p w w'. lk_try_exclusive srv p w = (False, w') \<longrightarrow> same_locks srv w w') \<and>
     (\<forall>p w g w'. lk_unlock_shared srv p w = (g, w') \<longrightarrow> g = (0 < lk_shared srv w p) \<and>
        lk_shared srv w' = (lk_shared srv w)(p := lk_shared srv w p - 1) \<and> lk_exclusive srv w' = lk_exclusive srv w) \<and>
     (\<forall>p w g w'. lk_unlock_exclusive srv p w = (g, w') \<longrightarrow> g = (0 < lk_exclusive srv w p) \<and>
        lk_exclusive srv w' = (lk_exclusive srv w)(p := lk_exclusive srv w p - 1) \<and> lk_shared srv w' = lk_shared srv w) \<and>
     (\<forall>p w. lk_shared srv (lk_end_session srv p w) = (lk_shared srv w)(p := 0) \<and>
        lk_exclusive srv (lk_end_session srv p w) = (lk_exclusive srv w)(p := 0))"

definition no_locks :: "'w lock_server \<Rightarrow> 'w \<Rightarrow> nat \<Rightarrow> bool" where
  "no_locks srv w p \<longleftrightarrow> lk_shared srv w p = 0 \<and> lk_exclusive srv w p = 0"

text \<open>What a granted lock means: it is held, and no other session holds a conflicting one.\<close>

definition granted :: "'w lock_server \<Rightarrow> lock_mode \<Rightarrow> 'w \<Rightarrow> nat \<Rightarrow> bool" where
  "granted srv mode w p \<longleftrightarrow> 0 < held srv mode w p \<and>
     (\<forall>q. q \<noteq> p \<longrightarrow> lk_exclusive srv w q = 0 \<and> (mode = Exclusive \<longrightarrow> lk_shared srv w q = 0))"

lemma try_lock_granted:
  "lock_laws srv \<Longrightarrow> try_lock srv mode p w = (True, w') \<Longrightarrow> granted srv mode w' p"
  by (cases mode) (auto simp: lock_laws_def try_lock_def granted_def held_def)

lemma unlock_result:
  "lock_laws srv \<Longrightarrow> unlock srv mode p w = (g, w') \<Longrightarrow> g = (0 < held srv mode w p) \<and> held srv mode w' p = held srv mode w p - 1"
  by (cases mode) (auto simp: lock_laws_def unlock_def held_def)

lemma end_session_no_locks: "lock_laws srv \<Longrightarrow> no_locks srv (lk_end_session srv p w) p"
  by (simp add: lock_laws_def no_locks_def)

lemma wait_exclusive_granted:
  "lock_laws srv \<Longrightarrow> wait_exclusive srv finish p es = Some (Inr u, w') \<Longrightarrow> granted srv Exclusive w' p"
proof (induction es)
  case (Cons e es)
  show ?case
  proof (cases "lk_try_exclusive srv p (se_world e)")
    case (Pair g w1)
    then show ?thesis
      using Cons try_lock_granted [of srv Exclusive p "se_world e" w1]
      by (cases g) (auto simp: Let_def try_lock_def split: if_splits)
  qed
qed simp

lemma acquire_lock_granted:
  "lock_laws srv \<Longrightarrow> acquire_lock srv mode finish p es = Some (Inr u, w') \<Longrightarrow> granted srv mode w' p"
proof (induction es)
  case (Cons e es)
  show ?case
  proof (cases "try_lock srv mode p (se_world e)")
    case (Pair g w1)
    then show ?thesis
      using Cons try_lock_granted [of srv mode p "se_world e" w1] wait_exclusive_granted [of srv finish p es u w']
      by (cases g; cases "se_fate e") (auto simp: run_sql_def split: if_splits)
  qed
qed simp

text \<open>
  C23: Opening a lease is all or nothing.  If it succeeds, the session holds the advisory lock in the requested
  mode and no other session holds a conflicting one; if it fails after a connection was made, also when the answer
  of a granted lock was lost, the session is terminated and holds no lock, so that no locked session returns to
  the pool.  This needs the invalidation of the connection to work (\<open>works\<close>); a failing one is only logged, and then the
  session goes back to the pool as it is.
\<close>

theorem open_lease_all_or_nothing:
  assumes "lock_laws srv" "open_lease srv works timeout mode engine (Inr c) identified w0 es = Some (r, oc, w1)"
    and "validate_timeout timeout = Inr ()"
  shows "case r of
      Inr le \<Rightarrow> granted srv mode w1 (cn_session c) \<and> le_acquired le \<and> le_mode le = mode \<and> le_pid le = cn_session c
    | Inl e \<Rightarrow> if works then no_locks srv w1 (cn_session c) \<and> oc = Some (c\<lparr>cn_invalidated := True, cn_closed := True\<rparr>)
               else oc = Some (c\<lparr>cn_closed := True\<rparr>)"
proof (cases r)
  case (Inr le)
  then have "\<exists>u. acquire_lock srv mode True (cn_session c) es = Some (Inr u, w1) \<and>
      le = (new_lease c mode (Some engine) True)\<lparr>le_acquired := True\<rparr>"
    using assms(2,3)
    by (auto simp: open_lease_def open_after_connect_def cleanup_connection_def split: if_splits option.splits sum.splits)
  then show ?thesis using Inr acquire_lock_granted [OF assms(1)] by (auto simp: new_lease_def)
next
  case (Inl e)
  then have "if works then \<exists>w. w1 = lk_end_session srv (cn_session c) w \<and> oc = Some (c\<lparr>cn_invalidated := True, cn_closed := True\<rparr>)
      else oc = Some (c\<lparr>cn_closed := True\<rparr>)"
    using assms(2,3)
    by (auto simp: open_lease_def open_after_connect_def cleanup_connection_def split: if_splits option.splits sum.splits)
  then show ?thesis using Inl end_session_no_locks [OF assms(1)] by (auto split: if_splits)
qed

section \<open>A lock table\<close>

text \<open>The laws have a model: the lists of the sessions that hold the lock in each mode.\<close>

definition lock_table :: "(nat list \<times> nat list) lock_server" where
  "lock_table =
     \<lparr>lk_try_shared = (\<lambda>p (s, x). if list_all (\<lambda>q. q = p) x then (True, p # s, x) else (False, s, x)),
      lk_try_exclusive = (\<lambda>p (s, x). if list_all (\<lambda>q. q = p) x \<and> list_all (\<lambda>q. q = p) s
                                 then (True, s, p # x) else (False, s, x)),
      lk_unlock_shared = (\<lambda>p (s, x). (p \<in> set s, remove1 p s, x)),
      lk_unlock_exclusive = (\<lambda>p (s, x). (p \<in> set x, s, remove1 p x)),
      lk_end_session = (\<lambda>p (s, x). (filter (\<lambda>q. q \<noteq> p) s, filter (\<lambda>q. q \<noteq> p) x)),
      lk_shared = (\<lambda>(s, x) p. count_list s p),
      lk_exclusive = (\<lambda>(s, x) p. count_list x p)\<rparr>"

lemma count_list_remove1: "count_list (remove1 p xs) q = (if q = p then count_list xs p - 1 else count_list xs q)"
  by (induction xs) (auto simp: count_list_0_iff)

lemma count_list_filter: "count_list (filter (\<lambda>q. q \<noteq> p) xs) q = (if q = p then 0 else count_list xs q)"
  by (induction xs) auto

lemma count_list_pos: "0 < count_list xs p \<longleftrightarrow> p \<in> set xs"
  using count_list_0_iff [of xs p] by auto

lemma lock_table_laws: "lock_laws lock_table"
  unfolding lock_laws_def lock_table_def same_locks_def
  by (auto simp: fun_eq_iff count_list_remove1 count_list_filter count_list_pos count_list_0_iff list_all_iff split: if_splits)

definition sample_conn :: conn where
  "sample_conn = \<lparr>cn_session = 7, cn_closed = False, cn_invalidated = False\<rparr>"

definition lost_grant :: "(nat list \<times> nat list) sql_event" where
  "lost_grant = \<lparr>se_world = ([], []), se_fate = LostAfter, se_commit = True, se_remaining = 5\<rparr>"

theorem open_lease_all_or_nothing_witness:
  "\<exists>oc w1. open_lease lock_table True (FFin 30) Exclusive 1 (Inr sample_conn) True ([], []) [lost_grant] =
      Some (Inl ConnectionLost, oc, w1) \<and> no_locks lock_table w1 7"
proof -
  obtain oc w1 where o1: "open_lease lock_table True (FFin 30) Exclusive 1 (Inr sample_conn) True ([], []) [lost_grant] =
      Some (Inl ConnectionLost, oc, w1)"
    by (simp add: open_lease_def validate_timeout_def open_after_connect_def lost_grant_def run_sql_def
      cleanup_connection_def)
  from open_lease_all_or_nothing [OF lock_table_laws this] o1 show ?thesis
    by (auto simp: validate_timeout_def sample_conn_def)
qed

text \<open>The failed invalidation: the grant whose answer was lost stays with the pooled session.\<close>

theorem locked_session_pooled:
  "open_lease lock_table False (FFin 30) Exclusive 1 (Inr sample_conn) True ([], []) [lost_grant] =
     Some (Inl ConnectionLost, Some (sample_conn\<lparr>cn_closed := True\<rparr>), ([], [7]))"
  by (simp add: open_lease_def validate_timeout_def open_after_connect_def lost_grant_def run_sql_def try_lock_def lock_table_def
      cleanup_connection_def sample_conn_def)

section \<open>The barrier between grant and release\<close>

text \<open>
  What can happen to the locks while the task of session \<open>p\<close> runs the body, which leaves the barrier's key alone: other
  sessions lock and unlock, any session may end, \<open>p\<close> too, and everything else in the server changes freely.
\<close>

inductive others_move :: "'w lock_server \<Rightarrow> nat \<Rightarrow> 'w \<Rightarrow> 'w \<Rightarrow> bool" for srv p where
  tries: "q \<noteq> p \<Longrightarrow> try_lock srv mode q w = (g, w') \<Longrightarrow> others_move srv p w w'"
| unlocks: "q \<noteq> p \<Longrightarrow> unlock srv mode q w = (g, w') \<Longrightarrow> others_move srv p w w'"
| ends: "others_move srv p w (lk_end_session srv q w)"
| elsewhere: "same_locks srv w w' \<Longrightarrow> others_move srv p w w'"

text \<open>The states the server goes through from one to another.\<close>

inductive history :: "'w lock_server \<Rightarrow> nat \<Rightarrow> 'w \<Rightarrow> 'w list \<Rightarrow> 'w \<Rightarrow> bool" for srv p where
  now: "history srv p w [w] w"
| later: "others_move srv p w w1 \<Longrightarrow> history srv p w1 hs w2 \<Longrightarrow> history srv p w (w # hs) w2"

lemma others_move_lost: "others_move srv p w w' \<Longrightarrow> lock_laws srv \<Longrightarrow> lk_exclusive srv w p = 0 \<Longrightarrow> lk_exclusive srv w' p = 0"
proof (induction rule: others_move.induct)
  case (tries q mode w g w')
  then show ?case by (cases g; cases mode) (auto simp: lock_laws_def try_lock_def same_locks_def)
next
  case (unlocks q mode w g w')
  then show ?case by (cases mode) (auto simp: lock_laws_def unlock_def)
qed (auto simp: lock_laws_def same_locks_def)

lemma history_lost: "history srv p w hs w' \<Longrightarrow> lock_laws srv \<Longrightarrow> lk_exclusive srv w p = 0 \<Longrightarrow> lk_exclusive srv w' p = 0"
  by (induction rule: history.induct) (auto dest: others_move_lost)

lemma others_move_granted:
  "others_move srv p w w' \<Longrightarrow> lock_laws srv \<Longrightarrow> granted srv Exclusive w p \<Longrightarrow>
     granted srv Exclusive w' p \<or> lk_exclusive srv w' p = 0"
proof (induction rule: others_move.induct)
  case (tries q mode w g w')
  then have "\<not> g" by (cases mode) (auto simp: lock_laws_def try_lock_def granted_def held_def)
  then show ?case
    using tries by (cases mode) (auto simp: lock_laws_def try_lock_def granted_def held_def same_locks_def)
next
  case (unlocks q mode w g w')
  then show ?case by (cases mode) (auto simp: lock_laws_def unlock_def granted_def held_def)
qed (auto simp: lock_laws_def same_locks_def granted_def held_def)

text \<open>A session that holds the exclusive lock at the end has held it, alone, all the time.\<close>

lemma history_granted:
  "history srv p w hs w' \<Longrightarrow> lock_laws srv \<Longrightarrow> granted srv Exclusive w p \<Longrightarrow> 0 < lk_exclusive srv w' p \<Longrightarrow>
     \<forall>v \<in> set hs. granted srv Exclusive v p"
proof (induction rule: history.induct)
  case (later w w1 hs w2)
  have "lk_exclusive srv w1 p \<noteq> 0" using history_lost [OF later.hyps(2) later.prems(1)] later.prems(3) by auto
  then have "granted srv Exclusive w1 p" using others_move_granted [OF later.hyps(1) later.prems(1,2)] by simp
  then show ?case using later by simp
qed simp

section \<open>Contexts fail closed\<close>

lemma release_lease_ok:
  assumes "lock_laws srv" "release_lease srv works rb le e = (Inr u, le', w')" "le_acquired le"
  shows "0 < held srv (le_mode le) (se_world e) (cn_session (le_conn le)) \<and> cn_session (le_conn le) = le_pid le \<and>
    held srv (le_mode le) w' (le_pid le) = held srv (le_mode le) (se_world e) (le_pid le) - 1 \<and> se_fate e = Delivered"
proof -
  obtain g w1 where g: "unlock srv (le_mode le) (cn_session (le_conn le)) (se_world e) = (g, w1)"
    by (cases "unlock srv (le_mode le) (cn_session (le_conn le)) (se_world e)")
  have "release_lock srv le e = (Inr (), w')"
    using assms(2,3) by (auto simp: release_lease_def Let_def cleanup_connection_def split: if_splits prod.splits sum.splits)
  then have "se_fate e = Delivered" "g" "w1 = w'" "cn_session (le_conn le) = le_pid le"
    using g by (cases "se_fate e"; auto simp: release_lock_def run_sql_def split: if_splits)+
  then show ?thesis using unlock_result [OF assms(1) g] by simp
qed

lemma leave_lease_ok:
  assumes "lock_laws srv" "leave_lease srv ex le body = (Inr x, le', w')" "le_acquired le"
  shows "body = Inr x \<and> cn_session (ex_conn ex) = le_pid le \<and>
    0 < held srv (le_mode le) (se_world (ex_event ex)) (le_pid le)"
proof -
  obtain r le1 w1 where r: "release_lease srv (ex_works ex) (ex_rollback_ok ex) ((deactivate le)\<lparr>le_conn := ex_conn ex\<rparr>) (ex_event ex) = (r, le1, w1)"
    by (cases "release_lease srv (ex_works ex) (ex_rollback_ok ex) ((deactivate le)\<lparr>le_conn := ex_conn ex\<rparr>) (ex_event ex)")
  with assms(2) have "body = Inr x" "r = Inr ()"
    by (auto simp: leave_lease_def Let_def split: sum.splits if_splits)
  then show ?thesis
    using release_lease_ok [OF assms(1) r [unfolded \<open>r = Inr ()\<close>]] assms(3) by (auto simp: deactivate_def)
qed

text \<open>
  C15: The backup barrier fails closed.  If \<open>backup_write_barrier\<close> ends normally, then it opened an exclusive lease, ran the body
  under it as an active lease of the task, and the release found the connection still on the session the lock was granted to.  That
  session held the exclusive lock, and no other session held the barrier in either mode, in every state of the server from the grant
  to the release, whatever other sessions did and whichever session ended meanwhile.  A lost or replaced session always ends in an
  error, so the caller never reaches its sealing step.
\<close>

theorem backup_barrier_fails_closed:
  assumes "lock_laws srv"
    and "backup_write_barrier srv works task engine var timeout connecting identified w0 es mig_enter mig_exit ex body
      = Some (Inr x, ow)"
  shows "\<exists>le oc w.
    open_lease srv works timeout Exclusive engine connecting identified w0 es = Some (Inr le, oc, w) \<and>
    lease_active task (activate task le) \<and> le_mode le = Exclusive \<and> body (activate task le) = Inr x \<and>
    mig_enter = Inr () \<and> mig_exit = Inr () \<and> cn_session (ex_conn ex) = le_pid le \<and>
    (\<forall>hs. history srv (le_pid le) w hs (se_world (ex_event ex)) \<longrightarrow> (\<forall>v \<in> set hs. granted srv Exclusive v (le_pid le)))"
proof -
  obtain c le w where c: "connecting = Inr c"
    and op: "open_lease srv works timeout Exclusive engine connecting identified w0 es = Some (Inr le, Some c, w)"
    and acq: "acquire_lock srv Exclusive True (cn_session c) es = Some (Inr (), w)"
    and le: "le = (new_lease c Exclusive (Some engine) True)\<lparr>le_acquired := True\<rparr>"
    and leave: "fst (leave_lease srv ex (activate task le) (under_migration_lock mig_enter mig_exit (body (activate task le)))) = Inr x"
    using assms(2)
    by (auto simp: backup_write_barrier_def open_lease_def open_after_connect_def cleanup_connection_def Let_def
          split: if_splits option.splits sum.splits prod.splits)
  obtain le' w' where leave': "leave_lease srv ex (activate task le)
      (under_migration_lock mig_enter mig_exit (body (activate task le))) = (Inr x, le', w')"
    using leave by (metis prod.collapse)
  have facts: "le_acquired (activate task le)" "le_mode (activate task le) = Exclusive" "le_pid (activate task le) = cn_session c"
    "lease_active task (activate task le)" "le_mode le = Exclusive" "le_pid le = cn_session c"
    by (simp_all add: le activate_def new_lease_def lease_active_def)
  note ok = leave_lease_ok [OF assms(1) leave' facts(1)]
  have run: "body (activate task le) = Inr x" "mig_enter = Inr ()" "mig_exit = Inr ()"
    using ok by (auto simp: under_migration_lock_def bindE_Inr_iff)
  have "0 < lk_exclusive srv (se_world (ex_event ex)) (le_pid le)" using ok facts by (simp add: held_def)
  then have "\<forall>hs. history srv (le_pid le) w hs (se_world (ex_event ex)) \<longrightarrow> (\<forall>v \<in> set hs. granted srv Exclusive v (le_pid le))"
    using history_granted [OF _ assms(1)] acquire_lock_granted [OF assms(1) acq] facts(6) by fastforce
  then show ?thesis using op run facts ok by (intro exI [of _ le] exI [of _ "Some c"] exI [of _ w]) simp
qed

definition quiet_event :: "nat list \<times> nat list \<Rightarrow> (nat list \<times> nat list) sql_event" where
  "quiet_event w = \<lparr>se_world = w, se_fate = Delivered, se_commit = True, se_remaining = 5\<rparr>"

abbreviation sample_exit :: "nat list \<times> nat list \<Rightarrow> (nat list \<times> nat list) exit_outcome" where
  "sample_exit w \<equiv>
     \<lparr>ex_conn = sample_conn, ex_works = True, ex_rollback_ok = True, ex_event = quiet_event w, ex_close_ok = True\<rparr>"

text \<open>A run beside another session 9 that asks for the shared lock in vain.\<close>

theorem backup_barrier_fails_closed_witness:
  "backup_write_barrier lock_table True 3 1 None (FFin 30) (Inr sample_conn) True ([], []) [quiet_event ([], [])]
      (Inr ()) (Inr ()) (sample_exit ([], [7])) (\<lambda>le. Inr (le_pid le)) = Some (Inr 7, Some ([], [])) \<and>
   (\<exists>le oc. open_lease lock_table True (FFin 30) Exclusive 1 (Inr sample_conn) True ([], []) [quiet_event ([], [])] =
        Some (Inr le, oc, ([], [7])) \<and>
      history lock_table 7 ([], [7]) [([], [7]), ([], [7])] ([], [7]) \<and>
      (\<forall>v \<in> set [([], [7]), ([], [7])]. granted lock_table Exclusive v 7))"
proof -
  have run: "backup_write_barrier lock_table True 3 1 None (FFin 30) (Inr sample_conn) True ([], []) [quiet_event ([], [])]
      (Inr ()) (Inr ()) (sample_exit ([], [7])) (\<lambda>le. Inr (le_pid le)) = Some (Inr 7, Some ([], []))"
    by (simp add: backup_write_barrier_def current_write_barrier_lease_def open_lease_def validate_timeout_def
      open_after_connect_def quiet_event_def run_sql_def try_lock_def unlock_def lock_table_def new_lease_def sample_conn_def
      under_migration_lock_def leave_lease_def release_lease_def release_lock_def activate_def deactivate_def)
  have op: "\<exists>le oc. open_lease lock_table True (FFin 30) Exclusive 1 (Inr sample_conn) True ([], []) [quiet_event ([], [])] =
      Some (Inr le, oc, ([], [7])) \<and> le_pid le = 7"
    by (simp add: open_lease_def validate_timeout_def open_after_connect_def quiet_event_def run_sql_def try_lock_def lock_table_def
      new_lease_def sample_conn_def)
  have "try_lock lock_table Shared 9 ([], [7]) = (False, ([], [7]))" by (simp add: try_lock_def lock_table_def)
  then have h: "history lock_table 7 ([], [7]) [([], [7]), ([], [7])] ([], [7])"
    by (intro history.later [OF others_move.tries history.now]) simp_all
  from backup_barrier_fails_closed [OF lock_table_laws run] op h run show ?thesis by (auto simp: quiet_event_def)
qed

text \<open>
  C24: The cutover fence keeps mutations out.  With the fence raised at admission, or raised while the lock was being
  acquired, the body of a mutation is not run: the outcome does not depend on it.
\<close>

theorem fence_blocks_mutations:
  assumes "0 < fence1 \<or> (0 < fence2 \<and> current_write_barrier_lease task var = None)"
  shows "mutation_write_barrier srv works task engine fence1 fence2 var timeout connecting identified w0 es ex body1
    = mutation_write_barrier srv works task engine fence1 fence2 var timeout connecting identified w0 es ex body2"
proof (cases "0 < fence1")
  case True
  then show ?thesis by (simp add: mutation_write_barrier_def reject_fenced_def)
next
  case False
  then have fenced: "reject_fenced fence2 = Inl BarrierMisuse" "current_write_barrier_lease task var = None"
    using assms by (simp_all add: reject_fenced_def)
  show ?thesis unfolding mutation_write_barrier_def fenced bindE.simps option.case by (rule refl)
qed

theorem fence_blocks_mutations_witness:
  "mutation_write_barrier lock_table True 3 1 0 1 None (FFin 30) (Inr sample_conn) True ([], []) [quiet_event ([], [])]
      (sample_exit ([7], [])) (\<lambda>_. Inr (1 :: nat))
   = mutation_write_barrier lock_table True 3 1 0 1 None (FFin 30) (Inr sample_conn) True ([], []) [quiet_event ([], [])]
      (sample_exit ([7], [])) (\<lambda>_. Inr 2)"
  by (rule fence_blocks_mutations) (simp add: current_write_barrier_lease_def)

fun close_all :: "'w lock_server \<Rightarrow> (bool \<times> 'w exit_outcome) list \<Rightarrow> retained \<Rightarrow> nat \<Rightarrow> retained \<times> nat" where
  "close_all srv [] rb fence = (rb, fence)"
| "close_all srv ((m, ex) # xs) rb fence =
     (case retained_close srv m ex rb fence of (_, rb1, fence1) \<Rightarrow> close_all srv xs rb1 fence1)"

lemma close_all_closed: "rb_closed rb \<Longrightarrow> close_all srv xs rb fence = (rb, fence)"
  by (induction xs) (auto simp: retained_close_def)

text \<open>
  A retained barrier moves the fence by exactly one and back.  Acquisition raises the fence only when it
  succeeds; then any number of \<open>close\<close> calls, however they end, lowers it once, to where it was.
\<close>

theorem retained_fence_balanced:
  assumes "acquire_retained srv works task engine var timeout connecting identified w0 es mig_enter verify fence = Some (r, fence1)"
  shows "case r of
      Inl e \<Rightarrow> fence1 = fence
    | Inr rb \<Rightarrow> fence1 = fence + 1 \<and> (\<forall>xs. xs \<noteq> [] \<longrightarrow> snd (close_all srv xs rb fence1) = fence)"
proof (cases r)
  case (Inl e)
  then show ?thesis
    using assms
    by (auto simp: acquire_retained_def activate_fence_def split: if_splits option.splits sum.splits prod.splits)
next
  case (Inr rb)
  then have rb: "\<not> rb_closed rb" "rb_fence rb" "fence1 = fence + 1"
    using assms
    by (auto simp: acquire_retained_def activate_fence_def split: if_splits option.splits sum.splits prod.splits)
  have "snd (close_all srv xs rb fence1) = fence" if ne: "xs \<noteq> []" for xs
  proof -
    obtain m ex ys where xs: "xs = (m, ex) # ys" using ne by (cases xs) auto
    obtain r1 rb1 f1 where c: "retained_close srv m ex rb fence1 = (r1, rb1, f1)"
      by (cases "retained_close srv m ex rb fence1")
    then have "rb_closed rb1" "f1 = fence"
      using rb by (auto simp: retained_close_def release_fence_def split: prod.splits)
    then show ?thesis by (simp add: xs c close_all_closed)
  qed
  with Inr rb show ?thesis by simp
qed

theorem retained_fence_balanced_witness:
  "\<exists>rb. acquire_retained lock_table True 3 1 None (FFin 30) (Inr sample_conn) True ([], []) [quiet_event ([], [])] (Inr ())
      (quiet_event ([], [7])) 0 = Some (Inr rb, 1) \<and>
    snd (close_all lock_table [(False, \<lparr>ex_conn = sample_conn, ex_works = True, ex_rollback_ok = False, ex_event = lost_grant, ex_close_ok = False\<rparr>),
      (True, \<lparr>ex_conn = sample_conn, ex_works = True, ex_rollback_ok = True, ex_event = lost_grant, ex_close_ok = True\<rparr>)] rb 1) = 0"
proof -
  obtain rb where a: "acquire_retained lock_table True 3 1 None (FFin 30) (Inr sample_conn) True ([], []) [quiet_event ([], [])]
      (Inr ()) (quiet_event ([], [7])) 0 = Some (Inr rb, 1)"
    by (simp add: acquire_retained_def current_write_barrier_lease_def open_lease_def validate_timeout_def
      open_after_connect_def quiet_event_def run_sql_def try_lock_def lock_table_def new_lease_def sample_conn_def
      assert_write_barrier_held_def activate_def lease_active_def held_def activate_fence_def)
  from retained_fence_balanced [OF a] have "\<forall>xs. xs \<noteq> [] \<longrightarrow> snd (close_all lock_table xs rb 1) = 0" by simp
  with a show ?thesis by blast
qed

end
