(* ===== verification/Filter_Path.thy ===== *)
theory Filter_Path
  imports Access_Control
begin

text \<open>
  The path side of \<open>ppbase/services/filter_parser.py\<close>: identifiers, quoted text, the resolver metadata
  and the translation of a dotted path into a SQL column expression and relation hops
  (\<open>_unescape_text\<close>, \<open>_sanitize_ident\<close>, \<open>_resolve_dotted_path\<close> and the helpers they use).

  Resolver metadata and the request context are the dynamically typed dicts of \<open>Py_Value\<close>, with every
  \<open>isinstance\<close> test of the source a case distinction.  The transformer object is the record
  \<open>filter_env\<close> (its constructor arguments) and \<open>fstate\<close> (parameter counter and parameters).
\<close>

section \<open>Operators, identifiers and quoted text\<close>

definition STANDARD_OPS :: "(pystr \<times> pystr) list" where
  "STANDARD_OPS = map (\<lambda>(a, b). (lit a, lit b))
     [(''='', ''=''), (''!='', ''!=''), (''>'', ''>''), (''>='', ''>=''), (''<'', ''<''), (''<='', ''<='')]"

definition LIKE_OPS :: "(pystr \<times> pystr) list" where
  "LIKE_OPS = map (\<lambda>(a, b). (lit a, lit b)) [(''~'', ''ILIKE''), (''!~'', ''NOT ILIKE'')]"

definition ANY_STANDARD_OPS :: "(pystr \<times> pystr) list" where
  "ANY_STANDARD_OPS = map (\<lambda>(a, b). (lit a, lit b))
     [(''?='', ''=''), (''?!='', ''!=''), (''?>'', ''>''), (''?>='', ''>=''), (''?<'', ''<''), (''?<='', ''<='')]"

definition ANY_LIKE_OPS :: "(pystr \<times> pystr) list" where
  "ANY_LIKE_OPS = map (\<lambda>(a, b). (lit a, lit b)) [(''?~'', ''ILIKE''), (''?!~'', ''NOT ILIKE'')]"

definition DATETIME_FIELD_TYPES :: "pystr list" where
  "DATETIME_FIELD_TYPES = [lit ''date'', lit ''autodate'']"

definition SYSTEM_FIELD_TYPES :: "(pystr \<times> pystr) list" where
  "SYSTEM_FIELD_TYPES =
     [(lit ''id'', lit ''text''), (lit ''created'', lit ''autodate''), (lit ''updated'', lit ''autodate'')]"

definition MODIFIER_NAMES :: "pystr list" where
  "MODIFIER_NAMES = map lit [''isset'', ''changed'', ''length'', ''each'', ''lower'']"

definition safe_ident_char :: "nat \<Rightarrow> bool" where
  "safe_ident_char c \<longleftrightarrow> (97 \<le> c \<and> c \<le> 122) \<or> (65 \<le> c \<and> c \<le> 90) \<or> (48 \<le> c \<and> c \<le> 57) \<or> c = 95"

definition sanitize_ident :: "pystr \<Rightarrow> pyexn + pystr" where
  "sanitize_ident s = (if list_all safe_ident_char s then Inr s else Inl ValueError)"

definition text_escape :: "nat \<Rightarrow> pystr" where
  "text_escape c =
     (if c = 110 then [10] else if c = 116 then [9] else if c = 114 then [13]
      else if c = 92 \<or> c = 39 \<or> c = 34 then [c] else [92, c])"

fun unescape_loop :: "pystr \<Rightarrow> pystr" where
  "unescape_loop [] = []"
| "unescape_loop [c] = [c]"
| "unescape_loop (c # d # cs) =
     (if c \<noteq> 92 then c # unescape_loop (d # cs) else text_escape d @ unescape_loop cs)"

definition unescape_text :: "pystr \<Rightarrow> pystr" where
  "unescape_text raw = (if 92 \<notin> set raw then raw else unescape_loop raw)"

text \<open>\<open>s.rsplit(":", 1)\<close> on text with a colon, and the modifier suffix it separates.\<close>

definition rsplit_colon :: "pystr \<Rightarrow> pystr \<times> pystr" where
  "rsplit_colon s =
     (rev (tl (dropWhile (\<lambda>c. c \<noteq> 58) (rev s))), rev (takeWhile (\<lambda>c. c \<noteq> 58) (rev s)))"

definition split_modifier :: "pystr \<Rightarrow> pystr \<times> pystr option" where
  "split_modifier raw =
     (if 58 \<notin> set raw then (raw, None)
      else case rsplit_colon raw of (base, suf) \<Rightarrow>
        if base \<noteq> [] \<and> suf \<in> set MODIFIER_NAMES then (base, Some suf) else (raw, None))"

fun join_with :: "pystr \<Rightarrow> pystr list \<Rightarrow> pystr" where
  "join_with sep [] = []"
| "join_with sep [s] = s"
| "join_with sep (s # ss) = s @ sep @ join_with sep ss"

definition dq :: "pystr \<Rightarrow> pystr" where
  "dq s = 34 # s @ [34]"

definition sq :: "pystr \<Rightarrow> pystr" where
  "sq s = 39 # s @ [39]"

section \<open>Conditions, hops and the transformer's state\<close>

datatype cond =
    CStr pystr
  | CollectionCondition (cc_table: pystr) (cc_group: pystr) (cc_inner: pystr)
  | RelationCondition (rc_key: pystr) (rc_table: pystr) (rc_join: pystr) (rc_where: pystr)

record traversal_step =
  ts_relation_key :: pystr
  ts_target_table :: pystr
  ts_max_select :: int
  ts_kind :: pystr
  ts_source_field :: pystr
  ts_back_field :: "pystr option"

record resolved_path =
  rp_steps :: "traversal_step list"
  rp_sql :: pystr
  rp_is_json :: bool
  rp_field_type :: pystr

record collection_ref =
  cr_table_name :: pystr
  cr_group_key :: pystr
  cr_column_sql :: "pystr option"
  cr_relation_steps :: "traversal_step list"
  cr_leaf_sql :: "pystr option"
  cr_leaf_is_json :: bool
  cr_leaf_type :: pystr

text \<open>
  The operand tuples, tagged by their first element.  A \<open>sql_ref\<close> is built with two or with four elements.
\<close>

datatype node =
    NLiteral pyval
  | NNull
  | NMacro pystr
  | NCollectionRef pystr "pystr list" pystr
  | NRelationRef "traversal_step list" pystr bool pystr
  | NSqlRef pystr "(bool \<times> pystr) option"
  | NFieldModifier pystr pystr
  | NField pystr pystr

text \<open>
  The constructor's arguments.  \<open>fe_repr_steps\<close> and \<open>fe_repr_cond\<close> are Python's default \<open>str\<close> of objects
  without one of their own, which the code would call on operands and results the grammar does not produce.
\<close>

record filter_env =
  fe_rt :: py_runtime
  fe_context :: "(pystr \<times> pyval) list"
  fe_relations :: pyval
  fe_collections :: pyval
  fe_table :: "pystr option"
  fe_repr_steps :: "traversal_step list \<Rightarrow> pystr"
  fe_repr_cond :: "cond \<Rightarrow> pystr"

record fstate =
  fs_counter :: nat
  fs_params :: "(pystr \<times> pyval) list"

definition param_name :: "nat \<Rightarrow> pystr" where
  "param_name n = lit ''_fp'' @ nat_str n"

definition next_param :: "pyval \<Rightarrow> fstate \<Rightarrow> pystr \<times> fstate" where
  "next_param v st =
     (let n = fs_counter st + 1
      in (param_name n, \<lparr>fs_counter = n, fs_params = fs_params st @ [(param_name n, v)]\<rparr>))"

section \<open>Resolver metadata\<close>

definition sub_dict :: "(pystr \<times> pyval) list \<Rightarrow> pystr \<Rightarrow> (pystr \<times> pyval) list option" where
  "sub_dict d k = as_record (dict_get d k)"

definition is_flat_resolver :: "pyval \<Rightarrow> bool" where
  "is_flat_resolver r =
     (case r of PDict d \<Rightarrow> dict_get d (lit ''__flat__'') = PBool True | _ \<Rightarrow> False)"

definition resolver_fields :: "pyval \<Rightarrow> (pystr \<times> pyval) list" where
  "resolver_fields r =
     (case r of
        PDict d \<Rightarrow> (case sub_dict d (lit ''__fields__'') of Some f \<Rightarrow> f | None \<Rightarrow> [])
      | _ \<Rightarrow> [])"

definition flat_collection :: "pyval \<Rightarrow> pystr \<Rightarrow> (pystr \<times> pyval) list" where
  "flat_collection r t =
     (case r of
        PDict d \<Rightarrow>
          if \<not> is_flat_resolver r then []
          else (case sub_dict d (lit ''collections'') of
                  None \<Rightarrow> []
                | Some cs \<Rightarrow> (case sub_dict cs t of None \<Rightarrow> [] | Some c \<Rightarrow> c))
      | _ \<Rightarrow> [])"

definition flat_fields :: "pyval \<Rightarrow> pystr \<Rightarrow> (pystr \<times> pyval) list" where
  "flat_fields r t = (case sub_dict (flat_collection r t) (lit ''fields'') of Some f \<Rightarrow> f | None \<Rightarrow> [])"

definition flat_back_relation :: "pyval \<Rightarrow> pystr \<Rightarrow> pystr \<Rightarrow> (pystr \<times> pyval) list option" where
  "flat_back_relation r t seg =
     (case r of
        PDict d \<Rightarrow>
          (case sub_dict d (lit ''back_relations'') of
             None \<Rightarrow> None
           | Some bs \<Rightarrow> (case sub_dict bs t of None \<Rightarrow> None | Some by \<Rightarrow> sub_dict by seg))
      | _ \<Rightarrow> None)"

definition flat_relation_info :: "pyval \<Rightarrow> pystr \<Rightarrow> pystr \<Rightarrow> (pystr \<times> pyval) list option" where
  "flat_relation_info r t seg =
     (case sub_dict (flat_collection r t) (lit ''relations'') of
        None \<Rightarrow> flat_back_relation r t seg
      | Some rels \<Rightarrow>
          (case sub_dict rels seg of Some info \<Rightarrow> Some info | None \<Rightarrow> flat_back_relation r t seg))"

text \<open>\<open>str(v or "")\<close>, the form in which field types and field names are read.\<close>

definition str_or_blank :: "py_runtime \<Rightarrow> pyval \<Rightarrow> pystr" where
  "str_or_blank rt v = (if truthy v then py_str rt v else [])"

definition info_type :: "py_runtime \<Rightarrow> (pystr \<times> pyval) list \<Rightarrow> pystr" where
  "info_type rt d = str_or_blank rt (dict_get d (lit ''type''))"

definition field_type_for_table :: "filter_env \<Rightarrow> pystr option \<Rightarrow> pystr \<Rightarrow> pyexn + pystr" where
  "field_type_for_table env tbl f =
     bindE (sanitize_ident f) (\<lambda>safe_field.
       case map_of SYSTEM_FIELD_TYPES safe_field of
         Some t \<Rightarrow> Inr t
       | None \<Rightarrow>
           bindE (case tbl of None \<Rightarrow> Inr [] | Some t \<Rightarrow> sanitize_ident t) (\<lambda>safe_table.
             let rels = fe_relations env;
                 by_table = (if safe_table \<noteq> [] \<and> is_flat_resolver rels
                             then sub_dict (flat_fields rels safe_table) safe_field else None)
             in case by_table of
                  Some info \<Rightarrow> Inr (info_type (fe_rt env) info)
                | None \<Rightarrow>
                    (case sub_dict (resolver_fields rels) safe_field of
                       Some info \<Rightarrow> Inr (info_type (fe_rt env) info)
                     | None \<Rightarrow> Inr [])))"

definition field_type_for_collection_resolver :: "filter_env \<Rightarrow> pystr \<Rightarrow> pystr \<Rightarrow> pyexn + pystr" where
  "field_type_for_collection_resolver env tbl f =
     bindE (sanitize_ident f) (\<lambda>safe_field.
       case map_of SYSTEM_FIELD_TYPES safe_field of
         Some t \<Rightarrow> Inr t
       | None \<Rightarrow>
           bindE (sanitize_ident tbl) (\<lambda>safe_table.
             let colls = fe_collections env;
                 info = (if is_flat_resolver colls then sub_dict (flat_fields colls safe_table) safe_field
                         else case as_record colls of
                                None \<Rightarrow> None
                              | Some cs \<Rightarrow>
                                  (case sub_dict cs safe_table of
                                     None \<Rightarrow> None
                                   | Some ci \<Rightarrow> (case sub_dict ci (lit ''fields'') of
                                                  None \<Rightarrow> None
                                                | Some fs \<Rightarrow> sub_dict fs safe_field)))
             in case info of Some i \<Rightarrow> Inr (info_type (fe_rt env) i) | None \<Rightarrow> Inr []))"

section \<open>Columns and dotted paths\<close>

definition qualified_column :: "pystr \<Rightarrow> pystr \<Rightarrow> pyexn + pystr" where
  "qualified_column t f =
     bindE (sanitize_ident t) (\<lambda>t'. bindE (sanitize_ident f) (\<lambda>f'. Inr (dq t' @ [46] @ dq f')))"

definition field_expr :: "filter_env \<Rightarrow> pystr \<Rightarrow> pyexn + pystr" where
  "field_expr env f =
     bindE (guardE (\<not> list_all (\<lambda>c. safe_ident_char c \<or> c = 46) f) ValueError) (\<lambda>_.
       if 46 \<in> set f then Inr f
       else case fe_table env of
              Some t \<Rightarrow> if t \<noteq> [] then qualified_column t f else Inr (dq f)
            | None \<Rightarrow> Inr (dq f))"

definition column_expr_for_table :: "filter_env \<Rightarrow> pystr option \<Rightarrow> pystr \<Rightarrow> pyexn + pystr" where
  "column_expr_for_table env tbl f =
     (case tbl of Some t \<Rightarrow> if t \<noteq> [] then qualified_column t f else field_expr env f
      | None \<Rightarrow> field_expr env f)"

definition json_extract_sql :: "pystr \<Rightarrow> pystr list \<Rightarrow> pyexn + pystr" where
  "json_extract_sql col parts =
     (if parts = [] then Inr col
      else bindE (mapE sanitize_ident parts) (\<lambda>ps.
             Inr (lit ''jsonb_extract_path('' @ col @ lit '', '' @ join_with (lit '', '') (map sq ps) @ lit '')'')))"

definition step_from_info :: "py_runtime \<Rightarrow> pystr \<Rightarrow> (pystr \<times> pyval) list \<Rightarrow> pyexn + traversal_step" where
  "step_from_info rt seg info =
     (let kind0 = dict_get_or info (lit ''kind'') (PStr (lit ''forward''));
          kind = (if truthy kind0 then py_str rt kind0 else lit ''forward'');
          ms0 = dict_get_or info (lit ''max_select'') (PInt 1);
          fld = dict_get info (lit ''field'');
          bf = dict_get info (lit ''back_field'')
      in bindE (sanitize_ident (py_str rt (dict_get info (lit ''table'')))) (\<lambda>target.
         bindE (py_int rt (if truthy ms0 then ms0 else PInt 1)) (\<lambda>ms.
         bindE (sanitize_ident (if truthy fld then py_str rt fld else seg)) (\<lambda>source.
         bindE (if bf = PNone then Inr None
                else bindE (sanitize_ident (py_str rt bf)) (\<lambda>b. Inr (Some b))) (\<lambda>back.
         bindE (guardE (kind = lit ''back'' \<and> (back = None \<or> back = Some [])) ValueError) (\<lambda>_.
         bindE (sanitize_ident seg) (\<lambda>key.
           Inr \<lparr>ts_relation_key = key, ts_target_table = target, ts_max_select = ms, ts_kind = kind,
                ts_source_field = source, ts_back_field = back\<rparr>)))))))"

text \<open>
  The loop of \<open>_resolve_dotted_path\<close>; \<open>rels\<close> is the flat resolver or the relations of the current level.
  The result \<open>Inr None\<close> is the source's \<open>return None\<close> (path left unresolved).
\<close>

fun resolve_path_loop ::
  "filter_env \<Rightarrow> bool \<Rightarrow> bool \<Rightarrow> bool \<Rightarrow> pystr \<Rightarrow> pyval \<Rightarrow> (pystr \<times> pyval) list \<Rightarrow> traversal_step list
    \<Rightarrow> pystr list \<Rightarrow> pyexn + resolved_path option" where
  "resolve_path_loop env flat allow optim tbl rels flds steps [] = Inr None"
| "resolve_path_loop env flat allow optim tbl rels flds steps [part] =
     bindE (column_expr_for_table env (Some tbl) part) (\<lambda>sql.
       Inr (Some \<lparr>rp_steps = steps, rp_sql = sql, rp_is_json = False,
                 rp_field_type = (case sub_dict flds part of
                                    Some info \<Rightarrow> info_type (fe_rt env) info
                                  | None \<Rightarrow> (case map_of SYSTEM_FIELD_TYPES part of Some t \<Rightarrow> t | None \<Rightarrow> []))\<rparr>))"
| "resolve_path_loop env flat allow optim tbl rels flds steps (part # nxt # rest) =
     (let ftype = (case sub_dict flds part of
                     Some info \<Rightarrow> py_str (fe_rt env) (dict_get_or info (lit ''type'') (PStr []))
                   | None \<Rightarrow> [])
      in if ftype = lit ''json'' \<or> ftype = lit ''geoPoint'' then
           bindE (column_expr_for_table env (Some tbl) part) (\<lambda>col.
           bindE (json_extract_sql col (nxt # rest)) (\<lambda>sql.
             Inr (Some \<lparr>rp_steps = steps, rp_sql = sql, rp_is_json = True, rp_field_type = []\<rparr>)))
         else
           case (if flat then flat_relation_info rels tbl part
                 else case as_record rels of None \<Rightarrow> None | Some d \<Rightarrow> sub_dict d part) of
             Some info \<Rightarrow>
               if lit ''table'' \<in> fst ` set info then
                 bindE (step_from_info (fe_rt env) part info) (\<lambda>step.
                   if optim \<and> ts_kind step = lit ''forward'' \<and> ts_max_select step \<le> 1 \<and> rest = [] \<and> nxt = lit ''id'' then
                     bindE (column_expr_for_table env (Some tbl)
                              (if ts_source_field step \<noteq> [] then ts_source_field step else part)) (\<lambda>sql.
                       Inr (Some \<lparr>rp_steps = steps, rp_sql = sql, rp_is_json = False,
                                 rp_field_type = lit ''relation''\<rparr>))
                   else
                     let tbl' = ts_target_table step;
                         nested = (case sub_dict info (lit ''relations'') of Some d \<Rightarrow> PDict d | None \<Rightarrow> PDict []);
                         rels' = (if flat then rels else nested);
                         flds' = (if flat then flat_fields rels tbl'
                                    else case sub_dict info (lit ''fields'') of
                                           Some (f # fs) \<Rightarrow> f # fs
                                         | _ \<Rightarrow> resolver_fields nested)
                     in resolve_path_loop env flat allow optim tbl' rels' flds' (steps @ [step]) (nxt # rest))
               else if steps \<noteq> [] \<or> \<not> allow then Inl ValueError else Inr None
           | None \<Rightarrow> if steps \<noteq> [] \<or> \<not> allow then Inl ValueError else Inr None)"

definition resolve_dotted_path ::
  "filter_env \<Rightarrow> pystr list \<Rightarrow> pystr \<Rightarrow> pyval \<Rightarrow> pyval \<Rightarrow> bool \<Rightarrow> bool \<Rightarrow> pyexn + resolved_path option" where
  "resolve_dotted_path env parts start relations flds allow optim =
     bindE (mapE sanitize_ident parts) (\<lambda>safe_parts.
       if safe_parts = [] then Inr None
       else bindE (if start \<noteq> [] then sanitize_ident start else Inr []) (\<lambda>tbl.
         let flat = is_flat_resolver relations;
             rels = (case relations of PDict d \<Rightarrow> relations | _ \<Rightarrow> PDict []);
             fs = (if flat then flat_fields relations tbl
                   else case flds of PDict d \<Rightarrow> d | _ \<Rightarrow> resolver_fields rels)
         in resolve_path_loop env flat allow optim tbl rels fs [] safe_parts))"

end
