(* ===== verification/Filter_Sql.thy ===== *)
theory Filter_Sql
  imports Filter_Path
begin

text \<open>
  The transformer of \<open>ppbase/services/filter_parser.py\<close>: every callback of \<open>_FilterTransformer\<close>, from
  operand tokens to the WHERE clause, with \<open>parse_filter\<close> and \<open>parse_sort\<close>.

  The Lark parser is a parameter \<open>parse\<close> that returns the parse tree or fails; \<open>ftree\<close> has one constructor
  per rule of the grammar that is kept in the tree.  Callbacks that allocate bound parameters are functions of
  \<open>fstate\<close> that return an exception or a value with the new state; \<open>bindS\<close> sequences them in the order in
  which Lark calls them (children first, left to right).
\<close>

section \<open>State and exceptions\<close>

type_synonym 'a fm = "fstate \<Rightarrow> pyexn + ('a \<times> fstate)"

definition retS :: "'a \<Rightarrow> 'a fm" where
  "retS x = (\<lambda>st. Inr (x, st))"

definition liftS :: "pyexn + 'a \<Rightarrow> 'a fm" where
  "liftS r = (\<lambda>st. bindE r (\<lambda>x. Inr (x, st)))"

definition bindS :: "'a fm \<Rightarrow> ('a \<Rightarrow> 'b fm) \<Rightarrow> 'b fm" where
  "bindS m f = (\<lambda>st. bindE (m st) (\<lambda>(x, st'). f x st'))"

text \<open>\<open>pname = self._next_param(value)\<close> followed by \<open>f":{pname}"\<close>.\<close>

definition bind_param :: "pyval \<Rightarrow> pystr fm" where
  "bind_param v = (\<lambda>st. case next_param v st of (name, st') \<Rightarrow> Inr (58 # name, st'))"

fun map_callbacks :: "('a \<Rightarrow> 'b fm) \<Rightarrow> 'a list \<Rightarrow> 'b list fm" where
  "map_callbacks f [] = retS []"
| "map_callbacks f (x # xs) = bindS (f x) (\<lambda>y. bindS (map_callbacks f xs) (\<lambda>ys. retS (y # ys)))"

lemma map_callbacks_cong [fundef_cong]:
  "xs = ys \<Longrightarrow> (\<And>x. x \<in> set ys \<Longrightarrow> f x = g x) \<Longrightarrow> map_callbacks f xs = map_callbacks g ys"
  by (induction xs arbitrary: ys) auto

section \<open>Operand tokens\<close>

datatype operand =
    OString pystr
  | ONumber pystr
  | OTrue
  | OFalse
  | ONull
  | OMacro pystr
  | OFieldPath "pystr list"

datatype ftree =
    OrExpr "ftree list"
  | AndExpr "ftree list"
  | Comparison operand pystr operand

definition string_node :: "pystr \<Rightarrow> node" where
  "string_node raw = NLiteral (PStr (unescape_text (butlast (tl raw))))"

definition flt_integral :: "pyfloat \<Rightarrow> pyexn + bool" where
  "flt_integral f =
     (case f of
        FNan \<Rightarrow> Inl ValueError
      | FInf _ \<Rightarrow> Inl OverflowError
      | FFin q \<Rightarrow> Inr (q = of_int (rat_trunc q)))"

definition number_node :: "py_runtime \<Rightarrow> pystr \<Rightarrow> pyexn + node" where
  "number_node rt raw =
     bindE (py_float rt (PStr raw)) (\<lambda>val.
     bindE (flt_integral val) (\<lambda>integral.
       if integral \<and> 46 \<notin> set raw then bindE (py_int rt (PStr raw)) (\<lambda>n. Inr (NLiteral (PInt n)))
       else Inr (NLiteral (PFloat val))))"

definition split_collection_ref :: "pystr \<Rightarrow> pyexn + pystr \<times> pystr" where
  "split_collection_ref r =
     (if 58 \<in> set r then
        bindE (sanitize_ident (takeWhile (\<lambda>c. c \<noteq> 58) r)) (\<lambda>coll_name.
        bindE (sanitize_ident (tl (dropWhile (\<lambda>c. c \<noteq> 58) r))) (\<lambda>alias_key.
          Inr (coll_name, coll_name @ [58] @ alias_key)))
      else bindE (sanitize_ident r) (\<lambda>coll_name. Inr (coll_name, coll_name)))"

definition strip_at :: "pystr \<Rightarrow> pystr" where
  "strip_at name = dropWhile (\<lambda>c. c = 64) name"

definition macro_node :: "pystr \<Rightarrow> pyexn + node" where
  "macro_node name =
     (let stripped = strip_at name
      in if prefix (lit ''collection.'') stripped then
           (let parts = split_on 46 stripped
            in if length parts < 3 \<or> parts ! 1 = [] \<or> parts ! 2 = [] then Inl ValueError
               else bindE (split_collection_ref (parts ! 1)) (\<lambda>(coll_name, group_key).
                    bindE (mapE sanitize_ident (filter (\<lambda>p. p \<noteq> []) (drop 2 parts))) (\<lambda>path.
                      if path = [] then Inl ValueError else Inr (NCollectionRef coll_name path group_key))))
         else Inr (NMacro name))"

definition field_path_node :: "filter_env \<Rightarrow> pystr list \<Rightarrow> pyexn + node" where
  "field_path_node env items =
     (case split_modifier (last items) of
        (base, m) \<Rightarrow>
          let parts = (case m of Some _ \<Rightarrow> butlast items @ [base] | None \<Rightarrow> items);
              plain = (case m of
                         Some md \<Rightarrow> Inr (NFieldModifier (join_with [46] parts) md)
                       | None \<Rightarrow>
                           bindE (if length parts = 1 then field_type_for_table env (fe_table env) (join_with [46] parts)
                                  else Inr []) (\<lambda>t. Inr (NField (join_with [46] parts) t)))
          in if 2 \<le> length parts \<and> truthy (fe_relations env) then
               bindE (resolve_dotted_path env parts (case fe_table env of Some t \<Rightarrow> t | None \<Rightarrow> [])
                        (fe_relations env) (PDict (resolver_fields (fe_relations env))) True False) (\<lambda>r.
                 case r of
                   Some rp \<Rightarrow>
                     if rp_steps rp \<noteq> [] then
                       Inr (NRelationRef (rp_steps rp) (rp_sql rp) (rp_is_json rp) (rp_field_type rp))
                     else if rp_is_json rp then Inr (NSqlRef (rp_sql rp) (Some (rp_is_json rp, rp_field_type rp)))
                     else plain
                 | None \<Rightarrow> plain)
             else plain)"

fun operand_node :: "filter_env \<Rightarrow> operand \<Rightarrow> pyexn + node" where
  "operand_node env (OString raw) = Inr (string_node raw)"
| "operand_node env (ONumber raw) = number_node (fe_rt env) raw"
| "operand_node env OTrue = Inr (NLiteral (PBool True))"
| "operand_node env OFalse = Inr (NLiteral (PBool False))"
| "operand_node env ONull = Inr NNull"
| "operand_node env (OMacro name) = macro_node name"
| "operand_node env (OFieldPath items) = field_path_node env items"

section \<open>Literals against field types\<close>

definition is_empty_operand :: "node \<Rightarrow> bool" where
  "is_empty_operand n = (n = NNull \<or> n = NLiteral (PStr []))"

text \<open>
  \<open>astimezone(UTC)\<close>: microseconds are counted from 0001-01-01, and a result outside the years 1 to 9999 raises
  \<open>OverflowError\<close>.
\<close>

definition DATETIME_SPAN :: int where
  "DATETIME_SPAN = 315537897600 * 1000000"

definition astimezone_utc :: "pydt \<Rightarrow> pyexn + pydt" where
  "astimezone_utc d =
     (let u = to_utc d
      in if 0 \<le> dt_local u \<and> dt_local u < DATETIME_SPAN then Inr u else Inl OverflowError)"

fun replace_first :: "nat \<Rightarrow> nat \<Rightarrow> pystr \<Rightarrow> pystr" where
  "replace_first a b [] = []"
| "replace_first a b (c # cs) = (if c = a then b # cs else c # replace_first a b cs)"

definition normalize_iso :: "pystr \<Rightarrow> pystr" where
  "normalize_iso s =
     (let n = concat (map (\<lambda>c. if c = 90 then lit ''+00:00'' else [c]) s)
      in if 32 \<in> set n \<and> 84 \<notin> set n then replace_first 32 84 n else n)"

definition literal_for_field_type :: "py_runtime \<Rightarrow> node \<Rightarrow> pystr \<Rightarrow> pyexn + node" where
  "literal_for_field_type rt n ftype =
     (if ftype \<notin> set DATETIME_FIELD_TYPES then Inr n
      else case n of
             NLiteral (PStr s) \<Rightarrow>
               let v = py_strip s
               in if v = [] then Inr n
                  else (case rt_fromisoformat rt (normalize_iso v) of
                          None \<Rightarrow> Inr n
                        | Some d \<Rightarrow>
                            (case dt_offset d of
                               None \<Rightarrow> Inr (NLiteral (PDatetime (PyDt (dt_local d) (Some 0))))
                             | Some _ \<Rightarrow> bindE (astimezone_utc d) (\<lambda>u. Inr (NLiteral (PDatetime u)))))
           | _ \<Rightarrow> Inr n)"

definition operand_field_type :: "filter_env \<Rightarrow> node \<Rightarrow> pyexn + pystr" where
  "operand_field_type env n =
     (case n of
        NField f t \<Rightarrow>
          if t \<noteq> [] then Inr t
          else if 46 \<in> set f then Inr []
          else field_type_for_table env (fe_table env) f
      | NRelationRef _ _ _ t \<Rightarrow> Inr t
      | NSqlRef _ (Some (_, t)) \<Rightarrow> Inr t
      | _ \<Rightarrow> Inr [])"

definition is_json_operand :: "filter_env \<Rightarrow> node \<Rightarrow> pyexn + bool" where
  "is_json_operand env n =
     (case n of
        NSqlRef _ (Some (True, _)) \<Rightarrow> Inr True
      | NRelationRef _ _ True _ \<Rightarrow> Inr True
      | _ \<Rightarrow> bindE (operand_field_type env n) (\<lambda>t. Inr (t = lit ''json'' \<or> t = lit ''geoPoint'')))"

definition text_cast_sql :: "pystr \<Rightarrow> pystr" where
  "text_cast_sql e =
     (if prefix [58] e then lit ''CAST('' @ e @ lit '' AS text)'' else e @ lit ''::text'')"

definition is_literal :: "node \<Rightarrow> bool" where
  "is_literal n = (case n of NLiteral _ \<Rightarrow> True | _ \<Rightarrow> False)"

definition empty_equality_sql ::
  "filter_env \<Rightarrow> pystr \<Rightarrow> node \<Rightarrow> pystr \<Rightarrow> node \<Rightarrow> pystr \<Rightarrow> pyexn + pystr option" where
  "empty_equality_sql env sql_op l l_sql r r_sql =
     (if sql_op \<noteq> lit ''='' \<and> sql_op \<noteq> lit ''!='' then Inr None
      else if \<not> is_empty_operand l \<and> \<not> is_empty_operand r then Inr None
      else if is_empty_operand l \<and> is_empty_operand r then
        Inr (Some (if sql_op = lit ''='' then lit ''TRUE'' else lit ''FALSE''))
      else
        let other = (if is_empty_operand l then r else l);
            other_sql = (if is_empty_operand l then r_sql else l_sql);
            t = text_cast_sql other_sql
        in if is_literal other then Inr None
           else bindE (is_json_operand env other) (\<lambda>json.
                  if json then Inr None
                  else if sql_op = lit ''='' then
                    Inr (Some (lit ''('' @ t @ lit '' = '' @ sq [] @ lit '' OR '' @ t @ lit '' IS NULL)''))
                  else
                    Inr (Some (lit ''('' @ t @ lit '' <> '' @ sq [] @ lit '' AND '' @ t @ lit '' IS NOT NULL)''))))"

definition coerce_comparison_literals :: "filter_env \<Rightarrow> node \<Rightarrow> node \<Rightarrow> pyexn + node \<times> node" where
  "coerce_comparison_literals env l r =
     bindE (operand_field_type env l) (\<lambda>lt.
     bindE (operand_field_type env r) (\<lambda>rt'.
     bindE (if lt \<in> set DATETIME_FIELD_TYPES then literal_for_field_type (fe_rt env) r lt else Inr r) (\<lambda>r'.
     bindE (if rt' \<in> set DATETIME_FIELD_TYPES then literal_for_field_type (fe_rt env) l rt' else Inr l) (\<lambda>l'.
       Inr (l', r')))))"

section \<open>Macros and modifiers\<close>

definition context_data :: "filter_env \<Rightarrow> (pystr \<times> pyval) list option" where
  "context_data env = as_record (dict_get_or (fe_context env) (lit ''data'') (PDict []))"

fun value_length :: "pyval \<Rightarrow> int" where
  "value_length PNone = 0"
| "value_length (PStr s) = int (length s)"
| "value_length (PList xs) = int (length xs)"
| "value_length (PDict d) = int (length d)"
| "value_length _ = 1"

text \<open>\<open>(has_field, value)\<close>, looking the whole name up first and then its last dotted part.\<close>

definition extract_request_data_field_value :: "filter_env \<Rightarrow> pystr \<Rightarrow> bool \<times> pyval" where
  "extract_request_data_field_value env f =
     (case context_data env of
        None \<Rightarrow> (False, PNone)
      | Some d \<Rightarrow>
          (case map_of d f of
             Some v \<Rightarrow> (True, v)
           | None \<Rightarrow> (case map_of d (last (split_on 46 f)) of Some v \<Rightarrow> (True, v) | None \<Rightarrow> (False, PNone))))"

definition changed_sql :: "pystr \<Rightarrow> pystr \<Rightarrow> pystr" where
  "changed_sql field_sql bound =
     lit ''(COALESCE('' @ field_sql @ lit ''::text, '' @ sq [] @ lit '') <> COALESCE(CAST('' @ bound @ lit '' AS TEXT), '' @ sq [] @ lit ''))''"

definition resolve_field_modifier :: "filter_env \<Rightarrow> pystr \<Rightarrow> pystr \<Rightarrow> pystr fm" where
  "resolve_field_modifier env f m =
     bindS (liftS (field_expr env f)) (\<lambda>fsql.
       if m = lit ''isset'' then retS (lit ''('' @ fsql @ lit '' IS NOT NULL)'')
       else if m = lit ''length'' then
         retS (lit ''(CASE WHEN '' @ fsql @ lit '' IS NULL THEN 0 WHEN jsonb_typeof(to_jsonb('' @ fsql @ lit '')) = ''
           @ sq (lit ''array'') @ lit '' THEN jsonb_array_length(to_jsonb('' @ fsql @ lit '')) ELSE char_length('' @ fsql
           @ lit ''::text) END)'')
       else if m = lit ''changed'' then
         (case extract_request_data_field_value env f of
            (has_field, v) \<Rightarrow>
              if \<not> has_field then retS (lit ''FALSE'')
              else bindS (bind_param v) (\<lambda>b. retS (changed_sql fsql b)))
       else if m = lit ''lower'' then retS (lit ''LOWER(COALESCE('' @ fsql @ lit ''::text, '' @ sq [] @ lit ''))'')
       else liftS (Inl ValueError))"

definition date_macros :: "(pystr \<times> pystr) list" where
  "date_macros =
     (let now = lit ''TIMEZONE('' @ sq (lit ''UTC'') @ lit '', NOW())'';
          utc = lit '' AT TIME ZONE '' @ sq (lit ''UTC'');
          part = (\<lambda>p. lit ''CAST(EXTRACT('' @ lit p @ lit '' FROM '' @ now @ lit '') AS INT)'');
          trunc = (\<lambda>p. lit ''date_trunc('' @ sq (lit p) @ lit '', '' @ now @ lit '')'');
          int = (\<lambda>p. lit ''INTERVAL '' @ sq (lit p));
          until = (\<lambda>p. lit ''(('' @ trunc p @ lit '' + '' @ int (''1 '' @ p) @ lit '' - '' @ int ''1 microsecond'' @ lit '')''
                     @ utc @ lit '')'')
      in [(lit ''now'', lit ''('' @ now @ utc @ lit '')''),
          (lit ''second'', part ''SECOND''), (lit ''minute'', part ''MINUTE''), (lit ''hour'', part ''HOUR''),
          (lit ''weekday'', part ''DOW''), (lit ''day'', part ''DAY''), (lit ''month'', part ''MONTH''),
          (lit ''year'', part ''YEAR''),
          (lit ''yesterday'', lit ''(('' @ now @ lit '' - '' @ int ''1 day'' @ lit '')'' @ utc @ lit '')''),
          (lit ''tomorrow'', lit ''(('' @ now @ lit '' + '' @ int ''1 day'' @ lit '')'' @ utc @ lit '')''),
          (lit ''todayStart'', lit ''('' @ trunc ''day'' @ utc @ lit '')''), (lit ''todayEnd'', until ''day''),
          (lit ''monthStart'', lit ''('' @ trunc ''month'' @ utc @ lit '')''), (lit ''monthEnd'', until ''month''),
          (lit ''yearStart'', lit ''('' @ trunc ''year'' @ utc @ lit '')''), (lit ''yearEnd'', until ''year'')])"

definition header_value :: "py_runtime \<Rightarrow> pyval \<Rightarrow> pystr \<Rightarrow> pyval" where
  "header_value rt headers f =
     (case headers of
        PDict d \<Rightarrow>
          (let low = rt_lower rt f;
               v1 = dict_get d (map (\<lambda>c. if c = 45 then 95 else c) low);
               v2 = dict_get d low;
               v3 = dict_get d f
           in if truthy v1 then v1 else if truthy v2 then v2 else if truthy v3 then v3 else PStr [])
      | _ \<Rightarrow> PStr [])"

definition get_attr_dict :: "pyval \<Rightarrow> pyexn + (pystr \<times> pyval) list" where
  "get_attr_dict v = (case v of PDict d \<Rightarrow> Inr d | _ \<Rightarrow> Inl AttributeError)"

text \<open>\<open>[str(v) for v in raw_val]\<close>, or the single value, for an \<open>:each\<close> parameter.\<close>

definition each_values :: "py_runtime \<Rightarrow> bool \<Rightarrow> pyval \<Rightarrow> pyval" where
  "each_values rt has_field v =
     (if \<not> has_field \<or> v = PNone then PList []
      else case v of PList xs \<Rightarrow> PList (map (\<lambda>x. PStr (py_str rt x)) xs) | _ \<Rightarrow> PList [PStr (py_str rt v)])"

definition data_field :: "filter_env \<Rightarrow> pystr \<Rightarrow> pyval option" where
  "data_field env f = (case context_data env of Some d \<Rightarrow> map_of d f | None \<Rightarrow> None)"

definition body_macro :: "filter_env \<Rightarrow> pystr \<Rightarrow> pystr fm" where
  "body_macro env field_and_modifier =
     (case split_modifier field_and_modifier of
        (f, m) \<Rightarrow>
          let has_field = (data_field env f \<noteq> None);
              v = (case data_field env f of Some x \<Rightarrow> x | None \<Rightarrow> PNone)
          in if m = Some (lit ''isset'') then bind_param (PBool has_field)
             else if m = Some (lit ''length'') then bind_param (PInt (if has_field then value_length v else 0))
             else if m = Some (lit ''changed'') then
               (if \<not> has_field then retS (lit ''FALSE'')
                else bindS (liftS (sanitize_ident f)) (\<lambda>safe.
                       bindS (bind_param v) (\<lambda>b. retS (changed_sql (dq safe) b))))
             else if m = Some (lit ''each'') then
               bindS (bind_param (each_values (fe_rt env) has_field v)) (\<lambda>b.
                 retS (lit ''CAST('' @ b @ lit '' AS text[])''))
             else if m = Some (lit ''lower'') then
               bind_param (PStr (if has_field \<and> v \<noteq> PNone then rt_lower (fe_rt env) (py_str (fe_rt env) v) else []))
             else bind_param (if has_field then v else PStr []))"

definition strip_body_prefix :: "pystr \<Rightarrow> pystr option" where
  "strip_body_prefix name =
     (if prefix (lit ''request.body.'') name \<or> prefix (lit ''request.data.'') name
      then Some (drop (length (lit ''request.body.'')) name) else None)"

definition resolve_macro :: "filter_env \<Rightarrow> pystr \<Rightarrow> pystr fm" where
  "resolve_macro env macro_name =
     (let name = strip_at macro_name; ctx = fe_context env
      in case (case as_record (dict_get ctx (lit ''resolved_macros'')) of Some d \<Rightarrow> map_of d name | None \<Rightarrow> None) of
           Some v \<Rightarrow> bind_param v
         | None \<Rightarrow>
       case map_of date_macros name of
         Some s \<Rightarrow> retS s
       | None \<Rightarrow>
       if name = lit ''request.context'' then bind_param (dict_get_or ctx (lit ''context'') (PStr []))
       else if name = lit ''request.method'' then bind_param (dict_get_or ctx (lit ''method'') (PStr []))
       else if prefix (lit ''request.headers.'') name then
         bind_param (header_value (fe_rt env) (dict_get_or ctx (lit ''headers'') (PDict []))
                       (drop (length (lit ''request.headers.'')) name))
       else if prefix (lit ''request.auth.'') name then
         bindS (liftS (get_attr_dict (dict_get_or ctx (lit ''auth'') (PDict [])))) (\<lambda>auth.
           bind_param (dict_get_or auth (drop (length (lit ''request.auth.'')) name) (PStr [])))
       else case strip_body_prefix name of
              Some fm \<Rightarrow> body_macro env fm
            | None \<Rightarrow>
       if prefix (lit ''request.query.'') name then
         bindS (liftS (get_attr_dict (dict_get_or ctx (lit ''query'') (PDict [])))) (\<lambda>query.
           bind_param (dict_get_or query (drop (length (lit ''request.query.'')) name) (PStr [])))
       else bind_param (PStr []))"

section \<open>Operands and comparison fragments\<close>

fun operand_to_sql :: "filter_env \<Rightarrow> node \<Rightarrow> pystr fm" where
  "operand_to_sql env (NLiteral v) =
     (case v of
        PBool b \<Rightarrow> retS (if b then lit ''TRUE'' else lit ''FALSE'')
      | PInt n \<Rightarrow> retS (int_str n)
      | PFloat f \<Rightarrow> retS (py_str (fe_rt env) v)
      | _ \<Rightarrow> bind_param v)"
| "operand_to_sql env NNull = retS (lit ''NULL'')"
| "operand_to_sql env (NField f t) = liftS (field_expr env f)"
| "operand_to_sql env (NFieldModifier f m) = resolve_field_modifier env f m"
| "operand_to_sql env (NSqlRef s meta) = retS s"
| "operand_to_sql env (NMacro name) = resolve_macro env name"
| "operand_to_sql env (NCollectionRef coll_name path group_key) = retS coll_name"
| "operand_to_sql env (NRelationRef steps col json t) = retS (fe_repr_steps env steps)"

definition like_pattern_sql :: "filter_env \<Rightarrow> node \<Rightarrow> pystr \<Rightarrow> pystr fm" where
  "like_pattern_sql env n operand_sql =
     (case n of
        NLiteral v \<Rightarrow> bind_param (PStr (lit ''%'' @ py_str (fe_rt env) v @ lit ''%''))
      | NNull \<Rightarrow> retS (lit ''NULL'')
      | _ \<Rightarrow> retS (lit ''('' @ sq (lit ''%'') @ lit '' || '' @ text_cast_sql operand_sql @ lit '' || '' @ sq (lit ''%'') @ lit '')''))"

definition like_comparison_sql :: "filter_env \<Rightarrow> pystr \<Rightarrow> node \<Rightarrow> pystr \<Rightarrow> pystr \<Rightarrow> pystr fm" where
  "like_comparison_sql env match_sql pattern_node pattern_sql sql_op =
     bindS (like_pattern_sql env pattern_node pattern_sql) (\<lambda>p.
       retS (text_cast_sql match_sql @ [32] @ sql_op @ [32] @ p))"

definition array_case_sql :: "pystr \<Rightarrow> pystr \<Rightarrow> pystr \<Rightarrow> pystr" where
  "array_case_sql container item_cond scalar_cond =
     lit ''(CASE WHEN jsonb_typeof(to_jsonb('' @ container @ lit '')) = '' @ sq (lit ''array'')
       @ lit '' THEN EXISTS (SELECT 1 FROM jsonb_array_elements_text(to_jsonb('' @ container
       @ lit '')) AS _elem(value) WHERE '' @ item_cond @ lit '') ELSE '' @ scalar_cond @ lit '' END)''"

definition scalar_or_array_any_sql :: "pystr \<Rightarrow> pystr \<Rightarrow> pystr \<Rightarrow> pystr" where
  "scalar_or_array_any_sql container v sql_op =
     (if sql_op \<noteq> lit ''='' \<and> sql_op \<noteq> lit ''!='' then
        v @ [32] @ sql_op @ lit '' ANY('' @ container @ lit '')''
      else array_case_sql container
             (text_cast_sql v @ [32] @ sql_op @ lit '' _elem.value'')
             (text_cast_sql v @ [32] @ sql_op @ [32] @ text_cast_sql container))"

definition scalar_or_array_like_sql :: "pystr \<Rightarrow> pystr \<Rightarrow> pystr \<Rightarrow> pystr" where
  "scalar_or_array_like_sql container p sql_op =
     array_case_sql container
       (lit ''_elem.value '' @ sql_op @ [32] @ p)
       (text_cast_sql container @ [32] @ sql_op @ [32] @ p)"

text \<open>The \<open>null\<close> branches shared by the three kinds of comparison with one distinguished side.\<close>

definition null_sql :: "pystr \<Rightarrow> pystr \<Rightarrow> pystr" where
  "null_sql ref sql_op =
     (if sql_op = lit ''='' then ref @ lit '' IS NULL''
      else if sql_op = lit ''!='' then ref @ lit '' IS NOT NULL''
      else ref @ [32] @ sql_op @ lit '' NULL'')"

definition infix_sql :: "pystr \<Rightarrow> pystr \<Rightarrow> pystr \<Rightarrow> bool \<Rightarrow> pystr" where
  "infix_sql ref sql_op other ref_is_left =
     (if ref_is_left then ref @ [32] @ sql_op @ [32] @ other else other @ [32] @ sql_op @ [32] @ ref)"

definition standard_sql ::
  "filter_env \<Rightarrow> pystr \<Rightarrow> node \<Rightarrow> pystr \<Rightarrow> node \<Rightarrow> pystr \<Rightarrow> bool \<Rightarrow> pyexn + pystr" where
  "standard_sql env sql_op ref_node ref_sql other other_sql ref_is_left =
     bindE (empty_equality_sql env sql_op ref_node ref_sql other other_sql) (\<lambda>e.
       case e of
         Some s \<Rightarrow> Inr s
       | None \<Rightarrow> Inr (if other = NNull then null_sql ref_sql sql_op
                       else infix_sql ref_sql sql_op other_sql ref_is_left))"

definition like_side_sql ::
  "filter_env \<Rightarrow> pystr \<Rightarrow> pystr \<Rightarrow> node \<Rightarrow> pystr \<Rightarrow> bool \<Rightarrow> pystr fm" where
  "like_side_sql env sql_op ref_sql other other_sql ref_is_left =
     (if ref_is_left then like_comparison_sql env ref_sql other other_sql sql_op
      else like_comparison_sql env other_sql (NSqlRef ref_sql None) ref_sql sql_op)"

definition operator_sql ::
  "filter_env \<Rightarrow> pystr \<Rightarrow> node \<Rightarrow> pystr \<Rightarrow> node \<Rightarrow> pystr \<Rightarrow> bool \<Rightarrow> pystr fm" where
  "operator_sql env op ref_node ref_sql other other_sql ref_is_left =
     (case map_of STANDARD_OPS op of
        Some sql_op \<Rightarrow> liftS (standard_sql env sql_op ref_node ref_sql other other_sql ref_is_left)
      | None \<Rightarrow>
      case map_of LIKE_OPS op of
        Some sql_op \<Rightarrow> like_side_sql env sql_op ref_sql other other_sql ref_is_left
      | None \<Rightarrow>
      case map_of ANY_STANDARD_OPS op of
        Some sql_op \<Rightarrow>
          retS (if ref_is_left then scalar_or_array_any_sql ref_sql other_sql sql_op
                else scalar_or_array_any_sql other_sql ref_sql sql_op)
      | None \<Rightarrow>
      case map_of ANY_LIKE_OPS op of
        Some sql_op \<Rightarrow>
          (if ref_is_left then
             bindS (like_pattern_sql env other other_sql) (\<lambda>p. retS (scalar_or_array_like_sql ref_sql p sql_op))
           else
             bindS (like_pattern_sql env (NSqlRef ref_sql None) ref_sql) (\<lambda>p.
               retS (scalar_or_array_like_sql other_sql p sql_op)))
      | None \<Rightarrow> retS (infix_sql ref_sql (lit ''='') other_sql ref_is_left))"

section \<open>Collection references and relation traversals\<close>

definition resolve_collection_ref :: "filter_env \<Rightarrow> pystr \<Rightarrow> pystr list \<Rightarrow> pystr \<Rightarrow> pyexn + collection_ref" where
  "resolve_collection_ref env name path group_key =
     bindE (sanitize_ident name) (\<lambda>coll_name.
     bindE (mapE sanitize_ident path) (\<lambda>field_path.
       if length field_path = 1 then
         bindE (field_type_for_collection_resolver env coll_name (hd field_path)) (\<lambda>t.
         bindE (qualified_column coll_name (hd field_path)) (\<lambda>col.
           Inr \<lparr>cr_table_name = coll_name, cr_group_key = group_key, cr_column_sql = Some col,
                cr_relation_steps = [], cr_leaf_sql = None, cr_leaf_is_json = False, cr_leaf_type = t\<rparr>))
       else
         let colls = fe_collections env;
             flat = is_flat_resolver colls;
             coll_info = (case as_record colls of None \<Rightarrow> None | Some cs \<Rightarrow> sub_dict cs coll_name);
             relations = (if flat then colls
                          else case coll_info of
                                 Some ci \<Rightarrow> dict_get_or ci (lit ''relations'') (PDict []) | None \<Rightarrow> PDict []);
             flds = (if flat then PDict (flat_fields colls coll_name)
                     else case coll_info of
                            Some ci \<Rightarrow> (case dict_get_or ci (lit ''fields'') (PDict []) of
                                           PDict d \<Rightarrow> PDict d | _ \<Rightarrow> PDict [])
                          | None \<Rightarrow> PDict [])
         in bindE (resolve_dotted_path env field_path coll_name relations flds False True) (\<lambda>r.
              case r of
                None \<Rightarrow> Inl ValueError
              | Some rp \<Rightarrow>
                  if rp_steps rp = [] then
                    Inr \<lparr>cr_table_name = coll_name, cr_group_key = group_key, cr_column_sql = Some (rp_sql rp),
                         cr_relation_steps = [], cr_leaf_sql = None, cr_leaf_is_json = False,
                         cr_leaf_type = rp_field_type rp\<rparr>
                  else
                    Inr \<lparr>cr_table_name = coll_name, cr_group_key = group_key, cr_column_sql = None,
                         cr_relation_steps = rp_steps rp, cr_leaf_sql = Some (rp_sql rp),
                         cr_leaf_is_json = rp_is_json rp, cr_leaf_type = rp_field_type rp\<rparr>)))"

text \<open>\<open>ref.column_sql if ref.column_sql is not None else self._collection_relation_leaf_sql(ref)\<close>.\<close>

definition collection_relation_leaf_sql :: "collection_ref \<Rightarrow> pyexn + pystr" where
  "collection_relation_leaf_sql ref =
     (case cr_leaf_sql ref of
        Some s \<Rightarrow> if cr_relation_steps ref \<noteq> [] \<and> s \<noteq> [] then Inr s
                  else (case cr_column_sql ref of Some c \<Rightarrow> if c \<noteq> [] then Inr c else Inl ValueError | None \<Rightarrow> Inl ValueError)
      | None \<Rightarrow> (case cr_column_sql ref of Some c \<Rightarrow> if c \<noteq> [] then Inr c else Inl ValueError | None \<Rightarrow> Inl ValueError))"

definition collection_ref_sql :: "collection_ref \<Rightarrow> pyexn + pystr" where
  "collection_ref_sql ref =
     (case cr_column_sql ref of Some c \<Rightarrow> Inr c | None \<Rightarrow> collection_relation_leaf_sql ref)"

definition join_condition_for_step :: "filter_env \<Rightarrow> traversal_step \<Rightarrow> pystr option \<Rightarrow> pyexn + pystr" where
  "join_condition_for_step env step parent =
     (if ts_kind step = lit ''back'' then
        bindE (qualified_column (ts_target_table step) (case ts_back_field step of Some b \<Rightarrow> b | None \<Rightarrow> [])) (\<lambda>target_expr.
        bindE (column_expr_for_table env parent (lit ''id'')) (\<lambda>parent_id.
          Inr (if ts_max_select step > 1 then scalar_or_array_any_sql target_expr parent_id (lit ''='')
               else target_expr @ lit '' = '' @ parent_id)))
      else
        bindE (column_expr_for_table env parent
                 (if ts_source_field step \<noteq> [] then ts_source_field step else ts_relation_key step)) (\<lambda>source_expr.
        bindE (qualified_column (ts_target_table step) (lit ''id'')) (\<lambda>target_id.
          Inr (if ts_max_select step > 1 then scalar_or_array_any_sql source_expr target_id (lit ''='')
               else target_id @ lit '' = '' @ source_expr))))"

definition exists_sql :: "pystr \<Rightarrow> pystr \<Rightarrow> pystr" where
  "exists_sql tbl condition = lit ''EXISTS (SELECT 1 FROM '' @ dq tbl @ lit '' WHERE '' @ condition @ lit '')''"

text \<open>
  The loops that wrap a leaf condition, from the last hop to the first, in one \<open>EXISTS\<close> per hop; the parent of the
  first hop is given.
\<close>

fun wrap_exists :: "filter_env \<Rightarrow> pystr option \<Rightarrow> traversal_step list \<Rightarrow> pystr \<Rightarrow> pyexn + pystr" where
  "wrap_exists env parent [] leaf = Inr leaf"
| "wrap_exists env parent (step # steps) leaf =
     bindE (wrap_exists env (Some (ts_target_table step)) steps leaf) (\<lambda>wrapped.
     bindE (join_condition_for_step env step parent) (\<lambda>join_cond.
       Inr (exists_sql (ts_target_table step) (join_cond @ lit '' AND '' @ wrapped))))"

definition wrap_collection_relation_exists :: "filter_env \<Rightarrow> collection_ref \<Rightarrow> pystr \<Rightarrow> pyexn + pystr" where
  "wrap_collection_relation_exists env ref leaf =
     wrap_exists env (Some (cr_table_name ref)) (cr_relation_steps ref) leaf"

definition collection_ref_condition ::
  "filter_env \<Rightarrow> collection_ref \<Rightarrow> pystr \<Rightarrow> node \<Rightarrow> bool \<Rightarrow> pystr fm" where
  "collection_ref_condition env ref op other ref_is_left =
     bindS (liftS (collection_ref_sql ref)) (\<lambda>ref_sql.
     bindS (liftS (if cr_leaf_type ref \<in> set DATETIME_FIELD_TYPES
                   then literal_for_field_type (fe_rt env) other (cr_leaf_type ref) else Inr other)) (\<lambda>other.
     bindS (operand_to_sql env other) (\<lambda>other_sql.
     bindS (operator_sql env op (NSqlRef ref_sql (Some (cr_leaf_is_json ref, cr_leaf_type ref))) ref_sql
              other other_sql ref_is_left) (\<lambda>condition.
       if cr_column_sql ref \<noteq> None then retS condition
       else liftS (wrap_collection_relation_exists env ref condition)))))"

definition op_or_eq :: "pystr \<Rightarrow> pystr" where
  "op_or_eq op = (case map_of STANDARD_OPS op of Some s \<Rightarrow> s | None \<Rightarrow> lit ''='')"

definition collection_pair_condition :: "filter_env \<Rightarrow> collection_ref \<Rightarrow> pystr \<Rightarrow> collection_ref \<Rightarrow> pyexn + cond" where
  "collection_pair_condition env l op r =
     bindE (collection_ref_sql l) (\<lambda>l_col.
     bindE (collection_ref_sql r) (\<lambda>r_col.
     bindE (if cr_column_sql l = None
            then wrap_collection_relation_exists env l (l_col @ [32] @ op_or_eq op @ [32] @ r_col)
            else Inr (l_col @ [32] @ op_or_eq op @ [32] @ r_col)) (\<lambda>inner1.
     bindE (if cr_column_sql r = None then wrap_collection_relation_exists env r inner1 else Inr inner1) (\<lambda>inner.
       if cr_group_key l = cr_group_key r then Inr (CollectionCondition (cr_table_name l) (cr_group_key l) inner)
       else Inr (CStr (lit ''EXISTS (SELECT 1 FROM '' @ dq (cr_table_name l) @ lit '', '' @ dq (cr_table_name r)
                         @ lit '' WHERE '' @ inner @ lit '')''))))))"

definition collection_comparison :: "filter_env \<Rightarrow> node \<Rightarrow> pystr \<Rightarrow> node \<Rightarrow> cond fm" where
  "collection_comparison env l op r =
     (case (l, r) of
        (NCollectionRef n1 p1 g1, NCollectionRef n2 p2 g2) \<Rightarrow>
          liftS (bindE (resolve_collection_ref env n1 p1 g1) (\<lambda>l_ref.
                 bindE (resolve_collection_ref env n2 p2 g2) (\<lambda>r_ref. collection_pair_condition env l_ref op r_ref)))
      | (NCollectionRef n1 p1 g1, _) \<Rightarrow>
          bindS (liftS (resolve_collection_ref env n1 p1 g1)) (\<lambda>ref.
          bindS (collection_ref_condition env ref op r True) (\<lambda>c.
            retS (CollectionCondition (cr_table_name ref) (cr_group_key ref) c)))
      | (_, NCollectionRef n2 p2 g2) \<Rightarrow>
          bindS (liftS (resolve_collection_ref env n2 p2 g2)) (\<lambda>ref.
          bindS (collection_ref_condition env ref op l False) (\<lambda>c.
            retS (CollectionCondition (cr_table_name ref) (cr_group_key ref) c)))
      | _ \<Rightarrow> liftS (Inl ValueError))"

definition relation_condition_for_steps :: "filter_env \<Rightarrow> traversal_step list \<Rightarrow> pystr \<Rightarrow> pyexn + cond" where
  "relation_condition_for_steps env steps leaf =
     (case steps of
        [] \<Rightarrow> Inl IndexError
      | first # rest \<Rightarrow>
          bindE (join_condition_for_step env first None) (\<lambda>first_join.
          bindE (wrap_exists env (Some (ts_target_table first)) rest leaf) (\<lambda>where_cond.
            Inr (RelationCondition (ts_relation_key first) (ts_target_table first) first_join where_cond))))"

definition relation_pair_sql ::
  "filter_env \<Rightarrow> traversal_step list \<Rightarrow> pystr \<Rightarrow> pystr \<Rightarrow> traversal_step list \<Rightarrow> pystr \<Rightarrow> pyexn + pystr" where
  "relation_pair_sql env l_steps l_col op r_steps r_col =
     (if length l_steps > 1 \<or> length r_steps > 1 then Inl ValueError
      else case (l_steps, r_steps) of
             (l_step # _, r_step # _) \<Rightarrow>
               bindE (join_condition_for_step env l_step None) (\<lambda>l_join.
               bindE (join_condition_for_step env r_step None) (\<lambda>r_join.
                 Inr (lit ''EXISTS (SELECT 1 FROM '' @ dq (ts_target_table l_step) @ lit '', ''
                      @ dq (ts_target_table r_step) @ lit '' WHERE '' @ l_join @ lit '' AND '' @ r_join @ lit '' AND ''
                      @ l_col @ [32] @ op_or_eq op @ [32] @ r_col @ lit '')'')))
           | _ \<Rightarrow> Inl IndexError)"

definition relation_side ::
  "filter_env \<Rightarrow> pystr \<Rightarrow> node \<Rightarrow> traversal_step list \<Rightarrow> pystr \<Rightarrow> node \<Rightarrow> bool \<Rightarrow> cond fm" where
  "relation_side env op rel_node rel_steps rel_col other rel_is_left =
     bindS (operand_to_sql env other) (\<lambda>other_sql.
     bindS (operator_sql env op rel_node rel_col other other_sql rel_is_left) (\<lambda>where_cond.
       liftS (relation_condition_for_steps env rel_steps where_cond)))"

definition relation_comparison :: "filter_env \<Rightarrow> node \<Rightarrow> pystr \<Rightarrow> node \<Rightarrow> cond fm" where
  "relation_comparison env l op r =
     (case (l, r) of
        (NRelationRef s1 c1 _ _, NRelationRef s2 c2 _ _) \<Rightarrow>
          liftS (bindE (relation_pair_sql env s1 c1 op s2 c2) (\<lambda>s. Inr (CStr s)))
      | (NRelationRef s1 c1 _ _, _) \<Rightarrow> relation_side env op l s1 c1 r True
      | (_, NRelationRef s2 c2 _ _) \<Rightarrow> relation_side env op r s2 c2 l False
      | _ \<Rightarrow> liftS (Inl ValueError))"

section \<open>The \<open>:each\<close> modifier\<close>

definition extract_each_operand :: "filter_env \<Rightarrow> node \<Rightarrow> pystr option fm" where
  "extract_each_operand env n =
     (case n of
        NFieldModifier f m \<Rightarrow>
          if m = lit ''each'' then
            bindS (liftS (field_expr env f)) (\<lambda>fsql.
              retS (Some (lit ''COALESCE('' @ fsql @ lit ''::text[], ARRAY[]::text[])'')))
          else retS None
      | NMacro name \<Rightarrow>
          (case strip_body_prefix (strip_at name) of
             None \<Rightarrow> retS None
           | Some field_and_modifier \<Rightarrow>
               (case split_modifier field_and_modifier of
                  (f, m) \<Rightarrow>
                    if m \<noteq> Some (lit ''each'') then retS None
                    else case extract_request_data_field_value env f of
                           (has_field, v) \<Rightarrow>
                             bindS (bind_param (each_values (fe_rt env) has_field v)) (\<lambda>b.
                               retS (Some (lit ''COALESCE(CAST('' @ b @ lit '' AS text[]), ARRAY[]::text[])'')))))
      | _ \<Rightarrow> retS None)"

definition build_each_item_condition ::
  "filter_env \<Rightarrow> pystr \<Rightarrow> pystr \<Rightarrow> node \<Rightarrow> bool \<Rightarrow> pystr fm" where
  "build_each_item_condition env item_sql op other each_is_left =
     bindS (operand_to_sql env other) (\<lambda>other_sql.
       case map_of STANDARD_OPS op of
         Some sql_op \<Rightarrow>
           liftS (standard_sql env sql_op (NSqlRef item_sql None) item_sql other other_sql each_is_left)
       | None \<Rightarrow>
       case map_of LIKE_OPS op of
         Some sql_op \<Rightarrow> like_side_sql env sql_op item_sql other other_sql each_is_left
       | None \<Rightarrow> retS (infix_sql item_sql (lit ''='') other_sql each_is_left))"

definition each_comparison ::
  "filter_env \<Rightarrow> node \<Rightarrow> pystr \<Rightarrow> node \<Rightarrow> pystr option \<Rightarrow> pystr option \<Rightarrow> pystr fm" where
  "each_comparison env l op r left_each right_each =
     (if left_each \<noteq> None \<and> right_each \<noteq> None then liftS (Inl ValueError)
      else
        let array_sql = (case left_each of
                           Some a \<Rightarrow> a
                         | None \<Rightarrow> (case right_each of Some a \<Rightarrow> a | None \<Rightarrow> lit ''ARRAY[]::text[]''))
        in bindS (if left_each \<noteq> None then build_each_item_condition env (lit ''_elem'') op r True
                  else build_each_item_condition env (lit ''_elem'') op l False) (\<lambda>condition.
             retS (lit ''NOT EXISTS (SELECT 1 FROM unnest('' @ array_sql @ lit '') AS _elem WHERE NOT COALESCE((''
                   @ condition @ lit ''), FALSE))'')))"

section \<open>Comparisons and logical operators\<close>

definition regular_sql :: "filter_env \<Rightarrow> pystr \<Rightarrow> node \<Rightarrow> pystr \<Rightarrow> node \<Rightarrow> pystr \<Rightarrow> pystr fm" where
  "regular_sql env op l l_sql r r_sql =
     (case map_of STANDARD_OPS op of
        Some sql_op \<Rightarrow>
          liftS (bindE (empty_equality_sql env sql_op l l_sql r r_sql) (\<lambda>e.
            case e of
              Some s \<Rightarrow> Inr s
            | None \<Rightarrow>
                if r = NNull \<and> sql_op = lit ''='' then Inr (l_sql @ lit '' IS NULL'')
                else if r = NNull \<and> sql_op = lit ''!='' then Inr (l_sql @ lit '' IS NOT NULL'')
                else if l = NNull \<and> sql_op = lit ''='' then Inr (r_sql @ lit '' IS NULL'')
                else if l = NNull \<and> sql_op = lit ''!='' then Inr (r_sql @ lit '' IS NOT NULL'')
                else Inr (l_sql @ [32] @ sql_op @ [32] @ r_sql)))
      | None \<Rightarrow>
      case map_of LIKE_OPS op of
        Some sql_op \<Rightarrow> like_comparison_sql env l_sql r r_sql sql_op
      | None \<Rightarrow>
      case map_of ANY_STANDARD_OPS op of
        Some sql_op \<Rightarrow> retS (scalar_or_array_any_sql l_sql r_sql sql_op)
      | None \<Rightarrow>
      case map_of ANY_LIKE_OPS op of
        Some sql_op \<Rightarrow>
          bindS (like_pattern_sql env r r_sql) (\<lambda>p. retS (scalar_or_array_like_sql l_sql p sql_op))
      | None \<Rightarrow> retS (l_sql @ lit '' = '' @ r_sql))"

definition is_relation_ref :: "node \<Rightarrow> bool" where
  "is_relation_ref n = (case n of NRelationRef _ _ _ _ \<Rightarrow> True | _ \<Rightarrow> False)"

definition is_collection_ref :: "node \<Rightarrow> bool" where
  "is_collection_ref n = (case n of NCollectionRef _ _ _ \<Rightarrow> True | _ \<Rightarrow> False)"

definition comparison :: "filter_env \<Rightarrow> node \<Rightarrow> pystr \<Rightarrow> node \<Rightarrow> cond fm" where
  "comparison env l0 op_token r0 =
     (let op = py_strip op_token
      in bindS (liftS (if op \<in> fst ` set STANDARD_OPS then coerce_comparison_literals env l0 r0
                       else Inr (l0, r0))) (\<lambda>(l, r).
         if is_relation_ref l \<or> is_relation_ref r then relation_comparison env l op r
         else if is_collection_ref l \<or> is_collection_ref r then collection_comparison env l op r
         else
           bindS (extract_each_operand env l) (\<lambda>left_each.
           bindS (extract_each_operand env r) (\<lambda>right_each.
             if left_each \<noteq> None \<or> right_each \<noteq> None then
               bindS (each_comparison env l op r left_each right_each) (\<lambda>s. retS (CStr s))
             else
               bindS (operand_to_sql env l) (\<lambda>l_sql.
               bindS (operand_to_sql env r) (\<lambda>r_sql.
               bindS (regular_sql env op l l_sql r r_sql) (\<lambda>s. retS (CStr s))))))))"

fun or_part :: "cond \<Rightarrow> pystr" where
  "or_part (CStr s) = s"
| "or_part (CollectionCondition t g inner) = exists_sql t inner"
| "or_part (RelationCondition k t join_cond where_cond) =
     exists_sql t (join_with (lit '' AND '') [join_cond, where_cond])"

definition or_expr :: "cond list \<Rightarrow> pystr" where
  "or_expr items =
     (case map or_part items of
        [s] \<Rightarrow> s
      | parts \<Rightarrow> lit ''('' @ join_with (lit '' OR '') parts @ lit '')'')"

text \<open>
  The groups of \<open>and_expr\<close> are dicts in insertion order: \<open>setdefault(key, []).append(x)\<close>.
\<close>

fun group_append :: "pystr \<Rightarrow> 'a \<Rightarrow> (pystr \<times> 'a list) list \<Rightarrow> (pystr \<times> 'a list) list" where
  "group_append k x [] = [(k, [x])]"
| "group_append k x ((k', xs) # gs) =
     (if k' = k then (k', xs @ [x]) # gs else (k', xs) # group_append k x gs)"

fun and_groups ::
  "cond list \<Rightarrow> (pystr \<times> cond list) list \<Rightarrow> (pystr \<times> cond list) list \<Rightarrow> pystr list
    \<Rightarrow> (pystr \<times> cond list) list \<times> (pystr \<times> cond list) list \<times> pystr list" where
  "and_groups [] colls rels regular = (colls, rels, regular)"
| "and_groups (item # items) colls rels regular =
     (case item of
        CollectionCondition t g inner \<Rightarrow> and_groups items (group_append g item colls) rels regular
      | RelationCondition k t j w \<Rightarrow> and_groups items colls (group_append k item rels) regular
      | CStr s \<Rightarrow> and_groups items colls rels (regular @ [s]))"

definition collection_group_sql :: "cond list \<Rightarrow> pystr" where
  "collection_group_sql conds = exists_sql (cc_table (hd conds)) (join_with (lit '' AND '') (map cc_inner conds))"

definition relation_group_sql :: "cond list \<Rightarrow> pystr" where
  "relation_group_sql conds =
     exists_sql (rc_table (hd conds)) (join_with (lit '' AND '') (rc_join (hd conds) # map rc_where conds))"

definition and_parts :: "cond list \<Rightarrow> pystr list" where
  "and_parts items =
     (case and_groups items [] [] [] of
        (colls, rels, regular) \<Rightarrow>
          regular @ map (\<lambda>(k, cs). collection_group_sql cs) colls @ map (\<lambda>(k, cs). relation_group_sql cs) rels)"

definition and_expr :: "cond list \<Rightarrow> pystr" where
  "and_expr items =
     (case and_parts items of
        [s] \<Rightarrow> s
      | parts \<Rightarrow> lit ''('' @ join_with (lit '' AND '') parts @ lit '')'')"

fun transform_tree :: "filter_env \<Rightarrow> ftree \<Rightarrow> cond fm" where
  "transform_tree env (Comparison l op r) =
     bindS (liftS (operand_node env l)) (\<lambda>ln.
     bindS (liftS (operand_node env r)) (\<lambda>rn. comparison env ln op rn))"
| "transform_tree env (AndExpr ts) =
     bindS (map_callbacks (transform_tree env) ts) (\<lambda>cs. retS (CStr (and_expr cs)))"
| "transform_tree env (OrExpr ts) =
     bindS (map_callbacks (transform_tree env) ts) (\<lambda>cs. retS (CStr (or_expr cs)))"

section \<open>Entry points\<close>

definition init_fstate :: fstate where
  "init_fstate = \<lparr>fs_counter = 0, fs_params = []\<rparr>"

definition parse_filter ::
  "(pystr \<Rightarrow> ftree option) \<Rightarrow> filter_env \<Rightarrow> pystr \<Rightarrow> pyexn + pystr \<times> (pystr \<times> pyval) list" where
  "parse_filter parse env filter_str =
     (if filter_str = [] \<or> py_strip filter_str = [] then Inr (lit ''1=1'', [])
      else case parse filter_str of
             None \<Rightarrow> Inl ValueError
           | Some tree \<Rightarrow>
               bindE (case fe_table env of
                        Some t \<Rightarrow> if t \<noteq> [] then bindE (sanitize_ident t) (\<lambda>_. Inr ()) else Inr ()
                      | None \<Rightarrow> Inr ()) (\<lambda>_.
               bindE (transform_tree env tree init_fstate) (\<lambda>(c, st).
                 Inr ((case c of CStr s \<Rightarrow> s | _ \<Rightarrow> fe_repr_cond env c), fs_params st))))"

definition sort_field_char :: "nat \<Rightarrow> bool" where
  "sort_field_char c \<longleftrightarrow> safe_ident_char c \<or> c = 46"

definition parse_sort_part :: "pystr \<Rightarrow> pyexn + pystr \<times> pystr" where
  "parse_sort_part part =
     (if part = lit ''@random'' then Inr (lit ''RANDOM()'', lit ''ASC'')
      else if part = lit ''@rowid'' then Inr (lit ''ctid'', lit ''ASC'')
      else
        let direction = (if prefix [45] part then lit ''DESC'' else lit ''ASC'');
            fld = (if prefix [45] part \<or> prefix [43] part then tl part else part)
        in if \<not> list_all sort_field_char fld then Inl ValueError
           else if 46 \<in> set fld then Inr (fld, direction)
           else Inr (dq fld, direction))"

definition parse_sort :: "pystr \<Rightarrow> pyexn + (pystr \<times> pystr) list" where
  "parse_sort sort_str =
     (if sort_str = [] \<or> py_strip sort_str = [] then Inr []
      else mapE parse_sort_part (filter (\<lambda>p. p \<noteq> []) (map py_strip (split_on 44 sort_str))))"

end
