(* ===== verification/Filter_Safety.thy ===== *)
theory Filter_Safety
  imports Filter_Sql
begin

text \<open>
  Properties of the filter compiler.  Three judgements on callbacks, each with rules for the combinators, carry
  the proofs: \<open>yields P m\<close> (every result of \<open>m\<close> satisfies \<open>P\<close>), \<open>agree Q m m'\<close> (the results of two runs that
  start with the same parameter counter are related by \<open>Q\<close> and leave the same counter) and \<open>allocates m\<close> (the
  parameters bound by \<open>m\<close> are the next ones, in order).
\<close>

section \<open>Judgements on callbacks\<close>

definition param_names :: "nat \<Rightarrow> nat \<Rightarrow> pystr list" where
  "param_names c k = map param_name [Suc c..<Suc (c + k)]"

definition allocates :: "'a fm \<Rightarrow> bool" where
  "allocates m \<longleftrightarrow>
     (\<forall>st x st'. m st = Inr (x, st') \<longrightarrow>
        (\<exists>vs. fs_counter st' = fs_counter st + length vs \<and>
              fs_params st' = fs_params st @ zip (param_names (fs_counter st) (length vs)) vs))"

definition yields :: "('a \<Rightarrow> bool) \<Rightarrow> 'a fm \<Rightarrow> bool" where
  "yields P m \<longleftrightarrow> (\<forall>st x st'. m st = Inr (x, st') \<longrightarrow> P x)"

definition agree :: "('a \<Rightarrow> 'b \<Rightarrow> bool) \<Rightarrow> 'a fm \<Rightarrow> 'b fm \<Rightarrow> bool" where
  "agree Q m m' \<longleftrightarrow>
     (\<forall>st st' x y s s'. fs_counter st = fs_counter st' \<and> m st = Inr (x, s) \<and> m' st' = Inr (y, s') \<longrightarrow>
        Q x y \<and> fs_counter s = fs_counter s')"

lemma bindS_Inr: "bindS m f st = Inr r \<longleftrightarrow> (\<exists>x st'. m st = Inr (x, st') \<and> f x st' = Inr r)"
  by (auto simp: bindS_def bindE_Inr_iff)

lemma liftS_Inr: "liftS r st = Inr (x, st') \<longleftrightarrow> r = Inr x \<and> st' = st"
  by (auto simp: liftS_def bindE_Inr_iff)

lemma retS_Inr: "retS x st = Inr (y, st') \<longleftrightarrow> y = x \<and> st' = st"
  by (auto simp: retS_def)

lemmas callback_simps = bindS_Inr liftS_Inr retS_Inr

named_theorems alloc_intros \<open>rules for allocates\<close>
named_theorems yield_intros \<open>rules for yields\<close>

lemma param_names_add: "param_names c (j + k) = param_names c j @ param_names (c + j) k"
  using upt_add_eq_append[of "Suc c" "Suc (c + j)" k] by (simp add: param_names_def add.assoc del: upt_Suc)

lemma length_param_names [simp]: "length (param_names c k) = k"
  by (simp add: param_names_def del: upt_Suc)

lemma param_names_1 [simp]: "param_names c (Suc 0) = [param_name (Suc c)]"
  by (simp add: param_names_def)

lemma allocates_ret [alloc_intros]: "allocates (retS x)" "allocates (liftS r)"
  by (auto simp: allocates_def callback_simps intro: exI[of _ "[]"])

lemma allocates_param [alloc_intros]: "allocates (bind_param v)"
  by (auto simp: allocates_def bind_param_def next_param_def Let_def intro!: exI[of _ "[v]"])

lemma allocates_bind [alloc_intros]:
  assumes "allocates m" "\<And>x. allocates (f x)"
  shows "allocates (bindS m f)"
  unfolding allocates_def
proof (intro allI impI)
  fix st y st'
  assume "bindS m f st = Inr (y, st')"
  then obtain x s where m: "m st = Inr (x, s)" and f: "f x s = Inr (y, st')"
    by (auto simp: bindS_Inr)
  from assms(1) m obtain vs where vs: "fs_counter s = fs_counter st + length vs"
    "fs_params s = fs_params st @ zip (param_names (fs_counter st) (length vs)) vs"
    unfolding allocates_def by blast
  from assms(2) f obtain ws where ws: "fs_counter st' = fs_counter s + length ws"
    "fs_params st' = fs_params s @ zip (param_names (fs_counter s) (length ws)) ws"
    unfolding allocates_def by blast
  show "\<exists>us. fs_counter st' = fs_counter st + length us \<and>
      fs_params st' = fs_params st @ zip (param_names (fs_counter st) (length us)) us"
    by (rule exI[of _ "vs @ ws"]) (simp add: vs ws param_names_add)
qed

lemma allocates_map [alloc_intros]:
  "(\<And>x. x \<in> set xs \<Longrightarrow> allocates (f x)) \<Longrightarrow> allocates (map_callbacks f xs)"
  by (induction xs) (auto intro!: alloc_intros)

lemma yields_ret [yield_intros]: "P x \<Longrightarrow> yields P (retS x)"
  by (auto simp: yields_def callback_simps)

lemma yields_lift [yield_intros]: "(\<And>x. r = Inr x \<Longrightarrow> P x) \<Longrightarrow> yields P (liftS r)"
  by (auto simp: yields_def callback_simps)

lemma yields_bind [yield_intros]:
  "yields Q m \<Longrightarrow> (\<And>x. Q x \<Longrightarrow> yields P (f x)) \<Longrightarrow> yields P (bindS m f)"
  by (force simp: yields_def callback_simps)

lemma yields_map:
  "(\<And>x. x \<in> set xs \<Longrightarrow> yields P (f x)) \<Longrightarrow> yields (list_all P) (map_callbacks f xs)"
  by (induction xs) (auto intro!: yields_ret yields_bind)

lemma agree_ret: "Q x y \<Longrightarrow> agree Q (retS x) (retS y)"
  by (auto simp: agree_def callback_simps)

lemma agree_lift: "(\<And>x y. r = Inr x \<Longrightarrow> r' = Inr y \<Longrightarrow> Q x y) \<Longrightarrow> agree Q (liftS r) (liftS r')"
  by (auto simp: agree_def callback_simps)

lemma agree_refl_lift: "agree (=) (liftS r) (liftS r)"
  by (rule agree_lift) simp

lemma agree_bind:
  assumes "agree Q m m'" "\<And>x y. Q x y \<Longrightarrow> agree R (f x) (g y)"
  shows "agree R (bindS m f) (bindS m' g)"
  unfolding agree_def
proof (intro allI impI, elim conjE)
  fix st st' x y s s'
  assume a: "fs_counter st = fs_counter st'" "bindS m f st = Inr (x, s)" "bindS m' g st' = Inr (y, s')"
  then obtain u t v t' where u: "m st = Inr (u, t)" "f u t = Inr (x, s)" and v: "m' st' = Inr (v, t')" "g v t' = Inr (y, s')"
    by (auto simp: bindS_Inr)
  with assms(1) a(1) have "Q u v" "fs_counter t = fs_counter t'" unfolding agree_def by blast+
  with assms(2)[OF \<open>Q u v\<close>] u(2) v(2) show "R x y \<and> fs_counter s = fs_counter s'" unfolding agree_def by blast
qed

lemma agree_param: "agree (=) (bind_param v) (bind_param w)"
  by (auto simp: agree_def bind_param_def next_param_def Let_def)

lemma agree_bind_eq: "agree (=) m m' \<Longrightarrow> (\<And>x. agree R (f x) (g x)) \<Longrightarrow> agree R (bindS m f) (bindS m' g)"
  by (rule agree_bind[where Q = "(=)"]) auto

lemma agree_map:
  "list_all2 S xs ys \<Longrightarrow> (\<And>x y. x \<in> set xs \<Longrightarrow> y \<in> set ys \<Longrightarrow> S x y \<Longrightarrow> agree Q (f x) (g y)) \<Longrightarrow>
     agree (list_all2 Q) (map_callbacks f xs) (map_callbacks g ys)"
proof (induction xs ys rule: list_all2_induct)
  case (Cons x xs y ys)
  have "agree Q (f x) (g y)" "agree (list_all2 Q) (map_callbacks f xs) (map_callbacks g ys)"
    using Cons by auto
  then show ?case by (auto intro!: agree_bind agree_ret)
qed (auto intro: agree_ret)

section \<open>Bound parameters are numbered consecutively\<close>

lemma allocates_like_pattern [alloc_intros]: "allocates (like_pattern_sql env n s)"
  by (auto simp: like_pattern_sql_def intro!: alloc_intros split: node.split)

lemma allocates_like_comparison [alloc_intros]: "allocates (like_comparison_sql env m n p s)"
  by (auto simp: like_comparison_sql_def intro!: alloc_intros)

lemma allocates_like_side [alloc_intros]: "allocates (like_side_sql env op s n t b)"
  by (auto simp: like_side_sql_def intro!: alloc_intros)

lemma allocates_body_macro [alloc_intros]: "allocates (body_macro env f)"
  by (auto simp: body_macro_def Let_def intro!: alloc_intros split: prod.split option.split)

lemma allocates_resolve_macro [alloc_intros]: "allocates (resolve_macro env n)"
  by (auto simp: resolve_macro_def Let_def intro!: alloc_intros split: option.split)

lemma allocates_field_modifier [alloc_intros]: "allocates (resolve_field_modifier env f m)"
  by (auto simp: resolve_field_modifier_def intro!: alloc_intros split: prod.split)

lemma allocates_operand [alloc_intros]: "allocates (operand_to_sql env n)"
proof (cases n)
  case (NLiteral v)
  then show ?thesis by (cases v) (auto intro!: alloc_intros)
qed (auto intro!: alloc_intros)

declare operand_to_sql.simps [simp del]

lemma allocates_operator [alloc_intros]: "allocates (operator_sql env op n s o' t b)"
  by (auto simp: operator_sql_def intro!: alloc_intros split: option.split)

lemma allocates_collection_ref [alloc_intros]: "allocates (collection_ref_condition env r op n b)"
  by (auto simp: collection_ref_condition_def intro!: alloc_intros)

lemma allocates_collection [alloc_intros]: "allocates (collection_comparison env l op r)"
  by (auto simp: collection_comparison_def intro!: alloc_intros split: node.split)

lemma allocates_relation [alloc_intros]: "allocates (relation_comparison env l op r)"
  by (auto simp: relation_comparison_def relation_side_def intro!: alloc_intros split: node.split)

lemma allocates_extract_each [alloc_intros]: "allocates (extract_each_operand env n)"
  by (auto simp: extract_each_operand_def intro!: alloc_intros split: node.split option.split prod.split)

lemma allocates_each_item [alloc_intros]: "allocates (build_each_item_condition env s op n b)"
  by (auto simp: build_each_item_condition_def intro!: alloc_intros split: option.split)

lemma allocates_each [alloc_intros]: "allocates (each_comparison env l op r a b)"
  by (auto simp: each_comparison_def Let_def intro!: alloc_intros)

lemma allocates_regular [alloc_intros]: "allocates (regular_sql env op l s r t)"
  by (auto simp: regular_sql_def intro!: alloc_intros split: option.split)

lemma allocates_comparison [alloc_intros]: "allocates (comparison env l op r)"
  by (auto simp: comparison_def Let_def intro!: alloc_intros split: prod.split)

lemma allocates_transform: "allocates (transform_tree env t)"
  by (induction t) (auto intro!: alloc_intros)

lemma nat_str_inject: "nat_str m = nat_str n \<longleftrightarrow> m = n"
  by (metis digits_val_nat_str)

lemma param_name_inject [simp]: "param_name m = param_name n \<longleftrightarrow> m = n"
  by (simp add: param_name_def nat_str_inject)

text \<open>
  The parameters that \<open>parse_filter\<close> returns are named \<open>_fp1\<close> to \<open>_fpN\<close> in the order of their creation, so
  no later value replaces an earlier one under the same name.
\<close>

theorem filter_params_numbered:
  assumes "parse_filter parse env s = Inr (sql, params)"
  shows "map fst params = map param_name [1..<Suc (length params)] \<and> distinct (map fst params)"
proof (cases "s = [] \<or> py_strip s = []")
  case True
  with assms show ?thesis by (auto simp: parse_filter_def)
next
  case False
  with assms obtain t c st where t: "transform_tree env t init_fstate = Inr (c, st)" "params = fs_params st"
    by (auto simp: parse_filter_def res_simps split: option.splits prod.splits if_splits)
  with allocates_transform[of env t] obtain vs
    where "fs_params st = zip (param_names 0 (length vs)) vs"
    by (fastforce simp: allocates_def init_fstate_def)
  with t(2) have "map fst params = map param_name [1..<Suc (length params)]"
    by (simp add: param_names_def del: upt_Suc)
  moreover have "distinct (map param_name [1..<Suc (length params)])"
    by (simp add: distinct_map inj_on_def del: upt_Suc)
  ultimately show ?thesis by simp
qed

section \<open>The SQL text does not depend on the values\<close>

text \<open>
  A literal is opaque when it is passed as a bound parameter: text and dates.  Numbers and booleans are written into the
  text.  Two operands are similar when they are equal or both opaque literals that are empty together, because an
  empty literal is compiled to an emptiness test.
\<close>

definition opaque :: "pyval \<Rightarrow> bool" where
  "opaque v = (case v of PBool _ \<Rightarrow> False | PInt _ \<Rightarrow> False | PFloat _ \<Rightarrow> False | _ \<Rightarrow> True)"

fun similar_node :: "node \<Rightarrow> node \<Rightarrow> bool" where
  "similar_node (NLiteral v) (NLiteral w) =
     (v = w \<or> (opaque v \<and> opaque w \<and> (v = PStr []) = (w = PStr [])))"
| "similar_node n n' = (n = n')"

fun similar_operand :: "operand \<Rightarrow> operand \<Rightarrow> bool" where
  "similar_operand (OString a) (OString b) = similar_node (string_node a) (string_node b)"
| "similar_operand p q = (p = q)"

fun similar_tree :: "ftree \<Rightarrow> ftree \<Rightarrow> bool" where
  "similar_tree (Comparison l op r) (Comparison l' op' r') =
     (similar_operand l l' \<and> op = op' \<and> similar_operand r r')"
| "similar_tree (AndExpr ts) (AndExpr ts') = list_all2 similar_tree ts ts'"
| "similar_tree (OrExpr ts) (OrExpr ts') = list_all2 similar_tree ts ts'"
| "similar_tree _ _ = False"

text \<open>The part of the request context that may decide between two texts: which body fields and resolved macros exist.\<close>

definition context_keys :: "filter_env \<Rightarrow> pystr list option \<times> pystr list option" where
  "context_keys env =
     (map_option (map fst) (context_data env),
      map_option (map fst) (as_record (dict_get (fe_context env) (lit ''resolved_macros''))))"

definition with_context :: "filter_env \<Rightarrow> (pystr \<times> pyval) list \<Rightarrow> filter_env" where
  "with_context env ctx = env\<lparr>fe_context := ctx\<rparr>"

lemma with_context_sel [simp]:
  "fe_rt (with_context env c) = fe_rt env" "fe_relations (with_context env c) = fe_relations env"
  "fe_collections (with_context env c) = fe_collections env" "fe_table (with_context env c) = fe_table env"
  "fe_repr_steps (with_context env c) = fe_repr_steps env" "fe_repr_cond (with_context env c) = fe_repr_cond env"
  "fe_context (with_context env c) = c"
  by (simp_all add: with_context_def)

lemma with_context_pure [simp]:
  "field_expr (with_context env c) = field_expr env"
  "field_type_for_table (with_context env c) = field_type_for_table env"
  "field_type_for_collection_resolver (with_context env c) = field_type_for_collection_resolver env"
  unfolding fun_eq_iff field_expr_def field_type_for_table_def field_type_for_collection_resolver_def with_context_sel
  by blast+

lemma with_context_column [simp]:
  "column_expr_for_table (with_context env c) = column_expr_for_table env"
  "operand_field_type (with_context env c) = operand_field_type env"
  unfolding fun_eq_iff column_expr_for_table_def operand_field_type_def with_context_pure with_context_sel by blast+

lemma with_context_loop [simp]:
  "resolve_path_loop (with_context env c) flat allow opt t rels flds steps parts =
     resolve_path_loop env flat allow opt t rels flds steps parts"
proof (induction env flat allow opt t rels flds steps parts rule: resolve_path_loop.induct)
  case (3 env flat allow opt t rels flds steps part nxt rest)
  show ?case unfolding resolve_path_loop.simps Let_def with_context_sel with_context_column
    by (intro if_cong option.case_cong bindE_cong refl) (erule 3[OF refl], (assumption | rule refl)+)
qed (simp_all cong: option.case_cong)

lemma with_context_path [simp]:
  "resolve_dotted_path (with_context env c) = resolve_dotted_path env"
  unfolding fun_eq_iff resolve_dotted_path_def with_context_loop by blast

lemma with_context_resolve [simp]:
  "resolve_collection_ref (with_context env c) = resolve_collection_ref env"
  "field_path_node (with_context env c) = field_path_node env"
  "join_condition_for_step (with_context env c) = join_condition_for_step env"
  "is_json_operand (with_context env c) = is_json_operand env"
  "coerce_comparison_literals (with_context env c) = coerce_comparison_literals env"
  unfolding fun_eq_iff resolve_collection_ref_def field_path_node_def join_condition_for_step_def
    is_json_operand_def coerce_comparison_literals_def with_context_path with_context_pure with_context_column with_context_sel
  by blast+

lemma with_context_wrap [simp]: "wrap_exists (with_context env c) p steps leaf = wrap_exists env p steps leaf"
  by (induction env p steps leaf rule: wrap_exists.induct) (auto intro!: bindE_cong)

lemma with_context_exists [simp]:
  "wrap_collection_relation_exists (with_context env c) = wrap_collection_relation_exists env"
  "relation_condition_for_steps (with_context env c) = relation_condition_for_steps env"
  "relation_pair_sql (with_context env c) = relation_pair_sql env"
  "empty_equality_sql (with_context env c) = empty_equality_sql env"
  unfolding fun_eq_iff wrap_collection_relation_exists_def relation_condition_for_steps_def
    relation_pair_sql_def empty_equality_sql_def with_context_wrap with_context_resolve by blast+

lemma with_context_more [simp]:
  "collection_pair_condition (with_context env c) = collection_pair_condition env"
  "standard_sql (with_context env c) = standard_sql env"
  unfolding fun_eq_iff collection_pair_condition_def standard_sql_def with_context_exists by blast+

lemma with_context_operand [simp]: "operand_node (with_context env c) p = operand_node env p"
  by (cases p) auto

lemma similar_refl [simp]: "similar_node n n"
  by (cases n) auto

lemma similar_cases:
  assumes "similar_node n n'"
  obtains (same) "n' = n"
  | (opq) v w where "n = NLiteral v" "n' = NLiteral w" "opaque v" "opaque w" "(v = PStr []) = (w = PStr [])"
  using assms by (cases n; cases n') auto

lemma similar_empty: "similar_node n n' \<Longrightarrow> is_empty_operand n' = is_empty_operand n"
  by (erule similar_cases) (auto simp: is_empty_operand_def)

lemma similar_kind:
  assumes "similar_node n n'"
  shows "(n' = NNull) = (n = NNull)" "is_literal n' = is_literal n" "is_relation_ref n' = is_relation_ref n"
    "is_collection_ref n' = is_collection_ref n" "operand_field_type env n' = operand_field_type env n"
    "is_json_operand env n' = is_json_operand env n" "extract_each_operand env n' = extract_each_operand env n"
  using assms
  by - (erule similar_cases; simp add: is_literal_def is_relation_ref_def is_collection_ref_def operand_field_type_def
      is_json_operand_def extract_each_operand_def)+

lemma similar_literal_type:
  assumes "similar_node n n'" "literal_for_field_type rt n t = Inr m" "literal_for_field_type rt n' t = Inr m'"
  shows "similar_node m m'"
proof -
  have keep: "m = NLiteral v \<or> (\<exists>d. v \<noteq> PStr [] \<and> m = NLiteral (PDatetime d))"
    if "literal_for_field_type rt (NLiteral v) t = Inr m" for v m
    using that
    by (cases v) (auto simp: literal_for_field_type_def Let_def res_simps split: if_splits option.splits)
  from assms(1) show ?thesis
  proof (cases rule: similar_cases)
    case same
    with assms show ?thesis by simp
  next
    case (opq v w)
    with keep assms(2,3) have "m = NLiteral v \<or> (\<exists>d. v \<noteq> PStr [] \<and> m = NLiteral (PDatetime d))"
      "m' = NLiteral w \<or> (\<exists>d. w \<noteq> PStr [] \<and> m' = NLiteral (PDatetime d))" by auto
    with opq show ?thesis by (auto simp: opaque_def)
  qed
qed

lemma similar_coerce:
  assumes "similar_node l l'" "similar_node r r'"
    "coerce_comparison_literals env l r = Inr (m, n)" "coerce_comparison_literals env l' r' = Inr (m', n')"
  shows "similar_node m m' \<and> similar_node n n'"
  using assms
  by (auto simp: coerce_comparison_literals_def res_simps similar_kind similar_literal_type split: if_splits)

lemma similar_standard:
  assumes "similar_node n n'" "similar_node other other'"
  shows "empty_equality_sql env sql_op n s other' t = empty_equality_sql env sql_op n s other t"
    "empty_equality_sql env sql_op n' s other t = empty_equality_sql env sql_op n s other t"
    "standard_sql env sql_op n s other' t b = standard_sql env sql_op n s other t b"
  using assms by (simp_all add: empty_equality_sql_def standard_sql_def similar_empty similar_kind Let_def)

lemma agree_like_pattern: "similar_node n n' \<Longrightarrow> agree (=) (like_pattern_sql env n s) (like_pattern_sql (with_context env c) n' s)"
  by (erule similar_cases) (auto simp: like_pattern_sql_def intro!: agree_param agree_ret split: node.split)

lemma agree_like_comparison:
  "similar_node n n' \<Longrightarrow> agree (=) (like_comparison_sql env m n s op) (like_comparison_sql (with_context env c) m n' s op)"
  unfolding like_comparison_sql_def by (rule agree_bind_eq[OF agree_like_pattern]) (auto intro: agree_ret)

lemma agree_like_side:
  "similar_node n n' \<Longrightarrow> agree (=) (like_side_sql env op m n s b) (like_side_sql (with_context env c) op m n' s b)"
  unfolding like_side_sql_def by (auto intro: agree_like_comparison)

lemma agree_operator:
  assumes "similar_node n n'"
  shows "agree (=) (operator_sql env op ref s n t b) (operator_sql (with_context env c) op ref s n' t b)"
  unfolding operator_sql_def
  by (auto simp: similar_standard(3)[OF similar_refl assms] split: option.split
      intro!: agree_like_side agree_refl_lift agree_ret agree_bind_eq[OF agree_like_pattern] assms)

lemma map_of_keys: "map fst d = map fst d' \<Longrightarrow> (map_of d k = None) = (map_of d' k = None)"
  by (metis map_of_eq_None_iff list.set_map)

lemma data_keys:
  assumes "context_keys env = context_keys (with_context env c)"
  shows "data_field (with_context env c) f = None \<longleftrightarrow> data_field env f = None"
proof -
  from assms have "map_option (map fst) (context_data env) = map_option (map fst) (context_data (with_context env c))"
    by (simp add: context_keys_def)
  then show ?thesis by (auto simp: data_field_def map_option_case split: option.splits dest: map_of_keys)
qed

lemma data_field_found:
  "fst (extract_request_data_field_value env f) \<longleftrightarrow>
     data_field env f \<noteq> None \<or> data_field env (last (split_on 46 f)) \<noteq> None"
  by (auto simp: extract_request_data_field_value_def data_field_def split: option.split)

lemma agree_if: "P = P' \<Longrightarrow> (P \<Longrightarrow> agree Q a a') \<Longrightarrow> (\<not> P \<Longrightarrow> agree Q b b') \<Longrightarrow>
    agree Q (if P then a else b) (if P' then a' else b')"
  by simp

lemma agree_body_macro:
  assumes "context_keys env = context_keys (with_context env c)"
  shows "agree (=) (body_macro env f) (body_macro (with_context env c) f)"
  unfolding body_macro_def Let_def prod.case_eq_if data_keys[OF assms]
  by (intro agree_if refl agree_param agree_ret agree_bind_eq[OF agree_refl_lift] agree_bind_eq[OF agree_param])

lemma resolved_keys:
  assumes "context_keys env = context_keys (with_context env c)"
  shows "(case as_record (dict_get c (lit ''resolved_macros'')) of Some d \<Rightarrow> map_of d n | None \<Rightarrow> None) = None \<longleftrightarrow>
    (case as_record (dict_get (fe_context env) (lit ''resolved_macros'')) of Some d \<Rightarrow> map_of d n | None \<Rightarrow> None) = None"
proof -
  from assms have "map_option (map fst) (as_record (dict_get (fe_context env) (lit ''resolved_macros''))) =
      map_option (map fst) (as_record (dict_get c (lit ''resolved_macros'')))"
    by (simp add: context_keys_def)
  then show ?thesis by (auto simp: map_option_case split: option.splits dest: map_of_keys)
qed

lemma agree_dict_param:
  "agree (=) (bindS (liftS (get_attr_dict a)) (\<lambda>d. bind_param (f d))) (bindS (liftS (get_attr_dict b)) (\<lambda>d. bind_param (f d)))"
  by (rule agree_bind[where Q = "\<lambda>_ _. True"]) (auto intro: agree_lift agree_param)

lemma agree_macro:
  assumes "context_keys env = context_keys (with_context env c)"
  shows "agree (=) (resolve_macro env n) (resolve_macro (with_context env c) n)"
proof (cases "case as_record (dict_get (fe_context env) (lit ''resolved_macros'')) of Some d \<Rightarrow> map_of d (strip_at n) | None \<Rightarrow> None")
  case None
  with resolved_keys[OF assms]
  have "(case as_record (dict_get c (lit ''resolved_macros'')) of Some d \<Rightarrow> map_of d (strip_at n) | None \<Rightarrow> None) = None" by blast
  with None show ?thesis unfolding resolve_macro_def Let_def with_context_sel
    by (auto intro!: agree_param agree_ret agree_dict_param agree_body_macro[OF assms] split: option.split)
next
  case (Some v)
  with resolved_keys[OF assms, of "strip_at n"]
  obtain w where "(case as_record (dict_get c (lit ''resolved_macros'')) of Some d \<Rightarrow> map_of d (strip_at n) | None \<Rightarrow> None) = Some w"
    by auto
  with Some show ?thesis unfolding resolve_macro_def Let_def with_context_sel by (simp add: agree_param)
qed

lemma agree_field_modifier:
  assumes "context_keys env = context_keys (with_context env c)"
  shows "agree (=) (resolve_field_modifier env f m) (resolve_field_modifier (with_context env c) f m)"
proof -
  have "fst (extract_request_data_field_value (with_context env c) f) = fst (extract_request_data_field_value env f)"
    unfolding data_field_found data_keys[OF assms] by (rule refl)
  then show ?thesis unfolding resolve_field_modifier_def with_context_pure
    by (intro agree_bind_eq[OF agree_refl_lift])
      (auto intro!: agree_ret agree_bind_eq[OF agree_param] agree_refl_lift split: prod.split)
qed

lemma agree_operand:
  assumes "context_keys env = context_keys (with_context env c)" "similar_node n n'"
  shows "agree (=) (operand_to_sql env n) (operand_to_sql (with_context env c) n')"
  using assms(2)
proof (cases rule: similar_cases)
  case same
  then show ?thesis
  proof (cases n)
    case (NLiteral v)
    with same show ?thesis by (cases v) (auto simp: operand_to_sql.simps intro!: agree_ret agree_param)
  qed (auto simp: operand_to_sql.simps
      intro!: agree_ret agree_refl_lift agree_macro[OF assms(1)] agree_field_modifier[OF assms(1)])
next
  case (opq v w)
  then show ?thesis by (cases v; cases w) (auto simp: operand_to_sql.simps opaque_def intro!: agree_param)
qed

lemma agree_eq_ret: "agree (=) (retS x) (retS x)"
  by (rule agree_ret) simp

lemma agree_literal_type:
  "similar_node n n' \<Longrightarrow>
     agree similar_node (liftS (if b then literal_for_field_type rt n t else Inr n))
       (liftS (if b then literal_for_field_type rt n' t else Inr n'))"
  by (rule agree_lift) (auto intro: similar_literal_type split: if_splits)

lemma agree_collection_ref:
  assumes "context_keys env = context_keys (with_context env c)" "similar_node n n'"
  shows "agree (=) (collection_ref_condition env ref op n b) (collection_ref_condition (with_context env c) ref op n' b)"
  unfolding collection_ref_condition_def with_context_sel with_context_exists
  by (rule agree_bind_eq[OF agree_refl_lift], rule agree_bind[OF agree_literal_type[OF assms(2)]],
      rule agree_bind_eq[OF agree_operand[OF assms(1)]], assumption,
      rule agree_bind_eq[OF agree_operator], assumption, rule agree_if[OF refl agree_eq_ret agree_refl_lift])

lemma collection_comparison_sides:
  "collection_comparison env (NCollectionRef n p g) op (NCollectionRef n2 p2 g2) =
     liftS (bindE (resolve_collection_ref env n p g) (\<lambda>l_ref.
       bindE (resolve_collection_ref env n2 p2 g2) (\<lambda>r_ref. collection_pair_condition env l_ref op r_ref)))"
  "\<not> is_collection_ref r \<Longrightarrow> collection_comparison env (NCollectionRef n p g) op r =
     bindS (liftS (resolve_collection_ref env n p g)) (\<lambda>ref.
     bindS (collection_ref_condition env ref op r True) (\<lambda>c.
       retS (CollectionCondition (cr_table_name ref) (cr_group_key ref) c)))"
  "\<not> is_collection_ref l \<Longrightarrow> collection_comparison env l op (NCollectionRef n p g) =
     bindS (liftS (resolve_collection_ref env n p g)) (\<lambda>ref.
     bindS (collection_ref_condition env ref op l False) (\<lambda>c.
       retS (CollectionCondition (cr_table_name ref) (cr_group_key ref) c)))"
  "\<not> is_collection_ref l \<Longrightarrow> \<not> is_collection_ref r \<Longrightarrow> collection_comparison env l op r = liftS (Inl ValueError)"
     apply (simp add: collection_comparison_def)
    apply (cases r; simp add: collection_comparison_def is_collection_ref_def)
   apply (cases l; simp add: collection_comparison_def is_collection_ref_def)
  apply (cases l; cases r; simp add: collection_comparison_def is_collection_ref_def)
  done

lemma relation_comparison_sides:
  "relation_comparison env (NRelationRef s1 c1 j1 t1) op (NRelationRef s2 c2 j2 t2) =
     liftS (bindE (relation_pair_sql env s1 c1 op s2 c2) (\<lambda>s. Inr (CStr s)))"
  "\<not> is_relation_ref r \<Longrightarrow> relation_comparison env (NRelationRef s1 c1 j1 t1) op r =
     relation_side env op (NRelationRef s1 c1 j1 t1) s1 c1 r True"
  "\<not> is_relation_ref l \<Longrightarrow> relation_comparison env l op (NRelationRef s2 c2 j2 t2) =
     relation_side env op (NRelationRef s2 c2 j2 t2) s2 c2 l False"
  "\<not> is_relation_ref l \<Longrightarrow> \<not> is_relation_ref r \<Longrightarrow> relation_comparison env l op r = liftS (Inl ValueError)"
     apply (simp add: relation_comparison_def)
    apply (cases r; simp add: relation_comparison_def is_relation_ref_def)
   apply (cases l; simp add: relation_comparison_def is_relation_ref_def)
  apply (cases l; cases r; simp add: relation_comparison_def is_relation_ref_def)
  done

lemma collection_refE: "is_collection_ref n \<Longrightarrow> (\<And>a p g. n = NCollectionRef a p g \<Longrightarrow> P) \<Longrightarrow> P"
  by (cases n) (auto simp: is_collection_ref_def)

lemma relation_refE: "is_relation_ref n \<Longrightarrow> (\<And>s c j t. n = NRelationRef s c j t \<Longrightarrow> P) \<Longrightarrow> P"
  by (cases n) (auto simp: is_relation_ref_def)

lemma similar_ref: "similar_node (NCollectionRef a p g) n \<longleftrightarrow> n = NCollectionRef a p g"
  "similar_node (NRelationRef s c j t) n \<longleftrightarrow> n = NRelationRef s c j t"
  by (cases n; auto)+

lemma agree_collection:
  assumes "context_keys env = context_keys (with_context env c)" "similar_node l l'" "similar_node r r'"
  shows "agree (=) (collection_comparison env l op r) (collection_comparison (with_context env c) l' op r')"
  using assms(2,3) similar_kind(4)[OF assms(2)] similar_kind(4)[OF assms(3)]
  by (cases "is_collection_ref l"; cases "is_collection_ref r")
    (auto elim!: collection_refE simp: similar_ref collection_comparison_sides
      intro!: agree_refl_lift agree_bind_eq[OF agree_refl_lift] agree_bind_eq[OF agree_collection_ref[OF assms(1)]] agree_ret)

lemma agree_relation_side:
  assumes "context_keys env = context_keys (with_context env c)" "similar_node n n'"
  shows "agree (=) (relation_side env op ref s col n b) (relation_side (with_context env c) op ref s col n' b)"
  unfolding relation_side_def with_context_exists
  by (rule agree_bind_eq[OF agree_operand[OF assms]], rule agree_bind_eq[OF agree_operator[OF assms(2)]], rule agree_refl_lift)

lemma agree_relation:
  assumes "context_keys env = context_keys (with_context env c)" "similar_node l l'" "similar_node r r'"
  shows "agree (=) (relation_comparison env l op r) (relation_comparison (with_context env c) l' op r')"
  using assms(2,3) similar_kind(3)[OF assms(2)] similar_kind(3)[OF assms(3)]
  by (cases "is_relation_ref l"; cases "is_relation_ref r")
    (auto elim!: relation_refE simp: similar_ref relation_comparison_sides
      intro!: agree_refl_lift agree_relation_side[OF assms(1)])

lemma agree_extract_each:
  assumes "context_keys env = context_keys (with_context env c)" "similar_node n n'"
  shows "agree (=) (extract_each_operand env n) (extract_each_operand (with_context env c) n')"
proof -
  have "agree (=) (extract_each_operand env n) (extract_each_operand (with_context env c) n)"
  proof (cases n)
    case (NMacro name)
    then show ?thesis
      by (auto simp: extract_each_operand_def intro!: agree_ret agree_bind_eq[OF agree_param] split: option.split prod.split)
  qed (auto simp: extract_each_operand_def intro!: agree_ret agree_bind_eq[OF agree_refl_lift])
  with similar_kind(7)[OF assms(2)] show ?thesis by simp
qed

lemma agree_each_item:
  assumes "context_keys env = context_keys (with_context env c)" "similar_node n n'"
  shows "agree (=) (build_each_item_condition env i op n b) (build_each_item_condition (with_context env c) i op n' b)"
  unfolding build_each_item_condition_def with_context_more similar_standard(3)[OF similar_refl assms(2)]
  by (rule agree_bind_eq[OF agree_operand[OF assms]])
    (auto split: option.split intro!: agree_refl_lift agree_like_side[OF assms(2)] agree_ret)

lemma agree_each:
  assumes "context_keys env = context_keys (with_context env c)" "similar_node l l'" "similar_node r r'"
  shows "agree (=) (each_comparison env l op r a b) (each_comparison (with_context env c) l' op r' a b)"
  unfolding each_comparison_def Let_def
  by (rule agree_if[OF refl agree_refl_lift], rule agree_bind_eq,
      rule agree_if[OF refl agree_each_item[OF assms(1,3)] agree_each_item[OF assms(1,2)]], rule agree_eq_ret)

lemma agree_regular:
  assumes "similar_node l l'" "similar_node r r'"
  shows "agree (=) (regular_sql env op l s r t) (regular_sql (with_context env c) op l' s r' t)"
  unfolding regular_sql_def with_context_exists similar_standard(2)[OF assms(1) similar_refl]
    similar_standard(1)[OF similar_refl assms(2)] similar_kind(1)[OF assms(1)] similar_kind(1)[OF assms(2)]
  by (auto split: option.split intro!: agree_refl_lift agree_like_comparison[OF assms(2)] agree_ret
      agree_bind_eq[OF agree_like_pattern[OF assms(2)]])

lemma agree_comparison:
  assumes "context_keys env = context_keys (with_context env c)" "similar_node l0 l0'" "similar_node r0 r0'"
  shows "agree (=) (comparison env l0 op r0) (comparison (with_context env c) l0' op r0')"
proof -
  let ?co = "\<lambda>a b. if py_strip op \<in> fst ` set STANDARD_OPS then coerce_comparison_literals env a b else Inr (a, b)"
  have co: "agree (\<lambda>x y. similar_node (fst x) (fst y) \<and> similar_node (snd x) (snd y)) (liftS (?co l0 r0)) (liftS (?co l0' r0'))"
    using assms(2,3) by (intro agree_lift) (auto dest: similar_coerce split: if_splits)
  have body: "agree (=) (bindS (extract_each_operand env l) (\<lambda>a. bindS (extract_each_operand env r) (\<lambda>b.
        if a \<noteq> None \<or> b \<noteq> None then bindS (each_comparison env l op' r a b) (\<lambda>s. retS (CStr s))
        else bindS (operand_to_sql env l) (\<lambda>s. bindS (operand_to_sql env r) (\<lambda>t.
             bindS (regular_sql env op' l s r t) (\<lambda>s. retS (CStr s)))))))
      (bindS (extract_each_operand (with_context env c) l') (\<lambda>a. bindS (extract_each_operand (with_context env c) r') (\<lambda>b.
        if a \<noteq> None \<or> b \<noteq> None then bindS (each_comparison (with_context env c) l' op' r' a b) (\<lambda>s. retS (CStr s))
        else bindS (operand_to_sql (with_context env c) l') (\<lambda>s. bindS (operand_to_sql (with_context env c) r') (\<lambda>t.
             bindS (regular_sql (with_context env c) op' l' s r' t) (\<lambda>s. retS (CStr s)))))))"
    if s: "similar_node l l'" "similar_node r r'" for l l' r r' op'
    by (intro agree_bind_eq[OF agree_extract_each[OF assms(1) s(1)]] agree_bind_eq[OF agree_extract_each[OF assms(1) s(2)]]
        agree_if[OF refl] agree_bind_eq[OF agree_each[OF assms(1) s]] agree_bind_eq[OF agree_operand[OF assms(1) s(1)]]
        agree_bind_eq[OF agree_operand[OF assms(1) s(2)]] agree_bind_eq[OF agree_regular[OF s]] agree_ret refl)
  show ?thesis unfolding comparison_def Let_def with_context_resolve prod.case_eq_if
    by (rule agree_bind[OF co], elim conjE, intro agree_if body agree_relation agree_collection assms(1))
      (simp_all add: similar_kind)
qed

lemma agree_transform:
  assumes "context_keys env = context_keys (with_context env c)"
  shows "similar_tree t t' \<Longrightarrow> agree (=) (transform_tree env t) (transform_tree (with_context env c) t')"
proof (induction t t' rule: similar_tree.induct)
  case (1 l op r l' op' r')
  have node: "agree similar_node (liftS (operand_node env p)) (liftS (operand_node env q))" if "similar_operand p q" for p q
    using that by (cases p; cases q) (auto intro!: agree_lift)
  from 1 show ?case
    by (auto intro!: agree_bind[OF node] agree_comparison[OF assms])
next
  case (2 ts ts')
  then have "agree (list_all2 (=)) (map_callbacks (transform_tree env) ts) (map_callbacks (transform_tree (with_context env c)) ts')"
    by (intro agree_map[where S = similar_tree]) auto
  then show ?case by (auto simp: list.rel_eq intro!: agree_bind_eq agree_ret)
next
  case (3 ts ts')
  then have "agree (list_all2 (=)) (map_callbacks (transform_tree env) ts) (map_callbacks (transform_tree (with_context env c)) ts')"
    by (intro agree_map[where S = similar_tree]) auto
  then show ?case by (auto simp: list.rel_eq intro!: agree_bind_eq agree_ret)
qed auto

text \<open>
  C2: The text of the WHERE clause does not depend on the values in it.  Two filters that differ only in the contents
  of quoted text (as long as both or neither is empty), compiled for two requests whose bodies and resolved macros have
  the same keys, give the same SQL whenever both compile: method, headers, auth record, query, body values and
  quoted text reach the database only as bound parameters.
\<close>

theorem filter_text_independent_of_values:
  assumes "parse s = Some t" "parse s' = Some t'" "similar_tree t t'" "\<exists>ts. t = OrExpr ts"
    and "context_keys env = context_keys (with_context env ctx)"
    and "parse_filter parse env s = Inr (sql, params)"
    and "parse_filter parse (with_context env ctx) s' = Inr (sql', params')"
    and "py_strip s \<noteq> []" "py_strip s' \<noteq> []"
  shows "sql = sql' \<and> map fst params = map fst params'"
proof -
  from assms(4) obtain ts where t: "t = OrExpr ts" by blast
  with assms(3) obtain ts' where t': "t' = OrExpr ts'" by (cases t') auto
  from assms(1,6,8) t obtain st where 1: "transform_tree env t init_fstate = Inr (CStr sql, st)" "params = fs_params st"
    by (auto simp: parse_filter_def bindE_Inr_iff callback_simps split: if_splits option.splits)
  from assms(2,7,9) t' obtain st' where 2: "transform_tree (with_context env ctx) t' init_fstate = Inr (CStr sql', st')" "params' = fs_params st'"
    by (auto simp: parse_filter_def bindE_Inr_iff callback_simps split: if_splits option.splits)
  from agree_transform[OF assms(5,3)] 1(1) 2(1) have eq: "sql = sql'" "fs_counter st = fs_counter st'"
    unfolding agree_def by blast+
  have names: "map fst (fs_params u) = param_names 0 (fs_counter u)" if "transform_tree e x init_fstate = Inr (y, u)" for e x y u
    using allocates_transform[of e x] that by (fastforce simp: allocates_def init_fstate_def)
  from names[OF 1(1)] names[OF 2(1)] eq 1(2) 2(2) show ?thesis by simp
qed

section \<open>A concrete filter\<close>

definition sample_env :: filter_env where
  "sample_env =
     \<lparr>fe_rt = sample_rt, fe_context = [], fe_relations = PDict [], fe_collections = PDict [], fe_table = None,
      fe_repr_steps = (\<lambda>_. []), fe_repr_cond = (\<lambda>_. [])\<rparr>"

definition sample_tree :: "pystr \<Rightarrow> ftree" where
  "sample_tree v = OrExpr [AndExpr [Comparison (OFieldPath [lit ''name'']) (lit ''='') (OString (sq v))]]"

text \<open>A parser that knows the two filters \<open>name='a'\<close> and \<open>name='b'\<close>.\<close>

definition sample_parse :: "pystr \<Rightarrow> ftree option" where
  "sample_parse s =
     (if s = lit ''name='' @ sq [97] then Some (sample_tree [97])
      else if s = lit ''name='' @ sq [98] then Some (sample_tree [98]) else None)"

lemmas filter_eval =
  parse_filter_def sample_parse_def sample_tree_def sample_env_def init_fstate_def bindS_def retS_def liftS_def
  comparison_def STANDARD_OPS_def coerce_comparison_literals_def operand_field_type_def is_relation_ref_def
  is_collection_ref_def extract_each_operand_def operand_to_sql.simps field_expr_def field_path_node_def
  split_modifier_def field_type_for_table_def sanitize_ident_def SYSTEM_FIELD_TYPES_def resolver_fields_def
  sub_dict_def as_record_def dict_get_def is_flat_resolver_def string_node_def unescape_text_def bind_param_def
  next_param_def param_name_def nat_str.simps regular_sql_def empty_equality_sql_def is_empty_operand_def and_expr_def
  and_parts_def or_expr_def DATETIME_FIELD_TYPES_def safe_ident_char_def py_strip_def is_space_def

lemma sample_filter:
  "v = 97 \<or> v = 98 \<Longrightarrow>
   parse_filter sample_parse (with_context sample_env ctx) (lit ''name='' @ sq [v]) =
     Inr (dq (lit ''name'') @ lit '' = :_fp1'', [(param_name 1, PStr [v])])"
  by (auto simp: filter_eval with_context_def lit_def sq_def dq_def)

lemma sample_strip: "v = 97 \<or> v = 98 \<Longrightarrow> py_strip (lit ''name='' @ sq [v]) \<noteq> []"
  by (auto simp: py_strip_def is_space_def lit_def sq_def)

lemma with_own_context: "with_context sample_env [] = sample_env"
  by (simp add: with_context_def sample_env_def)

theorem filter_params_numbered_witness:
  "map fst [(param_name 1, PStr [97])] = map param_name [1..<Suc 1] \<and> distinct (map fst [(param_name 1, PStr [97])])"
  using filter_params_numbered[OF sample_filter[of 97 "[]"]] by simp

theorem filter_text_independent_of_values_witness:
  "fst (projr (parse_filter sample_parse sample_env (lit ''name='' @ sq [97]))) =
   fst (projr (parse_filter sample_parse (with_context sample_env [(lit ''method'', PStr (lit ''GET''))])
     (lit ''name='' @ sq [98])))"
proof -
  have p: "sample_parse (lit ''name='' @ sq [97]) = Some (sample_tree [97])"
    "sample_parse (lit ''name='' @ sq [98]) = Some (sample_tree [98])"
    by (simp_all add: sample_parse_def sq_def)
  have t: "similar_tree (sample_tree [97]) (sample_tree [98])" "\<exists>ts. sample_tree [97] = OrExpr ts"
    by (simp_all add: sample_tree_def string_node_def unescape_text_def sq_def opaque_def)
  have k: "context_keys sample_env = context_keys (with_context sample_env [(lit ''method'', PStr (lit ''GET''))])"
    by (simp add: context_keys_def context_data_def dict_get_or_def dict_get_def with_context_def sample_env_def as_record_def)
  have l: "parse_filter sample_parse sample_env (lit ''name='' @ sq [97]) =
      Inr (dq (lit ''name'') @ lit '' = :_fp1'', [(param_name 1, PStr [97])])"
    using sample_filter[of 97 "[]"] by (simp add: with_own_context)
  have r: "parse_filter sample_parse (with_context sample_env [(lit ''method'', PStr (lit ''GET''))]) (lit ''name='' @ sq [98]) =
      Inr (dq (lit ''name'') @ lit '' = :_fp1'', [(param_name 1, PStr [98])])"
    by (rule sample_filter) simp
  show ?thesis
    using filter_text_independent_of_values[OF p t k l r sample_strip sample_strip] by (simp add: l r)
qed

end
