(* ===== verification/Filter_Lexical.thy ===== *)
theory Filter_Lexical
  imports Filter_Safety
begin

text \<open>
  The WHERE clause is lexically self-contained: a scanner that follows quotes, parentheses and comment starts reads it
  from code to code at the depth where it began.  The clause can therefore be placed in a larger statement without
  changing how the rest of that statement is read.
\<close>

section \<open>A lexical scanner for SQL text\<close>

text \<open>\<open>Code b\<close> is ordinary text, \<open>b\<close> telling whether the last character was a dash.\<close>

datatype lex_mode = Code bool | SQuote | DQuote

fun lex_step :: "lex_mode \<times> nat \<Rightarrow> nat \<Rightarrow> (lex_mode \<times> nat) option" where
  "lex_step (SQuote, d) c = Some (if c = 39 then Code False else SQuote, d)"
| "lex_step (DQuote, d) c = Some (if c = 34 then Code False else DQuote, d)"
| "lex_step (Code dash, d) c =
     (if c = 39 then Some (SQuote, d)
      else if c = 34 then Some (DQuote, d)
      else if c = 40 then Some (Code False, Suc d)
      else if c = 41 then (if d = 0 then None else Some (Code False, d - 1))
      else if c = 45 then (if dash then None else Some (Code True, d))
      else if c \<in> {0, 35, 36, 47, 59, 92} then None
      else Some (Code False, d))"

fun sql_lex :: "lex_mode \<times> nat \<Rightarrow> pystr \<Rightarrow> (lex_mode \<times> nat) option" where
  "sql_lex st [] = Some st"
| "sql_lex st (c # cs) = (case lex_step st c of None \<Rightarrow> None | Some st' \<Rightarrow> sql_lex st' cs)"

definition self_contained :: "pystr \<Rightarrow> bool" where
  "self_contained s \<longleftrightarrow> sql_lex (Code False, 0) s = Some (Code False, 0)"

definition safe_ident :: "pystr \<Rightarrow> bool" where
  "safe_ident s = list_all safe_ident_char s"

lemma lex_append: "sql_lex st (a @ b) = (case sql_lex st a of None \<Rightarrow> None | Some st' \<Rightarrow> sql_lex st' b)"
  by (induction a arbitrary: st) (auto split: option.split)

lemma lex_deeper: "sql_lex (m, d) s = Some (m', d') \<Longrightarrow> sql_lex (m, d + k) s = Some (m', d' + k)"
proof (induction s arbitrary: m d)
  case (Cons c cs)
  then obtain m1 d1 where s: "lex_step (m, d) c = Some (m1, d1)" "sql_lex (m1, d1) cs = Some (m', d')"
    by (auto split: option.splits)
  from s(1) have "lex_step (m, d + k) c = Some (m1, d1 + k)"
    by (cases m) (auto split: if_splits)
  with Cons.IH[OF s(2)] show ?case by simp
qed simp

lemma lex_self_contained [simp]: "self_contained s \<Longrightarrow> sql_lex (Code False, d) s = Some (Code False, d)"
  using lex_deeper[of "Code False" 0 s "Code False" 0 d] by (simp add: self_contained_def)

lemma lex_quoted: "safe_ident s \<Longrightarrow> sql_lex (DQuote, d) s = Some (DQuote, d)" "safe_ident s \<Longrightarrow> sql_lex (SQuote, d) s = Some (SQuote, d)"
  by (induction s) (auto simp: safe_ident_def safe_ident_char_def)

lemma lex_code: "list_all (\<lambda>c. safe_ident_char c \<or> c = 46) s \<Longrightarrow> sql_lex (Code False, d) s = Some (Code False, d)"
  by (induction s) (auto simp: safe_ident_char_def)

lemma lex_dq [simp]: "safe_ident s \<Longrightarrow> sql_lex (Code False, d) (dq s) = Some (Code False, d)"
  by (simp add: dq_def lex_append lex_quoted)

lemma lex_sq [simp]: "safe_ident s \<Longrightarrow> sql_lex (Code False, d) (sq s) = Some (Code False, d)"
  by (simp add: sq_def lex_append lex_quoted)

lemma safe_ident_Nil [simp]: "safe_ident []"
  by (simp add: safe_ident_def)

lemma sanitize_safe: "sanitize_ident s = Inr t \<longleftrightarrow> safe_ident s \<and> t = s"
  by (auto simp: sanitize_ident_def safe_ident_def)

lemma self_contained_append: "self_contained a \<Longrightarrow> self_contained b \<Longrightarrow> self_contained (a @ b)"
  by (simp add: self_contained_def lex_append)

lemma self_contained_ident: "safe_ident s \<Longrightarrow> self_contained s"
  unfolding self_contained_def by (rule lex_code) (auto simp: safe_ident_def list_all_iff)

text \<open>The scanner on the constant pieces of the generated SQL.\<close>

lemma lex_lit: "sql_lex st (lit (c # cs)) = (case lex_step st (of_char c) of None \<Rightarrow> None | Some st' \<Rightarrow> sql_lex st' (lit cs))"
  unfolding lit_def list.map sql_lex.simps by (rule refl)

lemmas piece_simps = self_contained_def lex_append lex_lit

section \<open>Columns, casts and operators\<close>

text \<open>Every value returned without an exception satisfies \<open>P\<close>; \<open>ensures\<close> follows the shape of a definition.\<close>

definition ensures :: "('a \<Rightarrow> bool) \<Rightarrow> 'e + 'a \<Rightarrow> bool" where
  "ensures P r \<longleftrightarrow> (\<forall>x. r = Inr x \<longrightarrow> P x)"

named_theorems ensure_intros \<open>rules for ensures\<close>

lemma ensures_Inl [ensure_intros]: "ensures P (Inl e)"
  by (simp add: ensures_def)

lemma ensures_Inr [ensure_intros]: "P x \<Longrightarrow> ensures P (Inr x)"
  by (simp add: ensures_def)

lemma ensures_bind: "ensures Q m \<Longrightarrow> (\<And>x. Q x \<Longrightarrow> ensures P (f x)) \<Longrightarrow> ensures P (bindE m f)"
  by (auto simp: ensures_def bindE_Inr_iff)

lemma ensures_bind_any: "(\<And>x. ensures P (f x)) \<Longrightarrow> ensures P (bindE m f)"
  by (auto simp: ensures_def bindE_Inr_iff)

lemma ensures_if [ensure_intros]: "(b \<Longrightarrow> ensures P x) \<Longrightarrow> (\<not> b \<Longrightarrow> ensures P y) \<Longrightarrow> ensures P (if b then x else y)"
  by simp

lemma ensures_option [ensure_intros]:
  "ensures P n \<Longrightarrow> (\<And>x. v = Some x \<Longrightarrow> ensures P (s x)) \<Longrightarrow> ensures P (case v of None \<Rightarrow> n | Some x \<Rightarrow> s x)"
  by (cases v) auto

fun opt_all :: "('a \<Rightarrow> bool) \<Rightarrow> 'a option \<Rightarrow> bool" where
  "opt_all P None = True"
| "opt_all P (Some x) = P x"

lemma qualified_column_ok: "qualified_column t f = Inr s \<Longrightarrow> self_contained s \<and> safe_ident t \<and> safe_ident f"
  by (auto simp: qualified_column_def res_simps sanitize_safe piece_simps)

lemma safe_ident_no_dot: "list_all (\<lambda>c. safe_ident_char c \<or> c = 46) f \<Longrightarrow> 46 \<notin> set f \<Longrightarrow> safe_ident f"
  by (auto simp: safe_ident_def list_all_iff)

lemma field_expr_ok: "field_expr env f = Inr s \<Longrightarrow> self_contained s"
  by (auto simp: field_expr_def res_simps self_contained_def lex_code safe_ident_no_dot
      dest!: qualified_column_ok split: if_splits option.splits)

lemma column_expr_ok: "column_expr_for_table env t f = Inr s \<Longrightarrow> self_contained s"
  by (auto simp: column_expr_for_table_def field_expr_ok dest: qualified_column_ok split: option.splits if_splits)

lemma self_contained_lit_parts [simp]: "self_contained (lit ''TRUE'')" "self_contained (lit ''FALSE'')" "self_contained (lit ''NULL'')"
  "self_contained (lit ''_elem'')"
  by (simp_all add: piece_simps)

lemma text_cast_ok: "self_contained e \<Longrightarrow> self_contained (text_cast_sql e)"
  by (simp add: text_cast_sql_def piece_simps)

lemma self_contained_infix: "self_contained a \<Longrightarrow> self_contained op \<Longrightarrow> self_contained b \<Longrightarrow> self_contained (a @ [32] @ op @ [32] @ b)"
  by (simp add: piece_simps)

lemma operators_ok:
  "map_of STANDARD_OPS op = Some s \<Longrightarrow> self_contained s"
  "map_of LIKE_OPS op = Some s \<Longrightarrow> self_contained s"
  "map_of ANY_STANDARD_OPS op = Some s \<Longrightarrow> self_contained s"
  "map_of ANY_LIKE_OPS op = Some s \<Longrightarrow> self_contained s"
  by (auto simp: STANDARD_OPS_def LIKE_OPS_def ANY_STANDARD_OPS_def ANY_LIKE_OPS_def piece_simps split: if_splits)

lemma op_or_eq_ok: "self_contained (op_or_eq op)" "self_contained (lit ''='')"
  by (auto simp: op_or_eq_def piece_simps split: option.split dest: operators_ok(1)[unfolded self_contained_def])

lemma safe_ident_consts [simp]: "safe_ident (lit ''array'')" "safe_ident (lit ''id'')"
  by (simp_all add: safe_ident_def safe_ident_char_def lit_def)

lemma array_case_ok: "self_contained c \<Longrightarrow> self_contained i \<Longrightarrow> self_contained e \<Longrightarrow> self_contained (array_case_sql c i e)"
  by (simp add: array_case_sql_def piece_simps)

lemma any_sql_ok: "self_contained c \<Longrightarrow> self_contained v \<Longrightarrow> self_contained op \<Longrightarrow> self_contained (scalar_or_array_any_sql c v op)"
proof -
  assume a: "self_contained c" "self_contained v" "self_contained op"
  have "self_contained (text_cast_sql v @ [32] @ op @ lit '' _elem.value'')"
    using a text_cast_ok[OF a(2)] by (simp add: piece_simps)
  moreover have "self_contained (v @ [32] @ op @ lit '' ANY('' @ c @ lit '')'')" using a by (simp add: piece_simps)
  ultimately show ?thesis using a unfolding scalar_or_array_any_sql_def
    by (simp add: array_case_ok self_contained_infix text_cast_ok del: append.simps append_assoc)
qed

lemma like_sql_ok: "self_contained c \<Longrightarrow> self_contained p \<Longrightarrow> self_contained op \<Longrightarrow> self_contained (scalar_or_array_like_sql c p op)"
proof -
  assume a: "self_contained c" "self_contained p" "self_contained op"
  have "self_contained (lit ''_elem.value '' @ op @ [32] @ p)" using a by (simp add: piece_simps)
  with a show ?thesis unfolding scalar_or_array_like_sql_def
    by (simp add: array_case_ok self_contained_infix text_cast_ok del: append.simps append_assoc)
qed

lemma exists_ok: "safe_ident t \<Longrightarrow> self_contained c \<Longrightarrow> self_contained (exists_sql t c)"
  by (simp add: exists_sql_def piece_simps)

lemma join_ok:
  "self_contained sep \<Longrightarrow> list_all self_contained ss \<Longrightarrow> self_contained (join_with sep ss)"
  by (induction sep ss rule: join_with.induct) (simp_all add: self_contained_append, simp add: self_contained_def)

lemma mapE_sanitize: "mapE sanitize_ident ps = Inr qs \<longleftrightarrow> list_all safe_ident ps \<and> qs = ps"
  by (induction ps arbitrary: qs) (auto simp: res_simps sanitize_safe)

lemma json_extract_ok: "self_contained col \<Longrightarrow> json_extract_sql col ps = Inr s \<Longrightarrow> self_contained s"
proof -
  assume a: "self_contained col" "json_extract_sql col ps = Inr s"
  have "self_contained (join_with (lit '', '') (map sq ps))" if "list_all safe_ident ps"
    using that by (intro join_ok) (auto simp: piece_simps list_all_iff)
  then show ?thesis using a by (auto simp: json_extract_sql_def res_simps mapE_sanitize piece_simps split: if_splits)
qed

lemma resolve_path_ensures:
  "ensures (opt_all (\<lambda>rp. self_contained (rp_sql rp))) (resolve_path_loop env flat allow opt t rels flds steps parts)"
proof (induction parts arbitrary: t rels flds steps)
  case (Cons part ps)
  have col: "ensures self_contained (column_expr_for_table env u f)" for u f
    by (simp add: ensures_def column_expr_ok)
  have json: "ensures self_contained (json_extract_sql c qs)" if "self_contained c" for c qs
    using that by (simp add: ensures_def json_extract_ok)
  show ?case
  proof (cases ps)
    case Nil
    then show ?thesis by (auto intro!: ensures_bind[OF col] ensures_Inr)
  next
    case (Cons nxt rest)
    show ?thesis unfolding Cons resolve_path_loop.simps Let_def
      by (intro ensures_if ensures_option ensures_bind[OF col] ensures_bind[OF json] ensures_Inl ensures_Inr
          ensures_bind_any Cons.IH[unfolded Cons]) simp_all
  qed
qed (simp add: ensures_Inr)

lemma resolve_dotted_path_ok:
  "resolve_dotted_path env parts start rels flds allow opt = Inr (Some rp) \<Longrightarrow> self_contained (rp_sql rp)"
  using resolve_path_ensures by (fastforce simp: resolve_dotted_path_def bindE_Inr_iff Let_def ensures_def split: if_splits)

lemma join_condition_ok: "join_condition_for_step env step p = Inr s \<Longrightarrow> self_contained s \<and> safe_ident (ts_target_table step)"
  by (auto simp: join_condition_for_step_def res_simps any_sql_ok column_expr_ok op_or_eq_ok
      intro!: any_sql_ok self_contained_append dest!: qualified_column_ok split: if_splits)
    (auto simp: piece_simps)

lemma wrap_exists_ok: "wrap_exists env p steps leaf = Inr s \<Longrightarrow> self_contained leaf \<Longrightarrow> self_contained s"
proof (induction env p steps leaf arbitrary: s rule: wrap_exists.induct)
  case (2 env p step steps leaf)
  then obtain w j where w: "self_contained w" "join_condition_for_step env step p = Inr j"
    "s = exists_sql (ts_target_table step) (j @ lit '' AND '' @ w)" by (auto simp: res_simps)
  have "self_contained (j @ lit '' AND '' @ w)" using join_condition_ok[OF w(2)] w(1) by (simp add: piece_simps)
  with w(3) show ?case using join_condition_ok[OF w(2)] by (auto intro!: exists_ok)
qed simp

section \<open>Operands and conditions\<close>

fun node_ok :: "node \<Rightarrow> bool" where
  "node_ok (NSqlRef s _) = self_contained s"
| "node_ok (NRelationRef _ col _ _) = self_contained col"
| "node_ok (NCollectionRef n _ _) = safe_ident n"
| "node_ok _ = True"

fun cond_ok :: "cond \<Rightarrow> bool" where
  "cond_ok (CStr s) = self_contained s"
| "cond_ok (CollectionCondition t g inner) = (safe_ident t \<and> self_contained inner)"
| "cond_ok (RelationCondition k t j w) = (safe_ident t \<and> self_contained j \<and> self_contained w)"

text \<open>What the generated text relies on of the interpreter: \<open>str(float)\<close> has no quote, comment start or parenthesis.\<close>

definition float_text :: "py_runtime \<Rightarrow> bool" where
  "float_text rt \<longleftrightarrow> (\<forall>f. self_contained (py_str rt (PFloat f)))"

lemma lex_digits: "list_all is_ascii_digit s \<Longrightarrow> s \<noteq> [] \<Longrightarrow> sql_lex (Code b, d) s = Some (Code False, d)"
proof (induction s arbitrary: b)
  case (Cons c cs)
  then have "sql_lex (Code b, d) (c # cs) = sql_lex (Code False, d) cs"
    by (auto simp: is_ascii_digit_def)
  with Cons show ?case by (cases cs) auto
qed simp

lemma lex_nat_str: "sql_lex (Code b, d) (nat_str n) = Some (Code False, d)"
  by (rule lex_digits) (auto simp: list_all_iff intro: nat_str_digits)

lemma int_str_ok: "self_contained (int_str n)"
  by (auto simp: int_str_def self_contained_def lex_nat_str)

lemma bind_param_ok: "yields self_contained (bind_param v)"
  by (auto simp: yields_def bind_param_def next_param_def Let_def param_name_def piece_simps lex_nat_str)

lemma date_macros_ok: "map_of date_macros n = Some s \<Longrightarrow> self_contained s"
proof -
  have q: "sql_lex (Code False, d) (sq (lit t)) = Some (Code False, d)" if "list_all (\<lambda>c. of_char c \<noteq> (39::nat)) t" for t d
  proof -
    have "sql_lex (SQuote, d) (lit t) = Some (SQuote, d)" using that by (induction t) (auto simp: lit_def)
    then show ?thesis by (simp add: sq_def lex_append)
  qed
  assume "map_of date_macros n = Some s"
  then have "s \<in> snd ` set date_macros" by (force dest: map_of_SomeD)
  then show ?thesis by (auto simp: date_macros_def Let_def piece_simps q)
qed

lemma changed_sql_ok: "self_contained f \<Longrightarrow> self_contained b \<Longrightarrow> self_contained (changed_sql f b)"
  by (simp add: changed_sql_def piece_simps)

lemma body_macro_ok: "yields self_contained (body_macro env f)"
proof -
  have "yields self_contained (bindS (bind_param v) (\<lambda>b. retS (lit ''CAST('' @ b @ lit '' AS text[])'')))" for v
    by (rule yields_bind[OF bind_param_ok]) (auto intro!: yields_ret simp: piece_simps)
  moreover have "yields self_contained (bindS (liftS (sanitize_ident g)) (\<lambda>safe. bindS (bind_param v) (\<lambda>b. retS (changed_sql (dq safe) b))))" for g v
    by (rule yields_bind[OF yields_lift, where Q = safe_ident], simp add: sanitize_safe, rule yields_bind[OF bind_param_ok])
      (auto intro!: yields_ret changed_sql_ok simp: self_contained_def)
  ultimately show ?thesis unfolding body_macro_def Let_def prod.case_eq_if
    by (auto intro: bind_param_ok yields_ret)
qed

lemma resolve_macro_ok: "yields self_contained (resolve_macro env n)"
proof -
  have "yields self_contained (bindS (liftS r) (\<lambda>d. bind_param (g d)))" for r :: "pyexn + (pystr \<times> pyval) list" and g
    by (rule yields_bind[where Q = "\<lambda>_. True"]) (auto intro: yields_lift bind_param_ok)
  then show ?thesis unfolding resolve_macro_def Let_def
    by (auto intro: bind_param_ok body_macro_ok yields_ret date_macros_ok split: option.split)
qed

lemma field_modifier_ok: "yields self_contained (resolve_field_modifier env f m)"
  unfolding resolve_field_modifier_def
proof (rule yields_bind[OF yields_lift[of _ self_contained]], erule field_expr_ok)
  fix s assume s: "self_contained s"
  have "yields self_contained (bindS (bind_param v) (\<lambda>b. retS (changed_sql s b)))" for v
    by (rule yields_bind[OF bind_param_ok]) (auto intro!: yields_ret changed_sql_ok s)
  moreover have "self_contained (lit ''('' @ s @ lit '' IS NOT NULL)'')"
    "self_contained (lit ''LOWER(COALESCE('' @ s @ lit ''::text, '' @ sq [] @ lit ''))'')"
    "self_contained (lit ''(CASE WHEN '' @ s @ lit '' IS NULL THEN 0 WHEN jsonb_typeof(to_jsonb('' @ s @ lit '')) = ''
           @ sq (lit ''array'') @ lit '' THEN jsonb_array_length(to_jsonb('' @ s @ lit '')) ELSE char_length('' @ s
           @ lit ''::text) END)'')"
    using s by (simp_all add: piece_simps)
  ultimately show "yields self_contained
     (if m = lit ''isset'' then retS (lit ''('' @ s @ lit '' IS NOT NULL)'')
       else if m = lit ''length'' then
         retS (lit ''(CASE WHEN '' @ s @ lit '' IS NULL THEN 0 WHEN jsonb_typeof(to_jsonb('' @ s @ lit '')) = ''
           @ sq (lit ''array'') @ lit '' THEN jsonb_array_length(to_jsonb('' @ s @ lit '')) ELSE char_length('' @ s
           @ lit ''::text) END)'')
       else if m = lit ''changed'' then
         (case extract_request_data_field_value env f of
            (has_field, v) \<Rightarrow>
              if \<not> has_field then retS (lit ''FALSE'')
              else bindS (bind_param v) (\<lambda>b. retS (changed_sql s b)))
       else if m = lit ''lower'' then retS (lit ''LOWER(COALESCE('' @ s @ lit ''::text, '' @ sq [] @ lit ''))'')
       else liftS (Inl ValueError))"
    by (auto simp: prod.case_eq_if intro!: yields_ret yields_lift)
qed

lemma operand_ok:
  assumes "float_text (fe_rt env)" "node_ok n" "\<not> is_relation_ref n"
  shows "yields self_contained (operand_to_sql env n)"
proof (cases n)
  case (NLiteral v)
  then show ?thesis using assms(1)
    by (cases v) (auto simp: operand_to_sql.simps float_text_def intro!: yields_ret bind_param_ok int_str_ok)
qed (use assms in \<open>auto simp: operand_to_sql.simps is_relation_ref_def
  intro!: yields_ret yields_lift resolve_macro_ok field_modifier_ok intro: field_expr_ok self_contained_ident\<close>)

lemma like_pattern_ok: "self_contained s \<Longrightarrow> yields self_contained (like_pattern_sql env n s)"
proof -
  assume s: "self_contained s"
  have q: "sql_lex (Code False, d) (sq (lit ''%'')) = Some (Code False, d)" for d by (simp add: sq_def lit_def)
  have "self_contained (lit ''('' @ sq (lit ''%'') @ lit '' || '' @ text_cast_sql s @ lit '' || '' @ sq (lit ''%'') @ lit '')'')"
    using text_cast_ok[OF s] q by (simp add: piece_simps)
  then show ?thesis unfolding like_pattern_sql_def
    by (cases n) (auto intro!: yields_ret bind_param_ok)
qed

lemma like_comparison_ok:
  "self_contained m \<Longrightarrow> self_contained s \<Longrightarrow> self_contained op \<Longrightarrow> yields self_contained (like_comparison_sql env m n s op)"
  unfolding like_comparison_sql_def
  by (rule yields_bind[OF like_pattern_ok], assumption, rule yields_ret, rule self_contained_infix) (auto intro: text_cast_ok)

lemma like_side_ok:
  "self_contained m \<Longrightarrow> self_contained s \<Longrightarrow> self_contained op \<Longrightarrow> yields self_contained (like_side_sql env op m n s b)"
  by (auto simp: like_side_sql_def intro: like_comparison_ok)

lemma empty_equality_ok:
  assumes "self_contained ls" "self_contained rs"
  shows "ensures (opt_all self_contained) (empty_equality_sql env op l ls r rs)"
proof -
  have "self_contained (lit ''('' @ t @ lit '' = '' @ sq [] @ lit '' OR '' @ t @ lit '' IS NULL)'')"
    "self_contained (lit ''('' @ t @ lit '' <> '' @ sq [] @ lit '' AND '' @ t @ lit '' IS NOT NULL)'')"
    if "self_contained t" for t using that by (simp_all add: piece_simps)
  with assms show ?thesis unfolding empty_equality_sql_def Let_def
    by (intro ensures_if ensures_bind_any ensures_Inr) (simp_all add: text_cast_ok)
qed

lemma null_sql_ok: "self_contained s \<Longrightarrow> self_contained op \<Longrightarrow> self_contained (null_sql s op)"
  by (simp add: null_sql_def piece_simps)

lemma infix_ok: "self_contained s \<Longrightarrow> self_contained op \<Longrightarrow> self_contained t \<Longrightarrow> self_contained (infix_sql s op t b)"
  unfolding infix_sql_def by (simp only: if_split self_contained_infix) simp

lemma standard_ok:
  assumes "self_contained s" "self_contained t" "self_contained op"
  shows "ensures self_contained (standard_sql env op n s o' t b)"
  unfolding standard_sql_def
  by (rule ensures_bind[OF empty_equality_ok[OF assms(1,2)]])
    (auto intro!: ensures_Inr null_sql_ok infix_ok assms split: option.split)

lemma yields_raise: "yields P (liftS (Inl e))"
  by (rule yields_lift) simp

lemma yields_if: "yields P x \<Longrightarrow> yields P y \<Longrightarrow> yields P (if b then x else y)"
  by simp

lemma yields_if_cases: "(b \<Longrightarrow> yields P x) \<Longrightarrow> (\<not> b \<Longrightarrow> yields P y) \<Longrightarrow> yields P (if b then x else y)"
  by simp

lemma yields_option:
  "yields P n \<Longrightarrow> (\<And>x. v = Some x \<Longrightarrow> yields P (s x)) \<Longrightarrow> yields P (case v of None \<Rightarrow> n | Some x \<Rightarrow> s x)"
  by (cases v) auto

lemma yields_ensures: "ensures P r \<Longrightarrow> yields P (liftS r)"
  by (auto simp: ensures_def intro: yields_lift)

lemma like_pattern_bind_ok:
  assumes "self_contained u" "self_contained v" "self_contained o1"
  shows "yields self_contained (bindS (like_pattern_sql env m u) (\<lambda>p. retS (scalar_or_array_like_sql v p o1)))"
  by (rule yields_bind[OF like_pattern_ok[OF assms(1)]]) (auto intro!: yields_ret like_sql_ok assms)

lemma operator_ok:
  assumes "self_contained s" "self_contained t"
  shows "yields self_contained (operator_sql env op n s o' t b)"
  unfolding operator_sql_def
  by (auto split: option.split dest: operators_ok
      intro!: yields_ensures[OF standard_ok] like_side_ok yields_ret any_sql_ok infix_ok op_or_eq_ok like_pattern_bind_ok assms)

section \<open>Comparisons\<close>

definition ref_ok :: "collection_ref \<Rightarrow> bool" where
  "ref_ok r \<longleftrightarrow> safe_ident (cr_table_name r) \<and> opt_all self_contained (cr_column_sql r) \<and> opt_all self_contained (cr_leaf_sql r)"

lemma resolve_collection_ref_ok: "ensures ref_ok (resolve_collection_ref env n p g)"
proof -
  have san: "ensures safe_ident (sanitize_ident n)" by (simp add: ensures_def sanitize_safe)
  have col: "ensures self_contained (qualified_column t f)" for t f by (auto simp: ensures_def dest: qualified_column_ok)
  have path: "ensures (opt_all (\<lambda>rp. self_contained (rp_sql rp))) (resolve_dotted_path env ps st rels flds a b)" for ps st rels flds a b
    unfolding ensures_def by (metis opt_all.simps resolve_dotted_path_ok option.exhaust)
  show ?thesis unfolding resolve_collection_ref_def Let_def
    by (rule ensures_bind[OF san], rule ensures_bind_any, rule ensures_if)
      (auto intro!: ensures_bind_any[of _ _ "field_type_for_collection_resolver env _ _"] ensures_bind[OF col] ensures_bind[OF path]
        ensures_Inr ensures_Inl ensures_if ensures_option simp: ref_ok_def)
qed

lemma collection_ref_sql_ok: "ref_ok r \<Longrightarrow> ensures self_contained (collection_ref_sql r)"
  by (auto simp: ref_ok_def collection_ref_sql_def collection_relation_leaf_sql_def
      intro!: ensures_Inr ensures_Inl split: option.splits)

lemma wrap_ok: "self_contained leaf \<Longrightarrow> ensures self_contained (wrap_exists env p steps leaf)"
  by (auto simp: ensures_def intro: wrap_exists_ok)

lemma literal_type_node:
  "node_ok n \<Longrightarrow> \<not> is_relation_ref n \<Longrightarrow> ensures (\<lambda>m. node_ok m \<and> \<not> is_relation_ref m) (literal_for_field_type rt n t)"
  unfolding literal_for_field_type_def Let_def
  by (cases n; (auto intro!: ensures_Inr ensures_bind_any simp: is_relation_ref_def split: pyval.splits option.splits))

lemma collection_condition_ok:
  assumes "float_text (fe_rt env)" "ref_ok ref" "node_ok n" "\<not> is_relation_ref n"
  shows "yields self_contained (collection_ref_condition env ref op n b)"
proof -
  let ?lit = "if cr_leaf_type ref \<in> set DATETIME_FIELD_TYPES then literal_for_field_type (fe_rt env) n (cr_leaf_type ref) else Inr n"
  have lit: "ensures (\<lambda>m. node_ok m \<and> \<not> is_relation_ref m) ?lit"
    using assms literal_type_node by (auto intro: ensures_Inr)
  show ?thesis unfolding collection_ref_condition_def wrap_collection_relation_exists_def
    by (rule yields_bind[OF yields_ensures[OF collection_ref_sql_ok[OF assms(2)]]], rule yields_bind[OF yields_ensures[OF lit]],
        rule yields_bind[OF operand_ok[OF assms(1)]], simp, simp, rule yields_bind[OF operator_ok])
      (auto intro!: yields_ret yields_ensures wrap_ok)
qed

lemma collection_pair_ok:
  assumes "ref_ok l" "ref_ok r"
  shows "ensures cond_ok (collection_pair_condition env l op r)"
proof -
  have w: "ensures self_contained (if c then wrap_collection_relation_exists env x i else Inr i)" if "self_contained i" for c x i
    using that by (auto simp: wrap_collection_relation_exists_def intro!: wrap_ok ensures_Inr)
  have pair: "self_contained (lit ''EXISTS (SELECT 1 FROM '' @ dq (cr_table_name l) @ lit '', '' @ dq (cr_table_name r)
                         @ lit '' WHERE '' @ i @ lit '')'')" if "self_contained i" for i
    using that assms by (simp add: ref_ok_def piece_simps)
  show ?thesis unfolding collection_pair_condition_def
    by (rule ensures_bind[OF collection_ref_sql_ok[OF assms(1)]], rule ensures_bind[OF collection_ref_sql_ok[OF assms(2)]],
        rule ensures_bind[OF w[OF self_contained_infix[OF _ op_or_eq_ok(1)]]], assumption, assumption, rule ensures_bind[OF w], assumption)
      (rule ensures_if; rule ensures_Inr; use assms in \<open>simp only: cond_ok.simps ref_ok_def pair\<close>)
qed

lemma collection_comparison_ok:
  assumes "float_text (fe_rt env)" "node_ok l" "node_ok r" "\<not> is_relation_ref l" "\<not> is_relation_ref r"
  shows "yields cond_ok (collection_comparison env l op r)"
proof -
  have side: "yields cond_ok (bindS (liftS (resolve_collection_ref env n p g)) (\<lambda>ref.
     bindS (collection_ref_condition env ref op m b) (\<lambda>c. retS (CollectionCondition (cr_table_name ref) (cr_group_key ref) c))))"
    if "node_ok m" "\<not> is_relation_ref m" for n p g m b
    by (rule yields_bind[OF yields_ensures[OF resolve_collection_ref_ok]],
        rule yields_bind[OF collection_condition_ok[OF assms(1) _ that]], assumption)
      (auto intro!: yields_ret simp: ref_ok_def)
  have both: "yields cond_ok (liftS (bindE (resolve_collection_ref env n p g) (\<lambda>x. bindE (resolve_collection_ref env n2 p2 g2) (collection_pair_condition env x op))))"
    for n p g n2 p2 g2
    by (rule yields_ensures, rule ensures_bind[OF resolve_collection_ref_ok], rule ensures_bind[OF resolve_collection_ref_ok])
      (rule collection_pair_ok)
  show ?thesis using assms
    by (cases "is_collection_ref l"; cases "is_collection_ref r")
      (auto elim!: collection_refE simp: collection_comparison_sides intro!: side both yields_raise)
qed

lemma relation_condition_ok: "self_contained leaf \<Longrightarrow> ensures cond_ok (relation_condition_for_steps env steps leaf)"
proof (cases steps)
  case (Cons a list)
  have join: "ensures (\<lambda>s. self_contained s \<and> safe_ident (ts_target_table a)) (join_condition_for_step env a None)"
    by (auto simp: ensures_def dest: join_condition_ok)
  assume leaf: "self_contained leaf"
  show ?thesis unfolding relation_condition_for_steps_def Cons list.case
    by (rule ensures_bind[OF join], rule ensures_bind[OF wrap_ok[OF leaf]]) (auto intro!: ensures_Inr)
qed (simp add: relation_condition_for_steps_def ensures_Inl)

lemma relation_pair_ok:
  assumes "self_contained c1" "self_contained c2"
  shows "ensures self_contained (relation_pair_sql env s1 c1 op s2 c2)"
proof (cases "\<exists>a as b bs. s1 = a # as \<and> s2 = b # bs")
  case True
  then obtain a as b bs where s: "s1 = a # as" "s2 = b # bs" by blast
  have join: "ensures (\<lambda>s. self_contained s \<and> safe_ident (ts_target_table x)) (join_condition_for_step env x None)" for x
    by (auto simp: ensures_def dest: join_condition_ok)
  show ?thesis unfolding relation_pair_sql_def s prod.case list.case
    by (rule ensures_if[OF ensures_Inl], rule ensures_bind[OF join], rule ensures_bind[OF join], rule ensures_Inr)
      (use assms op_or_eq_ok in \<open>simp add: self_contained_def lex_append lex_lit\<close>)
next
  case False
  then show ?thesis by (auto simp: relation_pair_sql_def intro!: ensures_Inl split: list.splits)
qed

lemma relation_comparison_ok:
  assumes "float_text (fe_rt env)" "node_ok l" "node_ok r"
  shows "yields cond_ok (relation_comparison env l op r)"
proof -
  have side: "yields cond_ok (relation_side env op n s c m b)" if "self_contained c" "node_ok m" "\<not> is_relation_ref m" for n s c m b
    unfolding relation_side_def
    by (rule yields_bind[OF operand_ok[OF assms(1) that(2,3)]], rule yields_bind[OF operator_ok[OF that(1)]], assumption,
        rule yields_ensures[OF relation_condition_ok])
  have both: "yields cond_ok (liftS (bindE (relation_pair_sql env s1 c1 op s2 c2) (\<lambda>s. Inr (CStr s))))"
    if "self_contained c1" "self_contained c2" for s1 c1 s2 c2
    by (rule yields_ensures, rule ensures_bind[OF relation_pair_ok[OF that]]) (simp add: ensures_Inr)
  show ?thesis using assms(2,3)
    by (cases "is_relation_ref l"; cases "is_relation_ref r")
      (auto elim!: relation_refE simp: relation_comparison_sides intro!: side both yields_raise)
qed

lemma extract_each_ok: "yields (opt_all self_contained) (extract_each_operand env n)"
proof -
  have f: "yields (opt_all self_contained) (bindS (liftS (field_expr env f)) (\<lambda>s. retS (Some (lit ''COALESCE('' @ s @ lit ''::text[], ARRAY[]::text[])''))))" for f
    by (rule yields_bind[OF yields_lift[of _ self_contained]], erule field_expr_ok) (auto intro!: yields_ret simp: piece_simps)
  have m: "yields (opt_all self_contained) (bindS (bind_param v) (\<lambda>b. retS (Some (lit ''COALESCE(CAST('' @ b @ lit '' AS text[]), ARRAY[]::text[])''))))" for v
    by (rule yields_bind[OF bind_param_ok]) (auto intro!: yields_ret simp: piece_simps)
  show ?thesis unfolding extract_each_operand_def
    by (cases n) (auto intro!: f m yields_ret split: option.split prod.split)
qed

lemma each_item_ok:
  assumes "float_text (fe_rt env)" "node_ok n" "\<not> is_relation_ref n"
  shows "yields self_contained (build_each_item_condition env (lit ''_elem'') op n b)"
  unfolding build_each_item_condition_def
  by (rule yields_bind[OF operand_ok[OF assms]], intro yields_option yields_ret yields_ensures[OF standard_ok] like_side_ok infix_ok)
    (simp_all add: operators_ok op_or_eq_ok)

lemma each_comparison_ok:
  assumes "float_text (fe_rt env)" "node_ok l" "\<not> is_relation_ref l" "node_ok r" "\<not> is_relation_ref r"
    "opt_all self_contained a" "opt_all self_contained b"
  shows "yields self_contained (each_comparison env l op r a b)"
proof -
  have empty: "self_contained (lit ''ARRAY[]::text[]'')" by (simp add: piece_simps)
  have arr: "self_contained (case a of Some x \<Rightarrow> x | None \<Rightarrow> (case b of Some x \<Rightarrow> x | None \<Rightarrow> lit ''ARRAY[]::text[]''))"
    using assms(6,7) empty by (auto split: option.splits)
  have wrap: "self_contained (lit ''NOT EXISTS (SELECT 1 FROM unnest('' @ x @ lit '') AS _elem WHERE NOT COALESCE((''
                   @ c @ lit ''), FALSE))'')" if "self_contained x" "self_contained c" for x c
    using that by (simp add: piece_simps)
  have item: "yields self_contained (if d then build_each_item_condition env (lit ''_elem'') op r True
      else build_each_item_condition env (lit ''_elem'') op l False)" for d
    using each_item_ok[OF assms(1,2,3)] each_item_ok[OF assms(1,4,5)] by simp
  show ?thesis unfolding each_comparison_def Let_def
    by (rule yields_if[OF yields_raise], rule yields_bind[OF item], rule yields_ret, rule wrap[OF arr])
qed

lemma regular_ok:
  assumes "self_contained s" "self_contained t"
  shows "yields self_contained (regular_sql env op l s r t)"
proof -
  have null: "self_contained (x @ lit '' IS NULL'')" "self_contained (x @ lit '' IS NOT NULL'')" "self_contained (y @ lit '' = '' @ x)"
    if "self_contained x" "self_contained y" for x y using that by (simp_all add: piece_simps)
  have std: "ensures self_contained (bindE (empty_equality_sql env o1 l s r t) (\<lambda>e.
            case e of
              Some s \<Rightarrow> Inr s
            | None \<Rightarrow>
                if r = NNull \<and> o1 = lit ''='' then Inr (s @ lit '' IS NULL'')
                else if r = NNull \<and> o1 = lit ''!='' then Inr (s @ lit '' IS NOT NULL'')
                else if l = NNull \<and> o1 = lit ''='' then Inr (t @ lit '' IS NULL'')
                else if l = NNull \<and> o1 = lit ''!='' then Inr (t @ lit '' IS NOT NULL'')
                else Inr (s @ [32] @ o1 @ [32] @ t)))" if "self_contained o1" for o1
    by (rule ensures_bind[OF empty_equality_ok[OF assms]], rule ensures_option, intro ensures_if ensures_Inr)
      (auto intro!: null assms self_contained_infix that ensures_Inr simp del: append.simps append_Cons append_Nil)
  show ?thesis unfolding regular_sql_def
    by (intro yields_option yields_ensures[OF std] like_comparison_ok yields_ret any_sql_ok like_pattern_bind_ok null assms)
      (simp_all add: operators_ok)
qed

lemma coerce_node_ok:
  assumes "node_ok l" "node_ok r"
  shows "ensures (\<lambda>p. node_ok (fst p) \<and> node_ok (snd p)) (coerce_comparison_literals env l r)"
proof -
  have lit: "ensures node_ok (if b then literal_for_field_type (fe_rt env) n t else Inr n)" if "node_ok n" for b n t
  proof (cases "is_relation_ref n")
    case True
    then show ?thesis using that by (auto elim!: relation_refE simp: literal_for_field_type_def intro!: ensures_Inr)
  next
    case False
    then show ?thesis using literal_type_node[OF that False, of "fe_rt env" t] that by (auto simp: ensures_def)
  qed
  show ?thesis unfolding coerce_comparison_literals_def
    by (rule ensures_bind_any, rule ensures_bind_any, rule ensures_bind[OF lit[OF assms(2)]], rule ensures_bind[OF lit[OF assms(1)]])
      (simp add: ensures_Inr)
qed

lemma comparison_ok:
  assumes "float_text (fe_rt env)" "node_ok l0" "node_ok r0"
  shows "yields cond_ok (comparison env l0 op r0)"
proof -
  let ?co = "if py_strip op \<in> fst ` set STANDARD_OPS then coerce_comparison_literals env l0 r0 else Inr (l0, r0)"
  have co: "ensures (\<lambda>p. node_ok (fst p) \<and> node_ok (snd p)) ?co"
    using assms coerce_node_ok by (auto intro: ensures_Inr)
  have body: "yields cond_ok (bindS (extract_each_operand env l) (\<lambda>a. bindS (extract_each_operand env r) (\<lambda>b.
        if a \<noteq> None \<or> b \<noteq> None then bindS (each_comparison env l op' r a b) (\<lambda>s. retS (CStr s))
        else bindS (operand_to_sql env l) (\<lambda>s. bindS (operand_to_sql env r) (\<lambda>t.
             bindS (regular_sql env op' l s r t) (\<lambda>s. retS (CStr s)))))))"
    if n: "node_ok l" "\<not> is_relation_ref l" "node_ok r" "\<not> is_relation_ref r" for l r op'
    by (rule yields_bind[OF extract_each_ok], rule yields_bind[OF extract_each_ok], rule yields_if,
        rule yields_bind[OF each_comparison_ok[OF assms(1) n]], assumption, assumption, simp add: yields_ret,
        rule yields_bind[OF operand_ok[OF assms(1) n(1,2)]], rule yields_bind[OF operand_ok[OF assms(1) n(3,4)]],
        rule yields_bind[OF regular_ok], assumption, assumption, simp add: yields_ret)
  show ?thesis unfolding comparison_def Let_def prod.case_eq_if
    by (rule yields_bind[OF yields_ensures[OF co]], elim conjE, intro yields_if_cases body relation_comparison_ok[OF assms(1)]
        collection_comparison_ok[OF assms(1)]) auto
qed

section \<open>Logical operators and the whole clause\<close>

lemma or_part_ok: "cond_ok c \<Longrightarrow> self_contained (or_part c)"
proof (cases c)
  case (RelationCondition k t j w)
  assume "cond_ok c"
  with RelationCondition have "self_contained (join_with (lit '' AND '') [j, w])" by (intro join_ok) (auto simp: piece_simps)
  with \<open>cond_ok c\<close> RelationCondition show ?thesis by (simp add: exists_ok)
qed (auto intro: exists_ok)

lemma bracket_ok: "self_contained s \<Longrightarrow> self_contained (lit ''('' @ s @ lit '')'')"
  by (simp add: piece_simps)

lemma bracketed_ok:
  assumes "self_contained sep" "list_all self_contained ps"
  shows "self_contained (case ps of [s] \<Rightarrow> s | parts \<Rightarrow> lit ''('' @ join_with sep parts @ lit '')'')"
  using assms bracket_ok[OF join_ok[OF assms]] by (auto split: list.split)

lemma group_append_ok:
  "list_all (\<lambda>(k, cs). cs \<noteq> [] \<and> list_all P cs) gs \<Longrightarrow> P c \<Longrightarrow> list_all (\<lambda>(k, cs). cs \<noteq> [] \<and> list_all P cs) (group_append k c gs)"
  by (induction k c gs rule: group_append.induct) auto

definition coll_cond :: "cond \<Rightarrow> bool" where
  "coll_cond c \<longleftrightarrow> cond_ok c \<and> (\<exists>t g i. c = CollectionCondition t g i)"

definition rel_cond :: "cond \<Rightarrow> bool" where
  "rel_cond c \<longleftrightarrow> cond_ok c \<and> (\<exists>k t j w. c = RelationCondition k t j w)"

lemma and_groups_ok:
  "and_groups items colls rels regular = (cs, rs, ps) \<Longrightarrow> list_all cond_ok items \<Longrightarrow>
   list_all (\<lambda>(k, xs). xs \<noteq> [] \<and> list_all coll_cond xs) colls \<Longrightarrow> list_all (\<lambda>(k, xs). xs \<noteq> [] \<and> list_all rel_cond xs) rels \<Longrightarrow>
   list_all self_contained regular \<Longrightarrow>
   list_all (\<lambda>(k, xs). xs \<noteq> [] \<and> list_all coll_cond xs) cs \<and> list_all (\<lambda>(k, xs). xs \<noteq> [] \<and> list_all rel_cond xs) rs \<and>
   list_all self_contained ps"
proof (induction items arbitrary: colls rels regular)
  case (Cons item items)
  have coll: "coll_cond (CollectionCondition t g i)" if "cond_ok (CollectionCondition t g i)" for t g i
    using that by (auto simp: coll_cond_def)
  have rel: "rel_cond (RelationCondition k t j w)" if "cond_ok (RelationCondition k t j w)" for k t j w
    using that by (auto simp: rel_cond_def)
  show ?case
  proof (cases item)
    case (CollectionCondition t g i)
    with Cons.prems show ?thesis by (intro Cons.IH[of "group_append g item colls" rels regular] group_append_ok) (auto intro: coll)
  next
    case (RelationCondition k t j w)
    with Cons.prems show ?thesis by (intro Cons.IH[of colls "group_append k item rels" regular] group_append_ok) (auto intro: rel)
  next
    case (CStr x)
    with Cons.prems show ?thesis by (intro Cons.IH[of colls rels "regular @ [x]"]) auto
  qed
qed simp

lemma collection_group_ok: "xs \<noteq> [] \<Longrightarrow> list_all coll_cond xs \<Longrightarrow> self_contained (collection_group_sql xs)"
  unfolding collection_group_sql_def
  by (intro exists_ok join_ok; cases xs) (auto simp: coll_cond_def list_all_iff piece_simps)

lemma relation_group_ok: "xs \<noteq> [] \<Longrightarrow> list_all rel_cond xs \<Longrightarrow> self_contained (relation_group_sql xs)"
  unfolding relation_group_sql_def
  by (intro exists_ok join_ok; cases xs) (auto simp: rel_cond_def list_all_iff piece_simps)

lemma and_parts_ok: "list_all cond_ok items \<Longrightarrow> list_all self_contained (and_parts items)"
proof -
  assume a: "list_all cond_ok items"
  obtain cs rs ps where g: "and_groups items [] [] [] = (cs, rs, ps)" by (metis prod_cases3)
  with and_groups_ok[OF g a] show ?thesis
    by (auto simp: and_parts_def list_all_iff intro!: collection_group_ok relation_group_ok)
qed

lemma and_or_ok: "list_all cond_ok items \<Longrightarrow> self_contained (and_expr items) \<and> self_contained (or_expr items)"
proof -
  assume a: "list_all cond_ok items"
  have sep: "self_contained (lit '' AND '')" "self_contained (lit '' OR '')" by (simp_all add: piece_simps)
  have "list_all self_contained (map or_part items)" using a by (auto simp: list_all_iff intro: or_part_ok)
  with bracketed_ok[OF sep(1) and_parts_ok[OF a]] bracketed_ok[OF sep(2)] show ?thesis
    by (simp only: and_expr_def or_expr_def)
qed

lemma operand_node_ok: "ensures node_ok (operand_node env p)"
proof (cases p)
  case (OMacro name)
  have split: "ensures (\<lambda>x. safe_ident (fst x)) (split_collection_ref r)" for r
    by (auto simp: split_collection_ref_def ensures_def bindE_Inr_iff sanitize_safe split: if_splits)
  show ?thesis unfolding OMacro operand_node.simps macro_node_def Let_def prod.case_eq_if
    by (intro ensures_if ensures_bind[OF split] ensures_bind_any ensures_Inl ensures_Inr) auto
next
  case (OFieldPath items)
  have path: "ensures (opt_all (\<lambda>rp. self_contained (rp_sql rp))) (resolve_dotted_path env ps st rels flds a b)" for ps st rels flds a b
    unfolding ensures_def by (metis opt_all.simps resolve_dotted_path_ok option.exhaust)
  show ?thesis unfolding OFieldPath operand_node.simps field_path_node_def Let_def prod.case_eq_if
    by (rule ensures_if, rule ensures_bind[OF path])
      (auto intro!: ensures_Inr ensures_bind_any split: option.split)
qed (auto simp: string_node_def number_node_def intro!: ensures_Inr ensures_bind_any)

lemma transform_ok:
  assumes "float_text (fe_rt env)"
  shows "yields cond_ok (transform_tree env t)"
proof (induction t)
  case (Comparison l op r)
  show ?case unfolding transform_tree.simps
    by (rule yields_bind[OF yields_ensures[OF operand_node_ok]], rule yields_bind[OF yields_ensures[OF operand_node_ok]])
      (rule comparison_ok[OF assms])
next
  case (AndExpr ts)
  then show ?case by (auto intro!: yields_bind[OF yields_map] yields_ret simp: and_or_ok)
next
  case (OrExpr ts)
  then show ?case by (auto intro!: yields_bind[OF yields_map] yields_ret simp: and_or_ok)
qed

lemma where_text:
  assumes "\<And>t. parse s = Some t \<Longrightarrow> \<exists>ts. t = OrExpr ts" "float_text (fe_rt env)"
    and "parse_filter parse env s = Inr (sql, params)"
  shows "self_contained sql"
proof (cases "s = [] \<or> py_strip s = []")
  case True
  with assms(3) have "sql = lit ''1=1''" by (auto simp: parse_filter_def)
  then show ?thesis by (simp add: piece_simps)
next
  case False
  with assms(3) obtain t c st where t: "parse s = Some t" "transform_tree env t init_fstate = Inr (c, st)"
    "sql = (case c of CStr s \<Rightarrow> s | _ \<Rightarrow> fe_repr_cond env c)"
    by (auto simp: parse_filter_def bindE_Inr_iff split: option.splits)
  with assms(1) obtain ts x where "c = CStr x" by (auto simp: callback_simps)
  moreover have "cond_ok c" using transform_ok[OF assms(2), of t] t(2) unfolding yields_def by blast
  ultimately show ?thesis using t(3) by simp
qed

text \<open>
  C1: Every WHERE clause that \<open>parse_filter\<close> returns is lexically self-contained.  Its quotes are balanced, no
  parenthesis of the surrounding statement is closed, every parenthesis it opens is closed, and outside quotes there is
  no statement separator, comment start, dollar quote or backslash.  The hypotheses are that Lark keeps the
  \<open>or_expr\<close> node at the root of the tree and that \<open>str\<close> of a float is itself self-contained.
\<close>

theorem filter_sql_self_contained:
  assumes "\<And>t. parse s = Some t \<Longrightarrow> \<exists>ts. t = OrExpr ts" "float_text (fe_rt env)"
    and "parse_filter parse env s = Inr (sql, params)"
  shows "self_contained sql"
  using assms by (rule where_text)

theorem filter_sql_self_contained_witness:
  "self_contained (fst (projr (parse_filter sample_parse sample_env (lit ''name='' @ sq [97]))))"
proof -
  have root: "\<exists>ts. t = OrExpr ts" if "sample_parse (lit ''name='' @ sq [97]) = Some t" for t
    using that by (auto simp: sample_parse_def sample_tree_def split: if_splits)
  have float: "float_text (fe_rt sample_env)"
    by (auto simp: float_text_def sample_env_def sample_rt_def self_contained_def)
  have r: "parse_filter sample_parse sample_env (lit ''name='' @ sq [97]) =
      Inr (dq (lit ''name'') @ lit '' = :_fp1'', [(param_name 1, PStr [97])])"
    using sample_filter[of 97 "[]"] by (simp add: with_own_context)
  show ?thesis using filter_sql_self_contained[OF root float r] by (simp add: r)
qed

end
