(* ===== verification/Filter_Facts.thy ===== *)
theory Filter_Facts
  imports Filter_Lexical
begin

text \<open>
  What the filter compiler does on ordinary input: quoted text survives escaping, dotted paths take a bounded
  number of hops, ordinary filters compile, conditions on the same collection or relation share one \<open>EXISTS\<close>, and sort
  expressions give one safe column per part.
\<close>

section \<open>Quoted text\<close>

text \<open>The inverse of \<open>unescape_text\<close>: a backslash in front of every backslash and single quote.\<close>

definition escape_text :: "pystr \<Rightarrow> pystr" where
  "escape_text s = concat (map (\<lambda>c. if c = 92 \<or> c = 39 then [92, c] else [c]) s)"

text \<open>The terminal \<open>SINGLE_STRING\<close>: a quote, then ordinary characters and backslash pairs, then a quote at the end.\<close>

fun single_string_body :: "pystr \<Rightarrow> bool" where
  "single_string_body [] = False"
| "single_string_body [c] = (c = 39)"
| "single_string_body (c # d # cs) =
     (if c = 39 then False else if c = 92 then single_string_body cs else single_string_body (d # cs))"

definition single_string :: "pystr \<Rightarrow> bool" where
  "single_string tok = (case tok of c # cs \<Rightarrow> c = 39 \<and> single_string_body cs | [] \<Rightarrow> False)"

lemma unescape_plain: "c \<noteq> 92 \<Longrightarrow> unescape_loop (c # cs) = c # unescape_loop cs"
  by (cases cs) auto

lemma unescape_escape: "unescape_loop (escape_text s) = s"
  by (induction s) (auto simp: escape_text_def unescape_plain text_escape_def)

lemma escape_no_backslash: "92 \<notin> set (escape_text s) \<Longrightarrow> escape_text s = s"
  by (induction s) (auto simp: escape_text_def split: if_splits)

lemma single_string_plain: "c \<noteq> 92 \<Longrightarrow> c \<noteq> 39 \<Longrightarrow> cs \<noteq> [] \<Longrightarrow> single_string_body (c # cs) = single_string_body cs"
  by (cases cs) auto

lemma single_string_escape: "single_string_body (escape_text s @ [39])"
proof (induction s)
  case (Cons c cs)
  then show ?case by (cases "c = 92 \<or> c = 39") (auto simp: escape_text_def single_string_plain)
qed (simp add: escape_text_def)

text \<open>
  Any text can be written in a filter.  Putting a backslash in front of every backslash and quote and single quotes
  around it gives a token of the grammar's \<open>SINGLE_STRING\<close> terminal, and the transformer reads exactly the text back.
\<close>

theorem quoted_text_round_trip:
  "single_string (sq (escape_text s)) \<and> operand_node env (OString (sq (escape_text s))) = Inr (NLiteral (PStr s))"
proof -
  have "unescape_text (escape_text s) = s"
    using unescape_escape escape_no_backslash by (simp add: unescape_text_def)
  then show ?thesis using single_string_escape by (simp add: string_node_def sq_def single_string_def)
qed

section \<open>Dotted paths\<close>

lemma resolve_path_steps:
  "resolve_path_loop env flat allow opt t rels flds steps parts = Inr (Some rp) \<Longrightarrow>
     length (rp_steps rp) < length steps + length parts"
proof -
  have "ensures (opt_all (\<lambda>rp. length (rp_steps rp) < length steps + length parts))
      (resolve_path_loop env flat allow opt t rels flds steps parts)"
  proof (induction parts arbitrary: t rels flds steps)
    case (Cons part ps)
    show ?case
    proof (cases ps)
      case Nil
      then show ?thesis by (auto intro!: ensures_bind_any ensures_Inr)
    next
      case (Cons nxt rest)
      have IH: "ensures (opt_all (\<lambda>rp. length (rp_steps rp) < length steps + length (part # nxt # rest)))
          (resolve_path_loop env flat allow opt t' rels' flds' (steps @ [s]) (nxt # rest))" for t' rels' flds' s
        using Cons.IH[of "steps @ [s]" t' rels' flds'] Cons by simp
      show ?thesis unfolding Cons resolve_path_loop.simps Let_def
        by (intro ensures_if ensures_option ensures_Inl ensures_Inr ensures_bind_any IH) simp_all
    qed
  qed (simp add: ensures_Inr)
  then show "resolve_path_loop env flat allow opt t rels flds steps parts = Inr (Some rp) \<Longrightarrow> ?thesis"
    by (auto simp: ensures_def)
qed

text \<open>
  Resolving a dotted path takes fewer relation hops than the path has segments, whatever the resolver metadata
  says, cyclic metadata included: following relations terminates.
\<close>

theorem path_hops_bounded:
  assumes "resolve_dotted_path env parts start rels flds allow opt = Inr (Some rp)"
  shows "length (rp_steps rp) < length parts"
proof -
  from assms obtain t fl rl fs where "resolve_path_loop env fl allow opt t rl fs [] parts = Inr (Some rp)"
    by (auto simp: resolve_dotted_path_def bindE_Inr_iff mapE_sanitize Let_def split: if_splits)
  from resolve_path_steps[OF this] show ?thesis by simp
qed

definition cyclic_resolver :: pyval where
  "cyclic_resolver =
     PDict [(lit ''__flat__'', PBool True),
            (lit ''collections'', PDict [(lit ''nodes'', PDict [(lit ''relations'',
               PDict [(lit ''parent'', PDict [(lit ''table'', PStr (lit ''nodes''))])])])])]"

lemma path_names_safe:
  "list_all safe_ident_char (lit ''nodes'')" "list_all safe_ident_char (lit ''parent'')" "list_all safe_ident_char (lit ''name'')"
  by (simp_all add: safe_ident_char_def lit_def)

lemmas path_eval = resolve_dotted_path_def sanitize_ident_def path_names_safe is_flat_resolver_def cyclic_resolver_def
  dict_get_def flat_fields_def flat_collection_def sub_dict_def as_record_def flat_relation_info_def step_from_info_def
  dict_get_or_def column_expr_for_table_def qualified_column_def

lemma cyclic_path:
  "resolve_dotted_path sample_env [lit ''parent'', lit ''parent'', lit ''name''] (lit ''nodes'') cyclic_resolver PNone True False =
     Inr (Some \<lparr>rp_steps = replicate 2 \<lparr>ts_relation_key = lit ''parent'', ts_target_table = lit ''nodes'', ts_max_select = 1,
                 ts_kind = lit ''forward'', ts_source_field = lit ''parent'', ts_back_field = None\<rparr>,
               rp_sql = dq (lit ''nodes'') @ [46] @ dq (lit ''name''), rp_is_json = False, rp_field_type = []\<rparr>)"
  by (simp add: path_eval Let_def SYSTEM_FIELD_TYPES_def numeral_2_eq_2 sample_env_def)

theorem path_hops_bounded_witness:
  "length (rp_steps (the (projr (resolve_dotted_path sample_env [lit ''parent'', lit ''parent'', lit ''name''] (lit ''nodes'')
     cyclic_resolver PNone True False)))) < 3"
  using path_hops_bounded[OF cyclic_path] by (simp add: cyclic_path)

section \<open>Grouping in conjunctions\<close>

text \<open>The reference: keys in the order of their first occurrence, each with the conditions that have it, in order.\<close>

definition first_keys :: "pystr list \<Rightarrow> pystr list" where
  "first_keys ks = rev (remdups (rev ks))"

definition grouped :: "('a \<Rightarrow> pystr) \<Rightarrow> 'a list \<Rightarrow> (pystr \<times> 'a list) list" where
  "grouped f xs = map (\<lambda>k. (k, filter (\<lambda>x. f x = k) xs)) (first_keys (map f xs))"

definition is_coll_cond :: "cond \<Rightarrow> bool" where
  "is_coll_cond c = (case c of CollectionCondition _ _ _ \<Rightarrow> True | _ \<Rightarrow> False)"

definition is_rel_cond :: "cond \<Rightarrow> bool" where
  "is_rel_cond c = (case c of RelationCondition _ _ _ _ \<Rightarrow> True | _ \<Rightarrow> False)"

fun plain_sql :: "cond list \<Rightarrow> pystr list" where
  "plain_sql [] = []"
| "plain_sql (CStr s # cs) = s # plain_sql cs"
| "plain_sql (c # cs) = plain_sql cs"

lemma first_keys_snoc: "first_keys (ks @ [k]) = (if k \<in> set ks then first_keys ks else first_keys ks @ [k])"
  by (simp add: first_keys_def)

lemma set_first_keys [simp]: "set (first_keys ks) = set ks" and distinct_first_keys [simp]: "distinct (first_keys ks)"
  by (simp_all add: first_keys_def)

lemma group_append_map:
  "distinct ks \<Longrightarrow> group_append k x (map (\<lambda>j. (j, F j)) ks) =
     (if k \<in> set ks then map (\<lambda>j. (j, if j = k then F j @ [x] else F j)) ks else map (\<lambda>j. (j, F j)) ks @ [(k, [x])])"
  by (induction ks) auto

lemma grouped_snoc: "group_append (f x) x (grouped f xs) = grouped f (xs @ [x])"
proof (cases "f x \<in> f ` set xs")
  case True
  then show ?thesis
    unfolding grouped_def by (subst group_append_map) (auto simp: first_keys_snoc intro!: map_cong)
next
  case False
  then have "filter (\<lambda>y. f y = f x) xs = []" unfolding filter_empty_conv by (metis imageI)
  moreover have "map (\<lambda>k. (k, filter (\<lambda>y. f y = k) (xs @ [x]))) (first_keys (map f xs)) =
      map (\<lambda>k. (k, filter (\<lambda>y. f y = k) xs)) (first_keys (map f xs))"
    using False by (intro map_cong) auto
  ultimately show ?thesis using False
    unfolding grouped_def by (subst group_append_map) (auto simp: first_keys_snoc)
qed

lemma and_groups_grouped:
  "and_groups items (grouped cc_group cs) (grouped rc_key rs) ps =
     (grouped cc_group (cs @ filter is_coll_cond items), grouped rc_key (rs @ filter is_rel_cond items), ps @ plain_sql items)"
proof (induction items arbitrary: cs rs ps)
  case (Cons item items)
  show ?case
  proof (cases item)
    case (CollectionCondition t g i)
    with Cons.IH[of "cs @ [item]" rs ps] grouped_snoc[of cc_group item cs] show ?thesis
      by (simp add: is_coll_cond_def is_rel_cond_def)
  next
    case (RelationCondition k t j w)
    with Cons.IH[of cs "rs @ [item]" ps] grouped_snoc[of rc_key item rs] show ?thesis
      by (simp add: is_coll_cond_def is_rel_cond_def)
  next
    case (CStr s)
    with Cons.IH[of cs rs "ps @ [s]"] show ?thesis by (simp add: is_coll_cond_def is_rel_cond_def)
  qed
qed simp

text \<open>
  The conjuncts of an \<open>&&\<close> clause are its plain conditions, then one \<open>EXISTS\<close> per referenced collection (or
  alias) and one per relation field, in the order of first use; each \<open>EXISTS\<close> holds exactly the conditions with its
  key, so that all of them apply to the same row.
\<close>

theorem and_parts_grouped:
  "and_parts items =
     plain_sql items
     @ map (\<lambda>(k, cs). collection_group_sql cs) (grouped cc_group (filter is_coll_cond items))
     @ map (\<lambda>(k, cs). relation_group_sql cs) (grouped rc_key (filter is_rel_cond items))"
proof -
  have "grouped f [] = []" for f :: "cond \<Rightarrow> pystr" by (simp add: grouped_def first_keys_def)
  then show ?thesis using and_groups_grouped[of items "[]" "[]" "[]"] by (simp add: and_parts_def)
qed

section \<open>Sort expressions\<close>

definition sort_column :: "pystr \<Rightarrow> bool" where
  "sort_column s \<longleftrightarrow> s = lit ''RANDOM()'' \<or> s = lit ''ctid'' \<or> list_all sort_field_char s \<or> (\<exists>f. safe_ident f \<and> s = dq f)"

lemma sort_part_ok: "parse_sort_part p = Inr (col, dir) \<Longrightarrow> self_contained col \<and> sort_column col \<and> (dir = lit ''ASC'' \<or> dir = lit ''DESC'')"
proof -
  assume p: "parse_sort_part p = Inr (col, dir)"
  have safe: "safe_ident f" if "list_all sort_field_char f" "46 \<notin> set f" for f
    using that by (auto simp: safe_ident_def sort_field_char_def list_all_iff)
  from p consider "col = lit ''RANDOM()''" "dir = lit ''ASC''" | "col = lit ''ctid''" "dir = lit ''ASC''"
    | "list_all sort_field_char col" "dir = lit ''ASC'' \<or> dir = lit ''DESC''"
    | f where "safe_ident f" "col = dq f" "dir = lit ''ASC'' \<or> dir = lit ''DESC''"
    by (auto simp: parse_sort_part_def Let_def dest: safe split: if_splits)
  then show ?thesis
    by cases (auto simp: sort_column_def self_contained_def lex_append lex_lit lex_code sort_field_char_def[abs_def])
qed

text \<open>
  \<open>parse_sort\<close> gives one entry per non-blank part, each with direction ASC or DESC and a column that is
  \<open>RANDOM()\<close>, \<open>ctid\<close>, a dotted name or a quoted name over the safe identifier characters.
\<close>

theorem sort_entries_safe:
  assumes "parse_sort s = Inr entries"
  shows "length entries = length (filter (\<lambda>p. p \<noteq> []) (map py_strip (split_on 44 s))) \<and>
    (\<forall>e \<in> set entries. self_contained (fst e) \<and> sort_column (fst e) \<and> (snd e = lit ''ASC'' \<or> snd e = lit ''DESC''))"
proof (cases "s = [] \<or> py_strip s = []")
  case True
  have "filter (\<lambda>p. p \<noteq> []) (map py_strip (split_on 44 s)) = []" if "py_strip s = []"
  proof -
    have sp: "list_all is_space s" using that
      by (auto simp: py_strip_def list_all_iff dropWhile_eq_Nil_conv dest: set_dropWhileD)
        (metis dropWhile_eq_Nil_conv set_rev set_dropWhileD takeWhile_dropWhile_id Un_iff set_append set_takeWhileD)
    then have "44 \<notin> set s" by (auto simp: list_all_iff is_space_def)
    with that show ?thesis by (simp add: split_on_id)
  qed
  moreover have "py_strip s = []" using True by auto
  ultimately show ?thesis using assms by (simp only: parse_sort_def) simp
next
  case False
  with assms have m: "mapE parse_sort_part (filter (\<lambda>p. p \<noteq> []) (map py_strip (split_on 44 s))) = Inr entries"
    by (simp add: parse_sort_def)
  have "\<forall>e \<in> set ys. \<exists>p. parse_sort_part p = Inr e" if "list_all2 (\<lambda>x y. parse_sort_part x = Inr y) xs ys" for xs ys
    using that by (induction rule: list_all2_induct) auto
  then have "\<forall>e \<in> set entries. \<exists>p. parse_sort_part p = Inr e" using mapE_Inr_list_all2[OF m] by blast
  then have "self_contained (fst e) \<and> sort_column (fst e) \<and> (snd e = lit ''ASC'' \<or> snd e = lit ''DESC'')" if e: "e \<in> set entries" for e
  proof -
    from \<open>\<forall>e \<in> set entries. \<exists>p. parse_sort_part p = Inr e\<close> e obtain p where "parse_sort_part p = Inr (fst e, snd e)" by fastforce
    from sort_part_ok[OF this] show ?thesis .
  qed
  with mapE_Inr_length[OF m] show ?thesis by blast
qed

theorem sort_entries_safe_witness:
  "length (projr (parse_sort (lit ''-created''))) = 1 \<and> sort_column (fst (hd (projr (parse_sort (lit ''-created'')))))"
proof -
  have r: "parse_sort (lit ''-created'') = Inr [(dq (lit ''created''), lit ''DESC'')]"
    by (simp add: parse_sort_def parse_sort_part_def lit_def py_strip_def is_space_def sort_field_char_def safe_ident_char_def Let_def)
  from sort_entries_safe[OF r] show ?thesis by (simp add: r)
qed

section \<open>Ordinary filters compile\<close>

definition succeeds :: "'a fm \<Rightarrow> bool" where
  "succeeds m \<longleftrightarrow> (\<forall>st. \<exists>x st'. m st = Inr (x, st'))"

text \<open>
  Operands with quoted text, booleans, \<open>null\<close> or a field name that is not a date (an out-of-range date raises), on a
  table whose name is an identifier.
\<close>

definition plain_field :: "filter_env \<Rightarrow> pystr \<Rightarrow> bool" where
  "plain_field env f \<longleftrightarrow> safe_ident f \<and>
     (case field_type_for_table env (fe_table env) f of Inr t \<Rightarrow> t \<notin> set DATETIME_FIELD_TYPES | Inl _ \<Rightarrow> False)"

fun plain_operand :: "filter_env \<Rightarrow> operand \<Rightarrow> bool" where
  "plain_operand env (OFieldPath [f]) = plain_field env f"
| "plain_operand env (OFieldPath _) = False"
| "plain_operand env (ONumber _) = False"
| "plain_operand env (OMacro _) = False"
| "plain_operand env _ = True"

fun plain_tree :: "filter_env \<Rightarrow> ftree \<Rightarrow> bool" where
  "plain_tree env (Comparison l op r) = (plain_operand env l \<and> plain_operand env r)"
| "plain_tree env (AndExpr ts) = list_all (plain_tree env) ts"
| "plain_tree env (OrExpr ts) = list_all (plain_tree env) ts"

fun plain_node :: "filter_env \<Rightarrow> node \<Rightarrow> bool" where
  "plain_node env (NLiteral v) = True"
| "plain_node env NNull = True"
| "plain_node env (NField f t) = (safe_ident f \<and> plain_field env f \<and> t \<notin> set DATETIME_FIELD_TYPES)"
| "plain_node env _ = False"

lemma total_ret: "succeeds (retS x)" "succeeds (liftS (Inr x))"
  by (simp_all add: succeeds_def retS_def liftS_def)

lemma total_param: "succeeds (bind_param v)"
  by (simp add: succeeds_def bind_param_def next_param_def Let_def)

lemma total_bind:
  assumes "succeeds m" "\<And>x. succeeds (f x)"
  shows "succeeds (bindS m f)"
  unfolding succeeds_def
proof
  fix st
  obtain x s where "m st = Inr (x, s)" using assms(1) unfolding succeeds_def by blast
  moreover obtain y s' where "f x s = Inr (y, s')" using assms(2) unfolding succeeds_def by blast
  ultimately show "\<exists>x st'. bindS m f st = Inr (x, st')" by (auto simp: bindS_def)
qed

lemma total_lift: "is_ok r \<Longrightarrow> succeeds (liftS r)"
  by (auto simp: is_ok_iff total_ret)

lemma total_map: "(\<And>x. x \<in> set xs \<Longrightarrow> succeeds (f x)) \<Longrightarrow> succeeds (map_callbacks f xs)"
  by (induction xs) (auto intro!: total_ret total_bind)

lemma total_if: "succeeds x \<Longrightarrow> succeeds y \<Longrightarrow> succeeds (if b then x else y)"
  by simp

lemma total_option: "succeeds n \<Longrightarrow> (\<And>x. succeeds (s x)) \<Longrightarrow> succeeds (case v of None \<Rightarrow> n | Some x \<Rightarrow> s x)"
  by (cases v) auto

lemma safe_no: "safe_ident f \<Longrightarrow> 58 \<notin> set f \<and> 46 \<notin> set f"
  by (auto simp: safe_ident_def list_all_iff safe_ident_char_def)

lemma plain_operand_node:
  assumes "plain_operand env p"
  shows "\<exists>n. operand_node env p = Inr n \<and> plain_node env n"
proof (cases "(env, p)" rule: plain_operand.cases)
  case (1 e f)
  with assms have f: "plain_field env f" by simp
  then obtain t where t: "field_type_for_table env (fe_table env) f = Inr t" "t \<notin> set DATETIME_FIELD_TYPES"
    by (auto simp: plain_field_def split: sum.splits)
  have "split_modifier f = (f, None)" using f safe_no[of f] by (simp add: split_modifier_def plain_field_def)
  with 1 f t show ?thesis by (auto simp: field_path_node_def plain_field_def)
qed (use assms in \<open>auto simp: string_node_def\<close>)

lemma plain_type: "plain_node env n \<Longrightarrow> \<exists>t. operand_field_type env n = Inr t \<and> t \<notin> set DATETIME_FIELD_TYPES"
  by (cases n) (auto simp: operand_field_type_def plain_field_def DATETIME_FIELD_TYPES_def split: sum.splits)

lemma plain_sql_total:
  assumes "opt_all safe_ident (fe_table env)" "plain_node env n"
  shows "succeeds (operand_to_sql env n)"
proof (cases n)
  case (NLiteral v)
  then show ?thesis by (cases v) (auto simp: operand_to_sql.simps intro: total_ret total_param)
next
  case (NField f t)
  then have "list_all (\<lambda>c. safe_ident_char c \<or> c = 46) f" using assms by (auto simp: safe_ident_def list_all_iff)
  with NField assms have "is_ok (field_expr env f)"
    by (auto simp: field_expr_def qualified_column_def sanitize_ident_def safe_ident_def split: option.split)
  with NField show ?thesis by (simp add: operand_to_sql.simps total_lift)
qed (use assms in \<open>auto simp: operand_to_sql.simps intro: total_ret\<close>)

lemma plain_empty_ok:
  assumes "plain_node env l" "plain_node env r"
  shows "is_ok (empty_equality_sql env op l s r t)"
proof -
  have "is_ok (is_json_operand env n)" if "plain_node env n" for n
    using plain_type[OF that] that by (cases n) (auto simp: is_json_operand_def)
  with assms have "is_ok (is_json_operand env l)" "is_ok (is_json_operand env r)" by auto
  then show ?thesis by (auto simp: empty_equality_sql_def Let_def is_ok_iff)
qed

lemma total_like: "succeeds (like_pattern_sql env n s)"
  by (cases n) (auto simp: like_pattern_sql_def intro: total_ret total_param)

lemma plain_regular_total:
  assumes "plain_node env l" "plain_node env r"
  shows "succeeds (regular_sql env op l s r t)"
proof -
  have std: "is_ok (bindE m (\<lambda>e. case e of Some x \<Rightarrow> Inr x | None \<Rightarrow>
       if c1 then Inr x1 else if c2 then Inr x2 else if c3 then Inr x3 else if c4 then Inr x4 else Inr x5))"
    if "is_ok m" for m :: "pyexn + pystr option" and c1 c2 c3 c4 and x1 x2 x3 x4 x5 :: pystr
    using that by (auto simp: is_ok_iff split: option.split)
  show ?thesis unfolding regular_sql_def like_comparison_sql_def
    by (intro total_option total_lift[OF std] plain_empty_ok[OF assms] total_bind[OF total_like] total_ret)
qed

lemma plain_comparison_total:
  assumes "opt_all safe_ident (fe_table env)" "plain_node env l" "plain_node env r"
  shows "succeeds (comparison env l op r)"
proof -
  obtain lt rt where "operand_field_type env l = Inr lt" "lt \<notin> set DATETIME_FIELD_TYPES"
    "operand_field_type env r = Inr rt" "rt \<notin> set DATETIME_FIELD_TYPES"
    using plain_type assms by blast
  then have co: "(if b then coerce_comparison_literals env l r else Inr (l, r)) = Inr (l, r)" for b
    by (simp add: coerce_comparison_literals_def)
  have kinds: "\<not> is_relation_ref n" "\<not> is_collection_ref n" "extract_each_operand env n = retS None" if "plain_node env n" for n
    using that by (cases n; simp add: is_relation_ref_def is_collection_ref_def extract_each_operand_def)+
  have ret: "bindS (retS x) f = f x" "bindS (liftS (Inr y)) g = g y" for x :: "pystr option" and f :: "pystr option \<Rightarrow> cond fm" and y :: "node \<times> node" and g :: "node \<times> node \<Rightarrow> cond fm"
    by (simp_all add: bindS_def retS_def liftS_def)
  show ?thesis unfolding comparison_def Let_def co ret prod.case
    by (simp add: kinds assms ret total_bind plain_sql_total plain_regular_total total_ret)
qed

lemma plain_transform_total:
  assumes "opt_all safe_ident (fe_table env)"
  shows "plain_tree env t \<Longrightarrow> succeeds (transform_tree env t)"
proof (induction t)
  case (Comparison l op r)
  then obtain ln rn where "operand_node env l = Inr ln" "plain_node env ln" "operand_node env r = Inr rn" "plain_node env rn"
    using plain_operand_node by (metis plain_tree.simps(1))
  then show ?case using plain_comparison_total[OF assms] by (simp add: succeeds_def bindS_def liftS_def)
qed (auto intro!: total_bind total_map total_ret simp: list_all_iff)

text \<open>
  A filter that the grammar accepts and whose operands are quoted text, booleans, \<open>null\<close> and non-date fields always
  compiles: every operator, every nesting of \<open>&&\<close>, \<open>||\<close> and parentheses, and every text give a WHERE clause.
\<close>

theorem plain_filter_compiles:
  assumes "parse s = Some t" "plain_tree env t" "opt_all safe_ident (fe_table env)"
  shows "\<exists>sql params. parse_filter parse env s = Inr (sql, params)"
proof -
  obtain c st where "transform_tree env t init_fstate = Inr (c, st)"
    using plain_transform_total[OF assms(3,2)] unfolding succeeds_def by blast
  moreover have "(case fe_table env of Some u \<Rightarrow> if u \<noteq> [] then bindE (sanitize_ident u) (\<lambda>_. Inr ()) else Inr () | None \<Rightarrow> Inr ()) = Inr ()"
    using assms(3) by (auto simp: sanitize_ident_def safe_ident_def split: option.split)
  ultimately show ?thesis using assms(1) by (simp add: parse_filter_def)
qed

theorem plain_filter_compiles_witness:
  "\<exists>sql params. parse_filter sample_parse sample_env (lit ''name='' @ sq [97]) = Inr (sql, params)"
proof (rule plain_filter_compiles)
  show "sample_parse (lit ''name='' @ sq [97]) = Some (sample_tree [97])" by (simp add: sample_parse_def)
  have n: "list_all safe_ident_char (lit ''name'')" by (simp add: safe_ident_char_def lit_def)
  show "plain_tree sample_env (sample_tree [97])"
    by (simp add: sample_tree_def plain_field_def safe_ident_def n field_type_for_table_def sanitize_ident_def sample_env_def
        SYSTEM_FIELD_TYPES_def is_flat_resolver_def resolver_fields_def sub_dict_def as_record_def dict_get_def DATETIME_FIELD_TYPES_def)
  show "opt_all safe_ident (fe_table sample_env)" by (simp add: sample_env_def)
qed

end
