(* ===== verification/Filter_Grammar.thy ===== *)
theory Filter_Grammar
  imports Filter_Sql
begin

text \<open>
  The filter grammar of \<open>services/filter_parser.py\<close>: its terminals, the ignored white space and comments, and its
  productions, as a relation between a text and the trees the parser may return for it.  A scanner that follows quotes
  and comments gives the places where an expression can be cut; it shows what becomes of a rule and a filter that are
  pasted together as \<open>(rule) && (filter)\<close>.
\<close>

section \<open>Terminals\<close>

datatype token =
    TOr | TAnd | TOpen | TClose | TDot
  | TOperator pystr | TString pystr | TNumber pystr | TWord pystr | TMacro pystr

definition OPERATORS :: "pystr list" where
  "OPERATORS = map lit [''?!~'', ''?!='', ''?>='', ''?<='', ''?>'', ''?<'', ''?~'', ''?='',
     ''!~'', ''!='', ''>='', ''<='', ''>'', ''<'', ''~'', ''='']"

text \<open>The text between two quotes: a backslash takes the next character with it.\<close>

fun string_body :: "nat \<Rightarrow> pystr \<Rightarrow> bool" where
  "string_body q [] = True"
| "string_body q (c # cs) =
     (if c = 92 then (case cs of [] \<Rightarrow> False | _ # cs' \<Rightarrow> string_body q cs')
      else c \<noteq> q \<and> string_body q cs)"

definition quoted_string :: "pystr \<Rightarrow> bool" where
  "quoted_string s \<longleftrightarrow>
     2 \<le> length s \<and> hd s \<in> {34, 39} \<and> last s = hd s \<and> string_body (hd s) (butlast (tl s))"

definition int_text :: "pystr \<Rightarrow> bool" where
  "int_text s \<longleftrightarrow> s \<noteq> [] \<and> list_all is_ascii_digit s"

definition decimal_text :: "pystr \<Rightarrow> bool" where
  "decimal_text s \<longleftrightarrow>
     (let a = takeWhile (\<lambda>c. c \<noteq> 46) s; b = drop (length a) s
      in b \<noteq> [] \<and> list_all is_ascii_digit a \<and> list_all is_ascii_digit (tl b) \<and> (a \<noteq> [] \<or> tl b \<noteq> []))"

definition drop_sign :: "pystr \<Rightarrow> pystr" where
  "drop_sign s = (if s \<noteq> [] \<and> hd s \<in> {43, 45} then tl s else s)"

definition signed_number :: "pystr \<Rightarrow> bool" where
  "signed_number s \<longleftrightarrow>
     (let u = drop_sign s; m = takeWhile (\<lambda>c. c \<noteq> 101 \<and> c \<noteq> 69) u; e = drop (length m) u
      in (int_text m \<or> decimal_text m) \<and> (e = [] \<or> int_text (drop_sign (tl e))))"

definition field_ident :: "pystr \<Rightarrow> bool" where
  "field_ident s \<longleftrightarrow> s \<noteq> [] \<and> (ascii_alpha (hd s) \<or> hd s = 95) \<and>
     list_all (\<lambda>c. ascii_alpha c \<or> is_ascii_digit c \<or> c = 95 \<or> c = 58) s"

definition macro_text :: "pystr \<Rightarrow> bool" where
  "macro_text s \<longleftrightarrow> 2 \<le> length s \<and> hd s = 64 \<and> (ascii_alpha (s ! 1) \<or> s ! 1 = 95) \<and>
     list_all (\<lambda>c. ascii_alpha c \<or> is_ascii_digit c \<or> c = 95 \<or> c = 46 \<or> c = 58) (tl s)"

fun token_ok :: "token \<Rightarrow> bool" where
  "token_ok (TOperator s) = (s \<in> set OPERATORS)"
| "token_ok (TString s) = quoted_string s"
| "token_ok (TNumber s) = signed_number s"
| "token_ok (TWord s) = field_ident s"
| "token_ok (TMacro s) = macro_text s"
| "token_ok _ = True"

fun token_text :: "token \<Rightarrow> pystr" where
  "token_text TOr = [124, 124]"
| "token_text TAnd = [38, 38]"
| "token_text TOpen = [40]"
| "token_text TClose = [41]"
| "token_text TDot = [46]"
| "token_text (TOperator s) = s"
| "token_text (TString s) = s"
| "token_text (TNumber s) = s"
| "token_text (TWord s) = s"
| "token_text (TMacro s) = s"

text \<open>
  The ways to read a text as terminals, with white space and comments ignored.  A comment runs to the end of its line.
  Two terminals of word characters never follow each other in a sentence, so that reading less than the longest
  match of a pattern adds no sentence.
\<close>

inductive lexes :: "pystr \<Rightarrow> token list \<Rightarrow> bool" where
  lexes_end: "lexes [] []"
| lexes_space: "c \<in> {9, 10, 12, 13, 32} \<Longrightarrow> lexes s ts \<Longrightarrow> lexes (c # s) ts"
| lexes_comment: "10 \<notin> set body \<Longrightarrow> s = [] \<or> hd s = 10 \<Longrightarrow> lexes s ts \<Longrightarrow> lexes (47 # 47 # body @ s) ts"
| lexes_token: "token_ok t \<Longrightarrow> lexes s ts \<Longrightarrow> lexes (token_text t @ s) (t # ts)"

section \<open>Productions\<close>

inductive dotted :: "token list \<Rightarrow> pystr list \<Rightarrow> bool" where
  "dotted [TWord w] [w]"
| "dotted ts ws \<Longrightarrow> dotted (TWord w # TDot # ts) (w # ws)"

inductive operand_tokens :: "token list \<Rightarrow> operand \<Rightarrow> bool" where
  operand_string: "operand_tokens [TString s] (OString s)"
| operand_number: "operand_tokens [TNumber s] (ONumber s)"
| operand_true: "operand_tokens [TWord (lit ''true'')] OTrue"
| operand_false: "operand_tokens [TWord (lit ''false'')] OFalse"
| operand_null: "operand_tokens [TWord (lit ''null'')] ONull"
| operand_blank: "q \<in> {34, 39} \<Longrightarrow> operand_tokens [TString [q, q]] ONull"
| operand_macro: "operand_tokens [TMacro s] (OMacro s)"
| operand_path: "dotted ts ws \<Longrightarrow> operand_tokens ts (OFieldPath ws)"

inductive atom_tokens :: "token list \<Rightarrow> ftree \<Rightarrow> bool"
  and and_tokens :: "token list \<Rightarrow> ftree list \<Rightarrow> bool"
  and or_tokens :: "token list \<Rightarrow> ftree list \<Rightarrow> bool" where
  atom_comparison: "operand_tokens a x \<Longrightarrow> operand_tokens b y \<Longrightarrow> atom_tokens (a @ TOperator p # b) (Comparison x p y)"
| atom_group: "or_tokens ts us \<Longrightarrow> atom_tokens (TOpen # ts @ [TClose]) (OrExpr us)"
| and_single: "atom_tokens ts t \<Longrightarrow> and_tokens ts [t]"
| and_more: "atom_tokens a t \<Longrightarrow> and_tokens b us \<Longrightarrow> and_tokens (a @ TAnd # b) (t # us)"
| or_single: "and_tokens ts us \<Longrightarrow> or_tokens ts [AndExpr us]"
| or_more: "and_tokens a us \<Longrightarrow> or_tokens b vs \<Longrightarrow> or_tokens (a @ TOr # b) (AndExpr us # vs)"

definition sentence :: "pystr \<Rightarrow> ftree \<Rightarrow> bool" where
  "sentence s t \<longleftrightarrow> (\<exists>ts us. lexes s ts \<and> or_tokens ts us \<and> t = OrExpr us)"

section \<open>Scanning quotes and comments\<close>

datatype scan_mode = Plain | Quoted nat | Escaped nat | Remark

fun text_step :: "scan_mode \<Rightarrow> nat \<Rightarrow> scan_mode" where
  "text_step Plain c = (if c = 34 \<or> c = 39 then Quoted c else if c = 47 then Remark else Plain)"
| "text_step (Quoted q) c = (if c = 92 then Escaped q else if c = q then Plain else Quoted q)"
| "text_step (Escaped q) c = Quoted q"
| "text_step Remark c = (if c = 10 then Plain else Remark)"

definition scan :: "scan_mode \<Rightarrow> pystr \<Rightarrow> scan_mode" where
  "scan m s = foldl text_step m s"

lemma scan_simps [simp]: "scan m [] = m" "scan m (c # s) = scan (text_step m c) s" "scan m (a @ b) = scan (scan m a) b"
  by (simp_all add: scan_def)

text \<open>The text does not end inside a quoted literal or a comment.\<close>

definition closed_text :: "pystr \<Rightarrow> bool" where
  "closed_text s \<longleftrightarrow> scan Plain s = Plain"

fun parens :: "scan_mode \<Rightarrow> pystr \<Rightarrow> bool list" where
  "parens m [] = []"
| "parens m (c # s) =
     (if m = Plain \<and> c = 40 then [True] else if m = Plain \<and> c = 41 then [False] else []) @ parens (text_step m c) s"

lemma parens_append [simp]: "parens m (a @ b) = parens m a @ parens (scan m a) b"
  by (induction a arbitrary: m) simp_all

fun paren_tokens :: "token list \<Rightarrow> bool list" where
  "paren_tokens [] = []"
| "paren_tokens (TOpen # ts) = True # paren_tokens ts"
| "paren_tokens (TClose # ts) = False # paren_tokens ts"
| "paren_tokens (_ # ts) = paren_tokens ts"

lemma paren_tokens_append [simp]: "paren_tokens (a @ b) = paren_tokens a @ paren_tokens b"
  by (induction a rule: paren_tokens.induct) simp_all

lemma string_body_prefix: "string_body q (a @ b) \<Longrightarrow> scan (Quoted q) a \<in> {Quoted q, Escaped q}"
proof (induction q a rule: string_body.induct)
  case (2 q c cs)
  then show ?case by (cases cs) (auto split: if_splits)
qed simp

lemma string_body_scan: "string_body q s \<Longrightarrow> scan (Quoted q) s = Quoted q \<and> parens (Quoted q) s = []"
proof (induction q s rule: string_body.induct)
  case (2 q c cs)
  then show ?case by (cases cs) (auto split: if_splits)
qed simp

lemma quoted_stringE:
  assumes "quoted_string s"
  obtains q body where "s = q # body @ [q]" "q \<in> {34, 39}" "string_body q body"
proof -
  from assms obtain a t where s: "s = a # t" "t \<noteq> []" by (cases s; cases "tl s") (auto simp: quoted_string_def)
  then have "s = a # butlast t @ [a]" using assms append_butlast_last_id[of t] by (simp add: quoted_string_def)
  with that[of a "butlast t"] show thesis using assms s by (simp add: quoted_string_def)
qed

definition plain_char :: "nat \<Rightarrow> bool" where
  "plain_char c \<longleftrightarrow> c \<notin> {34, 39, 40, 41, 47}"

lemma plain_scan: "list_all plain_char s \<Longrightarrow> scan Plain s = Plain \<and> parens Plain s = []"
  by (induction s) (auto simp: plain_char_def)

lemma number_chars: "list_all is_ascii_digit a \<Longrightarrow> list_all plain_char a"
  by (auto simp: list_all_iff is_ascii_digit_def plain_char_def)

lemma sign_chars: "list_all plain_char (drop_sign s) \<Longrightarrow> list_all plain_char s"
  by (cases s) (auto simp: drop_sign_def plain_char_def split: if_splits)

lemma decimal_chars:
  assumes "decimal_text s"
  shows "list_all plain_char s"
proof -
  let ?a = "takeWhile (\<lambda>c. c \<noteq> 46) s" and ?b = "drop (length (takeWhile (\<lambda>c. c \<noteq> 46) s)) s"
  from assms have d: "list_all is_ascii_digit ?a" "list_all is_ascii_digit (tl ?b)" "?b \<noteq> []"
    by (simp_all add: decimal_text_def Let_def)
  have "?b = dropWhile (\<lambda>c. c \<noteq> 46) s" by (simp add: dropWhile_eq_drop)
  then have "hd ?b = 46" using d(3) hd_dropWhile[of "\<lambda>c. c \<noteq> 46" s] by simp
  then have "?b = 46 # tl ?b" using d(3) by (metis list.collapse)
  moreover have "s = ?a @ ?b" by (simp add: dropWhile_eq_drop[symmetric])
  moreover have "plain_char 46" by (simp add: plain_char_def)
  ultimately show ?thesis using number_chars[OF d(1)] number_chars[OF d(2)] by (metis list_all_append list.pred_inject(2))
qed

lemma signed_number_chars:
  assumes "signed_number s"
  shows "list_all plain_char s"
proof -
  define u where "u = drop_sign s"
  define m where "m = takeWhile (\<lambda>c. c \<noteq> 101 \<and> c \<noteq> 69) u"
  define e where "e = drop (length m) u"
  from assms have n: "int_text m \<or> decimal_text m" "e = [] \<or> int_text (drop_sign (tl e))"
    by (simp_all add: signed_number_def Let_def u_def m_def e_def)
  have ue: "u = m @ e" by (simp add: e_def m_def dropWhile_eq_drop[symmetric])
  have "list_all plain_char m" using n(1) by (auto simp: int_text_def number_chars decimal_chars)
  moreover have "list_all plain_char e"
  proof (cases "e = []")
    case False
    have "e = dropWhile (\<lambda>c. c \<noteq> 101 \<and> c \<noteq> 69) u" by (simp add: e_def m_def dropWhile_eq_drop)
    then have "hd e \<in> {101, 69}" using False hd_dropWhile[of "\<lambda>c. c \<noteq> 101 \<and> c \<noteq> 69" u] by auto
    then have "plain_char (hd e)" by (auto simp: plain_char_def)
    moreover have "list_all plain_char (tl e)" using n(2) False by (auto simp: int_text_def intro: sign_chars number_chars)
    ultimately show ?thesis using False by (metis list.collapse list.pred_inject(2))
  qed simp
  ultimately show ?thesis using sign_chars[of s] ue by (simp add: u_def)
qed

lemma word_chars: "ascii_alpha c \<or> is_ascii_digit c \<or> c = 95 \<or> c = 46 \<or> c = 58 \<Longrightarrow> plain_char c"
  by (auto simp: ascii_alpha_def is_ascii_digit_def plain_char_def)

lemma operator_chars: "s \<in> set OPERATORS \<Longrightarrow> list_all plain_char s"
  by (auto simp: OPERATORS_def lit_def plain_char_def)

lemma token_chars:
  assumes "token_ok t"
  shows "(\<exists>s. t = TString s) \<or> t = TOpen \<or> t = TClose \<or> list_all plain_char (token_text t)"
proof (cases t)
  case (TWord s)
  with assms show ?thesis by (auto simp: field_ident_def list_all_iff intro: word_chars)
next
  case (TMacro s)
  with assms have "list_all plain_char (tl s)" "s \<noteq> []" "hd s = 64" by (auto simp: macro_text_def list_all_iff intro: word_chars)
  moreover have "plain_char 64" by (simp add: plain_char_def)
  ultimately show ?thesis using TMacro by (metis list.collapse list.pred_inject(2) token_text.simps(10))
qed (use assms in \<open>auto simp: plain_char_def operator_chars signed_number_chars\<close>)

lemma token_scan:
  assumes "token_ok t"
  shows "scan Plain (token_text t) = Plain" "parens Plain (token_text t) = paren_tokens [t]"
proof -
  have "scan Plain (token_text t) = Plain \<and> parens Plain (token_text t) = paren_tokens [t]"
  proof (cases "\<exists>s. t = TString s")
    case True
    then obtain s where s: "t = TString s" by blast
    with assms have "quoted_string s" by simp
    then obtain q body where "s = q # body @ [q]" "q \<in> {34, 39}" "string_body q body" by (rule quoted_stringE)
    with s have "token_text t = q # body @ [q]" "q \<in> {34, 39}" "string_body q body" "paren_tokens [t] = []" by simp_all
    then show ?thesis using string_body_scan[of q body] by auto
  next
    case False
    with token_chars[OF assms] plain_scan[of "token_text t"] show ?thesis by (cases t) auto
  qed
  then show "scan Plain (token_text t) = Plain" "parens Plain (token_text t) = paren_tokens [t]" by simp_all
qed

lemma remark_scan: "10 \<notin> set s \<Longrightarrow> scan Remark s = Remark" "10 \<notin> set s \<Longrightarrow> parens Remark s = []"
  by (induction s) auto

text \<open>However a text is read, the parentheses outside quotes and comments are the same.\<close>

lemma lexes_parens: "lexes s ts \<Longrightarrow> paren_tokens ts = parens Plain s"
proof (induction rule: lexes.induct)
  case (lexes_comment body s ts)
  then show ?case by (cases s) (auto simp: remark_scan)
next
  case (lexes_token t s ts)
  then show ?case using token_scan[of t] paren_tokens_append[of "[t]" ts] by simp
qed auto

section \<open>Cutting a text at a parenthesis\<close>

lemma token_text_nonempty: "token_ok t \<Longrightarrow> token_text t \<noteq> []"
  by (cases t) (auto simp: quoted_string_def signed_number_def drop_sign_def int_text_def decimal_text_def Let_def
      field_ident_def macro_text_def OPERATORS_def)

lemma paren_in_token:
  assumes "token_ok t" "token_text t = x @ c # z" "c = 40 \<or> c = 41"
  shows "(x = [] \<and> z = [] \<and> t = (if c = 40 then TOpen else TClose)) \<or> scan Plain x \<noteq> Plain"
proof (cases "\<exists>s. t = TString s")
  case True
  then obtain s where "t = TString s" by blast
  with assms(1) have "quoted_string s" "token_text t = s" by simp_all
  then obtain q body where q: "x @ c # z = q # body @ [q]" "q \<in> {34, 39}" "string_body q body"
    using assms(2) by (metis quoted_stringE)
  moreover have "c \<noteq> q" using q(2) assms(3) by auto
  ultimately obtain x' where x: "x = q # x'" "x' @ c # z = body @ [q]" by (cases x) auto
  with \<open>c \<noteq> q\<close> obtain z' where "z = z' @ [q]" by (cases z rule: rev_cases) auto
  with x(2) have "body = x' @ (c # z')" by simp
  with q(3) have "scan (Quoted q) x' \<in> {Quoted q, Escaped q}" by (metis string_body_prefix)
  with x(1) q(2) show ?thesis by auto
next
  case False
  from assms(2,3) have "\<not> list_all plain_char (token_text t)" by (auto simp: plain_char_def)
  with token_chars[OF assms(1)] False have "t = TOpen \<or> t = TClose" by blast
  with assms(2,3) show ?thesis by (auto simp: Cons_eq_append_conv)
qed

lemma append_around:
  assumes "a @ b = x @ c # y"
  obtains us where "x = a @ us" "b = us @ c # y" | us where "a = x @ c # us" "y = us @ b"
proof (cases "length a \<le> length x")
  case True
  with assms obtain us where "x = a @ us" "b = us @ c # y" by (auto simp: append_eq_append_conv2)
  with that(1) show thesis .
next
  case False
  with assms obtain us where "a = x @ us" "us @ b = c # y" "us \<noteq> []" by (auto simp: append_eq_append_conv2)
  with that(2)[of "tl us"] show thesis by (cases us) auto
qed

lemma lexes_cut:
  assumes "lexes s ts" "s = x @ c # y" "c = 40 \<or> c = 41" "closed_text x"
  shows "\<exists>t1 t2. ts = t1 @ (if c = 40 then TOpen else TClose) # t2 \<and> lexes x t1 \<and> lexes y t2"
  using assms
proof (induction arbitrary: x rule: lexes.induct)
  case (lexes_space w s ts)
  then obtain x' where x: "x = w # x'" "s = x' @ c # y" by (cases x) auto
  with lexes_space.prems(3) lexes_space.hyps(1) have "closed_text x'" by (auto simp: closed_text_def)
  with lexes_space.IH[OF x(2) lexes_space.prems(2)] x(1) lexes_space.hyps(1) show ?case by (metis lexes.lexes_space)
next
  case (lexes_comment body s ts)
  have "\<exists>x'. x = 47 # 47 # body @ x' \<and> s = x' @ c # y \<and> x' \<noteq> []"
  proof -
    from lexes_comment.prems(1) have "(47 # 47 # body) @ s = x @ c # y" by simp
    then show ?thesis
    proof (cases rule: append_around)
      case (1 us)
      then have "us \<noteq> []" using lexes_comment.prems(3) lexes_comment.hyps(1) by (auto simp: closed_text_def remark_scan)
      with 1 show ?thesis by auto
    next
      case (2 us)
      have "scan Remark x' = Remark" if "x = 47 # x'" for x' using that 2(1) lexes_comment.hyps(1)
        by (intro remark_scan(1)) (auto simp: Cons_eq_append_conv)
      then show ?thesis using 2 lexes_comment.prems(2,3) by (cases x) (auto simp: closed_text_def)
    qed
  qed
  then obtain x' where x: "x = 47 # 47 # body @ x'" "s = x' @ c # y" "x' \<noteq> []" by blast
  then have h: "hd x' = 10" using lexes_comment.hyps(2) by (cases x') auto
  have "closed_text x'" using lexes_comment.prems(3) lexes_comment.hyps(1) x(1,3) h
    by (cases x') (auto simp: closed_text_def remark_scan)
  with lexes_comment.IH[OF x(2) lexes_comment.prems(2)] x(1) h lexes_comment.hyps(1) show ?case by (metis lexes.lexes_comment)
next
  case (lexes_token t s ts)
  from lexes_token.prems(1) show ?case
  proof (cases rule: append_around)
    case (1 us)
    then have "closed_text us" using lexes_token.prems(3) token_scan(1)[OF lexes_token.hyps(1)] by (simp add: closed_text_def)
    with lexes_token.IH[OF 1(2) lexes_token.prems(2)] 1(1) lexes_token.hyps(1) show ?thesis
      by (metis append_Cons lexes.lexes_token)
  next
    case (2 us)
    with paren_in_token[OF lexes_token.hyps(1) 2(1) lexes_token.prems(2)] lexes_token.prems(3)
    have "x = []" "us = []" "t = (if c = 40 then TOpen else TClose)" by (auto simp: closed_text_def)
    with 2(2) lexes_token.hyps(2) show ?thesis by (auto intro: lexes_end)
  qed
qed simp

section \<open>Balanced token lists\<close>

fun depth_walk :: "bool list \<Rightarrow> nat \<Rightarrow> nat option" where
  "depth_walk [] d = Some d"
| "depth_walk (True # bs) d = depth_walk bs (Suc d)"
| "depth_walk (False # bs) d = (if d = 0 then None else depth_walk bs (d - 1))"

definition balanced :: "bool list \<Rightarrow> bool" where
  "balanced bs \<longleftrightarrow> depth_walk bs 0 = Some 0"

lemma walk_append: "depth_walk (a @ b) d = Option.bind (depth_walk a d) (depth_walk b)"
  by (induction a d rule: depth_walk.induct) simp_all

lemma walk_deeper: "depth_walk bs d = Some e \<Longrightarrow> depth_walk bs (d + k) = Some (e + k)"
  by (induction bs d rule: depth_walk.induct) (auto split: if_splits)

lemma balanced_walk: "balanced bs \<Longrightarrow> depth_walk bs d = Some d"
  using walk_deeper[of bs 0 0 d] by (simp add: balanced_def)

lemma balanced_intros:
  "balanced []" "balanced a \<Longrightarrow> balanced b \<Longrightarrow> balanced (a @ b)" "balanced a \<Longrightarrow> balanced (True # a @ [False])"
  by (simp_all add: balanced_def walk_append) (simp add: balanced_walk[unfolded balanced_def])

text \<open>A balanced list is determined by the text that begins with it and a closing parenthesis.\<close>

lemma balanced_unique:
  assumes "balanced (paren_tokens a)" "balanced (paren_tokens b)" "a @ TClose # c = b @ TClose # d"
  shows "a = b \<and> c = d"
proof -
  have longer: False if "x = y @ TClose # z" "balanced (paren_tokens x)" "balanced (paren_tokens y)" for x y z
    using that by (simp add: balanced_def walk_append)
  from assms(3) show ?thesis
  proof (cases rule: append_around)
    case (1 us)
    then show ?thesis using longer[of b a "tl us"] assms(1,2) by (cases us) auto
  next
    case (2 us)
    with longer[OF 2(1) assms(1,2)] show ?thesis by blast
  qed
qed

lemma dotted_parens: "dotted ts ws \<Longrightarrow> paren_tokens ts = [] \<and> ts \<noteq> [] \<and> hd ts \<noteq> TOpen"
  by (induction rule: dotted.induct) auto

lemma operand_parens: "operand_tokens ts x \<Longrightarrow> paren_tokens ts = [] \<and> ts \<noteq> [] \<and> hd ts \<noteq> TOpen"
  by (cases rule: operand_tokens.cases) (auto dest: dotted_parens)

lemma derived_balanced:
  "atom_tokens ts t \<Longrightarrow> balanced (paren_tokens ts)"
  "and_tokens ts us \<Longrightarrow> balanced (paren_tokens ts)"
  "or_tokens ts us \<Longrightarrow> balanced (paren_tokens ts)"
  by (induction rule: atom_tokens_and_tokens_or_tokens.inducts)
     (simp_all add: operand_parens balanced_intros)

section \<open>Groups joined by a conjunction\<close>

lemma atom_head_group:
  assumes "atom_tokens a t" "a @ rest = TOpen # ts @ TClose # rest'" "balanced (paren_tokens ts)"
  shows "\<exists>us. t = OrExpr us \<and> or_tokens ts us \<and> rest = rest'"
  using assms(1)
proof (cases rule: atom_tokens.cases)
  case (atom_comparison a1 x b y p)
  with operand_parens[of a1 x] assms(2) show ?thesis by (cases a1) auto
next
  case (atom_group ts' us)
  with assms(2) have "ts' @ TClose # rest = ts @ TClose # rest'" by simp
  with balanced_unique[of ts' ts rest rest'] derived_balanced(3)[OF atom_group(3)] assms(3) atom_group show ?thesis by auto
qed

lemma and_head_group:
  assumes "and_tokens a us" "a @ rest = TOpen # ts @ TClose # rest'" "balanced (paren_tokens ts)"
  shows "\<exists>vs ws. us = OrExpr vs # ws \<and> or_tokens ts vs \<and>
    (ws = [] \<and> rest = rest' \<or> (\<exists>b. and_tokens b ws \<and> rest' = TAnd # b @ rest))"
  using assms(1)
proof (cases rule: and_tokens.cases)
  case (and_single t)
  with atom_head_group[OF and_single(2) assms(2,3)] show ?thesis by auto
next
  case (and_more a1 t b ws)
  with assms(2) have "a1 @ (TAnd # b @ rest) = TOpen # ts @ TClose # rest'" by simp
  from atom_head_group[OF and_more(3) this assms(3)] and_more show ?thesis by auto
qed

lemma joined_groups:
  assumes "or_tokens (TOpen # a @ TClose # TAnd # TOpen # b @ [TClose]) us" "balanced (paren_tokens a)" "balanced (paren_tokens b)"
  shows "\<exists>vs ws. us = [AndExpr [OrExpr vs, OrExpr ws]] \<and> or_tokens a vs \<and> or_tokens b ws"
proof -
  let ?tail = "TAnd # TOpen # b @ [TClose]"
  have both: "\<exists>vs ws. zs = [OrExpr vs, OrExpr ws] \<and> or_tokens a vs \<and> or_tokens b ws \<and> rest = []"
    if z: "and_tokens c zs" "c @ rest = TOpen # a @ TClose # ?tail" "rest = [] \<or> hd rest = TOr" for c rest zs
  proof -
    from and_head_group[OF z(1,2) assms(2)] z(3) obtain vs ys c' where
      y: "zs = OrExpr vs # ys" "or_tokens a vs" "and_tokens c' ys" "c' @ rest = TOpen # b @ TClose # []" by auto
    from and_head_group[OF y(3,4) assms(3)] y(1,2) show ?thesis by auto
  qed
  from assms(1) show ?thesis
  proof (cases rule: or_tokens.cases)
    case (or_single zs)
    with both[of _ zs "[]"] show ?thesis by auto
  next
    case (or_more c zs d ys)
    with both[of c zs "TOr # d"] show ?thesis by simp
  qed
qed

section \<open>A rule and a filter pasted together\<close>

text \<open>\<open>f"({rule_result}) && ({effective_filter})"\<close>\<close>

definition conjoin :: "pystr \<Rightarrow> pystr \<Rightarrow> pystr" where
  "conjoin r f = lit ''('' @ r @ lit '') && ('' @ f @ lit '')''"

lemma conjoin_codes: "conjoin r f = 40 # r @ 41 # 32 # 38 # 38 # 32 # 40 # f @ [41]"
  by (simp add: conjoin_def lit_def)

lemma lexes_nothing: "lexes [] ts \<Longrightarrow> ts = []"
  by (cases rule: lexes.cases) (auto simp: token_text_nonempty)

lemma lexes_blank:
  assumes "lexes (32 # s) ts"
  shows "lexes s ts"
  using assms
proof (cases rule: lexes.cases)
  case (lexes_token t s' ts')
  then have "\<exists>x. token_text t = 32 # x" using token_text_nonempty[of t] by (cases "token_text t") auto
  then show ?thesis using lexes_token(3)
    by (cases t) (auto simp: quoted_string_def signed_number_def drop_sign_def int_text_def decimal_text_def Let_def
      field_ident_def macro_text_def OPERATORS_def lit_def is_ascii_digit_def ascii_alpha_def split: if_splits)
qed auto

lemma lexes_both:
  assumes "lexes (38 # 38 # s) ts"
  shows "\<exists>ts'. ts = TAnd # ts' \<and> lexes s ts'"
  using assms
proof (cases rule: lexes.cases)
  case (lexes_token t s' ts')
  then obtain x where x: "token_text t = 38 # x" using token_text_nonempty[of t] by (cases "token_text t") auto
  then have "t = TAnd" using lexes_token(3)
    by (cases t) (auto simp: quoted_string_def signed_number_def drop_sign_def int_text_def decimal_text_def Let_def
      field_ident_def macro_text_def OPERATORS_def lit_def is_ascii_digit_def ascii_alpha_def split: if_splits)
  with lexes_token show ?thesis by auto
qed auto

lemma conjoined_tokens:
  assumes "lexes (conjoin r f) ts" "closed_text r"
  shows "\<exists>a z. ts = TOpen # a @ TClose # TAnd # TOpen # z \<and> lexes r a \<and> lexes (f @ [41]) z"
proof -
  have "lexes ([] @ 40 # (r @ 41 # 32 # 38 # 38 # 32 # 40 # f @ [41])) ts" using assms(1) by (simp add: conjoin_codes)
  from lexes_cut[OF this refl] obtain ts1 where t1: "ts = TOpen # ts1" "lexes (r @ 41 # 32 # 38 # 38 # 32 # 40 # f @ [41]) ts1"
    by (auto simp: closed_text_def dest: lexes_nothing)
  from lexes_cut[OF t1(2) refl _ assms(2)] obtain a ts2 where
    t2: "ts1 = a @ TClose # ts2" "lexes r a" "lexes (32 # 38 # 38 # 32 # 40 # f @ [41]) ts2" by auto
  from lexes_both[OF lexes_blank[OF t2(3)]] obtain ts3 where t3: "ts2 = TAnd # ts3" "lexes (32 # 40 # f @ [41]) ts3" by blast
  from lexes_cut[OF lexes_blank[OF t3(2)], of "[]"] obtain z where "ts3 = TOpen # z" "lexes (f @ [41]) z"
    by (auto simp: closed_text_def dest: lexes_nothing)
  with t1(1) t2(1,2) t3(1) show ?thesis by blast
qed

lemma sentence_balanced: "sentence s t \<Longrightarrow> lexes s ts \<Longrightarrow> balanced (paren_tokens ts)"
  by (auto simp: sentence_def lexes_parens dest!: derived_balanced(3))

lemma conjoined_sentence:
  assumes "sentence r r0" "sentence f f0" "closed_text r" "sentence (conjoin r f) t"
  shows "\<exists>tr tf. t = OrExpr [AndExpr [tr, tf]] \<and> sentence r tr \<and> sentence f tf"
proof -
  from assms(4) obtain ts us where t: "lexes (conjoin r f) ts" "or_tokens ts us" "t = OrExpr us" by (auto simp: sentence_def)
  from conjoined_tokens[OF t(1) assms(3)] obtain a z where
    a: "ts = TOpen # a @ TClose # TAnd # TOpen # z" "lexes r a" "lexes (f @ [41]) z" by blast
  have ba: "balanced (paren_tokens a)" by (rule sentence_balanced[OF assms(1) a(2)])
  have "closed_text f"
  proof (rule ccontr)
    assume "\<not> closed_text f"
    then have "paren_tokens z = parens Plain f" using lexes_parens[OF a(3)] by (simp add: closed_text_def)
    moreover from assms(2) obtain fs where "lexes f fs" by (auto simp: sentence_def)
    ultimately have "balanced (paren_tokens z)" using sentence_balanced[OF assms(2)] lexes_parens by metis
    then have "depth_walk (paren_tokens ts) 0 = Some 1" using ba by (simp add: a(1) walk_append balanced_walk)
    with derived_balanced(3)[OF t(2)] show False by (simp add: balanced_def)
  qed
  from lexes_cut[OF a(3) refl _ this] obtain b where b: "z = b @ [TClose]" "lexes f b" by (auto dest: lexes_nothing)
  from joined_groups[of a b us] t(2) a(1) b ba sentence_balanced[OF assms(2) b(2)] obtain vs ws where
    "us = [AndExpr [OrExpr vs, OrExpr ws]]" "or_tokens a vs" "or_tokens b ws" by auto
  with t(3) a(2) b(2) show ?thesis by (auto simp: sentence_def)
qed

lemma lexes_join: "lexes a ts \<Longrightarrow> closed_text a \<Longrightarrow> lexes b us \<Longrightarrow> lexes (a @ b) (ts @ us)"
proof (induction rule: lexes.induct)
  case (lexes_space c s ts)
  then show ?case by (auto simp: closed_text_def intro!: lexes.lexes_space)
next
  case (lexes_comment body s ts)
  then obtain s' where s: "s = 10 # s'" by (cases s) (auto simp: closed_text_def remark_scan)
  with lexes_comment have "closed_text s" by (simp add: closed_text_def remark_scan)
  with lexes_comment s have "lexes (47 # 47 # body @ (s @ b)) (ts @ us)" by (intro lexes.lexes_comment) auto
  then show ?case by simp
next
  case (lexes_token t s ts)
  then have "closed_text s" using token_scan(1)[of t] by (simp add: closed_text_def)
  with lexes_token have "lexes (token_text t @ (s @ b)) (t # (ts @ us))" by (intro lexes.lexes_token) auto
  then show ?case by simp
qed simp

lemma conjoin_derivable:
  assumes "sentence r tr" "sentence f tf" "closed_text r" "closed_text f"
  shows "sentence (conjoin r f) (OrExpr [AndExpr [tr, tf]])"
proof -
  from assms(1,2) obtain a vs b ws where
    d: "lexes r a" "or_tokens a vs" "tr = OrExpr vs" "lexes f b" "or_tokens b ws" "tf = OrExpr ws" by (auto simp: sentence_def)
  have paren: "lexes (41 # s) (TClose # ts)" "lexes (40 # s) (TOpen # ts)" "lexes (38 # 38 # s) (TAnd # ts)" "lexes (32 # s) ts"
    if "lexes s ts" for s ts
    using that lexes_token[of TClose s ts] lexes_token[of TOpen s ts] lexes_token[of TAnd s ts] lexes_space[of 32 s ts] by simp_all
  have "lexes (f @ [41]) (b @ [TClose])" using lexes_join[OF d(4) assms(4) paren(1)[OF lexes_end]] .
  then have "lexes (41 # 32 # 38 # 38 # 32 # 40 # f @ [41]) (TClose # TAnd # TOpen # b @ [TClose])" by (intro paren)
  from lexes_join[OF d(1) assms(3) this] have "lexes (conjoin r f) (TOpen # a @ TClose # TAnd # TOpen # b @ [TClose])"
    unfolding conjoin_codes by (intro paren)
  moreover have "or_tokens ((TOpen # a @ [TClose]) @ TAnd # TOpen # b @ [TClose]) [AndExpr [tr, tf]]"
    unfolding d(3,6) by (intro or_single and_more and_single atom_group d(2,5))
  ultimately show ?thesis by (auto simp: sentence_def)
qed

section \<open>A reference parser\<close>

text \<open>
  A recursive-descent parser for the grammar, reading each terminal as long as possible (numbers without fraction or
  exponent only).  What it returns is a tree of the text, so it is an instance of the parser the filter compiler is given.
\<close>

fun take_string :: "nat \<Rightarrow> pystr \<Rightarrow> (pystr \<times> pystr) option" where
  "take_string q [] = None"
| "take_string q (c # cs) =
     (if c = q then Some ([c], cs)
      else if c = 92 then (case cs of [] \<Rightarrow> None | d # cs' \<Rightarrow> map_option (apfst (\<lambda>b. c # d # b)) (take_string q cs'))
      else map_option (apfst (Cons c)) (take_string q cs))"

definition name_char :: "nat \<Rightarrow> bool" where
  "name_char c \<longleftrightarrow> ascii_alpha c \<or> is_ascii_digit c \<or> c = 95 \<or> c = 58"

definition raw_token :: "pystr \<Rightarrow> (token \<times> pystr) option" where
  "raw_token s =
     (case s of
        [] \<Rightarrow> None
      | c # cs \<Rightarrow>
          if c = 40 then Some (TOpen, cs) else if c = 41 then Some (TClose, cs) else if c = 46 then Some (TDot, cs)
          else if prefix [38, 38] s then Some (TAnd, tl cs) else if prefix [124, 124] s then Some (TOr, tl cs)
          else if c = 34 \<or> c = 39 then map_option (\<lambda>(b, r). (TString (c # b), r)) (take_string c cs)
          else if ascii_alpha c \<or> c = 95 then Some (TWord (takeWhile name_char s), dropWhile name_char s)
          else if c = 64 then
            Some (TMacro (c # takeWhile (\<lambda>x. name_char x \<or> x = 46) cs), dropWhile (\<lambda>x. name_char x \<or> x = 46) cs)
          else if is_ascii_digit c then Some (TNumber (takeWhile is_ascii_digit s), dropWhile is_ascii_digit s)
          else map_option (\<lambda>p. (TOperator p, drop (length p) s)) (find (\<lambda>p. prefix p s) OPERATORS))"

definition read_token :: "pystr \<Rightarrow> (token \<times> pystr) option" where
  "read_token s =
     (case raw_token s of
        None \<Rightarrow> None
      | Some (t, rest) \<Rightarrow> if token_ok t \<and> token_text t @ rest = s then Some (t, rest) else None)"

fun read_tokens :: "nat \<Rightarrow> pystr \<Rightarrow> token list option" where
  "read_tokens 0 s = None"
| "read_tokens (Suc n) [] = Some []"
| "read_tokens (Suc n) (c # cs) =
     (if c \<in> {9, 10, 12, 13, 32} then read_tokens n cs
      else if prefix [47, 47] (c # cs) then read_tokens n (dropWhile (\<lambda>x. x \<noteq> 10) cs)
      else case read_token (c # cs) of
             None \<Rightarrow> None
           | Some (t, rest) \<Rightarrow> map_option (Cons t) (read_tokens n rest))"

fun read_path :: "token list \<Rightarrow> (pystr list \<times> token list) option" where
  "read_path (TWord w # TDot # ts) = map_option (apfst (Cons w)) (read_path ts)"
| "read_path (TWord w # ts) = Some ([w], ts)"
| "read_path ts = None"

fun read_operand :: "token list \<Rightarrow> (operand \<times> token list) option" where
  "read_operand (TString s # ts) = Some (OString s, ts)"
| "read_operand (TNumber s # ts) = Some (ONumber s, ts)"
| "read_operand (TMacro s # ts) = Some (OMacro s, ts)"
| "read_operand ts =
     (case read_path ts of
        None \<Rightarrow> None
      | Some (ws, rest) \<Rightarrow>
          Some (if ws = [lit ''true''] then OTrue else if ws = [lit ''false''] then OFalse
                else if ws = [lit ''null''] then ONull else OFieldPath ws, rest))"

fun read_atom :: "nat \<Rightarrow> token list \<Rightarrow> (ftree \<times> token list) option"
  and read_and :: "nat \<Rightarrow> token list \<Rightarrow> (ftree list \<times> token list) option"
  and read_or :: "nat \<Rightarrow> token list \<Rightarrow> (ftree list \<times> token list) option" where
  "read_atom 0 ts = None"
| "read_atom (Suc n) (TOpen # ts) =
     (case read_or n ts of Some (us, TClose # rest) \<Rightarrow> Some (OrExpr us, rest) | _ \<Rightarrow> None)"
| "read_atom (Suc n) ts =
     (case read_operand ts of
        Some (x, TOperator p # rest) \<Rightarrow> map_option (apfst (Comparison x p)) (read_operand rest)
      | _ \<Rightarrow> None)"
| "read_and 0 ts = None"
| "read_and (Suc n) ts =
     (case read_atom n ts of
        None \<Rightarrow> None
      | Some (t, TAnd # rest) \<Rightarrow> map_option (apfst (Cons t)) (read_and n rest)
      | Some (t, rest) \<Rightarrow> Some ([t], rest))"
| "read_or 0 ts = None"
| "read_or (Suc n) ts =
     (case read_and n ts of
        None \<Rightarrow> None
      | Some (us, TOr # rest) \<Rightarrow> map_option (apfst (Cons (AndExpr us))) (read_or n rest)
      | Some (us, rest) \<Rightarrow> Some ([AndExpr us], rest))"

definition reference_parse :: "pystr \<Rightarrow> ftree option" where
  "reference_parse s =
     (case read_tokens (Suc (length s)) s of
        None \<Rightarrow> None
      | Some ts \<Rightarrow> (case read_or (3 * Suc (length ts)) ts of Some (us, []) \<Rightarrow> Some (OrExpr us) | _ \<Rightarrow> None))"

lemma read_tokens_sound: "read_tokens n s = Some ts \<Longrightarrow> lexes s ts"
proof (induction n s arbitrary: ts rule: read_tokens.induct)
  case (3 n c cs)
  consider "c \<in> {9, 10, 12, 13, 32}"
    | cs' where "c \<notin> {9, 10, 12, 13, 32}" "c = 47" "cs = 47 # cs'"
    | "c \<notin> {9, 10, 12, 13, 32}" "\<not> prefix [47, 47] (c # cs)"
    by (cases cs) auto
  then show ?case
  proof cases
    case 1
    with 3 show ?thesis by (auto intro: lexes_space)
  next
    case (2 cs')
    let ?body = "takeWhile (\<lambda>x. x \<noteq> 10) cs'" and ?rest = "dropWhile (\<lambda>x. x \<noteq> 10) cs'"
    have "lexes ?rest ts" using 3(2)[of ts] 3(4) 2 by simp
    moreover have "?rest = [] \<or> hd ?rest = 10" using hd_dropWhile[of "\<lambda>x. x \<noteq> 10" cs'] by auto
    moreover have "10 \<notin> set ?body" by (auto dest: set_takeWhileD)
    ultimately have "lexes (47 # 47 # ?body @ ?rest) ts" by (intro lexes_comment)
    with 2 show ?thesis by simp
  next
    case 3
    with "3.prems" obtain t rest ts' where t: "read_token (c # cs) = Some (t, rest)" "read_tokens n rest = Some ts'" "ts = t # ts'"
      by (auto split: option.splits)
    then have "token_ok t" "token_text t @ rest = c # cs" by (auto simp: read_token_def split: option.splits if_splits)
    with "3.IH"(3)[OF _ _ t(1) refl t(2)] 3 t(3) lexes_token[of t rest ts'] show ?thesis by simp
  qed
qed (auto intro: lexes_end)

lemma read_path_sound: "read_path ts = Some (ws, rest) \<Longrightarrow> \<exists>a. ts = a @ rest \<and> dotted a ws"
proof (induction ts arbitrary: ws rule: read_path.induct)
  case (1 w ts)
  then obtain vs a where "ws = w # vs" "ts = a @ rest" "dotted a vs" by auto
  then show ?case by (auto intro!: exI[of _ "TWord w # TDot # a"] dotted.intros)
qed (auto intro: dotted.intros)

lemma read_operand_sound:
  assumes "read_operand ts = Some (x, rest)"
  shows "\<exists>a. ts = a @ rest \<and> operand_tokens a x"
proof -
  have path: "\<exists>a. ts = a @ rest \<and> operand_tokens a x"
    if "(case read_path ts of None \<Rightarrow> None | Some (ws, rest) \<Rightarrow>
          Some (if ws = [lit ''true''] then OTrue else if ws = [lit ''false''] then OFalse
                else if ws = [lit ''null''] then ONull else OFieldPath ws, rest)) = Some (x, rest)"
  proof -
    from that obtain ws where ws: "read_path ts = Some (ws, rest)"
      "x = (if ws = [lit ''true''] then OTrue else if ws = [lit ''false''] then OFalse
            else if ws = [lit ''null''] then ONull else OFieldPath ws)" by (auto split: option.splits)
    from read_path_sound[OF ws(1)] obtain a where a: "ts = a @ rest" "dotted a ws" by blast
    have "a = [TWord w]" if "ws = [w]" for w using a(2) that by (auto elim: dotted.cases)
    with a ws(2) show ?thesis by (auto intro!: exI[of _ a] operand_tokens.intros split: if_splits)
  qed
  show ?thesis
    using assms path by (cases ts rule: read_operand.cases) (auto intro: operand_tokens.intros)
qed

lemma read_atom_cases:
  assumes "read_atom (Suc n) ts = Some (t, rest)"
  obtains us ts' where "ts = TOpen # ts'" "read_or n ts' = Some (us, TClose # rest)" "t = OrExpr us"
  | x p ts' y where "read_operand ts = Some (x, TOperator p # ts')" "read_operand ts' = Some (y, rest)" "t = Comparison x p y"
  using assms by (cases "(Suc n, ts)" rule: read_atom.cases) (auto split: option.splits token.splits list.splits prod.splits)

lemma read_and_cases:
  assumes "read_and (Suc n) ts = Some (us, rest)"
  obtains t where "read_atom n ts = Some (t, rest)" "us = [t]"
  | t ts' vs where "read_atom n ts = Some (t, TAnd # ts')" "read_and n ts' = Some (vs, rest)" "us = t # vs"
  using assms by (auto split: option.splits token.splits list.splits prod.splits)

lemma read_or_cases:
  assumes "read_or (Suc n) ts = Some (us, rest)"
  obtains vs where "read_and n ts = Some (vs, rest)" "us = [AndExpr vs]"
  | vs ts' ws where "read_and n ts = Some (vs, TOr # ts')" "read_or n ts' = Some (ws, rest)" "us = AndExpr vs # ws"
  using assms by (auto split: option.splits token.splits list.splits prod.splits)

lemma read_sound:
  "read_atom n ts = Some (t, rest) \<Longrightarrow> \<exists>a. ts = a @ rest \<and> atom_tokens a t"
  "read_and n ts = Some (us, rest) \<Longrightarrow> \<exists>a. ts = a @ rest \<and> and_tokens a us"
  "read_or n ts = Some (us, rest) \<Longrightarrow> \<exists>a. ts = a @ rest \<and> or_tokens a us"
proof (induction n arbitrary: ts t us rest)
  case (Suc n)
  { case 1
    then show ?case
    proof (cases rule: read_atom_cases)
      case (1 us ts')
      with Suc.IH(3)[OF 1(2)] show ?thesis by (auto dest: atom_group)
    next
      case (2 x p ts' y)
      from read_operand_sound[OF 2(1)] read_operand_sound[OF 2(2)] obtain a b where
        "ts = a @ TOperator p # b @ rest" "operand_tokens a x" "operand_tokens b y" by auto
      with atom_comparison[of a x b y p] 2(3) show ?thesis by (intro exI[of _ "a @ TOperator p # b"]) simp
    qed
  next
    case 2
    then show ?case
    proof (cases rule: read_and_cases)
      case (1 t)
      with Suc.IH(1)[OF 1(1)] show ?thesis by (auto dest: and_single)
    next
      case (2 t ts' vs)
      from Suc.IH(1)[OF 2(1)] Suc.IH(2)[OF 2(2)] obtain a b where
        "ts = a @ TAnd # b @ rest" "atom_tokens a t" "and_tokens b vs" by auto
      with and_more[of a t b vs] 2(3) show ?thesis by (intro exI[of _ "a @ TAnd # b"]) simp
    qed
  next
    case 3
    then show ?case
    proof (cases rule: read_or_cases)
      case (1 vs)
      with Suc.IH(2)[OF 1(1)] show ?thesis by (auto dest: or_single)
    next
      case (2 vs ts' ws)
      from Suc.IH(2)[OF 2(1)] Suc.IH(3)[OF 2(2)] obtain a b where
        "ts = a @ TOr # b @ rest" "and_tokens a vs" "or_tokens b ws" by auto
      with or_more[of a vs b ws] 2(3) show ?thesis by (intro exI[of _ "a @ TOr # b"]) simp
    qed
  }
qed simp_all

lemma reference_parse_sound: "reference_parse s = Some t \<Longrightarrow> sentence s t"
  using read_tokens_sound read_sound(3)
  by (fastforce simp: reference_parse_def sentence_def split: option.splits list.splits)

lemmas parser_code = reference_parse_def read_token_def raw_token_def OPERATORS_def name_char_def ascii_alpha_def is_ascii_digit_def
  field_ident_def macro_text_def quoted_string_def signed_number_def drop_sign_def int_text_def Let_def lit_def

section \<open>A rule that ends in an open comment\<close>

lemma or_join:
  assumes "or_tokens b vs"
  shows "or_tokens a us \<Longrightarrow> or_tokens (a @ TOr # b) (us @ vs)"
proof (induction us arbitrary: a)
  case Nil
  then show ?case by (cases rule: or_tokens.cases)
next
  case (Cons u us)
  from Cons.prems show ?case
  proof (cases rule: or_tokens.cases)
    case (or_single zs)
    with or_more[of a zs b vs] assms show ?thesis by simp
  next
    case (or_more c zs d)
    with Cons.IH[of d] atom_tokens_and_tokens_or_tokens.or_more[of c zs "d @ TOr # b" "us @ vs"] show ?thesis by simp
  qed
qed

lemma lexes_open_comment:
  "lexes a ts \<Longrightarrow> closed_text a \<Longrightarrow> 10 \<notin> set w \<Longrightarrow> lexes b us \<Longrightarrow> b = [] \<or> hd b = 10 \<Longrightarrow> lexes (a @ 47 # 47 # w @ b) (ts @ us)"
  by (intro lexes_join lexes_comment)

text \<open>
  Without the guard, which parses the filter on its own, a filter with unbalanced parentheses leaves the rule's
  conjunction as well; the realtime service pastes the two texts without it.
\<close>

lemma unguarded_filter_disjoins:
  assumes "sentence r tr" "closed_text r" "sentence g tg" "closed_text g" "sentence h th" "closed_text h"
  shows "sentence (conjoin r (g @ lit '') || ('' @ h)) (OrExpr [AndExpr [tr, tg], AndExpr [th]])"
proof -
  from assms(5) obtain hs us where h: "lexes h hs" "or_tokens hs us" "th = OrExpr us" by (auto simp: sentence_def)
  from conjoin_derivable[OF assms(1,3,2,4)] obtain ts where t: "lexes (conjoin r g) ts" "or_tokens ts [AndExpr [tr, tg]]"
    by (auto simp: sentence_def)
  have "lexes (40 # h @ [41]) (TOpen # hs @ [TClose])"
    using lexes_token[of TOpen, OF _ lexes_join[OF h(1) assms(6) lexes_token[of TClose, OF _ lexes_end]]] by simp
  from lexes_space[of 32, OF _ this] lexes_token[of TOr] have "lexes (124 # 124 # 32 # 40 # h @ [41]) (TOr # TOpen # hs @ [TClose])" by simp
  from lexes_space[of 32, OF _ this] have l: "lexes (32 # 124 # 124 # 32 # 40 # h @ [41]) (TOr # TOpen # hs @ [TClose])" by simp
  have "closed_text (conjoin r g)" using assms(2,4) by (simp add: closed_text_def conjoin_codes)
  from lexes_join[OF t(1) this l] have "lexes (conjoin r (g @ lit '') || ('' @ h)) (ts @ TOr # TOpen # hs @ [TClose])"
    by (simp add: conjoin_codes lit_def)
  moreover have "or_tokens (TOpen # hs @ [TClose]) [AndExpr [th]]" unfolding h(3) by (intro or_single and_single atom_group h(2))
  ultimately show ?thesis using or_join[OF _ t(2)] by (fastforce simp: sentence_def)
qed

text \<open>
  C12: The string \<open>(rule) && (filter)\<close> is no conjunction when the rule ends in a comment: for every rule \<open>p\<close> followed by
  \<open>//w\<close> and every filter of two lines whose second line begins with \<open>||\<close>, the rule and the filter are sentences on
  their own, and the pasted string has a tree in which the second line of the filter stands beside the rule as an
  alternative.  A client who may list records chooses that line.
\<close>

theorem open_comment_disjoins:
  assumes "sentence p (OrExpr us)" "closed_text p" "10 \<notin> set w"
    and "sentence g (OrExpr vs)" "closed_text g" "10 \<notin> set g" "sentence h (OrExpr ws)" "closed_text h"
  shows "sentence (p @ lit ''//'' @ w) (OrExpr us) \<and> sentence (g @ 10 # lit ''||'' @ h) (OrExpr (vs @ ws)) \<and>
    sentence (conjoin (p @ lit ''//'' @ w) (g @ 10 # lit ''||'' @ h)) (OrExpr [AndExpr [OrExpr (us @ ws)]])"
proof -
  from assms(1,4,7) obtain tp tg th where
    t: "lexes p tp" "or_tokens tp us" "lexes g tg" "or_tokens tg vs" "lexes h th" "or_tokens th ws" by (auto simp: sentence_def)
  have l: "lit ''//'' = [47, 47]" "lit ''||'' = token_text TOr" by (simp_all add: lit_def)
  have line: "lexes (10 # lit ''||'' @ s) (TOr # ts)" if "lexes s ts" for s ts
    unfolding l(2) using that by (intro lexes_space lexes_token) simp_all
  have "lexes (p @ 47 # 47 # w @ []) (tp @ [])" by (rule lexes_open_comment[OF t(1) assms(2,3) lexes_end]) simp
  then have r: "sentence (p @ lit ''//'' @ w) (OrExpr us)" using t(2) by (auto simp: sentence_def l(1))
  have "lexes (g @ 10 # lit ''||'' @ h) (tg @ TOr # th)" by (rule lexes_join[OF t(3) assms(5) line[OF t(5)]])
  then have f: "sentence (g @ 10 # lit ''||'' @ h) (OrExpr (vs @ ws))" using or_join[OF t(6,4)] by (auto simp: sentence_def)
  have "lexes (h @ token_text TClose) (th @ [TClose])" by (rule lexes_join[OF t(5) assms(8)]) (use lexes_token[OF _ lexes_end, of TClose] in simp)
  from lexes_open_comment[OF t(1) assms(2) _ line[OF this], of "w @ 41 # 32 # 38 # 38 # 32 # 40 # g"] assms(3,6)
  have "lexes (p @ 47 # 47 # w @ 41 # 32 # 38 # 38 # 32 # 40 # g @ 10 # lit ''||'' @ h @ [41]) (tp @ TOr # th @ [TClose])" by simp
  from lexes_token[of TOpen, OF _ this]
  have "lexes (conjoin (p @ lit ''//'' @ w) (g @ 10 # lit ''||'' @ h)) (TOpen # (tp @ TOr # th) @ [TClose])"
    by (simp add: conjoin_codes l(1))
  moreover have "or_tokens (TOpen # (tp @ TOr # th) @ [TClose]) [AndExpr [OrExpr (us @ ws)]]"
    by (intro or_single and_single atom_group or_join t(2,6))
  ultimately show ?thesis using r f by (auto simp: sentence_def)
qed

definition own_rule :: pystr where
  "own_rule = lit ''owner = \"me\"''"

definition any_filter :: pystr where
  "any_filter = lit ''id != \"\"''"

definition own_tree :: ftree where
  "own_tree = OrExpr [AndExpr [Comparison (OFieldPath [lit ''owner'']) (lit ''='') (OString (lit ''\"me\"''))]]"

definition any_tree :: ftree where
  "any_tree = OrExpr [AndExpr [Comparison (OFieldPath [lit ''id'']) (lit ''!='') (OString (lit ''\"\"''))]]"

lemma sample_parses: "reference_parse own_rule = Some own_tree" "reference_parse any_filter = Some any_tree"
  by (simp_all add: own_rule_def any_filter_def own_tree_def any_tree_def parser_code eval_nat_numeral)

lemma sample_sentences: "sentence own_rule own_tree" "sentence any_filter any_tree"
  using sample_parses by (simp_all add: reference_parse_sound)

lemma sample_closed: "closed_text own_rule" "closed_text any_filter"
  by (simp_all add: closed_text_def own_rule_def any_filter_def lit_def)

theorem open_comment_disjoins_witness:
  "sentence (conjoin (own_rule @ lit ''//'' @ lit ''mine'') (any_filter @ 10 # lit ''||'' @ any_filter))
     (OrExpr [AndExpr [OrExpr [AndExpr [Comparison (OFieldPath [lit ''owner'']) (lit ''='') (OString (lit ''\"me\"''))],
                               AndExpr [Comparison (OFieldPath [lit ''id'']) (lit ''!='') (OString (lit ''\"\"''))]]]])"
proof -
  have "10 \<notin> set (lit ''mine'')" "10 \<notin> set any_filter" by (simp_all add: any_filter_def lit_def)
  from open_comment_disjoins[OF sample_sentences(1)[unfolded own_tree_def] sample_closed(1) this(1)
      sample_sentences(2)[unfolded any_tree_def] sample_closed(2) this(2) sample_sentences(2)[unfolded any_tree_def] sample_closed(2)]
  show ?thesis by simp
qed

end
