(* ===== verification/Realtime.thy ===== *)
theory Realtime
  imports Access_Control Filter_Grammar
begin

text \<open>
  Model of the realtime service: topics and subscriptions, the subscription manager and the broadcast of record
  changes (\<open>ppbase/services/realtime_service.py\<close>) and the subscribe endpoint (\<open>ppbase/api/realtime.py\<close>).

  A session's response queue is the list of queued messages.  The database is the record \<open>rt_db\<close>: collection
  lookup, the evaluation of a rule expression on one row, reading and expanding a record; each may raise.
  The message hook is an optional function that gives the messages its chain queued and whether it raised.
  Coroutines are run to completion one after the other; the manager's lock makes each of its operations atomic.
\<close>

section \<open>Topics and subscriptions\<close>

record subscription =
  rs_topic :: pystr
  rs_base_topic :: pystr
  rs_auth_token :: "pystr option"
  rs_auth_payload :: "pydict option"
  rs_options_query :: pydict
  rs_options_headers :: pydict

record session =
  ss_client_id :: pystr
  ss_queue :: "(pystr \<times> pyval) list"
  ss_subscriptions :: "subscription list"
  ss_auth_key :: "pystr option"
  ss_auth_key_set :: bool

record parsed_topic =
  pt_raw_topic :: pystr
  pt_base_topic :: pystr
  pt_collection_name :: pystr
  pt_resource :: pystr
  pt_options_query :: pydict
  pt_options_headers :: pydict

text \<open>\<open>s.partition("?")\<close>.\<close>

definition partition_query :: "pystr \<Rightarrow> pystr \<times> pystr" where
  "partition_query s = (takeWhile (\<lambda>c. c \<noteq> 63) s, drop 1 (dropWhile (\<lambda>c. c \<noteq> 63) s))"

definition topic_parts :: "pystr \<Rightarrow> pyexn + pystr \<times> pystr" where
  "topic_parts base_topic =
     (if 47 \<notin> set base_topic then
        if base_topic = lit ''PB_CONNECT'' \<or> prefix [64] base_topic then Inr ([], base_topic) else Inl ValueError
      else let parts = split_on 47 base_topic
           in if length parts \<noteq> 2 \<or> parts ! 0 = [] \<or> parts ! 1 = [] then Inl ValueError
              else Inr (parts ! 0, parts ! 1))"

text \<open>\<open>raw is not None and not isinstance(raw, dict)\<close> raises; then \<open>raw or {}\<close>.\<close>

definition option_dict :: "pyval \<Rightarrow> pyexn + pydict" where
  "option_dict v = (case v of PNone \<Rightarrow> Inr [] | PDict d \<Rightarrow> Inr d | _ \<Rightarrow> Inl ValueError)"

definition topic_options ::
  "py_runtime \<Rightarrow> (pystr \<Rightarrow> (pystr \<times> pystr list) list) \<Rightarrow> pystr \<Rightarrow> pyexn + pydict \<times> pydict" where
  "topic_options rt parse_qs query_string =
     (if query_string = [] then Inr ([], [])
      else case map_of (parse_qs query_string) (lit ''options'') of
             None \<Rightarrow> Inr ([], [])
           | Some [] \<Rightarrow> Inl IndexError
           | Some (raw # _) \<Rightarrow>
               if raw = [] then Inr ([], [])
               else (case rt_json_loads rt raw of
                       Some (PDict parsed) \<Rightarrow>
                         let q = dict_get_or parsed (lit ''query'') (PDict []);
                             h = dict_get_or parsed (lit ''headers'') (PDict [])
                         in bindE (option_dict q) (\<lambda>q'. bindE (option_dict h) (\<lambda>h'. Inr (q', h')))
                     | _ \<Rightarrow> Inl ValueError))"

definition parse_realtime_topic ::
  "py_runtime \<Rightarrow> (pystr \<Rightarrow> (pystr \<times> pystr list) list) \<Rightarrow> pystr \<Rightarrow> pyexn + parsed_topic" where
  "parse_realtime_topic rt parse_qs topic =
     (let raw_topic = py_strip topic
      in if raw_topic = [] then Inl ValueError
         else case partition_query raw_topic of
                (base_topic, query_string) \<Rightarrow>
                  bindE (topic_parts base_topic) (\<lambda>(collection_name, resource).
                  bindE (topic_options rt parse_qs query_string) (\<lambda>(q, h).
                    Inr \<lparr>pt_raw_topic = raw_topic, pt_base_topic = base_topic, pt_collection_name = collection_name,
                         pt_resource = resource, pt_options_query = q, pt_options_headers = h\<rparr>)))"

text \<open>Keys are lowered and kept twice, the second time with underscores; a later key overwrites an earlier one.\<close>

definition normalize_request_headers :: "py_runtime \<Rightarrow> pydict \<Rightarrow> pydict" where
  "normalize_request_headers rt headers =
     foldl (\<lambda>d (k, v). let key = rt_lower rt k
              in dict_put (dict_put d key v) (map (\<lambda>c. if c = 45 then 95 else c) key) v) [] headers"

section \<open>The subscription manager\<close>

type_synonym manager = "(pystr \<times> session) list"

definition new_session :: "pystr \<Rightarrow> session" where
  "new_session cid =
     \<lparr>ss_client_id = cid, ss_queue = [], ss_subscriptions = [], ss_auth_key = None, ss_auth_key_set = False\<rparr>"

definition register_client :: "pystr \<Rightarrow> manager \<Rightarrow> manager" where
  "register_client cid m = AList.update cid (new_session cid) m"

definition update_session :: "pystr \<Rightarrow> (session \<Rightarrow> session) \<Rightarrow> manager \<Rightarrow> manager" where
  "update_session cid f m = map (\<lambda>(k, s). if k = cid then (k, f s) else (k, s)) m"

definition or_dict :: "pydict \<Rightarrow> pydict \<Rightarrow> pydict" where
  "or_dict a b = (if a \<noteq> [] then a else b)"

fun put_subscription :: "subscription \<Rightarrow> subscription list \<Rightarrow> subscription list" where
  "put_subscription sub [] = [sub]"
| "put_subscription sub (s # ss) = (if rs_topic s = rs_topic sub then sub # ss else s # put_subscription sub ss)"

definition add_subscription ::
  "py_runtime \<Rightarrow> (pystr \<Rightarrow> (pystr \<times> pystr list) list) \<Rightarrow> pystr \<Rightarrow> pystr \<Rightarrow> pystr option \<Rightarrow> pydict option \<Rightarrow> pystr
    \<Rightarrow> pydict \<Rightarrow> pydict \<Rightarrow> manager \<Rightarrow> pyexn + manager" where
  "add_subscription rt parse_qs cid topic auth_token auth_payload base_topic q h m =
     (case map_of m cid of
        None \<Rightarrow> Inl ValueError
      | Some _ \<Rightarrow>
          bindE (parse_realtime_topic rt parse_qs topic) (\<lambda>parsed.
            let sub = \<lparr>rs_topic = topic,
                       rs_base_topic = (if base_topic \<noteq> [] then base_topic else pt_base_topic parsed),
                       rs_auth_token = auth_token, rs_auth_payload = auth_payload,
                       rs_options_query = or_dict q (pt_options_query parsed),
                       rs_options_headers = or_dict h (pt_options_headers parsed)\<rparr>
            in Inr (update_session cid (\<lambda>s. s\<lparr>ss_subscriptions := put_subscription sub (ss_subscriptions s)\<rparr>) m)))"

definition replace_subscriptions :: "pystr \<Rightarrow> subscription list \<Rightarrow> manager \<Rightarrow> pyexn + manager" where
  "replace_subscriptions cid subs m =
     (case map_of m cid of
        None \<Rightarrow> Inl ValueError
      | Some _ \<Rightarrow> Inr (update_session cid (\<lambda>s. s\<lparr>ss_subscriptions := subs\<rparr>) m))"

definition remove_subscription :: "pystr \<Rightarrow> pystr \<Rightarrow> manager \<Rightarrow> manager" where
  "remove_subscription cid topic m =
     update_session cid (\<lambda>s. s\<lparr>ss_subscriptions := filter (\<lambda>sub. rs_topic sub \<noteq> topic) (ss_subscriptions s)\<rparr>) m"

definition clear_subscriptions :: "pystr \<Rightarrow> manager \<Rightarrow> manager" where
  "clear_subscriptions cid m = update_session cid (\<lambda>s. s\<lparr>ss_subscriptions := []\<rparr>) m"

definition get_clients_for_topic :: "pystr \<Rightarrow> manager \<Rightarrow> pystr list" where
  "get_clients_for_topic topic m =
     map fst (filter (\<lambda>(cid, s). list_ex (\<lambda>sub. rs_topic sub = topic) (ss_subscriptions s)) m)"

definition disconnect_client :: "pystr \<Rightarrow> manager \<Rightarrow> manager" where
  "disconnect_client cid m = filter (\<lambda>(k, s). k \<noteq> cid) m"

definition get_session :: "pystr \<Rightarrow> manager \<Rightarrow> session option" where
  "get_session cid m = map_of m cid"

section \<open>Which subscription may see an event\<close>

record rt_collection =
  rc_name :: pystr
  rc_list_rule :: "pystr option"
  rc_view_rule :: "pystr option"

record rt_db =
  db_resolve :: "pystr \<Rightarrow> pyexn + rt_collection option"
  db_check_rule :: "rt_collection \<Rightarrow> pystr \<Rightarrow> pystr \<Rightarrow> pydict \<Rightarrow> pyexn + bool"
  db_get_record :: "rt_collection \<Rightarrow> pystr \<Rightarrow> pydict option \<Rightarrow> pyexn + pydict option"
  db_expand :: "rt_collection \<Rightarrow> pydict \<Rightarrow> pystr \<Rightarrow> pydict \<Rightarrow> pyexn + pydict"

definition payload_get :: "pydict \<Rightarrow> string \<Rightarrow> pyval" where
  "payload_get p k = dict_get_or p (lit k) (PStr [])"

definition auth_info :: "pydict \<Rightarrow> pydict" where
  "auth_info p =
     map (\<lambda>k. (lit k, payload_get p k)) [''id'', ''email'', ''type'', ''collectionId'', ''collectionName'']"

definition build_rule_context :: "pydict option \<Rightarrow> pydict option \<times> pydict" where
  "build_rule_context token_payload =
     (let info = (case token_payload of None \<Rightarrow> [] | Some p \<Rightarrow> auth_info p);
          auth_ctx =
            (case token_payload of
               None \<Rightarrow> None
             | Some p \<Rightarrow>
                 if dict_get p (lit ''type'') = PStr (lit ''admin'') then
                   Some [(lit ''is_admin'', PBool True), (lit ''@request.auth.id'', payload_get p ''id''),
                         (lit ''@request.auth.email'', payload_get p ''email'')]
                 else
                   Some [(lit ''is_admin'', PBool False), (lit ''@request.auth.id'', payload_get p ''id''),
                         (lit ''@request.auth.collectionId'', payload_get p ''collectionId''),
                         (lit ''@request.auth.collectionName'', payload_get p ''collectionName''),
                         (lit ''@request.auth.type'', payload_get p ''type'')])
      in (auth_ctx,
          [(lit ''context'', PStr (lit ''realtime'')), (lit ''method'', PStr (lit ''GET'')), (lit ''headers'', PDict []),
           (lit ''auth'', PDict info), (lit ''data'', PDict []), (lit ''query'', PDict [])]))"

definition subscription_context :: "py_runtime \<Rightarrow> subscription \<Rightarrow> pydict" where
  "subscription_context rt sub =
     (let ctx = snd (build_rule_context (rs_auth_payload sub));
          ctx1 = (if rs_options_query sub \<noteq> [] then dict_put ctx (lit ''query'') (PDict (rs_options_query sub)) else ctx)
      in if rs_options_headers sub \<noteq> []
         then dict_put ctx1 (lit ''headers'') (PDict (normalize_request_headers rt (rs_options_headers sub))) else ctx1)"

definition strip_str :: "pyval \<Rightarrow> pystr" where
  "strip_str v = (case v of PStr s \<Rightarrow> py_strip s | _ \<Rightarrow> [])"

definition subscription_rule :: "rt_collection \<Rightarrow> subscription \<Rightarrow> pystr option" where
  "subscription_rule c sub =
     (if drop (length (rs_base_topic sub) - 2) (rs_base_topic sub) = lit ''/*'' then rc_list_rule c else rc_view_rule c)"

text \<open>The decision of the collection's rule, narrowed by the filter of the subscription.\<close>

definition combined_rule :: "rt_collection \<Rightarrow> subscription \<Rightarrow> rule_decision" where
  "combined_rule c sub =
     (let d = check_rule (subscription_rule c sub) (fst (build_rule_context (rs_auth_payload sub)));
          f = strip_str (dict_get (rs_options_query sub) (lit ''filter''))
      in if f = [] then d
         else case d of
                Allow \<Rightarrow> FilterBy f
              | FilterBy r \<Rightarrow> FilterBy (lit ''('' @ r @ lit '') && ('' @ f @ lit '')'')
              | Deny \<Rightarrow> Deny)"

definition is_subscription_allowed_for_event ::
  "py_runtime \<Rightarrow> rt_db \<Rightarrow> rt_collection \<Rightarrow> subscription \<Rightarrow> pystr \<Rightarrow> pystr \<Rightarrow> bool" where
  "is_subscription_allowed_for_event rt db c sub record_id action =
     (case combined_rule c sub of
        Deny \<Rightarrow> False
      | Allow \<Rightarrow> True
      | FilterBy expr \<Rightarrow>
          if action = lit ''delete'' then False
          else (case db_check_rule db c record_id expr (subscription_context rt sub) of Inl _ \<Rightarrow> False | Inr b \<Rightarrow> b))"

section \<open>Event data and the broadcast\<close>

definition parse_fields :: "pystr \<Rightarrow> pystr list" where
  "parse_fields fields_param = filter (\<lambda>n. n \<noteq> []) (map py_strip (split_on 44 fields_param))"

definition apply_fields_filter :: "pydict \<Rightarrow> pystr option \<Rightarrow> pydict" where
  "apply_fields_filter rec fields_param =
     (case fields_param of
        None \<Rightarrow> rec
      | Some p \<Rightarrow>
          let fs = parse_fields p
          in if fs = [] \<or> lit ''*'' \<in> set fs then rec else filter (\<lambda>(k, v). k \<in> set fs) rec)"

definition event_body :: "pystr \<Rightarrow> pydict \<Rightarrow> pyval" where
  "event_body action rec = PDict [(lit ''action'', PStr action), (lit ''record'', PDict rec)]"

definition build_subscription_event_data ::
  "py_runtime \<Rightarrow> rt_db \<Rightarrow> rt_collection \<Rightarrow> pystr \<Rightarrow> pystr \<Rightarrow> pydict option \<Rightarrow> subscription \<Rightarrow> pyexn + pyval option" where
  "build_subscription_event_data rt db c record_id action base_record sub =
     (let ctx = subscription_context rt sub
      in bindE (case base_record of Some r \<Rightarrow> Inr (Some r) | None \<Rightarrow> db_get_record db c record_id (Some ctx)) (\<lambda>found.
           case found of
             None \<Rightarrow> Inr None
           | Some rec \<Rightarrow>
               let ex = strip_str (dict_get (rs_options_query sub) (lit ''expand''));
                   flds = (case dict_get (rs_options_query sub) (lit ''fields'') of PStr s \<Rightarrow> Some s | _ \<Rightarrow> None)
               in if ex = [] then Inr (Some (event_body action (apply_fields_filter rec flds)))
                  else (case db_expand db c rec ex ctx of
                          Inl _ \<Rightarrow> Inr None
                        | Inr rec' \<Rightarrow> Inr (Some (event_body action (apply_fields_filter rec' flds))))))"

record rt_env =
  re_rt :: py_runtime
  re_db :: "rt_db option"
  re_hook :: "(pystr \<Rightarrow> subscription \<Rightarrow> pystr \<Rightarrow> pyval \<Rightarrow> (pystr \<times> pyval) list \<times> pyexn option) option"

text \<open>The messages queued for one subscription; an exception of the hook is logged and dropped by the caller.\<close>

definition send_realtime_message :: "rt_env \<Rightarrow> pystr \<Rightarrow> subscription \<Rightarrow> pyval \<Rightarrow> (pystr \<times> pyval) list" where
  "send_realtime_message env cid sub data =
     (case re_hook env of
        None \<Rightarrow> [(rs_topic sub, data)]
      | Some trigger \<Rightarrow> fst (trigger cid sub (rs_topic sub) data))"

text \<open>
  One subscription of the snapshot: the data to send, \<open>None\<close> when the loop continues without sending.
\<close>

definition subscription_data ::
  "rt_env \<Rightarrow> rt_collection option \<Rightarrow> pystr list \<Rightarrow> pystr \<Rightarrow> pystr \<Rightarrow> pydict option \<Rightarrow> pyval \<Rightarrow> subscription
    \<Rightarrow> pyexn + pyval option" where
  "subscription_data env coll topics record_id action record_data event_data sub =
     (if rs_base_topic sub \<notin> set topics then Inr None
      else case (re_db env, coll) of
             (Some db, Some c) \<Rightarrow>
               if \<not> is_subscription_allowed_for_event (re_rt env) db c sub record_id action then Inr None
               else if action \<noteq> lit ''delete'' \<and> rs_options_query sub \<noteq> [] then
                 build_subscription_event_data (re_rt env) db c record_id action record_data sub
               else Inr (Some event_data)
           | _ \<Rightarrow> Inr (Some event_data))"

fun send_to_subscriptions ::
  "rt_env \<Rightarrow> (subscription \<Rightarrow> pyexn + pyval option) \<Rightarrow> pystr \<Rightarrow> subscription list
    \<Rightarrow> (pystr \<times> pystr \<times> pyval) list \<times> pyexn option" where
  "send_to_subscriptions env data_for cid [] = ([], None)"
| "send_to_subscriptions env data_for cid (sub # subs) =
     (case data_for sub of
        Inl e \<Rightarrow> ([], Some e)
      | Inr d \<Rightarrow>
          (let sent = (case d of None \<Rightarrow> [] | Some v \<Rightarrow> map (Pair cid) (send_realtime_message env cid sub v))
           in case send_to_subscriptions env data_for cid subs of (rest, e) \<Rightarrow> (sent @ rest, e)))"

fun send_to_sessions ::
  "rt_env \<Rightarrow> (subscription \<Rightarrow> pyexn + pyval option) \<Rightarrow> manager \<Rightarrow> (pystr \<times> pystr \<times> pyval) list \<times> pyexn option" where
  "send_to_sessions env data_for [] = ([], None)"
| "send_to_sessions env data_for ((cid, s) # rest) =
     (case send_to_subscriptions env data_for cid (ss_subscriptions s) of
        (sent, Some e) \<Rightarrow> (sent, Some e)
      | (sent, None) \<Rightarrow> (case send_to_sessions env data_for rest of (more_sent, e) \<Rightarrow> (sent @ more_sent, e)))"

definition queue_messages :: "(pystr \<times> pystr \<times> pyval) list \<Rightarrow> manager \<Rightarrow> manager" where
  "queue_messages sent m =
     map (\<lambda>(k, s). (k, s\<lparr>ss_queue := ss_queue s @ map snd (filter (\<lambda>x. fst x = k) sent)\<rparr>)) m"

definition change_topics :: "pystr \<Rightarrow> pystr \<Rightarrow> pystr list" where
  "change_topics name record_id = [name @ lit ''/*'', name @ lit ''/'' @ record_id]"

definition broadcast_record_change ::
  "rt_env \<Rightarrow> rt_collection option \<Rightarrow> pystr \<Rightarrow> pystr \<Rightarrow> pystr \<Rightarrow> pydict option \<Rightarrow> manager \<Rightarrow> manager \<times> pyexn option" where
  "broadcast_record_change env coll name record_id action record_data m =
     (let event_data = event_body action (case record_data of
                                            Some (x # xs) \<Rightarrow> x # xs | _ \<Rightarrow> [(lit ''id'', PStr record_id)]);
          run = (\<lambda>c. case send_to_sessions env
                          (subscription_data env c (change_topics name record_id) record_id action record_data event_data) m of
                       (sent, e) \<Rightarrow> (queue_messages sent m, e))
      in case (re_db env, coll) of
           (Some db, None) \<Rightarrow>
             (case db_resolve db name of
                Inl e \<Rightarrow> (m, Some e)
              | Inr None \<Rightarrow> (m, None)
              | Inr (Some c) \<Rightarrow> run (Some c))
         | _ \<Rightarrow> run coll)"

text \<open>The notification callback; every exception is logged and dropped.\<close>

definition on_notification :: "rt_env \<Rightarrow> rt_db \<Rightarrow> pystr \<Rightarrow> manager \<Rightarrow> manager" where
  "on_notification env db payload m =
     (case rt_json_loads (re_rt env) payload of
        Some (PDict event) \<Rightarrow>
          (let cn = dict_get event (lit ''collection''); ri = dict_get event (lit ''record_id'');
               ac = dict_get event (lit ''action'')
           in case (cn, ri, ac) of
                (PStr name, PStr record_id, PStr action) \<Rightarrow>
                  if name = [] \<or> record_id = [] \<or> action = [] then m
                  else (case db_resolve db name of
                          Inr (Some c) \<Rightarrow>
                            let record_data =
                                  (if action = lit ''delete'' then None
                                   else case db_get_record db c record_id None of
                                          Inr r \<Rightarrow> r
                                        | Inl _ \<Rightarrow> Some [(lit ''id'', PStr record_id)])
                            in fst (broadcast_record_change (env\<lparr>re_db := Some db\<rparr>) (Some c) name record_id action record_data m)
                        | _ \<Rightarrow> m)
              | _ \<Rightarrow> m)
      | _ \<Rightarrow> m)"

section \<open>The subscribe endpoint\<close>

datatype rt_response = BadBody | MissingClientId | UnknownClient | AuthMismatch | NoContent | Failed pyexn

definition build_realtime_auth_key :: "py_runtime \<Rightarrow> pydict option \<Rightarrow> pystr option" where
  "build_realtime_auth_key rt auth =
     (case auth of
        None \<Rightarrow> None
      | Some a \<Rightarrow>
          if a = [] then None
          else Some (py_str rt (payload_get a ''type'') @ [58] @ py_str rt (payload_get a ''collectionId'') @ [58]
                     @ py_str rt (payload_get a ''id'')))"

definition bearer_token :: "py_runtime \<Rightarrow> pystr option \<Rightarrow> pystr option" where
  "bearer_token rt authorization =
     (case authorization of
        None \<Rightarrow> None
      | Some t \<Rightarrow>
          if t = [] then None
          else if prefix (lit ''bearer '') (rt_lower rt t) then Some (py_strip (drop 7 t)) else Some t)"

fun parse_subscriptions ::
  "py_runtime \<Rightarrow> (pystr \<Rightarrow> (pystr \<times> pystr list) list) \<Rightarrow> rt_db \<Rightarrow> pystr option \<Rightarrow> pydict option \<Rightarrow> pystr list \<Rightarrow> subscription list" where
  "parse_subscriptions rt parse_qs db auth_token auth [] = []"
| "parse_subscriptions rt parse_qs db auth_token auth (sub # subs) =
     (let rest = parse_subscriptions rt parse_qs db auth_token auth subs; raw_topic = py_strip sub
      in if raw_topic = [] then rest
         else case parse_realtime_topic rt parse_qs raw_topic of
                Inl _ \<Rightarrow> rest
              | Inr p \<Rightarrow>
                  if pt_collection_name p \<noteq> [] \<and>
                     \<not> (case db_resolve db (pt_collection_name p) of Inr (Some _) \<Rightarrow> True | _ \<Rightarrow> False) then rest
                  else \<lparr>rs_topic = pt_raw_topic p, rs_base_topic = pt_base_topic p, rs_auth_token = auth_token,
                        rs_auth_payload = auth, rs_options_query = pt_options_query p,
                        rs_options_headers = pt_options_headers p\<rparr> # rest)"

definition body_client_id :: "pydict \<Rightarrow> pyexn + pystr" where
  "body_client_id body =
     (case dict_get_or body (lit ''clientId'') (PStr []) of PStr s \<Rightarrow> Inr (py_strip s) | _ \<Rightarrow> Inl AttributeError)"

definition body_topics :: "pydict \<Rightarrow> pyexn + pystr list" where
  "body_topics body =
     (case dict_get_or body (lit ''subscriptions'') (PList []) of
        PList xs \<Rightarrow> Inr (concat (map (\<lambda>x. case x of PStr s \<Rightarrow> [s] | _ \<Rightarrow> []) xs))
      | PStr s \<Rightarrow> Inr (map (\<lambda>c. [c]) s)
      | PDict d \<Rightarrow> Inr (map fst d)
      | _ \<Rightarrow> Inl TypeError)"

definition realtime_subscribe ::
  "py_runtime \<Rightarrow> (pystr \<Rightarrow> (pystr \<times> pystr list) list) \<Rightarrow> rt_db \<Rightarrow> pyval option \<Rightarrow> pystr option \<Rightarrow> pydict option \<Rightarrow> manager
    \<Rightarrow> rt_response \<times> manager" where
  "realtime_subscribe rt parse_qs db json_body authorization auth m =
     (case json_body of
        None \<Rightarrow> (BadBody, m)
      | Some (PDict body) \<Rightarrow>
          (case body_client_id body of
             Inl e \<Rightarrow> (Failed e, m)
           | Inr cid \<Rightarrow>
               if cid = [] then (MissingClientId, m)
               else case get_session cid m of
                      None \<Rightarrow> (UnknownClient, m)
                    | Some s \<Rightarrow>
                        let key = build_realtime_auth_key rt auth
                        in if ss_auth_key_set s \<and> ss_auth_key s \<noteq> key then (AuthMismatch, m)
                           else
                             let m1 = (if ss_auth_key_set s then m
                                       else update_session cid (\<lambda>s. s\<lparr>ss_auth_key := key, ss_auth_key_set := True\<rparr>) m)
                             in case body_topics body of
                                  Inl e \<Rightarrow> (Failed e, m1)
                                | Inr topics \<Rightarrow>
                                    (case replace_subscriptions cid
                                            (parse_subscriptions rt parse_qs db (bearer_token rt authorization) auth topics) m1 of
                                       Inl e \<Rightarrow> (Failed e, m1)
                                     | Inr m2 \<Rightarrow> (NoContent, m2)))
      | Some _ \<Rightarrow> (Failed AttributeError, m))"

section \<open>Delivery follows the rules\<close>

lemma sent_subscriptions:
  assumes "send_to_subscriptions env data_for cid subs = (sent, e)" "re_hook env = None" "x \<in> set sent"
  shows "\<exists>sub v. sub \<in> set subs \<and> data_for sub = Inr (Some v) \<and> x = (cid, rs_topic sub, v)"
  using assms
proof (induction subs arbitrary: sent)
  case (Cons sub subs)
  then obtain d rest where d: "data_for sub = Inr d" "send_to_subscriptions env data_for cid subs = (rest, e)"
    "x \<in> set (case d of None \<Rightarrow> [] | Some v \<Rightarrow> [(cid, rs_topic sub, v)]) \<or> x \<in> set rest"
    by (cases "data_for sub") (auto simp: send_realtime_message_def Let_def split: prod.splits option.splits)
  show ?case
  proof (cases "x \<in> set rest")
    case True
    from Cons.IH[OF d(2) Cons.prems(2) True] show ?thesis by auto
  next
    case False
    with d(1,3) show ?thesis by (cases d) auto
  qed
qed simp

lemma sent_sessions:
  assumes "send_to_sessions env data_for m = (sent, e)" "re_hook env = None" "x \<in> set sent"
  shows "\<exists>cid s sub v. (cid, s) \<in> set m \<and> sub \<in> set (ss_subscriptions s) \<and> data_for sub = Inr (Some v) \<and> x = (cid, rs_topic sub, v)"
  using assms
proof (induction m arbitrary: sent)
  case (Cons a rest)
  obtain cid s where a: "a = (cid, s)" by fastforce
  obtain sent1 e1 where s1: "send_to_subscriptions env data_for cid (ss_subscriptions s) = (sent1, e1)" by fastforce
  show ?case
  proof (cases "x \<in> set sent1")
    case True
    from sent_subscriptions[OF s1 Cons.prems(2) True] a show ?thesis by (metis list.set_intros(1))
  next
    case False
    with s1 a Cons.prems obtain sent2 where s2: "send_to_sessions env data_for rest = (sent2, e)" "x \<in> set sent2"
      by (auto split: option.splits prod.splits)
    from Cons.IH[OF s2(1) Cons.prems(2) s2(2)] show ?thesis by (metis list.set_intros(2))
  qed
qed simp

lemma data_allowed:
  assumes "subscription_data env (Some c) topics rid action rd ev sub = Inr (Some v)" "re_db env = Some db"
  shows "rs_base_topic sub \<in> set topics \<and> is_subscription_allowed_for_event (re_rt env) db c sub rid action"
  using assms by (auto simp: subscription_data_def split: if_splits)

lemma queue_messages_in:
  "(k, s') \<in> set (queue_messages sent m) \<Longrightarrow>
     \<exists>s. (k, s) \<in> set m \<and> s' = s\<lparr>ss_queue := ss_queue s @ map snd (filter (\<lambda>x. fst x = k) sent)\<rparr>"
  by (auto simp: queue_messages_def)

text \<open>
  When a rule lets a caller see a record, by the grammar of rules and the connectives of SQL and without reference to
  the code's check.  \<open>leaf\<close> says which comparisons hold for the record; a blank text restricts nothing.
\<close>

fun tree_holds :: "(operand \<Rightarrow> pystr \<Rightarrow> operand \<Rightarrow> bool) \<Rightarrow> ftree \<Rightarrow> bool" where
  "tree_holds leaf (OrExpr ts) = list_ex (tree_holds leaf) ts"
| "tree_holds leaf (AndExpr ts) = list_all (tree_holds leaf) ts"
| "tree_holds leaf (Comparison x p y) = leaf x p y"

definition satisfies :: "(operand \<Rightarrow> pystr \<Rightarrow> operand \<Rightarrow> bool) \<Rightarrow> pystr \<Rightarrow> bool" where
  "satisfies leaf text \<longleftrightarrow> py_strip text = [] \<or> (\<exists>t. sentence text t \<and> tree_holds leaf t)"

text \<open>Where the database confirms an expression for a row, the row satisfies the expression.\<close>

definition confirms_soundly ::
  "rt_db \<Rightarrow> (rt_collection \<Rightarrow> pystr \<Rightarrow> pydict \<Rightarrow> operand \<Rightarrow> pystr \<Rightarrow> operand \<Rightarrow> bool) \<Rightarrow> bool" where
  "confirms_soundly db leaf \<longleftrightarrow>
     (\<forall>c rid expr ctx. db_check_rule db c rid expr ctx = Inr True \<longrightarrow> satisfies (leaf c rid ctx) expr)"

definition topic_rule :: "rt_collection \<Rightarrow> pystr \<Rightarrow> pystr option" where
  "topic_rule c topic = (if \<exists>p. topic = p @ lit ''/*'' then rc_list_rule c else rc_view_rule c)"

definition by_admin :: "subscription \<Rightarrow> bool" where
  "by_admin sub \<longleftrightarrow> (\<exists>p. rs_auth_payload sub = Some p \<and> dict_get p (lit ''type'') = PStr (lit ''admin''))"

text \<open>
  The filter a client subscribes with is pasted behind the rule unread.  It leaves the rule alone if it is a sentence of
  the grammar by itself and the rule is one that does not end in an open comment.
\<close>

definition harmless_filter :: "pystr \<Rightarrow> subscription \<Rightarrow> bool" where
  "harmless_filter rule sub \<longleftrightarrow>
     (let f = strip_str (dict_get (rs_options_query sub) (lit ''filter''))
      in f = [] \<or> (\<exists>t. sentence f t) \<and> (\<exists>t. sentence rule t) \<and> closed_text rule)"

definition may_see ::
  "(operand \<Rightarrow> pystr \<Rightarrow> operand \<Rightarrow> bool) \<Rightarrow> rt_collection \<Rightarrow> pystr \<Rightarrow> subscription \<Rightarrow> bool" where
  "may_see leaf c action sub \<longleftrightarrow>
     by_admin sub \<or>
     (\<exists>rule. topic_rule c (rs_base_topic sub) = Some rule \<and>
        (rule = [] \<or> action \<noteq> lit ''delete'' \<and> (harmless_filter rule sub \<longrightarrow> satisfies leaf rule)))"

lemma subscription_rule_topic: "subscription_rule c sub = topic_rule c (rs_base_topic sub)"
proof -
  have "drop (length s - 2) s = lit ''/*'' \<longleftrightarrow> (\<exists>p. s = p @ lit ''/*'')" for s
  proof
    assume "drop (length s - 2) s = lit ''/*''"
    then show "\<exists>p. s = p @ lit ''/*''" using append_take_drop_id[of "length s - 2" s] by metis
  qed auto
  then show ?thesis by (simp add: subscription_rule_def topic_rule_def)
qed

lemma admin_context: "is_admin (fst (build_rule_context (rs_auth_payload sub))) \<longleftrightarrow> by_admin sub"
  by (auto simp: build_rule_context_def is_admin_def by_admin_def Let_def dict_get_def split: option.splits)

lemma satisfies_conjoined:
  assumes "satisfies leaf (conjoin r f)" "sentence r r0" "sentence f f0" "closed_text r"
  shows "satisfies leaf r"
proof -
  have "\<not> is_space 40" "\<not> is_space 41" by (simp_all add: is_space_def)
  then have "py_strip (conjoin r f) \<noteq> []" by (simp add: conjoin_codes py_strip_def)
  with assms(1) obtain t where t: "sentence (conjoin r f) t" "tree_holds leaf t" by (auto simp: satisfies_def)
  from conjoined_sentence[OF assms(2,3,4) t(1)] t(2) show ?thesis by (auto simp: satisfies_def)
qed

lemma allowed_may_see:
  assumes "is_subscription_allowed_for_event rt db c sub rid action" "confirms_soundly db leaf"
  shows "may_see (leaf c rid (subscription_context rt sub)) c action sub"
proof (cases "by_admin sub")
  case False
  then have a: "\<not> is_admin (fst (build_rule_context (rs_auth_payload sub)))" by (simp add: admin_context)
  let ?f = "strip_str (dict_get (rs_options_query sub) (lit ''filter''))"
  from assms(1) a obtain rule where rule: "topic_rule c (rs_base_topic sub) = Some rule"
    by (auto simp: is_subscription_allowed_for_event_def combined_rule_def check_rule_def subscription_rule_topic Let_def
        split: option.splits if_splits)
  show ?thesis
  proof (cases "rule = []")
    case rule_text: False
    have c: "combined_rule c sub = FilterBy (if ?f = [] then rule else conjoin rule ?f)"
      using rule rule_text a by (simp add: combined_rule_def check_rule_def subscription_rule_topic conjoin_def Let_def)
    with assms have "action \<noteq> lit ''delete''" "satisfies (leaf c rid (subscription_context rt sub)) (if ?f = [] then rule else conjoin rule ?f)"
      by (auto simp: is_subscription_allowed_for_event_def confirms_soundly_def split: if_splits sum.splits)
    with rule satisfies_conjoined show ?thesis
      by (auto simp: may_see_def harmless_filter_def Let_def split: if_splits)
  qed (use rule in \<open>simp add: may_see_def\<close>)
qed (simp add: may_see_def)

text \<open>
  C10: A broadcast queues messages only for subscriptions that may see the record.  Without a message hook, whatever a
  client finds in its queue after the broadcast was there before, or was sent for a subscription of that client to
  the record's collection or to the record itself, made by a superuser or under a rule (the list rule for the
  collection, the view rule for the record) that is empty or that the record satisfies; under a rule that is not empty
  no deletion is announced.  The one exception is a subscription whose own filter is not harmless: it can leave the
  rule's parentheses, and then nothing is said of the rule.
\<close>

theorem broadcast_only_allowed:
  assumes "re_hook env = None" "re_db env = Some db" "distinct (map fst m)" "confirms_soundly db leaf"
    and "broadcast_record_change env (Some c) name rid action rd m = (m', e)"
    and "(cid, s') \<in> set m'" "msg \<in> set (ss_queue s')"
  shows "\<exists>s. (cid, s) \<in> set m \<and>
    (msg \<in> set (ss_queue s) \<or>
     (\<exists>sub \<in> set (ss_subscriptions s). fst msg = rs_topic sub \<and>
        rs_base_topic sub \<in> {name @ lit ''/*'', name @ lit ''/'' @ rid} \<and>
        may_see (leaf c rid (subscription_context (re_rt env) sub)) c action sub))"
proof -
  let ?ev = "event_body action (case rd of Some (x # xs) \<Rightarrow> x # xs | _ \<Rightarrow> [(lit ''id'', PStr rid)])"
  let ?data = "subscription_data env (Some c) (change_topics name rid) rid action rd ?ev"
  obtain sent where run: "send_to_sessions env ?data m = (sent, e)" "m' = queue_messages sent m"
    using assms(2,5) by (auto simp: broadcast_record_change_def Let_def split: prod.splits)
  from queue_messages_in assms(6) run(2) obtain s where
    s: "(cid, s) \<in> set m" "s' = s\<lparr>ss_queue := ss_queue s @ map snd (filter (\<lambda>x. fst x = cid) sent)\<rparr>" by blast
  show ?thesis
  proof (cases "msg \<in> set (ss_queue s)")
    case False
    with assms(7) s(2) have "(cid, msg) \<in> set sent" by auto
    from sent_sessions[OF run(1) assms(1) this] obtain s2 sub v where
      sub: "(cid, s2) \<in> set m" "sub \<in> set (ss_subscriptions s2)" "?data sub = Inr (Some v)" "msg = (rs_topic sub, v)" by auto
    from sub(1) s(1) assms(3) have "s2 = s" by (metis map_of_eq_Some_iff option.inject)
    moreover from data_allowed[OF sub(3) assms(2)] have "rs_base_topic sub \<in> {name @ lit ''/*'', name @ lit ''/'' @ rid}"
        "may_see (leaf c rid (subscription_context (re_rt env) sub)) c action sub"
      using allowed_may_see[OF _ assms(4)] by (simp_all add: change_topics_def)
    ultimately show ?thesis using sub s(1) by (metis fst_conv)
  qed (use s in blast)
qed

section \<open>Delivery is complete\<close>

definition messages_for :: "(subscription \<Rightarrow> pyexn + pyval option) \<Rightarrow> subscription \<Rightarrow> (pystr \<times> pyval) list" where
  "messages_for data_for sub = (case data_for sub of Inr (Some v) \<Rightarrow> [(rs_topic sub, v)] | _ \<Rightarrow> [])"

lemma sent_subscriptions_exact:
  "send_to_subscriptions env data_for cid subs = (sent, None) \<Longrightarrow> re_hook env = None \<Longrightarrow>
     sent = map (Pair cid) (concat (map (messages_for data_for) subs))"
proof (induction subs arbitrary: sent)
  case (Cons sub subs)
  then show ?case
    by (cases "data_for sub")
      (auto simp: send_realtime_message_def Let_def messages_for_def split: prod.splits option.splits)
qed simp

lemma sent_sessions_exact:
  "send_to_sessions env data_for m = (sent, None) \<Longrightarrow> re_hook env = None \<Longrightarrow>
     sent = concat (map (\<lambda>(cid, s). map (Pair cid) (concat (map (messages_for data_for) (ss_subscriptions s)))) m)"
  by (induction env data_for m arbitrary: sent rule: send_to_sessions.induct)
    (auto split: option.splits prod.splits dest: sent_subscriptions_exact)

lemma filter_concat_key:
  assumes "distinct (map fst m)" "(cid, s) \<in> set m"
  shows "map snd (filter (\<lambda>x. fst x = cid) (concat (map (\<lambda>(k, s). map (Pair k) (f s)) m))) = f s"
  using assms
proof (induction m)
  case (Cons a m)
  obtain k t where a: "a = (k, t)" by fastforce
  have none: "filter (\<lambda>x. fst x = k) (concat (map (\<lambda>(k, s). map (Pair k) (f s)) m)) = []" if "k \<notin> fst ` set m" for k
    using that by (force simp: filter_empty_conv)
  have self: "map snd (filter (\<lambda>x. fst x = k) (map (Pair k) (f t))) = f t" by (simp add: filter_map o_def)
  show ?case
  proof (cases "cid = k")
    case True
    with Cons.prems a have "s = t" "k \<notin> fst ` set m" by force+
    with True a none[of k] self show ?thesis by simp
  next
    case False
    then have "filter (\<lambda>x. fst x = cid) (map (Pair k) (f t)) = []" by (auto simp: filter_empty_conv)
    with False Cons a show ?thesis by auto
  qed
qed simp

text \<open>
  A broadcast that meets no database error gives every client exactly one message per subscription that is due,
  in the order of its subscriptions, appended to its queue; nothing else of any session changes.
\<close>

theorem broadcast_exact:
  assumes "re_hook env = None" "re_db env = Some db" "distinct (map fst m)"
    and "broadcast_record_change env (Some c) name rid action rd m = (m', None)" "map_of m cid = Some s"
    and "data_for = subscription_data env (Some c) (change_topics name rid) rid action rd
      (event_body action (case rd of Some (x # xs) \<Rightarrow> x # xs | _ \<Rightarrow> [(lit ''id'', PStr rid)]))"
  shows "map_of m' cid = Some (s\<lparr>ss_queue := ss_queue s @ concat (map (messages_for data_for) (ss_subscriptions s))\<rparr>)"
proof -
  obtain sent where run: "send_to_sessions env data_for m = (sent, None)" "m' = queue_messages sent m"
    using assms(2,4,6) by (auto simp: broadcast_record_change_def Let_def split: prod.splits)
  have inm: "(cid, s) \<in> set m" using assms(5) by (rule map_of_SomeD)
  have "map snd (filter (\<lambda>x. fst x = cid) sent) = concat (map (messages_for data_for) (ss_subscriptions s))"
    unfolding sent_sessions_exact[OF run(1) assms(1)]
    by (rule filter_concat_key[OF assms(3) inm, of "\<lambda>s. concat (map (messages_for data_for) (ss_subscriptions s))"])
  moreover have "map_of m' cid = Some (s\<lparr>ss_queue := ss_queue s @ map snd (filter (\<lambda>x. fst x = cid) sent)\<rparr>)"
  proof -
    have "distinct (map fst m')" using assms(3) run(2) by (simp add: queue_messages_def comp_def case_prod_beta)
    moreover have "(cid, s\<lparr>ss_queue := ss_queue s @ map snd (filter (\<lambda>x. fst x = cid) sent)\<rparr>) \<in> set m'"
      using inm run(2) by (force simp: queue_messages_def)
    ultimately show ?thesis by (simp add: map_of_is_SomeI)
  qed
  ultimately show ?thesis by simp
qed

section \<open>One identity per session\<close>

text \<open>The events that change the manager, with the default handlers of the endpoints.\<close>

inductive rt_step :: "py_runtime \<Rightarrow> (pystr \<Rightarrow> (pystr \<times> pystr list) list) \<Rightarrow> rt_env \<Rightarrow> rt_db \<Rightarrow> manager \<Rightarrow> manager \<Rightarrow> bool"
  for rt parse_qs env db where
  connect: "rt_step rt parse_qs env db m (register_client cid m)"
| subscribe: "rt_step rt parse_qs env db m (snd (realtime_subscribe rt parse_qs db body authorization auth m))"
| disconnect: "rt_step rt parse_qs env db m (disconnect_client cid m)"
| notify: "rt_step rt parse_qs env db m (on_notification env db payload m)"

definition one_identity :: "py_runtime \<Rightarrow> session \<Rightarrow> bool" where
  "one_identity rt s \<longleftrightarrow>
     (\<forall>sub \<in> set (ss_subscriptions s). ss_auth_key_set s \<and> build_realtime_auth_key rt (rs_auth_payload sub) = ss_auth_key s)"

definition manager_ok :: "py_runtime \<Rightarrow> manager \<Rightarrow> bool" where
  "manager_ok rt m \<longleftrightarrow> distinct (map fst m) \<and> (\<forall>(cid, s) \<in> set m. one_identity rt s)"

lemma update_session_ok:
  "manager_ok rt m \<Longrightarrow> (\<And>s. (cid, s) \<in> set m \<Longrightarrow> one_identity rt s \<Longrightarrow> one_identity rt (f s)) \<Longrightarrow> manager_ok rt (update_session cid f m)"
  unfolding manager_ok_def
proof (intro conjI ballI; elim conjE)
  assume "distinct (map fst m)"
  then show "distinct (map fst (update_session cid f m))"
    by (simp add: update_session_def comp_def case_prod_beta if_distrib[of fst] cong: if_cong)
next
  fix x assume f: "\<And>s. (cid, s) \<in> set m \<Longrightarrow> one_identity rt s \<Longrightarrow> one_identity rt (f s)"
    and m: "\<forall>(cid, s) \<in> set m. one_identity rt s" and "x \<in> set (update_session cid f m)"
  then obtain k t where "(k, t) \<in> set m" "x = (if k = cid then (k, f t) else (k, t))"
    by (auto simp: update_session_def)
  with f m show "case x of (cid, s) \<Rightarrow> one_identity rt s" by auto
qed

lemma register_ok: "manager_ok rt m \<Longrightarrow> manager_ok rt (register_client cid m)"
proof -
  assume m: "manager_ok rt m"
  have "set (AList.update cid (new_session cid) m) \<subseteq> insert (cid, new_session cid) (set m)"
    by (induction m) auto
  moreover have "one_identity rt (new_session cid)" by (simp add: one_identity_def new_session_def)
  ultimately show ?thesis using m by (auto simp: manager_ok_def register_client_def distinct_update)
qed

lemma disconnect_ok: "manager_ok rt m \<Longrightarrow> manager_ok rt (disconnect_client cid m)"
  by (auto simp: manager_ok_def disconnect_client_def distinct_map inj_on_def)

lemma queue_ok: "manager_ok rt m \<Longrightarrow> manager_ok rt (queue_messages sent m)"
  by (auto simp: manager_ok_def queue_messages_def comp_def case_prod_beta one_identity_def)

lemma broadcast_ok: "manager_ok rt m \<Longrightarrow> manager_ok rt (fst (broadcast_record_change env coll name rid action rd m))"
  by (auto simp: broadcast_record_change_def Let_def queue_ok split: option.split prod.split sum.split)

lemma notification_ok: "manager_ok rt m \<Longrightarrow> manager_ok rt (on_notification env db payload m)"
  by (auto simp: on_notification_def Let_def broadcast_ok split: option.split pyval.split prod.split sum.split)

lemma parse_subscriptions_payload: "sub \<in> set (parse_subscriptions rt qs db tok auth topics) \<Longrightarrow> rs_auth_payload sub = auth"
  by (induction rt qs db tok auth topics rule: parse_subscriptions.induct) (auto simp: Let_def split: if_splits sum.splits option.splits)

lemma subscribe_ok:
  assumes "manager_ok rt m"
  shows "manager_ok rt (snd (realtime_subscribe rt qs db body authorization auth m))"
proof -
  let ?key = "build_realtime_auth_key rt auth"
  have set_key: "manager_ok rt (update_session cid (\<lambda>s. s\<lparr>ss_auth_key := ?key, ss_auth_key_set := True\<rparr>) m)"
    if "map_of m cid = Some s" "\<not> ss_auth_key_set s" for cid s
  proof (rule update_session_ok[OF assms])
    fix t assume t: "(cid, t) \<in> set m" "one_identity rt t"
    with that assms have "t = s" by (auto simp: manager_ok_def)
    with t that show "one_identity rt (t\<lparr>ss_auth_key := ?key, ss_auth_key_set := True\<rparr>)" by (auto simp: one_identity_def)
  qed
  have replace: "manager_ok rt m2"
    if m1: "manager_ok rt m1" "map_of m1 cid = Some s" "ss_auth_key_set s" "ss_auth_key s = ?key"
      and r: "replace_subscriptions cid (parse_subscriptions rt qs db tok auth topics) m1 = Inr m2" for m1 m2 cid s tok topics
  proof -
    have "one_identity rt (t\<lparr>ss_subscriptions := parse_subscriptions rt qs db tok auth topics\<rparr>)" if "(cid, t) \<in> set m1" for t
    proof -
      from that m1(1,2) have "t = s" by (auto simp: manager_ok_def)
      with m1(3,4) show ?thesis by (auto simp: one_identity_def dest: parse_subscriptions_payload)
    qed
    with r m1(1,2) show ?thesis by (auto simp: replace_subscriptions_def intro: update_session_ok)
  qed
  have at: "map_of (update_session cid f m) cid = Some (f s)" if "map_of m cid = Some s" for cid f s
    using that by (induction m) (auto simp: update_session_def split: if_splits)
  show ?thesis
    using assms unfolding realtime_subscribe_def Let_def get_session_def
    by (auto split: option.split pyval.split sum.split intro: set_key replace at)
qed

text \<open>
  C37: In every state the manager can reach from the empty one by clients connecting, subscribing and disconnecting and
  by database notifications, all subscriptions of a session carry the identity that made the session's first
  subscribe request, so a session never mixes the rights of two callers.
\<close>

theorem session_single_identity:
  assumes "(rt_step rt parse_qs env db)\<^sup>*\<^sup>* [] m" "(cid, s) \<in> set m" "sub \<in> set (ss_subscriptions s)"
  shows "ss_auth_key_set s \<and> build_realtime_auth_key rt (rs_auth_payload sub) = ss_auth_key s"
proof -
  from assms(1) have "manager_ok rt m"
  proof (induction rule: rtranclp_induct)
    case base
    show ?case by (simp add: manager_ok_def)
  next
    case (step m m')
    from step.hyps(2) step.IH show ?case
      by cases (auto intro: register_ok subscribe_ok disconnect_ok notification_ok)
  qed
  with assms(2,3) show ?thesis by (auto simp: manager_ok_def one_identity_def)
qed

section \<open>A concrete manager\<close>

definition sample_posts :: rt_collection where
  "sample_posts = \<lparr>rc_name = lit ''posts'', rc_list_rule = Some own_rule, rc_view_rule = None\<rparr>"

definition sample_db :: rt_db where
  "sample_db =
     \<lparr>db_resolve = (\<lambda>_. Inr (Some sample_posts)), db_check_rule = (\<lambda>_ _ expr _. Inr (expr = own_rule)),
      db_get_record = (\<lambda>_ _ _. Inr None), db_expand = (\<lambda>_ r _ _. Inr r)\<rparr>"

definition sample_rt_env :: rt_env where
  "sample_rt_env = \<lparr>re_rt = sample_rt, re_db = Some sample_db, re_hook = None\<rparr>"

definition sample_sub :: "pystr \<Rightarrow> subscription" where
  "sample_sub t =
     \<lparr>rs_topic = t, rs_base_topic = t, rs_auth_token = None, rs_auth_payload = None, rs_options_query = [], rs_options_headers = []\<rparr>"

definition sample_session :: session where
  "sample_session =
     \<lparr>ss_client_id = [99], ss_queue = [], ss_subscriptions = [sample_sub (lit ''posts/*''), sample_sub (lit ''posts/r1'')],
      ss_auth_key = None, ss_auth_key_set = True\<rparr>"

definition sample_message :: "pystr \<times> pyval" where
  "sample_message = (lit ''posts/*'', event_body (lit ''create'') [(lit ''id'', PStr (lit ''r1''))])"

lemmas rt_eval = broadcast_record_change_def subscription_data_def is_subscription_allowed_for_event_def combined_rule_def
  subscription_rule_def check_rule_def is_admin_def build_rule_context_def strip_str_def dict_get_def change_topics_def
  queue_messages_def send_realtime_message_def sample_rt_env_def sample_db_def sample_posts_def sample_session_def
  sample_sub_def sample_message_def Let_def

text \<open>The list rule confirms the collection topic; the missing view rule keeps the single-record topic for administrators.\<close>

lemma sample_topic_tails:
  "drop (length (lit ''posts/*'') - 2) (lit ''posts/*'') = lit ''/*''" "drop (length (lit ''posts/r1'') - 2) (lit ''posts/r1'') \<noteq> lit ''/*''"
  "lit ''posts'' @ lit ''/*'' = lit ''posts/*''" "lit ''posts'' @ lit ''/'' @ lit ''r1'' = lit ''posts/r1''"
  by (simp_all add: lit_def)

lemma sample_broadcast:
  "broadcast_record_change sample_rt_env (Some sample_posts) (lit ''posts'') (lit ''r1'') (lit ''create'') None [([99], sample_session)] =
     ([([99], sample_session\<lparr>ss_queue := [sample_message]\<rparr>)], None)"
  by (simp add: rt_eval sample_topic_tails del: length_lit)

lemma sample_confirms: "confirms_soundly sample_db (\<lambda>_ _ _ _ _ _. True)"
proof -
  have "tree_holds (\<lambda>_ _ _. True) own_tree" by (simp add: own_tree_def)
  with sample_sentences(1) have "satisfies (\<lambda>_ _ _. True) own_rule" by (auto simp: satisfies_def)
  then show ?thesis by (simp add: confirms_soundly_def sample_db_def)
qed

theorem broadcast_only_allowed_witness:
  "\<exists>sub \<in> set (ss_subscriptions sample_session). fst sample_message = rs_topic sub \<and>
     may_see (\<lambda>_ _ _. True) sample_posts (lit ''create'') sub"
proof -
  have "re_hook sample_rt_env = None" "re_db sample_rt_env = Some sample_db" "distinct (map fst [([99::nat], sample_session)])"
    by (simp_all add: sample_rt_env_def)
  from broadcast_only_allowed[OF this sample_confirms sample_broadcast, of "[99]" "sample_session\<lparr>ss_queue := [sample_message]\<rparr>" sample_message]
  show ?thesis by (auto simp: sample_session_def)
qed

theorem broadcast_exact_witness:
  "map_of (fst (broadcast_record_change sample_rt_env (Some sample_posts) (lit ''posts'') (lit ''r1'') (lit ''create'') None
     [([99], sample_session)])) [99] = Some (sample_session\<lparr>ss_queue := [sample_message]\<rparr>)"
proof -
  let ?d = "subscription_data sample_rt_env (Some sample_posts) (change_topics (lit ''posts'') (lit ''r1'')) (lit ''r1'') (lit ''create'') None
    (event_body (lit ''create'') (case None of Some (x # xs) \<Rightarrow> x # xs | _ \<Rightarrow> [(lit ''id'', PStr (lit ''r1''))]))"
  have "re_hook sample_rt_env = None" "re_db sample_rt_env = Some sample_db" "distinct (map fst [([99::nat], sample_session)])"
    by (simp_all add: sample_rt_env_def)
  from broadcast_exact[OF this sample_broadcast, of "[99]" sample_session ?d]
  have "map_of [([99], sample_session\<lparr>ss_queue := [sample_message]\<rparr>)] [99] =
      Some (sample_session\<lparr>ss_queue := ss_queue sample_session @ concat (map (messages_for ?d) (ss_subscriptions sample_session))\<rparr>)"
    by simp
  then show ?thesis by (simp add: sample_broadcast)
qed

definition sample_qs :: "pystr \<Rightarrow> (pystr \<times> pystr list) list" where
  "sample_qs q = []"

definition sample_connected :: manager where
  "sample_connected = register_client [99] []"

definition sample_body :: pyval where
  "sample_body = PDict [(lit ''clientId'', PStr [99]), (lit ''subscriptions'', PList [PStr (lit ''posts/*'')])]"

lemma sample_topic:
  "parse_realtime_topic sample_rt sample_qs (lit ''posts/*'') =
     Inr \<lparr>pt_raw_topic = lit ''posts/*'', pt_base_topic = lit ''posts/*'', pt_collection_name = lit ''posts'', pt_resource = lit ''*'',
          pt_options_query = [], pt_options_headers = []\<rparr>"
  by (simp add: parse_realtime_topic_def py_strip_def is_space_def partition_query_def topic_parts_def topic_options_def lit_def Let_def)

lemma sample_subscribed:
  "snd (realtime_subscribe sample_rt sample_qs sample_db (Some sample_body) None None sample_connected) =
     [([99], (new_session [99])\<lparr>ss_auth_key := None, ss_auth_key_set := True, ss_subscriptions := [sample_sub (lit ''posts/*'')]\<rparr>)]"
proof -
  have strip: "py_strip (lit ''posts/*'') = lit ''posts/*''" "py_strip [99] = [99]"
    by (simp_all add: py_strip_def is_space_def lit_def)
  show ?thesis
    by (simp add: realtime_subscribe_def sample_body_def body_client_id_def body_topics_def dict_get_or_def strip sample_connected_def
        register_client_def new_session_def get_session_def build_realtime_auth_key_def update_session_def replace_subscriptions_def
        sample_topic bearer_token_def sample_db_def sample_sub_def Let_def)
qed

theorem session_single_identity_witness:
  "ss_auth_key_set ((new_session [99])\<lparr>ss_auth_key := None, ss_auth_key_set := True, ss_subscriptions := [sample_sub (lit ''posts/*'')]\<rparr>)
   \<and> build_realtime_auth_key sample_rt (rs_auth_payload (sample_sub (lit ''posts/*''))) = None"
proof -
  let ?m = "snd (realtime_subscribe sample_rt sample_qs sample_db (Some sample_body) None None sample_connected)"
  have "rt_step sample_rt sample_qs sample_rt_env sample_db [] sample_connected"
    unfolding sample_connected_def by (rule rt_step.connect)
  moreover have "rt_step sample_rt sample_qs sample_rt_env sample_db sample_connected ?m" by (rule rt_step.subscribe)
  ultimately have reach: "(rt_step sample_rt sample_qs sample_rt_env sample_db)\<^sup>*\<^sup>* [] ?m" by auto
  show ?thesis
    using session_single_identity[OF reach, of "[99]" _ "sample_sub (lit ''posts/*'')"] unfolding sample_subscribed by auto
qed

end
