(* ===== verification/Restore_Cutover.thy ===== *)
theory Restore_Cutover
  imports Py_Value
begin

text \<open>
  Model of the crash-recoverable file cutover of a destructive restore (\<open>ppbase/backup/destructive.py\<close>) together with
  the part of \<open>ppbase/backup/service.py\<close> that drives it: the swap of the restored \<open>storage\<close> directory and
  \<open>.jwt_secret\<close> into \<open>data_dir\<close>, the database transaction with its commit marker, the rollback, and the
  recovery that runs at the next start of the process.

  \<^item> The state \<open>disk\<close> holds the entries of \<open>data_dir\<close>, the staged work directory, the journal file and the two things of
    the database the protocol reads: the commit marker and the generation of the data.
  \<^item> A program is a function that returns every intermediate state in order, the final state and the exception, if any.
    A crash of the process leaves one of the intermediate states.  Every primitive may also fail with an exception, before or after
    its effect, as a \<open>fault\<close> function chooses; \<open>os.fsync\<close> and re-verification of descriptors are primitives without
    effect that may fail.  A recursive removal passes through a state in which the directory is damaged.
  \<^item> Power loss that reorders writes is outside this model.
\<close>

section \<open>Inventories of file references\<close>

definition FILE_REFERENCE_INVENTORY_VERSION :: int where
  "FILE_REFERENCE_INVENTORY_VERSION = 1"

definition hex_char :: "nat \<Rightarrow> bool" where
  "hex_char c \<longleftrightarrow> (48 \<le> c \<and> c \<le> 57) \<or> (97 \<le> c \<and> c \<le> 102)"

text \<open>\<open>version != 1\<close> compares with Python's equality, which also accepts \<open>1.0\<close>.\<close>

definition is_one :: "pyval \<Rightarrow> bool" where
  "is_one v = (case v of PInt n \<Rightarrow> n = 1 | PFloat f \<Rightarrow> f = FFin 1 | _ \<Rightarrow> False)"

definition normalize_file_reference_inventory :: "pyval \<Rightarrow> pyexn + int \<times> pystr" where
  "normalize_file_reference_inventory v =
     (case v of
        PDict d \<Rightarrow>
          if set (map fst d) \<noteq> {lit ''version'', lit ''count'', lit ''sha256''} then Inl ValueError
          else (case (dict_get d (lit ''count''), dict_get d (lit ''sha256'')) of
                  (PInt count, PStr sha) \<Rightarrow>
                    if \<not> is_one (dict_get d (lit ''version'')) \<or> count < 0 \<or> length sha \<noteq> 64 \<or> \<not> list_all hex_char sha
                    then Inl ValueError else Inr (count, sha)
                | _ \<Rightarrow> Inl ValueError)
      | _ \<Rightarrow> Inl ValueError)"

definition inventory_value :: "int \<times> pystr \<Rightarrow> pyval" where
  "inventory_value iv =
     PDict [(lit ''version'', PInt FILE_REFERENCE_INVENTORY_VERSION), (lit ''count'', PInt (fst iv)), (lit ''sha256'', PStr (snd iv))]"

text \<open>
  \<open>digest\<close> hashes the sorted, duplicate-free list of references with the domain prefix and the length of each item.
\<close>

definition build_file_reference_inventory ::
  "('r::linorder list \<Rightarrow> pystr) \<Rightarrow> 'r list \<Rightarrow> int \<times> pystr" where
  "build_file_reference_inventory digest refs =
     (let canonical = sorted_list_of_set (set refs) in (int (length canonical), digest canonical))"

definition file_reference_inventory_matches :: "('r::linorder list \<Rightarrow> pystr) \<Rightarrow> pyval \<Rightarrow> 'r list \<Rightarrow> bool" where
  "file_reference_inventory_matches digest expected refs =
     (case normalize_file_reference_inventory expected of
        Inl _ \<Rightarrow> False
      | Inr iv \<Rightarrow> iv = build_file_reference_inventory digest refs)"

lemma inventory_round_trip:
  assumes "0 \<le> n" "length sha = 64" "list_all hex_char sha"
  shows "normalize_file_reference_inventory (inventory_value (n, sha)) = Inr (n, sha)"
  using assms
  by (simp add: normalize_file_reference_inventory_def inventory_value_def is_one_def FILE_REFERENCE_INVENTORY_VERSION_def
      dict_get_def insert_commute)

text \<open>With a digest that is 64 hexadecimal characters and free of collisions, an inventory matches exactly the same set of references.\<close>

lemma inventory_matches_same_set:
  assumes "\<And>xs. length (digest xs) = 64 \<and> list_all hex_char (digest xs)" "inj digest"
  shows "file_reference_inventory_matches digest (inventory_value (build_file_reference_inventory digest refs)) refs' \<longleftrightarrow>
     set refs = set refs'"
proof -
  have "normalize_file_reference_inventory (inventory_value (build_file_reference_inventory digest refs)) =
      Inr (build_file_reference_inventory digest refs)"
    unfolding build_file_reference_inventory_def Let_def by (rule inventory_round_trip) (use assms(1) in auto)
  moreover have "sorted_list_of_set (set refs) = sorted_list_of_set (set refs') \<longleftrightarrow> set refs = set refs'"
    by (metis List.finite_set sorted_list_of_set.set_sorted_key_list_of_set)
  ultimately show ?thesis
    using assms(2) by (auto simp: file_reference_inventory_matches_def build_file_reference_inventory_def Let_def inj_eq)
qed

section \<open>Disk, journal and database\<close>

datatype fs_entry = FsDir "nat option" | FsReg nat | FsLink | FsSpecial

record restore_journal =
  js_version :: int
  js_restore_id :: pystr
  js_data_dir :: pystr
  js_work_root :: pystr
  js_work_dir :: pystr
  js_previous_storage :: pystr
  js_previous_secret :: pystr
  js_inventory :: pyval
  js_status :: pystr

record disk =
  dk_data :: "pystr \<rightharpoonup> fs_entry"
  dk_work :: "(pystr \<rightharpoonup> fs_entry) option"
  dk_journal :: "restore_journal option"
  dk_marker :: "pystr option"
  dk_db :: nat

abbreviation STORAGE :: pystr where
  "STORAGE \<equiv> lit ''storage''"

abbreviation SECRET :: pystr where
  "SECRET \<equiv> lit ''.jwt_secret''"

definition JOURNAL_STATUSES :: "pystr list" where
  "JOURNAL_STATUSES = map lit [''swap_started'', ''files_swapped'', ''database_committed'', ''finalizing'']"

definition RESTORE_ROOT :: pystr where
  "RESTORE_ROOT = lit ''.ppbase-restore''"

definition restore_id_ok :: "pystr \<Rightarrow> bool" where
  "restore_id_ok s \<longleftrightarrow> length s = 32 \<and> list_all hex_char s"

definition path_join :: "pystr \<Rightarrow> pystr \<Rightarrow> pystr" where
  "path_join a b = a @ lit ''/'' @ b"

definition previous_storage_for :: "pystr \<Rightarrow> pystr" where
  "previous_storage_for rid = lit ''.ppbase-storage-before-'' @ rid"

definition previous_secret_for :: "pystr \<Rightarrow> pystr" where
  "previous_secret_for rid = lit ''.ppbase-secret-before-'' @ rid"

record prepared_restore =
  pr_restore_id :: pystr
  pr_data_dir :: pystr
  pr_inventory :: pyval
  pr_new_db :: nat

definition prev_storage :: "prepared_restore \<Rightarrow> pystr" where
  "prev_storage pr = previous_storage_for (pr_restore_id pr)"

definition prev_secret :: "prepared_restore \<Rightarrow> pystr" where
  "prev_secret pr = previous_secret_for (pr_restore_id pr)"

definition journal_value :: "prepared_restore \<Rightarrow> pystr \<Rightarrow> restore_journal" where
  "journal_value pr status =
     \<lparr>js_version = 1, js_restore_id = pr_restore_id pr, js_data_dir = pr_data_dir pr,
      js_work_root = path_join (pr_data_dir pr) RESTORE_ROOT,
      js_work_dir = path_join (path_join (pr_data_dir pr) RESTORE_ROOT) (pr_restore_id pr),
      js_previous_storage = prev_storage pr, js_previous_secret = prev_secret pr,
      js_inventory = pr_inventory pr, js_status = status\<rparr>"

section \<open>Primitives and programs\<close>

datatype fs_op =
    Check
  | Mkdir pystr
  | WriteJournal restore_journal
  | ClearJournal
  | RenameData pystr pystr
  | RenameIn pystr
  | Damage pystr
  | Remove pystr
  | DamageWork
  | RemoveWork
  | DbCommit pystr nat
  | ClearMarker pystr

datatype fault = NoFault | FailBefore | FailAfter

datatype restore_exn = FileNotFound | OsError | RestoreError

type_synonym prog = "disk \<Rightarrow> disk list \<times> disk \<times> restore_exn option"

text \<open>
  \<open>os.rename\<close> replaces a regular file and refuses another existing target; both directories are on one file system.
\<close>

definition rename_into :: "(pystr \<rightharpoonup> fs_entry) \<Rightarrow> pystr \<Rightarrow> fs_entry \<Rightarrow> (pystr \<rightharpoonup> fs_entry) option" where
  "rename_into m b e =
     (case m b of
        None \<Rightarrow> Some (m(b \<mapsto> e))
      | Some (FsReg _) \<Rightarrow> (case e of FsDir _ \<Rightarrow> None | _ \<Rightarrow> Some (m(b \<mapsto> e)))
      | Some _ \<Rightarrow> None)"

fun apply_op :: "fs_op \<Rightarrow> disk \<Rightarrow> restore_exn + disk" where
  "apply_op Check d = Inr d"
| "apply_op (Mkdir n) d =
     (if dk_data d n \<noteq> None then Inl OsError else Inr (d\<lparr>dk_data := (dk_data d)(n \<mapsto> FsDir (Some 0))\<rparr>))"
| "apply_op (WriteJournal j) d = Inr (d\<lparr>dk_journal := Some j\<rparr>)"
| "apply_op ClearJournal d = Inr (d\<lparr>dk_journal := None\<rparr>)"
| "apply_op (RenameData a b) d =
     (case dk_data d a of
        None \<Rightarrow> Inl FileNotFound
      | Some e \<Rightarrow>
          (case rename_into ((dk_data d)(a := None)) b e of
             None \<Rightarrow> Inl OsError | Some m \<Rightarrow> Inr (d\<lparr>dk_data := m\<rparr>)))"
| "apply_op (RenameIn n) d =
     (case dk_work d of
        None \<Rightarrow> Inl FileNotFound
      | Some w \<Rightarrow>
          (case w n of
             None \<Rightarrow> Inl FileNotFound
           | Some e \<Rightarrow>
               (case rename_into (dk_data d) n e of
                  None \<Rightarrow> Inl OsError
                | Some m \<Rightarrow> Inr (d\<lparr>dk_data := m, dk_work := Some (w(n := None))\<rparr>))))"
| "apply_op (Damage n) d =
     (case dk_data d n of
        Some (FsDir _) \<Rightarrow> Inr (d\<lparr>dk_data := (dk_data d)(n \<mapsto> FsDir None)\<rparr>)
      | _ \<Rightarrow> Inr d)"
| "apply_op (Remove n) d = Inr (d\<lparr>dk_data := (dk_data d)(n := None)\<rparr>)"
| "apply_op DamageWork d = Inr (d\<lparr>dk_work := map_option (\<lambda>_. Map.empty) (dk_work d)\<rparr>)"
| "apply_op RemoveWork d = Inr (d\<lparr>dk_work := None\<rparr>)"
| "apply_op (DbCommit rid n) d = Inr (d\<lparr>dk_marker := Some rid, dk_db := n\<rparr>)"
| "apply_op (ClearMarker rid) d =
     (if dk_marker d \<noteq> Some rid then Inl RestoreError else Inr (d\<lparr>dk_marker := None\<rparr>))"

definition prim :: "(fs_op \<Rightarrow> disk \<Rightarrow> fault) \<Rightarrow> fs_op \<Rightarrow> prog" where
  "prim fault op d =
     (case fault op d of
        FailBefore \<Rightarrow> ([], d, Some OsError)
      | f \<Rightarrow>
          (case apply_op op d of
             Inl e \<Rightarrow> ([], d, Some e)
           | Inr d' \<Rightarrow> ([d'], d', if f = FailAfter then Some OsError else None)))"

definition skip :: prog where
  "skip d = ([], d, None)"

definition throw :: "restore_exn \<Rightarrow> prog" where
  "throw e d = ([], d, Some e)"

definition andthen :: "prog \<Rightarrow> prog \<Rightarrow> prog" where
  "andthen p q d =
     (case p d of
        (tr, d1, Some e) \<Rightarrow> (tr, d1, Some e)
      | (tr, d1, None) \<Rightarrow> (case q d1 of (tr2, d2, e) \<Rightarrow> (tr @ tr2, d2, e)))"

definition catch :: "prog \<Rightarrow> (restore_exn \<Rightarrow> prog) \<Rightarrow> prog" where
  "catch p h d =
     (case p d of
        (tr, d1, Some e) \<Rightarrow> (case h e d1 of (tr2, d2, e2) \<Rightarrow> (tr @ tr2, d2, e2))
      | r \<Rightarrow> r)"

definition branch :: "(disk \<Rightarrow> bool) \<Rightarrow> prog \<Rightarrow> prog \<Rightarrow> prog" where
  "branch b p q d = (if b d then p d else q d)"

fun sequence :: "prog list \<Rightarrow> prog" where
  "sequence [] = skip"
| "sequence (p # ps) = andthen p (sequence ps)"

text \<open>The states a crash can leave: the start, or any state after a primitive.\<close>

definition crash_states :: "prog \<Rightarrow> disk \<Rightarrow> disk set" where
  "crash_states p d = insert d (set (fst (p d)))"

section \<open>The cutover\<close>

definition entry_exists :: "pystr \<Rightarrow> disk \<Rightarrow> bool" where
  "entry_exists n d \<longleftrightarrow> dk_data d n \<noteq> None"

definition remove_entry_at :: "(fs_op \<Rightarrow> disk \<Rightarrow> fault) \<Rightarrow> pystr \<Rightarrow> prog" where
  "remove_entry_at fault n d =
     (case dk_data d n of
        None \<Rightarrow> skip d
      | Some FsLink \<Rightarrow> throw RestoreError d
      | Some (FsDir _) \<Rightarrow> andthen (prim fault (Damage n)) (prim fault (Remove n)) d
      | Some (FsReg _) \<Rightarrow> prim fault (Remove n) d
      | Some FsSpecial \<Rightarrow> throw RestoreError d)"

definition restore_previous :: "(fs_op \<Rightarrow> disk \<Rightarrow> fault) \<Rightarrow> pystr \<Rightarrow> pystr \<Rightarrow> prog" where
  "restore_previous fault prev name =
     branch (entry_exists prev) (andthen (remove_entry_at fault name) (prim fault (RenameData prev name))) skip"

definition rollback_with_fd :: "(fs_op \<Rightarrow> disk \<Rightarrow> fault) \<Rightarrow> prepared_restore \<Rightarrow> prog" where
  "rollback_with_fd fault pr =
     sequence [restore_previous fault (prev_storage pr) STORAGE, restore_previous fault (prev_secret pr) SECRET, prim fault Check]"

text \<open>\<open>except FileNotFoundError: pass\<close>.\<close>

definition ignore_missing :: "prog \<Rightarrow> prog" where
  "ignore_missing p = catch p (\<lambda>e. if e = FileNotFound then skip else throw e)"

definition swap_body :: "(fs_op \<Rightarrow> disk \<Rightarrow> fault) \<Rightarrow> prepared_restore \<Rightarrow> prog" where
  "swap_body fault pr =
     sequence
       [branch (entry_exists STORAGE) skip (prim fault (Mkdir STORAGE)),
        branch (entry_exists SECRET) skip (throw RestoreError),
        prim fault (WriteJournal (journal_value pr (lit ''swap_started''))),
        ignore_missing (prim fault (RenameData STORAGE (prev_storage pr))),
        prim fault (RenameIn STORAGE),
        ignore_missing (prim fault (RenameData SECRET (prev_secret pr))),
        prim fault (RenameIn SECRET),
        prim fault Check,
        prim fault Check,
        prim fault (WriteJournal (journal_value pr (lit ''files_swapped'')))]"

definition swap_into_place :: "(fs_op \<Rightarrow> disk \<Rightarrow> fault) \<Rightarrow> prepared_restore \<Rightarrow> prog" where
  "swap_into_place fault pr =
     andthen (sequence [prim fault Check, prim fault Check])
       (catch (swap_body fault pr) (\<lambda>e.
          andthen
            (catch (andthen (rollback_with_fd fault pr) (prim fault ClearJournal)) (\<lambda>_. throw RestoreError))
            (throw e)))"

definition cleanup_work_dir :: "(fs_op \<Rightarrow> disk \<Rightarrow> fault) \<Rightarrow> prog" where
  "cleanup_work_dir fault =
     branch (\<lambda>d. dk_work d \<noteq> None) (andthen (prim fault DamageWork) (prim fault RemoveWork)) skip"

definition rollback :: "(fs_op \<Rightarrow> disk \<Rightarrow> fault) \<Rightarrow> prepared_restore \<Rightarrow> prog" where
  "rollback fault pr =
     sequence [prim fault Check, rollback_with_fd fault pr, prim fault ClearJournal, cleanup_work_dir fault]"

definition mark_database_committed :: "(fs_op \<Rightarrow> disk \<Rightarrow> fault) \<Rightarrow> prepared_restore \<Rightarrow> prog" where
  "mark_database_committed fault pr = prim fault (WriteJournal (journal_value pr (lit ''database_committed'')))"

text \<open>\<open>_swap_prepared_storage_or_rollback\<close>: any failure of the swap is followed by a full rollback.\<close>

definition swap_or_rollback :: "(fs_op \<Rightarrow> disk \<Rightarrow> fault) \<Rightarrow> prepared_restore \<Rightarrow> prog" where
  "swap_or_rollback fault pr =
     catch (swap_into_place fault pr) (\<lambda>e.
       andthen (catch (rollback fault pr) (\<lambda>_. throw RestoreError)) (throw e))"

text \<open>
  The driver: swap, rebuild the database in one transaction that also writes the marker (its exception is held back),
  read the marker, then either mark the journal or roll the files back.  \<open>valid\<close> is
  \<open>validate_committed_destructive_restore\<close>.  The final \<open>cleanup_work_dir\<close> of the method runs only after a rollback
  that succeeded, which has already removed the work directory.
\<close>

definition restore_cutover :: "(fs_op \<Rightarrow> disk \<Rightarrow> fault) \<Rightarrow> (disk \<Rightarrow> bool) \<Rightarrow> prepared_restore \<Rightarrow> prog" where
  "restore_cutover fault valid pr =
     sequence
       [swap_or_rollback fault pr,
        catch (prim fault (DbCommit (pr_restore_id pr) (pr_new_db pr))) (\<lambda>_. skip),
        prim fault Check,
        branch (\<lambda>d. dk_marker d = Some (pr_restore_id pr))
          (branch valid (mark_database_committed fault pr) (throw RestoreError))
          (andthen (rollback fault pr) (throw RestoreError))]"

section \<open>Recovery at startup\<close>

text \<open>The checks on the journal; \<open>resolve\<close> is \<open>Path(..).expanduser().resolve(strict=True)\<close>.\<close>

definition journal_usable :: "(pystr \<Rightarrow> pystr option) \<Rightarrow> pystr \<Rightarrow> restore_journal \<Rightarrow> bool" where
  "journal_usable resolve configured j \<longleftrightarrow>
     js_version j = 1 \<and> restore_id_ok (js_restore_id j) \<and> js_status j \<in> set JOURNAL_STATUSES \<and>
     (case (resolve (js_data_dir j), resolve configured) of
        (Some dd, Some cd) \<Rightarrow>
          dd = cd \<and>
          js_previous_storage j = previous_storage_for (js_restore_id j) \<and>
          js_previous_secret j = previous_secret_for (js_restore_id j) \<and>
          js_work_root j = path_join dd RESTORE_ROOT \<and>
          js_work_dir j = path_join (path_join dd RESTORE_ROOT) (js_restore_id j)
      | _ \<Rightarrow> False)"

definition finish_recovery :: "(fs_op \<Rightarrow> disk \<Rightarrow> fault) \<Rightarrow> prog" where
  "finish_recovery fault =
     sequence [prim fault Check, cleanup_work_dir fault, prim fault Check, prim fault ClearJournal]"

definition recover_committed :: "(fs_op \<Rightarrow> disk \<Rightarrow> fault) \<Rightarrow> (disk \<Rightarrow> bool) \<Rightarrow> restore_journal \<Rightarrow> prog" where
  "recover_committed fault valid j =
     sequence
       [branch (\<lambda>_. is_ok (normalize_file_reference_inventory (js_inventory j))) skip (throw RestoreError),
        branch valid skip (throw RestoreError),
        (if js_status j = lit ''finalizing'' then skip else prim fault (WriteJournal (j\<lparr>js_status := lit ''finalizing''\<rparr>))),
        branch (\<lambda>d. dk_marker d = Some (js_restore_id j)) (prim fault (ClearMarker (js_restore_id j))) skip,
        prim fault Check,
        remove_entry_at fault (js_previous_storage j),
        remove_entry_at fault (js_previous_secret j),
        finish_recovery fault]"

definition recover_rolled_back :: "(fs_op \<Rightarrow> disk \<Rightarrow> fault) \<Rightarrow> restore_journal \<Rightarrow> prog" where
  "recover_rolled_back fault j =
     sequence
       [prim fault Check,
        restore_previous fault (js_previous_storage j) STORAGE,
        restore_previous fault (js_previous_secret j) SECRET,
        finish_recovery fault]"

definition recover_interrupted ::
  "(fs_op \<Rightarrow> disk \<Rightarrow> fault) \<Rightarrow> (disk \<Rightarrow> bool) \<Rightarrow> (pystr \<Rightarrow> pystr option) \<Rightarrow> pystr \<Rightarrow> prog" where
  "recover_interrupted fault valid resolve configured d =
     (case dk_journal d of
        None \<Rightarrow> (if dk_marker d \<noteq> None then throw RestoreError d else skip d)
      | Some j \<Rightarrow>
          if \<not> journal_usable resolve configured j then throw RestoreError d
          else if dk_marker d \<notin> {None, Some (js_restore_id j)} then throw RestoreError d
          else if dk_marker d = Some (js_restore_id j) \<or> js_status j = lit ''finalizing''
          then recover_committed fault valid j d
          else recover_rolled_back fault j d)"

section \<open>A program logic with crash conditions\<close>

text \<open>
  \<open>triple P p Q E C\<close>: from a state in \<open>P\<close>, the program ends normally in \<open>Q\<close> or with an exception in \<open>E\<close>, and every
  state it passes through satisfies \<open>C\<close>.
\<close>

definition triple ::
  "(disk \<Rightarrow> bool) \<Rightarrow> prog \<Rightarrow> (disk \<Rightarrow> bool) \<Rightarrow> (disk \<Rightarrow> bool) \<Rightarrow> (disk \<Rightarrow> bool) \<Rightarrow> bool" where
  "triple P p Q E C \<longleftrightarrow>
     (\<forall>d. P d \<longrightarrow> (\<forall>tr d' e. p d = (tr, d', e) \<longrightarrow>
        (\<forall>x \<in> set tr. C x) \<and> (e = None \<longrightarrow> Q d') \<and> (e \<noteq> None \<longrightarrow> E d')))"

lemma triple_andthen:
  assumes "triple P p R E C" "triple R q Q E C"
  shows "triple P (andthen p q) Q E C"
  unfolding triple_def
proof (intro allI impI)
  fix d tr d' e
  assume d: "P d" "andthen p q d = (tr, d', e)"
  obtain tr1 d1 e1 where p: "p d = (tr1, d1, e1)" by (metis prod_cases3)
  show "(\<forall>x\<in>set tr. C x) \<and> (e = None \<longrightarrow> Q d') \<and> (e \<noteq> None \<longrightarrow> E d')"
  proof (cases e1)
    case None
    obtain tr2 d2 e2 where q: "q d1 = (tr2, d2, e2)" by (metis prod_cases3)
    from assms(1) d(1) p None have "R d1" "\<forall>x\<in>set tr1. C x" unfolding triple_def by blast+
    moreover from assms(2) \<open>R d1\<close> q have "(\<forall>x\<in>set tr2. C x) \<and> (e2 = None \<longrightarrow> Q d2) \<and> (e2 \<noteq> None \<longrightarrow> E d2)"
      unfolding triple_def by blast
    ultimately show ?thesis using d(2) p q None by (auto simp: andthen_def)
  next
    case (Some x)
    with assms(1) d p show ?thesis unfolding triple_def andthen_def by fastforce
  qed
qed

lemma triple_catch:
  assumes "triple P p Q R C" "\<And>e. triple R (h e) Q E C"
  shows "triple P (catch p h) Q E C"
  unfolding triple_def
proof (intro allI impI)
  fix d tr d' e
  assume d: "P d" "catch p h d = (tr, d', e)"
  obtain tr1 d1 e1 where p: "p d = (tr1, d1, e1)" by (metis prod_cases3)
  show "(\<forall>x\<in>set tr. C x) \<and> (e = None \<longrightarrow> Q d') \<and> (e \<noteq> None \<longrightarrow> E d')"
  proof (cases e1)
    case None
    with assms(1) d p show ?thesis unfolding triple_def catch_def by fastforce
  next
    case (Some x)
    obtain tr2 d2 e2 where q: "h x d1 = (tr2, d2, e2)" by (metis prod_cases3)
    from assms(1) d(1) p Some have "R d1" "\<forall>x\<in>set tr1. C x" unfolding triple_def by blast+
    moreover from assms(2) \<open>R d1\<close> q have "(\<forall>x\<in>set tr2. C x) \<and> (e2 = None \<longrightarrow> Q d2) \<and> (e2 \<noteq> None \<longrightarrow> E d2)"
      unfolding triple_def by blast
    ultimately show ?thesis using d(2) p q Some by (auto simp: catch_def)
  qed
qed

lemma triple_skip: "(\<And>d. P d \<Longrightarrow> Q d) \<Longrightarrow> triple P skip Q E C"
  by (auto simp: triple_def skip_def)

lemma triple_throw: "(\<And>d. P d \<Longrightarrow> E d) \<Longrightarrow> triple P (throw e) Q E C"
  by (auto simp: triple_def throw_def)

lemma triple_branch:
  "triple (\<lambda>d. P d \<and> b d) p Q E C \<Longrightarrow> triple (\<lambda>d. P d \<and> \<not> b d) q Q E C \<Longrightarrow> triple P (branch b p q) Q E C"
  by (auto simp: triple_def branch_def)

lemma triple_conseq:
  "triple P p Q E C \<Longrightarrow> (\<And>d. P' d \<Longrightarrow> P d) \<Longrightarrow> (\<And>d. Q d \<Longrightarrow> Q' d) \<Longrightarrow> (\<And>d. E d \<Longrightarrow> E' d) \<Longrightarrow> (\<And>d. C d \<Longrightarrow> C' d) \<Longrightarrow>
     triple P' p Q' E' C'"
  by (fastforce simp: triple_def)

lemma triple_pre: "triple P p Q E C \<Longrightarrow> (\<And>d. P' d \<Longrightarrow> P d) \<Longrightarrow> triple P' p Q E C"
  unfolding triple_def by blast

lemma triple_prim:
  assumes "\<And>d d'. P d \<Longrightarrow> apply_op op d = Inr d' \<Longrightarrow> Q d' \<and> E d' \<and> C d'" "\<And>d. P d \<Longrightarrow> E d"
  shows "triple P (prim fault op) Q E C"
  unfolding triple_def
proof (intro allI impI)
  fix d tr d' e
  assume d: "P d" "prim fault op d = (tr, d', e)"
  show "(\<forall>x\<in>set tr. C x) \<and> (e = None \<longrightarrow> Q d') \<and> (e \<noteq> None \<longrightarrow> E d')"
    using d(2) assms(1)[OF d(1)] assms(2)[OF d(1)]
    by (auto simp: prim_def split: fault.splits sum.splits)
qed

lemma triple_sequence_Nil: "triple Q (sequence []) Q E C"
  by (simp add: triple_skip)

lemma triple_sequence_Cons: "triple P p R E C \<Longrightarrow> triple R (sequence ps) Q E C \<Longrightarrow> triple P (sequence (p # ps)) Q E C"
  by (simp add: triple_andthen)

lemma triple_same: "triple I p I I I \<Longrightarrow> triple I q I I I \<Longrightarrow> triple I (andthen p q) I I I"
  by (rule triple_andthen)

section \<open>Which files belong to which database\<close>

record generation =
  ge_prepared :: prepared_restore
  ge_old_storage :: fs_entry
  ge_old_secret :: fs_entry
  ge_new_storage :: fs_entry
  ge_new_secret :: fs_entry
  ge_old_db :: nat

abbreviation prevS :: "generation \<Rightarrow> pystr" where
  "prevS g \<equiv> prev_storage (ge_prepared g)"

abbreviation prevK :: "generation \<Rightarrow> pystr" where
  "prevK g \<equiv> prev_secret (ge_prepared g)"

definition journal_of :: "generation \<Rightarrow> restore_journal \<Rightarrow> bool" where
  "journal_of g j \<longleftrightarrow> (\<exists>st \<in> set JOURNAL_STATUSES. j = journal_value (ge_prepared g) st)"

text \<open>The active storage before any rename; a missing directory counts as the empty one that the swap creates.\<close>

definition old_active :: "generation \<Rightarrow> disk \<Rightarrow> bool" where
  "old_active g d \<longleftrightarrow>
     dk_data d STORAGE = Some (ge_old_storage g) \<or> (dk_data d STORAGE = None \<and> ge_old_storage g = FsDir (Some 0))"

text \<open>The old generation can be selected: its files are active or parked under their previous names.\<close>

definition old_inv :: "generation \<Rightarrow> disk \<Rightarrow> bool" where
  "old_inv g d \<longleftrightarrow>
     dk_db d = ge_old_db g \<and> dk_marker d = None \<and>
     (case dk_data d (prevS g) of None \<Rightarrow> old_active g d | Some e \<Rightarrow> e = ge_old_storage g \<and> dk_journal d \<noteq> None) \<and>
     (case dk_data d (prevK g) of
        None \<Rightarrow> dk_data d SECRET = Some (ge_old_secret g) | Some e \<Rightarrow> e = ge_old_secret g \<and> dk_journal d \<noteq> None) \<and>
     (case dk_journal d of None \<Rightarrow> True | Some j \<Rightarrow> journal_of g j \<and> js_status j \<noteq> lit ''finalizing'')"

definition new_active :: "generation \<Rightarrow> disk \<Rightarrow> bool" where
  "new_active g d \<longleftrightarrow>
     dk_db d = pr_new_db (ge_prepared g) \<and> dk_data d STORAGE = Some (ge_new_storage g) \<and>
     dk_data d SECRET = Some (ge_new_secret g)"

text \<open>The new generation is active and its journal survives until the parked files are gone.\<close>

definition new_inv :: "generation \<Rightarrow> disk \<Rightarrow> bool" where
  "new_inv g d \<longleftrightarrow>
     new_active g d \<and>
     (case dk_journal d of
        None \<Rightarrow> dk_marker d = None \<and> dk_data d (prevS g) = None \<and> dk_data d (prevK g) = None
      | Some j \<Rightarrow> journal_of g j \<and>
          (dk_marker d = Some (pr_restore_id (ge_prepared g)) \<or> (dk_marker d = None \<and> js_status j = lit ''finalizing'')))"

definition recoverable :: "generation \<Rightarrow> disk \<Rightarrow> bool" where
  "recoverable g d \<longleftrightarrow> old_inv g d \<or> new_inv g d"

definition settled :: "generation \<Rightarrow> disk \<Rightarrow> bool" where
  "settled g d \<longleftrightarrow>
     dk_journal d = None \<and> dk_marker d = None \<and> dk_data d (prevS g) = None \<and> dk_data d (prevK g) = None \<and>
     ((dk_db d = ge_old_db g \<and> old_active g d \<and> dk_data d SECRET = Some (ge_old_secret g)) \<or> new_active g d)"

definition ready :: "generation \<Rightarrow> disk \<Rightarrow> bool" where
  "ready g d \<longleftrightarrow>
     old_inv g d \<and> dk_journal d = None \<and>
     (\<exists>w. dk_work d = Some w \<and> w STORAGE = Some (ge_new_storage g) \<and> w SECRET = Some (ge_new_secret g))"

lemma names_distinct [simp]:
  "STORAGE \<noteq> SECRET" "previous_storage_for r \<noteq> STORAGE" "previous_storage_for r \<noteq> SECRET"
  "previous_secret_for r \<noteq> STORAGE" "previous_secret_for r \<noteq> SECRET" "previous_storage_for r \<noteq> previous_secret_for s"
  "STORAGE \<noteq> previous_storage_for r" "SECRET \<noteq> previous_storage_for r"
  "STORAGE \<noteq> previous_secret_for r" "SECRET \<noteq> previous_secret_for r" "previous_secret_for s \<noteq> previous_storage_for r"
  by (auto simp: previous_storage_for_def previous_secret_for_def lit_def)

lemma prev_names: "prev_storage pr = previous_storage_for (pr_restore_id pr)" "prev_secret pr = previous_secret_for (pr_restore_id pr)"
  by (simp_all add: prev_storage_def prev_secret_def)

lemmas names = prev_names names_distinct

lemma triple_check: "triple P (prim fault Check) P P P"
  by (rule triple_prim) auto

lemma triple_weaken: "triple P p Q E C \<Longrightarrow> (\<And>d. E d \<Longrightarrow> E' d) \<Longrightarrow> (\<And>d. C d \<Longrightarrow> C' d) \<Longrightarrow> triple P p Q E' C'"
  unfolding triple_def by blast

lemma triple_check_in: "(\<And>d. P d \<Longrightarrow> I d) \<Longrightarrow> triple P (prim fault Check) P I I"
  by (rule triple_weaken[OF triple_check])

text \<open>Removing an entry: if the precondition survives damaging and removing the entry, it holds throughout.\<close>

lemma triple_remove:
  assumes "\<And>d d'. P d \<Longrightarrow> dk_data d n \<noteq> None \<Longrightarrow> apply_op (Damage n) d = Inr d' \<Longrightarrow> P d'"
    and "\<And>d d'. P d \<Longrightarrow> apply_op (Remove n) d = Inr d' \<Longrightarrow> P d'"
  shows "triple P (remove_entry_at fault n) (\<lambda>d. P d \<and> dk_data d n = None) P P"
proof -
  have rm: "triple P (prim fault (Remove n)) (\<lambda>d. P d \<and> dk_data d n = None) P P"
    using assms(2) by (intro triple_prim) auto
  have dmg: "triple (\<lambda>d. P d \<and> dk_data d n \<noteq> None) (prim fault (Damage n)) P P P"
    using assms(1) by (intro triple_prim) blast+
  have both: "triple (\<lambda>d. P d \<and> dk_data d n \<noteq> None) (andthen (prim fault (Damage n)) (prim fault (Remove n)))
      (\<lambda>d. P d \<and> dk_data d n = None) P P"
    by (rule triple_andthen[OF dmg rm])
  show ?thesis
    unfolding triple_def
  proof (intro allI impI)
    fix d tr d' e
    assume d: "P d" "remove_entry_at fault n d = (tr, d', e)"
    consider (none) "dk_data d n = None" | (dir) c where "dk_data d n = Some (FsDir c)"
      | (reg) c where "dk_data d n = Some (FsReg c)" | (other) "dk_data d n \<in> {Some FsLink, Some FsSpecial}"
      by (cases "dk_data d n") (auto, metis fs_entry.exhaust)
    then show "(\<forall>x\<in>set tr. P x) \<and> (e = None \<longrightarrow> P d' \<and> dk_data d' n = None) \<and> (e \<noteq> None \<longrightarrow> P d')"
    proof cases
      case (dir c)
      then have "P d \<and> dk_data d n \<noteq> None" "andthen (prim fault (Damage n)) (prim fault (Remove n)) d = (tr, d', e)"
        using d by (simp_all add: remove_entry_at_def)
      then show ?thesis using both unfolding triple_def by blast
    next
      case (reg c)
      then have "prim fault (Remove n) d = (tr, d', e)" using d by (simp add: remove_entry_at_def)
      then show ?thesis using rm d(1) unfolding triple_def by blast
    qed (use d in \<open>auto simp: remove_entry_at_def skip_def throw_def\<close>)
  qed
qed

lemma triple_cleanup:
  assumes "\<And>d w. P d \<Longrightarrow> P (d\<lparr>dk_work := w\<rparr>)"
  shows "triple P (cleanup_work_dir fault) P P P"
  unfolding cleanup_work_dir_def
proof (rule triple_branch)
  have a: "triple P (prim fault DamageWork) P P P" "triple P (prim fault RemoveWork) P P P"
    using assms by (auto intro!: triple_prim)
  show "triple (\<lambda>d. P d \<and> dk_work d \<noteq> None) (andthen (prim fault DamageWork) (prim fault RemoveWork)) P P P"
    by (rule triple_pre[OF triple_andthen[OF a]]) simp
  show "triple (\<lambda>d. P d \<and> \<not> dk_work d \<noteq> None) skip P P P" by (rule triple_skip) simp
qed

section \<open>Rolling back\<close>

lemma old_work [simp]: "old_inv g (d\<lparr>dk_work := w\<rparr>) = old_inv g d" "new_inv g (d\<lparr>dk_work := w\<rparr>) = new_inv g d"
  by (simp_all add: old_inv_def new_inv_def old_active_def new_active_def split: option.split)

lemma restore_storage:
  "triple (old_inv g) (restore_previous fault (prevS g) STORAGE) (\<lambda>d. old_inv g d \<and> dk_data d (prevS g) = None) (old_inv g) (old_inv g)"
  unfolding restore_previous_def
proof (rule triple_branch)
  let ?P = "\<lambda>d. old_inv g d \<and> dk_data d (prevS g) \<noteq> None"
  have rm: "triple ?P (remove_entry_at fault STORAGE) (\<lambda>d. ?P d \<and> dk_data d STORAGE = None) ?P ?P"
    by (rule triple_remove) (auto simp: old_inv_def names split: option.splits fs_entry.splits)
  have mv: "triple (\<lambda>d. ?P d \<and> dk_data d STORAGE = None) (prim fault (RenameData (prevS g) STORAGE))
      (\<lambda>d. old_inv g d \<and> dk_data d (prevS g) = None) (old_inv g) (old_inv g)"
    by (rule triple_prim) (auto simp: old_inv_def old_active_def rename_into_def names split: option.splits)
  show "triple (\<lambda>d. old_inv g d \<and> entry_exists (prevS g) d) (andthen (remove_entry_at fault STORAGE) (prim fault (RenameData (prevS g) STORAGE)))
      (\<lambda>d. old_inv g d \<and> dk_data d (prevS g) = None) (old_inv g) (old_inv g)"
    by (rule triple_andthen[OF triple_pre[OF triple_weaken[OF rm]] mv]) (auto simp: entry_exists_def)
qed (rule triple_skip, simp add: entry_exists_def)

lemma restore_secret:
  "triple (\<lambda>d. old_inv g d \<and> dk_data d (prevS g) = None) (restore_previous fault (prevK g) SECRET)
     (\<lambda>d. old_inv g d \<and> dk_data d (prevS g) = None \<and> dk_data d (prevK g) = None) (old_inv g) (old_inv g)"
  unfolding restore_previous_def
proof (rule triple_branch)
  let ?P = "\<lambda>d. old_inv g d \<and> dk_data d (prevS g) = None \<and> dk_data d (prevK g) \<noteq> None"
  have rm: "triple ?P (remove_entry_at fault SECRET) (\<lambda>d. ?P d \<and> dk_data d SECRET = None) ?P ?P"
    by (rule triple_remove) (auto simp: old_inv_def old_active_def names split: option.splits fs_entry.splits)
  have mv: "triple (\<lambda>d. ?P d \<and> dk_data d SECRET = None) (prim fault (RenameData (prevK g) SECRET))
      (\<lambda>d. old_inv g d \<and> dk_data d (prevS g) = None \<and> dk_data d (prevK g) = None) (old_inv g) (old_inv g)"
    by (rule triple_prim) (auto simp: old_inv_def old_active_def rename_into_def names split: option.splits)
  show "triple (\<lambda>d. (old_inv g d \<and> dk_data d (prevS g) = None) \<and> entry_exists (prevK g) d)
      (andthen (remove_entry_at fault SECRET) (prim fault (RenameData (prevK g) SECRET)))
      (\<lambda>d. old_inv g d \<and> dk_data d (prevS g) = None \<and> dk_data d (prevK g) = None) (old_inv g) (old_inv g)"
    by (rule triple_andthen[OF triple_pre[OF triple_weaken[OF rm]] mv]) (auto simp: entry_exists_def)
qed (rule triple_skip, simp add: entry_exists_def)

definition old_selected :: "generation \<Rightarrow> disk \<Rightarrow> bool" where
  "old_selected g d \<longleftrightarrow> old_inv g d \<and> dk_data d (prevS g) = None \<and> dk_data d (prevK g) = None"

lemma rollback_fd: "triple (old_inv g) (rollback_with_fd fault (ge_prepared g)) (old_selected g) (old_inv g) (old_inv g)"
  unfolding rollback_with_fd_def old_selected_def
  by (rule triple_sequence_Cons[OF restore_storage], rule triple_sequence_Cons[OF restore_secret],
      rule triple_sequence_Cons[OF triple_check_in], simp, rule triple_sequence_Nil)

lemma clear_old: "triple (old_selected g) (prim fault ClearJournal) (\<lambda>d. old_selected g d \<and> dk_journal d = None) (old_inv g) (old_inv g)"
  by (rule triple_prim) (auto simp: old_selected_def old_inv_def old_active_def)

lemma rollback_old: "triple (old_inv g) (rollback fault (ge_prepared g)) (\<lambda>d. old_selected g d \<and> dk_journal d = None) (old_inv g) (old_inv g)"
  unfolding rollback_def
  by (rule triple_sequence_Cons[OF triple_check], rule triple_sequence_Cons[OF rollback_fd], rule triple_sequence_Cons[OF clear_old],
      rule triple_sequence_Cons[OF triple_weaken[OF triple_cleanup]])
    (auto simp: old_selected_def intro: triple_skip)

section \<open>Swapping forward\<close>

text \<open>One step of the swap: the entries under the four names, and what is still staged.\<close>

definition stage ::
  "generation \<Rightarrow> fs_entry option \<Rightarrow> fs_entry option \<Rightarrow> fs_entry option \<Rightarrow> fs_entry option \<Rightarrow> disk \<Rightarrow> bool" where
  "stage g st sk ps pk d \<longleftrightarrow>
     old_inv g d \<and> dk_journal d \<noteq> None \<and> dk_data d STORAGE = st \<and> dk_data d SECRET = sk \<and>
     dk_data d (prevS g) = ps \<and> dk_data d (prevK g) = pk"

definition staged :: "generation \<Rightarrow> pystr list \<Rightarrow> disk \<Rightarrow> bool" where
  "staged g ns d \<longleftrightarrow>
     (\<exists>w. dk_work d = Some w \<and> (STORAGE \<in> set ns \<longrightarrow> w STORAGE = Some (ge_new_storage g)) \<and>
        (SECRET \<in> set ns \<longrightarrow> w SECRET = Some (ge_new_secret g)))"

definition swapped :: "generation \<Rightarrow> disk \<Rightarrow> bool" where
  "swapped g d \<longleftrightarrow>
     stage g (Some (ge_new_storage g)) (Some (ge_new_secret g)) (Some (ge_old_storage g)) (Some (ge_old_secret g)) d"

lemma ignore_missing_prim:
  assumes "\<And>d. P d \<Longrightarrow> apply_op op d \<noteq> Inl FileNotFound" "triple P (prim fault op) Q E C"
  shows "triple P (ignore_missing (prim fault op)) Q E C"
proof -
  have "ignore_missing (prim fault op) d = prim fault op d" if "P d" for d
    using assms(1)[OF that]
    by (auto simp: ignore_missing_def catch_def prim_def throw_def skip_def split: fault.splits sum.splits)
  then show ?thesis using assms(2) unfolding triple_def by metis
qed

lemma journal_of_value: "st \<in> set JOURNAL_STATUSES \<Longrightarrow> journal_of g (journal_value (ge_prepared g) st)"
  by (auto simp: journal_of_def)

lemma statuses [simp]:
  "lit ''swap_started'' \<in> set JOURNAL_STATUSES" "lit ''files_swapped'' \<in> set JOURNAL_STATUSES"
  "lit ''database_committed'' \<in> set JOURNAL_STATUSES" "lit ''finalizing'' \<in> set JOURNAL_STATUSES"
  by (simp_all add: JOURNAL_STATUSES_def)

lemma journal_value_status [simp]: "js_status (journal_value pr st) = st"
  by (simp add: journal_value_def)

lemmas stage_simps = stage_def staged_def old_inv_def old_active_def rename_into_def names

lemma swap_mkdir:
  "triple (ready g) (branch (entry_exists STORAGE) skip (prim fault (Mkdir STORAGE)))
     (\<lambda>d. ready g d \<and> dk_data d STORAGE = Some (ge_old_storage g)) (old_inv g) (old_inv g)"
proof (rule triple_branch)
  show "triple (\<lambda>d. ready g d \<and> entry_exists STORAGE d) skip (\<lambda>d. ready g d \<and> dk_data d STORAGE = Some (ge_old_storage g)) (old_inv g) (old_inv g)"
    by (rule triple_skip) (auto simp: ready_def old_inv_def old_active_def entry_exists_def split: option.splits)
  show "triple (\<lambda>d. ready g d \<and> \<not> entry_exists STORAGE d) (prim fault (Mkdir STORAGE))
      (\<lambda>d. ready g d \<and> dk_data d STORAGE = Some (ge_old_storage g)) (old_inv g) (old_inv g)"
    by (rule triple_prim) (auto simp: ready_def old_inv_def old_active_def entry_exists_def names split: option.splits)
qed

lemma swap_secret_check:
  "triple (\<lambda>d. ready g d \<and> dk_data d STORAGE = Some (ge_old_storage g)) (branch (entry_exists SECRET) skip (throw RestoreError))
     (\<lambda>d. ready g d \<and> dk_data d STORAGE = Some (ge_old_storage g)) (old_inv g) (old_inv g)"
  by (rule triple_branch; (rule triple_skip triple_throw)) (auto simp: ready_def)

lemma swap_journal:
  "triple (\<lambda>d. ready g d \<and> dk_data d STORAGE = Some (ge_old_storage g))
     (prim fault (WriteJournal (journal_value (ge_prepared g) (lit ''swap_started''))))
     (\<lambda>d. stage g (Some (ge_old_storage g)) (Some (ge_old_secret g)) None None d \<and> staged g [STORAGE, SECRET] d) (old_inv g) (old_inv g)"
  by (rule triple_prim) (auto simp: ready_def stage_simps journal_of_value split: option.splits)

lemma swap_park_storage:
  "triple (\<lambda>d. stage g (Some (ge_old_storage g)) (Some (ge_old_secret g)) None None d \<and> staged g [STORAGE, SECRET] d)
     (ignore_missing (prim fault (RenameData STORAGE (prevS g))))
     (\<lambda>d. stage g None (Some (ge_old_secret g)) (Some (ge_old_storage g)) None d \<and> staged g [STORAGE, SECRET] d) (old_inv g) (old_inv g)"
  by (rule ignore_missing_prim, force simp: stage_simps split: option.splits, rule triple_prim)
    (auto simp: stage_simps split: option.splits)

lemma swap_in_storage:
  "triple (\<lambda>d. stage g None (Some (ge_old_secret g)) (Some (ge_old_storage g)) None d \<and> staged g [STORAGE, SECRET] d)
     (prim fault (RenameIn STORAGE))
     (\<lambda>d. stage g (Some (ge_new_storage g)) (Some (ge_old_secret g)) (Some (ge_old_storage g)) None d \<and> staged g [SECRET] d) (old_inv g) (old_inv g)"
  by (rule triple_prim) (auto simp: stage_simps split: option.splits)

lemma swap_park_secret:
  "triple (\<lambda>d. stage g (Some (ge_new_storage g)) (Some (ge_old_secret g)) (Some (ge_old_storage g)) None d \<and> staged g [SECRET] d)
     (ignore_missing (prim fault (RenameData SECRET (prevK g))))
     (\<lambda>d. stage g (Some (ge_new_storage g)) None (Some (ge_old_storage g)) (Some (ge_old_secret g)) d \<and> staged g [SECRET] d) (old_inv g) (old_inv g)"
  by (rule ignore_missing_prim, force simp: stage_simps split: option.splits, rule triple_prim)
    (auto simp: stage_simps split: option.splits)

lemma swap_in_secret:
  "triple (\<lambda>d. stage g (Some (ge_new_storage g)) None (Some (ge_old_storage g)) (Some (ge_old_secret g)) d \<and> staged g [SECRET] d)
     (prim fault (RenameIn SECRET)) (swapped g) (old_inv g) (old_inv g)"
  unfolding swapped_def by (rule triple_prim) (auto simp: stage_simps split: option.splits)

lemma swapped_old: "swapped g d \<Longrightarrow> old_inv g d"
  by (simp add: swapped_def stage_def)

lemma swap_done:
  "triple (swapped g) (prim fault (WriteJournal (journal_value (ge_prepared g) (lit ''files_swapped'')))) (swapped g) (old_inv g) (old_inv g)"
  unfolding swapped_def by (rule triple_prim) (auto simp: stage_simps journal_of_value split: option.splits)

lemma swap_body_ok: "triple (ready g) (swap_body fault (ge_prepared g)) (swapped g) (old_inv g) (old_inv g)"
  unfolding swap_body_def
  by (rule triple_sequence_Cons[OF swap_mkdir], rule triple_sequence_Cons[OF swap_secret_check],
      rule triple_sequence_Cons[OF swap_journal], rule triple_sequence_Cons[OF swap_park_storage],
      rule triple_sequence_Cons[OF swap_in_storage], rule triple_sequence_Cons[OF swap_park_secret],
      rule triple_sequence_Cons[OF swap_in_secret], rule triple_sequence_Cons[OF triple_check_in[OF swapped_old]], assumption,
      rule triple_sequence_Cons[OF triple_check_in[OF swapped_old]], assumption,
      rule triple_sequence_Cons[OF swap_done], rule triple_sequence_Nil)

lemma ready_old: "ready g d \<Longrightarrow> old_inv g d"
  by (simp add: ready_def)

lemma swap_into_place_ok: "triple (ready g) (swap_into_place fault (ge_prepared g)) (swapped g) (old_inv g) (old_inv g)"
proof -
  have undo: "triple (old_inv g) (catch (andthen (rollback_with_fd fault (ge_prepared g)) (prim fault ClearJournal)) (\<lambda>_. throw RestoreError))
      (old_inv g) (old_inv g) (old_inv g)"
    by (rule triple_catch[where R = "old_inv g", OF triple_conseq[OF triple_andthen[OF rollback_fd clear_old]]])
      (auto simp: old_selected_def intro: triple_throw)
  have handler: "triple (old_inv g) (andthen (catch (andthen (rollback_with_fd fault (ge_prepared g)) (prim fault ClearJournal))
      (\<lambda>_. throw RestoreError)) (throw e)) (swapped g) (old_inv g) (old_inv g)" for e
    by (rule triple_andthen[OF undo]) (rule triple_throw)
  have pre: "triple (ready g) (sequence [prim fault Check, prim fault Check]) (ready g) (old_inv g) (old_inv g)"
    by (rule triple_sequence_Cons[OF triple_check_in[OF ready_old]], assumption,
        rule triple_sequence_Cons[OF triple_check_in[OF ready_old]], assumption, rule triple_sequence_Nil)
  show ?thesis unfolding swap_into_place_def
    by (rule triple_andthen[OF pre]) (rule triple_catch[OF swap_body_ok handler])
qed

lemma swap_or_rollback_ok: "triple (ready g) (swap_or_rollback fault (ge_prepared g)) (swapped g) (old_inv g) (old_inv g)"
proof -
  have undo: "triple (old_inv g) (catch (rollback fault (ge_prepared g)) (\<lambda>_. throw RestoreError)) (old_inv g) (old_inv g) (old_inv g)"
    by (rule triple_catch[where R = "old_inv g", OF triple_conseq[OF rollback_old]]) (auto simp: old_selected_def intro: triple_throw)
  have handler: "triple (old_inv g) (andthen (catch (rollback fault (ge_prepared g)) (\<lambda>_. throw RestoreError)) (throw e))
      (swapped g) (old_inv g) (old_inv g)" for e
    by (rule triple_andthen[OF undo]) (rule triple_throw)
  show ?thesis unfolding swap_or_rollback_def by (rule triple_catch[OF swap_into_place_ok handler])
qed

section \<open>Committing the database\<close>

lemma commit_step:
  assumes "ge_old_db g \<noteq> pr_new_db (ge_prepared g)"
  shows "triple (swapped g) (catch (prim fault (DbCommit (pr_restore_id (ge_prepared g)) (pr_new_db (ge_prepared g)))) (\<lambda>_. skip))
     (\<lambda>d. if dk_marker d = Some (pr_restore_id (ge_prepared g)) then new_inv g d else swapped g d) (recoverable g) (recoverable g)"
proof -
  let ?Q = "\<lambda>d. if dk_marker d = Some (pr_restore_id (ge_prepared g)) then new_inv g d else swapped g d"
  have "triple (swapped g) (prim fault (DbCommit (pr_restore_id (ge_prepared g)) (pr_new_db (ge_prepared g)))) ?Q ?Q (recoverable g)"
    by (rule triple_prim)
      (auto simp: swapped_def stage_def old_inv_def new_inv_def new_active_def recoverable_def split: option.splits)
  then show ?thesis by (rule triple_catch) (rule triple_skip)
qed

lemma mark_ok:
  "triple (\<lambda>d. new_inv g d \<and> dk_marker d = Some (pr_restore_id (ge_prepared g))) (mark_database_committed fault (ge_prepared g))
     (recoverable g) (recoverable g) (recoverable g)"
  unfolding mark_database_committed_def
  by (rule triple_prim) (auto simp: new_inv_def new_active_def recoverable_def journal_of_value split: option.splits)

lemma restore_cutover_recoverable:
  assumes "ge_old_db g \<noteq> pr_new_db (ge_prepared g)"
  shows "triple (ready g) (restore_cutover fault valid (ge_prepared g)) (recoverable g) (recoverable g) (recoverable g)"
proof -
  let ?rid = "Some (pr_restore_id (ge_prepared g))"
  let ?Q = "\<lambda>d. if dk_marker d = ?rid then new_inv g d else swapped g d"
  have old: "old_inv g d \<Longrightarrow> recoverable g d" for d by (simp add: recoverable_def)
  have mid: "?Q d \<Longrightarrow> recoverable g d" for d using swapped_old by (auto simp: recoverable_def split: if_splits)
  have swap: "triple (ready g) (swap_or_rollback fault (ge_prepared g)) (swapped g) (recoverable g) (recoverable g)"
    by (rule triple_weaken[OF swap_or_rollback_ok]) (auto intro: old)
  have undo: "triple (\<lambda>d. ?Q d \<and> dk_marker d \<noteq> ?rid) (andthen (rollback fault (ge_prepared g)) (throw RestoreError))
      (recoverable g) (recoverable g) (recoverable g)"
    by (rule triple_andthen[where R = "recoverable g", OF triple_conseq[OF rollback_old]])
      (auto simp: old_selected_def intro: old swapped_old triple_throw)
  have mark: "triple (\<lambda>d. ?Q d \<and> dk_marker d = ?rid) (branch valid (mark_database_committed fault (ge_prepared g)) (throw RestoreError))
      (recoverable g) (recoverable g) (recoverable g)"
    by (rule triple_branch, rule triple_pre[OF mark_ok], simp, rule triple_throw) (auto simp: recoverable_def)
  show ?thesis unfolding restore_cutover_def
    by (rule triple_sequence_Cons[OF swap], rule triple_sequence_Cons[OF commit_step[OF assms]],
        rule triple_sequence_Cons[OF triple_check_in[OF mid]], assumption,
        rule triple_sequence_Cons[OF triple_branch[OF mark undo]], rule triple_sequence_Nil)
qed

section \<open>Recovery settles one generation\<close>

lemma old_to_settled: "triple (\<lambda>d. old_selected g d) (prim fault ClearJournal) (settled g) (recoverable g) (recoverable g)"
  by (rule triple_prim) (auto simp: old_selected_def old_inv_def old_active_def settled_def recoverable_def)

definition new_cleared :: "generation \<Rightarrow> disk \<Rightarrow> bool" where
  "new_cleared g d \<longleftrightarrow> new_inv g d \<and> dk_marker d = None"

definition new_selected :: "generation \<Rightarrow> disk \<Rightarrow> bool" where
  "new_selected g d \<longleftrightarrow> new_cleared g d \<and> dk_data d (prevS g) = None \<and> dk_data d (prevK g) = None"

lemma new_to_settled: "triple (new_selected g) (prim fault ClearJournal) (settled g) (recoverable g) (recoverable g)"
  by (rule triple_prim) (auto simp: new_selected_def new_cleared_def new_inv_def new_active_def settled_def recoverable_def)

lemma finish_settled:
  assumes "\<And>d w. P d \<Longrightarrow> P (d\<lparr>dk_work := w\<rparr>)" "\<And>d. P d \<Longrightarrow> recoverable g d"
    and "triple P (prim fault ClearJournal) (settled g) (recoverable g) (recoverable g)"
  shows "triple P (finish_recovery fault) (settled g) (recoverable g) (recoverable g)"
  unfolding finish_recovery_def
  by (rule triple_sequence_Cons[OF triple_check_in[OF assms(2)]], assumption,
      rule triple_sequence_Cons[OF triple_weaken[OF triple_cleanup[of P, OF assms(1)] assms(2) assms(2)]], assumption+,
      rule triple_sequence_Cons[OF triple_check_in[OF assms(2)]], assumption,
      rule triple_sequence_Cons[OF assms(3)], rule triple_sequence_Nil)

lemma journal_of_prev [simp]:
  "journal_of g j \<Longrightarrow> js_previous_storage j = prevS g" "journal_of g j \<Longrightarrow> js_previous_secret j = prevK g"
  "journal_of g j \<Longrightarrow> js_restore_id j = pr_restore_id (ge_prepared g)"
  by (auto simp: journal_of_def journal_value_def)

lemma journal_of_finalizing: "journal_of g j \<Longrightarrow> journal_of g (j\<lparr>js_status := lit ''finalizing''\<rparr>)"
  using statuses(4) by (auto simp: journal_of_def journal_value_def)

lemma recover_rolled_back_ok:
  assumes "journal_of g j"
  shows "triple (old_inv g) (recover_rolled_back fault j) (settled g) (recoverable g) (recoverable g)"
proof -
  have old: "\<And>d. old_inv g d \<Longrightarrow> recoverable g d" by (simp add: recoverable_def)
  have fin: "triple (old_selected g) (finish_recovery fault) (settled g) (recoverable g) (recoverable g)"
    by (rule finish_settled[OF _ _ old_to_settled]) (auto simp: old_selected_def old)
  show ?thesis
    unfolding recover_rolled_back_def journal_of_prev[OF assms]
    by (rule triple_sequence_Cons[OF triple_check_in[OF old]], assumption,
        rule triple_sequence_Cons[OF triple_weaken[OF restore_storage old old]], assumption+,
        rule triple_sequence_Cons[OF triple_weaken[OF restore_secret old old]], assumption+,
        rule triple_sequence_Cons[OF fin[unfolded old_selected_def]], rule triple_sequence_Nil)
qed

lemma recover_committed_ok:
  assumes "journal_of g j"
  shows "triple (\<lambda>d. new_inv g d \<and> dk_journal d = Some j) (recover_committed fault valid j) (settled g) (recoverable g) (recoverable g)"
proof -
  let ?P = "\<lambda>d. new_inv g d \<and> dk_journal d = Some j"
  let ?F = "\<lambda>d. new_inv g d \<and> (\<exists>i. dk_journal d = Some i \<and> js_status i = lit ''finalizing'')"
  have new: "\<And>d. new_inv g d \<Longrightarrow> recoverable g d" "\<And>d. new_cleared g d \<Longrightarrow> recoverable g d"
    by (simp_all add: recoverable_def new_cleared_def)
  have guard: "triple ?P (branch b skip (throw RestoreError)) ?P (recoverable g) (recoverable g)" for b
    by (rule triple_branch; (rule triple_skip triple_throw)) (auto intro: new)
  have wr: "triple ?P (if js_status j = lit ''finalizing'' then skip else prim fault (WriteJournal (j\<lparr>js_status := lit ''finalizing''\<rparr>)))
      ?F (recoverable g) (recoverable g)"
  proof (cases "js_status j = lit ''finalizing''")
    case False
    then show ?thesis
      using journal_of_finalizing[OF assms]
      by (auto intro!: triple_prim simp: new_inv_def new_active_def recoverable_def)
  qed (auto intro!: triple_skip)
  have clear: "triple ?F (branch (\<lambda>d. dk_marker d = Some (js_restore_id j)) (prim fault (ClearMarker (js_restore_id j))) skip)
      (new_cleared g) (recoverable g) (recoverable g)"
    by (rule triple_branch, rule triple_prim, insert assms)
      (auto simp: new_inv_def new_active_def new_cleared_def recoverable_def split: if_splits option.splits intro!: triple_skip)
  have rmS: "triple (new_cleared g) (remove_entry_at fault (prevS g)) (\<lambda>d. new_cleared g d \<and> dk_data d (prevS g) = None)
      (new_cleared g) (new_cleared g)"
    by (rule triple_remove) (auto simp: new_cleared_def new_inv_def new_active_def names split: option.splits fs_entry.splits)
  have rmK: "triple (\<lambda>d. new_cleared g d \<and> dk_data d (prevS g) = None) (remove_entry_at fault (prevK g))
      (\<lambda>d. (new_cleared g d \<and> dk_data d (prevS g) = None) \<and> dk_data d (prevK g) = None)
      (\<lambda>d. new_cleared g d \<and> dk_data d (prevS g) = None) (\<lambda>d. new_cleared g d \<and> dk_data d (prevS g) = None)"
    by (rule triple_remove) (auto simp: new_cleared_def new_inv_def new_active_def names split: option.splits fs_entry.splits)
  have fin: "triple (\<lambda>d. (new_cleared g d \<and> dk_data d (prevS g) = None) \<and> dk_data d (prevK g) = None) (finish_recovery fault)
      (settled g) (recoverable g) (recoverable g)"
    using finish_settled[OF _ _ new_to_settled, of g fault]
    by (auto simp: new_selected_def[abs_def] new_cleared_def recoverable_def)
  show ?thesis
    unfolding recover_committed_def journal_of_prev(1,2)[OF assms]
    by (rule triple_sequence_Cons[OF guard], rule triple_sequence_Cons[OF guard], rule triple_sequence_Cons[OF wr],
        rule triple_sequence_Cons[OF clear], rule triple_sequence_Cons[OF triple_check_in[OF new(2)]], assumption,
        rule triple_sequence_Cons[OF triple_weaken[OF rmS new(2) new(2)]], assumption+,
        rule triple_sequence_Cons[OF triple_weaken[OF rmK]], (auto intro: new(2))[2],
        rule triple_sequence_Cons[OF fin], rule triple_sequence_Nil)
qed

lemma triple_at: "triple P p Q E C \<Longrightarrow> P d \<Longrightarrow> p d = (tr, d', e) \<Longrightarrow>
    (\<forall>x \<in> set tr. C x) \<and> (e = None \<longrightarrow> Q d') \<and> (e \<noteq> None \<longrightarrow> E d')"
  unfolding triple_def by blast

lemma recover_interrupted_ok:
  "triple (recoverable g) (recover_interrupted fault valid resolve configured) (settled g) (recoverable g) (recoverable g)"
  unfolding triple_def
proof (intro allI impI)
  fix d tr d' e
  assume d: "recoverable g d" "recover_interrupted fault valid resolve configured d = (tr, d', e)"
  show "(\<forall>x\<in>set tr. recoverable g x) \<and> (e = None \<longrightarrow> settled g d') \<and> (e \<noteq> None \<longrightarrow> recoverable g d')"
  proof (cases "dk_journal d")
    case None
    with d show ?thesis
      by (auto simp: recover_interrupted_def recoverable_def old_inv_def new_inv_def settled_def throw_def skip_def
          split: if_splits option.splits)
  next
    case (Some j)
    then have j: "journal_of g j" using d(1) by (auto simp: recoverable_def old_inv_def new_inv_def)
    consider "(tr, d', e) = throw RestoreError d"
      | "new_inv g d" "recover_committed fault valid j d = (tr, d', e)"
      | "old_inv g d" "recover_rolled_back fault j d = (tr, d', e)"
      using d Some j
      by (fastforce simp: recover_interrupted_def recoverable_def old_inv_def new_inv_def split: if_splits)
    then show ?thesis
    proof cases
      case 2
      then show ?thesis using triple_at[OF recover_committed_ok[OF j]] Some by blast
    next
      case 3
      then show ?thesis using triple_at[OF recover_rolled_back_ok[OF j]] by blast
    qed (use d in \<open>auto simp: throw_def\<close>)
  qed
qed

section \<open>Without faults recovery completes\<close>

definition no_fault :: "fs_op \<Rightarrow> disk \<Rightarrow> fault" where
  "no_fault op d = NoFault"

definition plain_entry :: "fs_entry option \<Rightarrow> bool" where
  "plain_entry e = (case e of Some FsLink \<Rightarrow> False | Some FsSpecial \<Rightarrow> False | _ \<Rightarrow> True)"

definition plain_at :: "pystr list \<Rightarrow> disk \<Rightarrow> bool" where
  "plain_at ns d = list_all (\<lambda>n. plain_entry (dk_data d n)) ns"

text \<open>Total correctness: the program ends without an exception.\<close>

abbreviation completes :: "(disk \<Rightarrow> bool) \<Rightarrow> prog \<Rightarrow> (disk \<Rightarrow> bool) \<Rightarrow> bool" where
  "completes P p Q \<equiv> triple P p Q (\<lambda>_. False) (\<lambda>_. True)"

lemma completes_prim:
  "(\<And>d. P d \<Longrightarrow> \<exists>d'. apply_op op d = Inr d' \<and> Q d') \<Longrightarrow> completes P (prim no_fault op) Q"
  by (fastforce simp: triple_def prim_def no_fault_def)

lemma plain_at_update: "plain_at ns d \<Longrightarrow> plain_entry e \<Longrightarrow> plain_at ns (d\<lparr>dk_data := (dk_data d)(n := e)\<rparr>)"
  by (auto simp: plain_at_def list_all_iff)

lemma completes_remove:
  assumes "n \<in> set ns" "p \<noteq> n"
  shows "completes (\<lambda>d. plain_at ns d \<and> dk_data d p = x) (remove_entry_at no_fault n)
     (\<lambda>d. plain_at ns d \<and> dk_data d n = None \<and> dk_data d p = x)"
  unfolding triple_def
proof (intro allI impI)
  fix d tr d' e
  assume d: "plain_at ns d \<and> dk_data d p = x" "remove_entry_at no_fault n d = (tr, d', e)"
  then have "plain_entry (dk_data d n)" using assms by (auto simp: plain_at_def list_all_iff)
  then show "(\<forall>x\<in>set tr. True) \<and> (e = None \<longrightarrow> plain_at ns d' \<and> dk_data d' n = None \<and> dk_data d' p = x) \<and> (e \<noteq> None \<longrightarrow> False)"
    using d plain_at_update[of ns d None n] assms(2)
    by (auto simp: plain_entry_def remove_entry_at_def skip_def prim_def no_fault_def andthen_def
        split: option.splits fs_entry.splits)
qed

lemma completes_restore_previous:
  assumes "prev \<in> set ns" "name \<in> set ns" "prev \<noteq> name"
  shows "completes (plain_at ns) (restore_previous no_fault prev name) (plain_at ns)"
  unfolding restore_previous_def
proof (rule triple_branch)
  have "completes (\<lambda>d. plain_at ns d \<and> dk_data d prev = Some x)
      (andthen (remove_entry_at no_fault name) (prim no_fault (RenameData prev name))) (plain_at ns)" for x
  proof (rule triple_andthen[OF completes_remove[OF assms(2,3)]], rule completes_prim)
    fix d assume d: "plain_at ns d \<and> dk_data d name = None \<and> dk_data d prev = Some x"
    then have "plain_entry (Some x)" using assms(1) by (force simp: plain_at_def list_all_iff)
    then have "plain_at ns (d\<lparr>dk_data := (dk_data d)(prev := None, name \<mapsto> x)\<rparr>)"
      using plain_at_update[OF plain_at_update[of ns d None prev], of "Some x" name] d by (simp add: plain_entry_def)
    then show "\<exists>d'. apply_op (RenameData prev name) d = Inr d' \<and> plain_at ns d'"
      using d assms(3) by (simp add: rename_into_def)
  qed
  then show "completes (\<lambda>d. plain_at ns d \<and> entry_exists prev d)
      (andthen (remove_entry_at no_fault name) (prim no_fault (RenameData prev name))) (plain_at ns)"
    unfolding entry_exists_def triple_def by blast
qed (rule triple_skip, simp)

lemma completes_finish: "completes P (finish_recovery no_fault) (\<lambda>_. True)"
  unfolding finish_recovery_def
  by (auto simp: triple_def andthen_def cleanup_work_dir_def branch_def prim_def no_fault_def skip_def)

lemma completes_check: "completes P (prim no_fault Check) P"
  by (rule completes_prim) simp

lemma completes_last: "completes P (sequence [finish_recovery no_fault]) (\<lambda>_. True)"
  by (rule triple_sequence_Cons[OF completes_finish triple_sequence_Nil])

lemma completes_rolled_back:
  assumes "journal_of g j"
  shows "completes (plain_at [STORAGE, SECRET, prevS g, prevK g]) (recover_rolled_back no_fault j) (\<lambda>_. True)"
proof -
  let ?ns = "[STORAGE, SECRET, prevS g, prevK g]"
  have "completes (plain_at ?ns) (restore_previous no_fault (prevS g) STORAGE) (plain_at ?ns)"
    "completes (plain_at ?ns) (restore_previous no_fault (prevK g) SECRET) (plain_at ?ns)"
    by (rule completes_restore_previous; simp add: names)+
  then show ?thesis
    unfolding recover_rolled_back_def journal_of_prev(1,2)[OF assms]
    by (rule triple_sequence_Cons[OF completes_check triple_sequence_Cons[OF _ triple_sequence_Cons[OF _ completes_last]]])
qed

lemma completes_committed:
  assumes "journal_of g j" "is_ok (normalize_file_reference_inventory (js_inventory j))"
  shows "completes (\<lambda>d. plain_at [STORAGE, SECRET, prevS g, prevK g] d \<and> valid d) (recover_committed no_fault valid j) (\<lambda>_. True)"
proof -
  let ?ns = "[STORAGE, SECRET, prevS g, prevK g]"
  have inv: "completes (\<lambda>d. plain_at ?ns d \<and> valid d)
      (branch (\<lambda>_. is_ok (normalize_file_reference_inventory (js_inventory j))) skip (throw RestoreError)) (\<lambda>d. plain_at ?ns d \<and> valid d)"
    and val: "completes (\<lambda>d. plain_at ?ns d \<and> valid d) (branch valid skip (throw RestoreError)) (plain_at ?ns)"
    using assms(2) by (auto simp: triple_def branch_def skip_def)
  have wr: "completes (plain_at ?ns) (if b then skip else prim no_fault (WriteJournal i)) (plain_at ?ns)" for b i
    by (auto simp: triple_def skip_def prim_def no_fault_def plain_at_def)
  have clr: "completes (plain_at ?ns) (branch (\<lambda>d. dk_marker d = Some r) (prim no_fault (ClearMarker r)) skip) (plain_at ?ns)" for r
    by (auto simp: triple_def branch_def skip_def prim_def no_fault_def plain_at_def)
  have rm: "completes (plain_at ?ns) (remove_entry_at no_fault n) (plain_at ?ns)" if "n \<in> {prevS g, prevK g}" for n
  proof -
    have n: "n \<in> set ?ns" "STORAGE \<noteq> n" using that by (auto simp: names)
    show ?thesis using completes_remove[OF n] unfolding triple_def by blast
  qed
  show ?thesis
    unfolding recover_committed_def journal_of_prev(1,2)[OF assms(1)]
    by (rule triple_sequence_Cons[OF inv], rule triple_sequence_Cons[OF val], rule triple_sequence_Cons[OF wr],
        rule triple_sequence_Cons[OF clr], rule triple_sequence_Cons[OF completes_check], rule triple_sequence_Cons[OF rm], simp,
        rule triple_sequence_Cons[OF rm completes_last], simp)
qed

section \<open>Properties\<close>

text \<open>One start of the process that dies at some point of the recovery, or ends with an exception.\<close>

definition interrupted_start :: "(pystr \<Rightarrow> pystr option) \<Rightarrow> pystr \<Rightarrow> disk \<Rightarrow> disk \<Rightarrow> bool" where
  "interrupted_start resolve configured d d' \<longleftrightarrow>
     (\<exists>fault valid. d' \<in> crash_states (recover_interrupted fault valid resolve configured) d)"

lemma triple_crash_states: "triple P p Q E C \<Longrightarrow> P d \<Longrightarrow> d' \<in> crash_states p d \<Longrightarrow> d' = d \<or> C d'"
  by (cases "p d") (auto simp: triple_def crash_states_def)

lemma interrupted_starts_recoverable:
  "(interrupted_start resolve configured)\<^sup>*\<^sup>* d d' \<Longrightarrow> recoverable g d \<Longrightarrow> recoverable g d'"
  by (induction rule: rtranclp_induct) (auto simp: interrupted_start_def dest: triple_crash_states[OF recover_interrupted_ok])

text \<open>
  C4: A destructive restore is atomic under crashes and faults: kill the cutover at any step, let any number of later starts die during
  recovery, and the first recovery that ends normally leaves the old database with the old files or the new
  database with the new files, with the journal, the marker and the parked entries gone.
\<close>

theorem restore_cutover_atomic:
  assumes "ready g d0" "ge_old_db g \<noteq> pr_new_db (ge_prepared g)"
    and "d1 \<in> crash_states (restore_cutover fault valid (ge_prepared g)) d0"
    and "(interrupted_start resolve configured)\<^sup>*\<^sup>* d1 d2"
    and "recover_interrupted fault' valid' resolve configured d2 = (tr, d3, None)"
  shows "settled g d3"
proof -
  have "recoverable g d1"
    using triple_crash_states[OF restore_cutover_recoverable[OF assms(2)] assms(1,3)] assms(1)
    by (auto simp: ready_def recoverable_def)
  then have "recoverable g d2" by (rule interrupted_starts_recoverable[OF assms(4)])
  then show ?thesis using triple_at[OF recover_interrupted_ok _ assms(5)] by simp
qed

text \<open>
  C18: Recovery makes progress: from every state a crash can leave, when no operation fails, the parked and active
  entries are directories or regular files, the journal names the configured data directory, its inventory is well formed and the
  restored files validate, recovery ends normally with one generation selected.
\<close>

theorem recovery_completes:
  assumes "recoverable g d" "plain_at [STORAGE, SECRET, prevS g, prevK g] d"
    and "restore_id_ok (pr_restore_id (ge_prepared g))"
    and "resolve (pr_data_dir (ge_prepared g)) = Some (pr_data_dir (ge_prepared g))"
    and "resolve configured = Some (pr_data_dir (ge_prepared g))"
    and "is_ok (normalize_file_reference_inventory (pr_inventory (ge_prepared g)))" "valid d"
  shows "\<exists>tr d'. recover_interrupted no_fault valid resolve configured d = (tr, d', None) \<and> settled g d'"
proof -
  obtain tr d' e where run: "recover_interrupted no_fault valid resolve configured d = (tr, d', e)" by (metis prod_cases3)
  have "e = None"
  proof (cases "dk_journal d")
    case None
    then show ?thesis using run assms(1)
      by (auto simp: recover_interrupted_def recoverable_def old_inv_def new_inv_def skip_def)
  next
    case (Some j)
    then have j: "journal_of g j" using assms(1) by (auto simp: recoverable_def old_inv_def new_inv_def)
    have use: "journal_usable resolve configured j" "js_inventory j = pr_inventory (ge_prepared g)"
      using j assms(3-5) by (auto simp: journal_of_def journal_usable_def journal_value_def names)
    have mk: "dk_marker d \<in> {None, Some (js_restore_id j)}"
      using assms(1) Some j by (auto simp: recoverable_def old_inv_def new_inv_def)
    have "(tr, d', e) = recover_committed no_fault valid j d \<or> (tr, d', e) = recover_rolled_back no_fault j d"
      using run Some use mk by (auto simp: recover_interrupted_def split: if_splits)
    then show ?thesis
      using triple_at[OF completes_committed[OF j]] triple_at[OF completes_rolled_back[OF j] assms(2)] assms(2,6,7) use(2)
      by metis
  qed
  moreover have "settled g d'" using triple_at[OF recover_interrupted_ok assms(1) run] calculation by simp
  ultimately show ?thesis using run by blast
qed

section \<open>Witnesses\<close>

definition sample_prepared :: prepared_restore where
  "sample_prepared =
     \<lparr>pr_restore_id = replicate 32 97, pr_data_dir = lit ''/data'', pr_inventory = inventory_value (0, replicate 64 48), pr_new_db = 2\<rparr>"

definition sample_generation :: generation where
  "sample_generation =
     \<lparr>ge_prepared = sample_prepared, ge_old_storage = FsDir (Some 1), ge_old_secret = FsReg 1,
      ge_new_storage = FsDir (Some 2), ge_new_secret = FsReg 2, ge_old_db = 1\<rparr>"

definition sample_disk :: disk where
  "sample_disk =
     \<lparr>dk_data = [STORAGE \<mapsto> FsDir (Some 1), SECRET \<mapsto> FsReg 1], dk_work = Some [STORAGE \<mapsto> FsDir (Some 2), SECRET \<mapsto> FsReg 2],
      dk_journal = None, dk_marker = None, dk_db = 1\<rparr>"

text \<open>The process dies with the new storage in place and the old secret still active.\<close>

definition half_swapped :: disk where
  "half_swapped =
     \<lparr>dk_data = [STORAGE \<mapsto> FsDir (Some 2), SECRET \<mapsto> FsReg 1, prev_storage sample_prepared \<mapsto> FsDir (Some 1)],
      dk_work = Some [SECRET \<mapsto> FsReg 2], dk_journal = Some (journal_value sample_prepared (lit ''swap_started'')),
      dk_marker = None, dk_db = 1\<rparr>"

lemmas prog_simps = sequence.simps andthen_def catch_def branch_def prim_def no_fault_def skip_def throw_def ignore_missing_def

lemma sample_ready: "ready sample_generation sample_disk"
  by (simp add: ready_def old_inv_def old_active_def sample_generation_def sample_disk_def names)

lemma half_swapped_reached:
  "half_swapped \<in> crash_states (restore_cutover no_fault (\<lambda>_. True) sample_prepared) sample_disk"
  by (simp add: crash_states_def restore_cutover_def swap_or_rollback_def swap_into_place_def swap_body_def prog_simps
      sample_disk_def half_swapped_def entry_exists_def rename_into_def names mark_database_committed_def fun_eq_iff)

lemma sample_journal_usable: "journal_usable Some (lit ''/data'') (journal_value sample_prepared (lit ''swap_started''))"
  by (simp add: journal_usable_def journal_value_def sample_prepared_def restore_id_ok_def hex_char_def names list_all_iff)

lemma half_swapped_recovers:
  "recover_interrupted no_fault (\<lambda>_. True) Some (lit ''/data'') half_swapped =
     (let r = recover_interrupted no_fault (\<lambda>_. True) Some (lit ''/data'') half_swapped in (fst r, fst (snd r), None))"
  using sample_journal_usable
  by (simp add: recover_interrupted_def half_swapped_def recover_rolled_back_def restore_previous_def remove_entry_at_def
      finish_recovery_def cleanup_work_dir_def prog_simps entry_exists_def rename_into_def names journal_value_def lit_inject)

theorem restore_cutover_atomic_witness:
  "settled sample_generation (fst (snd (recover_interrupted no_fault (\<lambda>_. True) Some (lit ''/data'') half_swapped)))"
proof (rule restore_cutover_atomic[OF sample_ready])
  show "half_swapped \<in> crash_states (restore_cutover no_fault (\<lambda>_. True) (ge_prepared sample_generation)) sample_disk"
    using half_swapped_reached by (simp add: sample_generation_def)
  show "(interrupted_start Some (lit ''/data''))\<^sup>*\<^sup>* half_swapped half_swapped" by simp
  show "recover_interrupted no_fault (\<lambda>_. True) Some (lit ''/data'') half_swapped =
      (fst (recover_interrupted no_fault (\<lambda>_. True) Some (lit ''/data'') half_swapped),
       fst (snd (recover_interrupted no_fault (\<lambda>_. True) Some (lit ''/data'') half_swapped)), None)"
    using half_swapped_recovers by (simp add: Let_def)
qed (simp add: sample_generation_def sample_prepared_def)

theorem recovery_completes_witness:
  "\<exists>tr d'. recover_interrupted no_fault (\<lambda>_. True) Some (lit ''/data'') half_swapped = (tr, d', None) \<and> settled sample_generation d'"
proof (rule recovery_completes)
  show "recoverable sample_generation half_swapped"
    by (simp add: recoverable_def old_inv_def half_swapped_def sample_generation_def names journal_of_value[of _ sample_generation, simplified sample_generation_def, simplified])
  show "plain_at [STORAGE, SECRET, prevS sample_generation, prevK sample_generation] half_swapped"
    by (simp add: plain_at_def plain_entry_def half_swapped_def sample_generation_def names)
  show "restore_id_ok (pr_restore_id (ge_prepared sample_generation))"
    by (simp add: sample_generation_def sample_prepared_def restore_id_ok_def hex_char_def list_all_iff)
  show "is_ok (normalize_file_reference_inventory (pr_inventory (ge_prepared sample_generation)))"
    by (simp add: sample_generation_def sample_prepared_def normalize_file_reference_inventory_def inventory_value_def
        is_one_def FILE_REFERENCE_INVENTORY_VERSION_def hex_char_def list_all_iff insert_commute dict_get_def)
qed (simp_all add: sample_generation_def sample_prepared_def)

end
