(* ===== verification/Auth_Tokens.thy ===== *)
theory Auth_Tokens
  imports Py_Value "HOL-Library.Countable"
begin

text \<open>
  Model of token issuing and checking: \<open>ppbase/services/auth_service.py\<close>, \<open>ppbase/services/file_tokens.py\<close> and the
  authentication dependencies of \<open>ppbase/api/deps.py\<close>.

  \<^item> JWT, bcrypt and IEEE addition are the record \<open>auth_lib\<close>.  \<open>jwt_laws\<close> states what the code relies on, for claims of the
    kind it issues (text, numbers, truth values and null under names that PyJWT gives no meaning, with \<open>iat\<close> and \<open>exp\<close> added):
    a token reads back the claims it was made from, verification succeeds exactly with the signing key while the token is not
    expired, returns the claims that the unverified decoding shows, and no token verifies under two keys.  That distinct keys never verify each other's tokens is the
    usual idealisation of HMAC.
  \<^item> The database is the list of collections and a map from table names to tables.  A query on a missing table or
    column, or with a parameter that is not text, raises \<open>DatabaseError\<close>.
  \<^item> The time and fresh random keys are arguments.
\<close>

section \<open>Libraries and database\<close>

record auth_lib =
  al_rt :: py_runtime
  al_encode :: "pydict \<Rightarrow> pystr \<Rightarrow> pystr"
  al_peek :: "pystr \<Rightarrow> pydict option"
  al_decode :: "pystr \<Rightarrow> pystr \<Rightarrow> int \<Rightarrow> pydict option"
  al_checkpw :: "pystr \<Rightarrow> pystr \<Rightarrow> bool"
  al_hashpw :: "pystr \<Rightarrow> pystr"
  al_float_add :: "int \<Rightarrow> pyfloat \<Rightarrow> pyfloat"

record acoll =
  ac_id :: pystr
  ac_name :: pystr
  ac_options :: pyval

record table =
  tb_columns :: "pystr list"
  tb_rows :: "pydict list"

record auth_db =
  ad_collections :: "acoll list"
  ad_tables :: "pystr \<rightharpoonup> table"

definition SUPERUSERS :: pystr where
  "SUPERUSERS = lit ''_superusers''"

definition find_row :: "pystr \<Rightarrow> pyval \<Rightarrow> pydict list \<Rightarrow> pydict option" where
  "find_row column v rows = find (\<lambda>r. dict_get r column = v) rows"

text \<open>\<open>SELECT * FROM t WHERE column = :v LIMIT 1\<close>.\<close>

definition select_row :: "auth_db \<Rightarrow> pystr \<Rightarrow> pystr \<Rightarrow> pyval \<Rightarrow> pyexn + pydict option" where
  "select_row db name column v =
     (case ad_tables db name of
        None \<Rightarrow> Inl DatabaseError
      | Some t \<Rightarrow>
          if column \<notin> set (tb_columns t) then Inl DatabaseError
          else (case v of PStr s \<Rightarrow> Inr (find_row column v (tb_rows t)) | _ \<Rightarrow> Inl DatabaseError))"

text \<open>\<open>SELECT c FROM t WHERE id = :v LIMIT 1\<close>.\<close>

definition select_column :: "auth_db \<Rightarrow> pystr \<Rightarrow> pystr \<Rightarrow> pyval \<Rightarrow> pyexn + pyval option" where
  "select_column db name column v =
     (case ad_tables db name of
        None \<Rightarrow> Inl DatabaseError
      | Some t \<Rightarrow>
          if column \<notin> set (tb_columns t) then Inl DatabaseError
          else bindE (select_row db name (lit ''id'') v) (\<lambda>r. Inr (map_option (\<lambda>r. dict_get r column) r)))"

definition collection_by_id :: "auth_db \<Rightarrow> pyval \<Rightarrow> pyexn + acoll option" where
  "collection_by_id db v =
     (case v of PStr s \<Rightarrow> Inr (find (\<lambda>c. ac_id c = s) (ad_collections db)) | _ \<Rightarrow> Inl DatabaseError)"

definition get_superusers_collection :: "auth_db \<Rightarrow> acoll option" where
  "get_superusers_collection db = find (\<lambda>c. ac_name c = SUPERUSERS) (ad_collections db)"

section \<open>Tokens\<close>

definition normalize_auth_token_type :: "pyval \<Rightarrow> pyval" where
  "normalize_auth_token_type v = (if v = PStr (lit ''auth'') then PStr (lit ''authRecord'') else v)"

definition verify_password :: "auth_lib \<Rightarrow> pystr \<Rightarrow> pystr \<Rightarrow> bool" where
  "verify_password al plain hashed = al_checkpw al plain hashed"

definition is_token_key_char :: "nat \<Rightarrow> bool" where
  "is_token_key_char c \<longleftrightarrow> (97 \<le> c \<and> c \<le> 122) \<or> (65 \<le> c \<and> c \<le> 90) \<or> (48 \<le> c \<and> c \<le> 57)"

definition TOKEN_TYPES :: "string list" where
  "TOKEN_TYPES = [''authToken'', ''passwordResetToken'', ''verificationToken'', ''emailChangeToken'', ''fileToken'']"

definition default_duration :: "pystr \<Rightarrow> int" where
  "default_duration ty =
     (if ty = lit ''authToken'' then 604800 else if ty = lit ''passwordResetToken'' then 1800
      else if ty = lit ''verificationToken'' then 259200 else if ty = lit ''emailChangeToken'' then 1800
      else if ty = lit ''fileToken'' then 180 else 604800)"

text \<open>\<open>keys\<close> are the five results of \<open>generate_token_key(50)\<close>, in order.\<close>

definition token_option :: "pystr \<Rightarrow> int \<Rightarrow> pyval" where
  "token_option secret duration = PDict [(lit ''secret'', PStr secret), (lit ''duration'', PInt duration)]"

definition generate_default_auth_options :: "bool \<Rightarrow> (nat \<Rightarrow> pystr) \<Rightarrow> pyval" where
  "generate_default_auth_options is_superusers keys =
     PDict
       [(lit ''authToken'', token_option (keys 0) (if is_superusers then 86400 else 604800)),
        (lit ''passwordResetToken'', token_option (keys 1) 1800),
        (lit ''verificationToken'', token_option (keys 2) 259200),
        (lit ''emailChangeToken'', token_option (keys 3) 1800),
        (lit ''fileToken'', token_option (keys 4) 180),
        (lit ''passwordAuth'', PDict [(lit ''enabled'', PBool True), (lit ''identityFields'', PList [PStr (lit ''email'')])]),
        (lit ''oauth2'', PDict [(lit ''enabled'', PBool False), (lit ''providers'', PList []), (lit ''mappedFields'', PDict [])]),
        (lit ''mfa'', PDict [(lit ''enabled'', PBool False), (lit ''duration'', PInt 1800)]),
        (lit ''otp'', PDict [(lit ''enabled'', PBool False), (lit ''duration'', PInt 180), (lit ''length'', PInt 8)]),
        (lit ''authRule'', PStr []), (lit ''manageRule'', PNone)]"

text \<open>\<open>d.get(..)\<close> on a value that is not a dict raises \<open>AttributeError\<close>.\<close>

definition as_mapping :: "pyval \<Rightarrow> pyexn + pydict" where
  "as_mapping v = (case v of PDict d \<Rightarrow> Inr d | _ \<Rightarrow> Inl AttributeError)"

definition get_collection_token_config :: "acoll \<Rightarrow> pystr \<Rightarrow> pyexn + pyval \<times> pyval" where
  "get_collection_token_config c ty =
     bindE (as_mapping (py_or (ac_options c) (PDict []))) (\<lambda>opts.
     bindE (as_mapping (dict_get_or opts ty (PDict []))) (\<lambda>cfg.
     Inr (dict_get_or cfg (lit ''secret'') (PStr []), dict_get_or cfg (lit ''duration'') (PInt (default_duration ty)))))"

text \<open>\<open>a + b\<close> on text.\<close>

definition str_add :: "pyval \<Rightarrow> pyval \<Rightarrow> pyexn + pystr" where
  "str_add a b = (case (a, b) of (PStr s, PStr t) \<Rightarrow> Inr (s @ t) | _ \<Rightarrow> Inl TypeError)"

text \<open>\<open>now + duration\<close>.\<close>

definition time_add :: "auth_lib \<Rightarrow> int \<Rightarrow> pyval \<Rightarrow> pyexn + pyval" where
  "time_add al now v =
     (case v of
        PInt d \<Rightarrow> Inr (PInt (now + d))
      | PBool b \<Rightarrow> Inr (PInt (now + (if b then 1 else 0)))
      | PFloat f \<Rightarrow> Inr (PFloat (al_float_add al now f))
      | _ \<Rightarrow> Inl TypeError)"

definition token_claims :: "pydict \<Rightarrow> int \<Rightarrow> pyval \<Rightarrow> pydict" where
  "token_claims payload now expires = dict_put (dict_put payload (lit ''iat'') (PInt now)) (lit ''exp'') expires"

definition create_token :: "auth_lib \<Rightarrow> int \<Rightarrow> pydict \<Rightarrow> pystr \<Rightarrow> pyval \<Rightarrow> pyexn + pystr" where
  "create_token al now payload secret duration =
     bindE (time_add al now duration) (\<lambda>expires. Inr (al_encode al (token_claims payload now expires) secret))"

definition verify_token :: "auth_lib \<Rightarrow> int \<Rightarrow> pystr \<Rightarrow> pystr \<Rightarrow> pydict option" where
  "verify_token al now token secret = al_decode al token secret now"

text \<open>\<open>admin\<close> is the row; \<open>settings\<close> gives the fallback secret and duration.\<close>

definition create_admin_token ::
  "auth_lib \<Rightarrow> int \<Rightarrow> pydict \<Rightarrow> (pystr \<times> int) option \<Rightarrow> acoll option \<Rightarrow> pyexn + pystr" where
  "create_admin_token al now admin settings superusers =
     (let payload = [(lit ''id'', dict_get_or admin (lit ''id'') (PStr [])), (lit ''type'', PStr (lit ''admin''))];
          key = dict_get_or admin (lit ''token_key'') (PStr [])
      in case superusers of
           Some c \<Rightarrow>
             bindE (get_collection_token_config c (lit ''authToken'')) (\<lambda>(auth_secret, duration).
             bindE (str_add key auth_secret) (\<lambda>secret. create_token al now payload secret duration))
         | None \<Rightarrow>
             bindE (str_add key (PStr (case settings of None \<Rightarrow> [] | Some (s, _) \<Rightarrow> s))) (\<lambda>secret.
             create_token al now payload secret (PInt (case settings of None \<Rightarrow> 1209600 | Some (_, d) \<Rightarrow> d))))"

definition row_item :: "pydict \<Rightarrow> string \<Rightarrow> pyexn + pyval" where
  "row_item row k = (case map_of row (lit k) of None \<Rightarrow> Inl KeyError | Some v \<Rightarrow> Inr v)"

text \<open>\<open>duration < 1\<close>.\<close>

definition less_than_one :: "pyval \<Rightarrow> pyexn + bool" where
  "less_than_one v =
     (case v of PInt d \<Rightarrow> Inr (d < 1) | PBool b \<Rightarrow> Inr (\<not> b) | PFloat f \<Rightarrow> Inr (flt_less f (FFin 1)) | _ \<Rightarrow> Inl TypeError)"

definition create_record_auth_token ::
  "auth_lib \<Rightarrow> int \<Rightarrow> pydict \<Rightarrow> acoll \<Rightarrow> bool \<Rightarrow> int option \<Rightarrow> pyexn + pystr" where
  "create_record_auth_token al now row c refreshable duration_seconds =
     bindE (row_item row ''id'') (\<lambda>rid.
     bindE (row_item row ''token_key'') (\<lambda>key.
     bindE (get_collection_token_config c (lit ''authToken'')) (\<lambda>(auth_secret, auth_duration).
     bindE (str_add key auth_secret) (\<lambda>secret.
     (let duration = (case duration_seconds of Some d \<Rightarrow> PInt d | None \<Rightarrow> auth_duration)
      in bindE (less_than_one duration) (\<lambda>short.
         create_token al now
           [(lit ''id'', rid), (lit ''type'', PStr (lit ''authRecord'')), (lit ''collectionId'', PStr (ac_id c)),
            (lit ''refreshable'', PBool refreshable)]
           secret (if short then auth_duration else duration)))))))"

definition create_purpose_token ::
  "auth_lib \<Rightarrow> int \<Rightarrow> string \<Rightarrow> pyval \<Rightarrow> pystr \<Rightarrow> pyval \<Rightarrow> pyval option \<Rightarrow> pystr \<Rightarrow> pyval \<Rightarrow> pyexn + pystr" where
  "create_purpose_token al now ty rid cid email new_email secret duration =
     create_token al now
       ([(lit ''id'', rid), (lit ''collectionId'', PStr cid), (lit ''email'', email)] @
        (case new_email of None \<Rightarrow> [] | Some e \<Rightarrow> [(lit ''newEmail'', e)]) @ [(lit ''type'', PStr (lit ty))])
       secret duration"

definition create_verification_token :: "auth_lib \<Rightarrow> int \<Rightarrow> pyval \<Rightarrow> pystr \<Rightarrow> pyval \<Rightarrow> pystr \<Rightarrow> pyval \<Rightarrow> pyexn + pystr" where
  "create_verification_token al now rid cid email = create_purpose_token al now ''verification'' rid cid email None"

definition create_password_reset_token :: "auth_lib \<Rightarrow> int \<Rightarrow> pyval \<Rightarrow> pystr \<Rightarrow> pyval \<Rightarrow> pystr \<Rightarrow> pyval \<Rightarrow> pyexn + pystr" where
  "create_password_reset_token al now rid cid email = create_purpose_token al now ''passwordReset'' rid cid email None"

definition create_email_change_token ::
  "auth_lib \<Rightarrow> int \<Rightarrow> pyval \<Rightarrow> pystr \<Rightarrow> pyval \<Rightarrow> pyval \<Rightarrow> pystr \<Rightarrow> pyval \<Rightarrow> pyexn + pystr" where
  "create_email_change_token al now rid cid email new_email = create_purpose_token al now ''emailChange'' rid cid email (Some new_email)"

definition verify_purpose_token :: "auth_lib \<Rightarrow> int \<Rightarrow> pystr \<Rightarrow> pystr \<Rightarrow> pystr \<Rightarrow> pydict option" where
  "verify_purpose_token al now token secret expected_type =
     (case verify_token al now token secret of
        None \<Rightarrow> None
      | Some payload \<Rightarrow> if dict_get payload (lit ''type'') \<noteq> PStr expected_type then None else Some payload)"

section \<open>File tokens\<close>

text \<open>\<open>str(d.get(k, "") or "")\<close>.\<close>

definition claim_str :: "auth_lib \<Rightarrow> pydict \<Rightarrow> string \<Rightarrow> pystr" where
  "claim_str al d k = py_str (al_rt al) (py_or (dict_get_or d (lit k) (PStr [])) (PStr []))"

definition get_auth_record_token_key :: "auth_lib \<Rightarrow> auth_db \<Rightarrow> acoll \<Rightarrow> pystr \<Rightarrow> pyexn + pystr option" where
  "get_auth_record_token_key al db c rid =
     bindE (select_column db (ac_name c) (lit ''token_key'') (PStr rid)) (\<lambda>r.
     Inr (case r of None \<Rightarrow> None | Some PNone \<Rightarrow> None | Some v \<Rightarrow> Some (py_str (al_rt al) v)))"

definition secret_key :: "auth_lib \<Rightarrow> pyval \<Rightarrow> pyval \<Rightarrow> pyexn + pystr" where
  "secret_key al key secret = str_add (PStr (py_str (al_rt al) key)) secret"

definition create_file_token_for_auth :: "auth_lib \<Rightarrow> int \<Rightarrow> auth_db \<Rightarrow> pydict \<Rightarrow> pyexn + pystr" where
  "create_file_token_for_auth al now db auth =
     (let auth_type = claim_str al auth ''type''; auth_id = claim_str al auth ''id''
      in if auth_type = [] \<or> auth_id = [] then Inl ValueError
      else if auth_type = lit ''admin'' then
        bindE (select_row db SUPERUSERS (lit ''id'') (PStr auth_id)) (\<lambda>r.
        (case r of
           None \<Rightarrow> Inl ValueError
         | Some admin \<Rightarrow>
             (case get_superusers_collection db of
                None \<Rightarrow> Inl ValueError
              | Some c \<Rightarrow>
                  bindE (get_collection_token_config c (lit ''fileToken'')) (\<lambda>(file_secret, duration).
                  bindE (secret_key al (dict_get admin (lit ''token_key'')) file_secret) (\<lambda>secret.
                  create_token al now
                    [(lit ''id'', dict_get admin (lit ''id'')), (lit ''type'', PStr (lit ''admin'')), (lit ''for'', PStr (lit ''file''))]
                    secret duration)))))
      else if auth_type = lit ''authRecord'' then
        (let cid = claim_str al auth ''collectionId''
         in if cid = [] then Inl ValueError
         else bindE (collection_by_id db (PStr cid)) (\<lambda>oc.
           (case oc of
              None \<Rightarrow> Inl ValueError
            | Some c \<Rightarrow>
                bindE (get_auth_record_token_key al db c auth_id) (\<lambda>ok.
                (case ok of
                   None \<Rightarrow> Inl ValueError
                 | Some key \<Rightarrow>
                     if key = [] then Inl ValueError
                     else bindE (get_collection_token_config c (lit ''fileToken'')) (\<lambda>(file_secret, duration).
                       bindE (str_add (PStr key) file_secret) (\<lambda>secret.
                       create_token al now
                         [(lit ''id'', PStr auth_id), (lit ''type'', PStr (lit ''authRecord'')),
                          (lit ''collectionId'', PStr (ac_id c)), (lit ''for'', PStr (lit ''file''))]
                         secret duration)))))))
      else Inl ValueError)"

definition verify_admin_file_token :: "auth_lib \<Rightarrow> int \<Rightarrow> auth_db \<Rightarrow> pystr \<Rightarrow> pystr \<Rightarrow> pyexn + pydict option" where
  "verify_admin_file_token al now db token token_id =
     bindE (select_row db SUPERUSERS (lit ''id'') (PStr token_id)) (\<lambda>r.
     (case r of
        None \<Rightarrow> Inr None
      | Some admin \<Rightarrow>
          (case get_superusers_collection db of
             None \<Rightarrow> Inr None
           | Some c \<Rightarrow>
               bindE (get_collection_token_config c (lit ''fileToken'')) (\<lambda>(file_secret, _).
               bindE (secret_key al (dict_get admin (lit ''token_key'')) file_secret) (\<lambda>secret.
               (case al_decode al token secret now of
                  None \<Rightarrow> Inr None
                | Some _ \<Rightarrow>
                    Inr (Some [(lit ''id'', dict_get admin (lit ''id'')), (lit ''email'', dict_get admin (lit ''email'')),
                               (lit ''type'', PStr (lit ''admin''))])))))))"

definition verify_record_file_token ::
  "auth_lib \<Rightarrow> int \<Rightarrow> auth_db \<Rightarrow> pystr \<Rightarrow> pystr \<Rightarrow> pystr \<Rightarrow> pyexn + pydict option" where
  "verify_record_file_token al now db token token_id cid =
     (if cid = [] then Inr None
      else bindE (collection_by_id db (PStr cid)) (\<lambda>oc.
        (case oc of
           None \<Rightarrow> Inr None
         | Some c \<Rightarrow>
             bindE (get_auth_record_token_key al db c token_id) (\<lambda>ok.
             (case ok of
                None \<Rightarrow> Inr None
              | Some key \<Rightarrow>
                  if key = [] then Inr None
                  else bindE (get_collection_token_config c (lit ''fileToken'')) (\<lambda>(file_secret, _).
                    bindE (str_add (PStr key) file_secret) (\<lambda>secret.
                    (case al_decode al token secret now of
                       None \<Rightarrow> Inr None
                     | Some _ \<Rightarrow>
                         Inr (Some [(lit ''id'', PStr token_id), (lit ''type'', PStr (lit ''authRecord'')),
                                    (lit ''collectionId'', PStr (ac_id c)), (lit ''collectionName'', PStr (ac_name c))])))))))))"

definition verify_file_token :: "auth_lib \<Rightarrow> int \<Rightarrow> auth_db \<Rightarrow> pystr \<Rightarrow> pyexn + pydict option" where
  "verify_file_token al now db token =
     (case al_peek al token of
        None \<Rightarrow> Inr None
      | Some unverified \<Rightarrow>
          if dict_get unverified (lit ''for'') \<noteq> PStr (lit ''file'') then Inr None
          else (let token_type = claim_str al unverified ''type''; token_id = claim_str al unverified ''id''
                in if token_type = [] \<or> token_id = [] then Inr None
                else if token_type = lit ''admin'' then verify_admin_file_token al now db token token_id
                else if token_type = lit ''authRecord''
                then verify_record_file_token al now db token token_id (claim_str al unverified ''collectionId'')
                else Inr None))"

section \<open>Request authentication\<close>

definition bearer :: "auth_lib \<Rightarrow> pystr \<Rightarrow> pystr" where
  "bearer al header =
     py_strip (if take 7 (rt_lower (al_rt al) header) = lit ''bearer '' then drop 7 header else header)"

definition authenticate_admin :: "auth_lib \<Rightarrow> int \<Rightarrow> pystr \<Rightarrow> auth_db \<Rightarrow> pystr \<Rightarrow> pyval \<Rightarrow> pyexn + pydict option" where
  "authenticate_admin al now jwt_secret db token token_id =
     bindE (select_row db SUPERUSERS (lit ''id'') token_id) (\<lambda>r.
     (case r of
        None \<Rightarrow> Inr None
      | Some admin \<Rightarrow>
          bindE (case get_superusers_collection db of
                   Some c \<Rightarrow> bindE (get_collection_token_config c (lit ''authToken'')) (\<lambda>(s, _). Inr s)
                 | None \<Rightarrow> Inr (PStr jwt_secret)) (\<lambda>auth_secret.
          bindE (str_add (dict_get admin (lit ''token_key'')) auth_secret) (\<lambda>secret.
          Inr (al_decode al token secret now)))))"

definition authenticate_record :: "auth_lib \<Rightarrow> int \<Rightarrow> auth_db \<Rightarrow> pystr \<Rightarrow> pyval \<Rightarrow> pyval \<Rightarrow> pyexn + pydict option" where
  "authenticate_record al now db token token_id cid =
     (if \<not> truthy cid then Inr None
      else bindE (collection_by_id db cid) (\<lambda>oc.
        (case oc of
           None \<Rightarrow> Inr None
         | Some c \<Rightarrow>
             bindE (select_column db (ac_name c) (lit ''token_key'') token_id) (\<lambda>ok.
             (case ok of
                None \<Rightarrow> Inr None
              | Some key \<Rightarrow>
                  bindE (get_collection_token_config c (lit ''authToken'')) (\<lambda>(auth_secret, _).
                  bindE (str_add key auth_secret) (\<lambda>secret.
                  Inr (map_option (\<lambda>payload. dict_put payload (lit ''type'') (PStr (lit ''authRecord'')))
                         (al_decode al token secret now)))))))))"

definition get_optional_auth :: "auth_lib \<Rightarrow> int \<Rightarrow> pystr \<Rightarrow> auth_db \<Rightarrow> pystr \<Rightarrow> pyexn + pydict option" where
  "get_optional_auth al now jwt_secret db header =
     (if header = [] then Inr None
      else (let token = bearer al header
            in if token = [] then Inr None
            else (case al_peek al token of
                    None \<Rightarrow> Inr None
                  | Some unverified \<Rightarrow>
                      (let token_type = normalize_auth_token_type (dict_get unverified (lit ''type''));
                           token_id = dict_get unverified (lit ''id'')
                       in if \<not> truthy token_id then Inr None
                       else if token_type = PStr (lit ''admin'') then authenticate_admin al now jwt_secret db token token_id
                       else if token_type = PStr (lit ''authRecord'')
                       then authenticate_record al now db token token_id (dict_get unverified (lit ''collectionId''))
                       else Inr None))))"

datatype http_error = HttpError nat

definition require_admin :: "pydict option \<Rightarrow> http_error + pydict" where
  "require_admin auth =
     (case auth of
        None \<Rightarrow> Inl (HttpError 401)
      | Some p \<Rightarrow>
          if dict_get p (lit ''type'') = PStr (lit ''admin'') then Inr p
          else if dict_get p (lit ''type'') = PStr (lit ''authRecord'') \<and> dict_get p (lit ''collectionName'') = PStr SUPERUSERS
          then Inr p else Inl (HttpError 401))"

definition require_auth :: "pydict option \<Rightarrow> http_error + pydict" where
  "require_auth auth = (case auth of None \<Rightarrow> Inl (HttpError 401) | Some p \<Rightarrow> Inr p)"

definition require_record_auth :: "pydict option \<Rightarrow> http_error + pydict" where
  "require_record_auth auth =
     (case auth of
        None \<Rightarrow> Inl (HttpError 401)
      | Some p \<Rightarrow> if dict_get p (lit ''type'') \<noteq> PStr (lit ''authRecord'') then Inl (HttpError 403) else Inr p)"

definition resolve_collection :: "auth_db \<Rightarrow> pystr \<Rightarrow> http_error + acoll" where
  "resolve_collection db key =
     (case find (\<lambda>c. ac_id c = key) (ad_collections db) of
        Some c \<Rightarrow> Inr c
      | None \<Rightarrow>
          (case find (\<lambda>c. ac_name c = key) (ad_collections db) of
             Some c \<Rightarrow> Inr c | None \<Rightarrow> Inl (HttpError 404)))"

section \<open>What the code relies on of the JWT library\<close>

text \<open>
  The claims the code issues: JSON scalars under distinct names, none of them a registered claim that PyJWT checks by itself.
\<close>

fun json_scalar :: "pyval \<Rightarrow> bool" where
  "json_scalar (PStr _) = True"
| "json_scalar (PInt _) = True"
| "json_scalar (PBool _) = True"
| "json_scalar PNone = True"
| "json_scalar _ = False"

definition registered_claims :: "pystr set" where
  "registered_claims = lit ` {''iss'', ''sub'', ''aud'', ''exp'', ''nbf'', ''iat'', ''jti''}"

definition issuable :: "pydict \<Rightarrow> bool" where
  "issuable p \<longleftrightarrow> distinct (map fst p) \<and> list_all (\<lambda>(k, v). k \<notin> registered_claims \<and> json_scalar v) p"

definition jwt_laws :: "auth_lib \<Rightarrow> bool" where
  "jwt_laws al \<longleftrightarrow>
     (\<forall>p t0 e k. issuable p \<longrightarrow> al_encode al (token_claims p t0 (PInt e)) k \<noteq> [] \<and>
        al_peek al (al_encode al (token_claims p t0 (PInt e)) k) = Some (token_claims p t0 (PInt e))) \<and>
     (\<forall>t k n c. al_decode al t k n = Some c \<longrightarrow> al_peek al t = Some c) \<and>
     (\<forall>t k k' n n' c c'. al_decode al t k n = Some c \<longrightarrow> al_decode al t k' n' = Some c' \<longrightarrow> k = k') \<and>
     (\<forall>p t0 d k k' n. issuable p \<longrightarrow> al_decode al (al_encode al (token_claims p t0 (PInt (t0 + d))) k) k' n =
        (if k = k' \<and> t0 \<le> n \<and> n < t0 + d then Some (token_claims p t0 (PInt (t0 + d))) else None))"

lemma jwt_lawsD:
  assumes "jwt_laws al"
  shows "issuable p \<Longrightarrow> al_encode al (token_claims p t0 (PInt e)) k \<noteq> []"
    "issuable p \<Longrightarrow> al_peek al (al_encode al (token_claims p t0 (PInt e)) k) = Some (token_claims p t0 (PInt e))"
    "al_decode al t k n = Some c \<Longrightarrow> al_peek al t = Some c"
    "issuable p \<Longrightarrow> al_decode al (al_encode al (token_claims p t0 (PInt (t0 + d))) k) k' n =
       (if k = k' \<and> t0 \<le> n \<and> n < t0 + d then Some (token_claims p t0 (PInt (t0 + d))) else None)"
    "al_decode al t k n = Some c \<Longrightarrow> al_decode al t k' n' = Some c' \<Longrightarrow> k = k'"
proof -
  note all = assms[unfolded jwt_laws_def]
  note laws = all[THEN conjunct1] all[THEN conjunct2, THEN conjunct1] all[THEN conjunct2, THEN conjunct2, THEN conjunct1]
    all[THEN conjunct2, THEN conjunct2, THEN conjunct2]
  show "issuable p \<Longrightarrow> al_encode al (token_claims p t0 (PInt e)) k \<noteq> []"
    and "issuable p \<Longrightarrow> al_peek al (al_encode al (token_claims p t0 (PInt e)) k) = Some (token_claims p t0 (PInt e))"
    using laws(1) by blast+
  show "al_decode al t k n = Some c \<Longrightarrow> al_peek al t = Some c" using laws(2) by blast
  show "issuable p \<Longrightarrow> al_decode al (al_encode al (token_claims p t0 (PInt (t0 + d))) k) k' n =
      (if k = k' \<and> t0 \<le> n \<and> n < t0 + d then Some (token_claims p t0 (PInt (t0 + d))) else None)"
    using laws(4)[rule_format, of p t0 d k k' n] by simp
  show "al_decode al t k n = Some c \<Longrightarrow> al_decode al t k' n' = Some c' \<Longrightarrow> k = k'" using laws(3) by blast
qed

lemma token_claims_get [simp]:
  "dict_get (token_claims p t0 e) k = (if k = lit ''exp'' then e else if k = lit ''iat'' then PInt t0 else dict_get p k)"
  by (simp add: token_claims_def)

lemma claim_str_token_claims [simp]:
  "k \<notin> {''exp'', ''iat''} \<Longrightarrow> claim_str al (token_claims p t0 e) k = claim_str al p k"
  by (simp add: claim_str_def token_claims_def dict_get_or_def)

lemma claim_str_text: "map_of d (lit k) = Some (PStr s) \<Longrightarrow> claim_str al d k = s"
  by (simp add: claim_str_def dict_get_or_def py_or_def)

lemma create_token_int: "create_token al t0 p k (PInt d) = Inr (al_encode al (token_claims p t0 (PInt (t0 + d))) k)"
  by (simp add: create_token_def time_add_def)

lemma case_option_fail [res_simps]: "(case x of None \<Rightarrow> Inl e | Some y \<Rightarrow> f y) = Inr z \<longleftrightarrow> (\<exists>y. x = Some y \<and> f y = Inr z)"
  by (cases x) auto

lemma str_add_iff: "str_add a b = Inr s \<longleftrightarrow> (\<exists>x y. a = PStr x \<and> b = PStr y \<and> s = x @ y)"
  by (auto simp: str_add_def split: pyval.splits)

lemma find_row_value: "find_row c v rows = Some r \<Longrightarrow> dict_get r c = v"
  by (auto simp: find_row_def find_Some_iff)

lemma select_row_value: "select_row db t c v = Inr (Some r) \<Longrightarrow> dict_get r c = v"
  by (auto simp: select_row_def split: option.splits if_splits pyval.splits dest: find_row_value)

lemma get_optional_auth_encoded:
  assumes "jwt_laws al" "bearer al header = al_encode al c k" "issuable p" "c = token_claims p t0 (PInt e)"
  shows "get_optional_auth al now jwt_secret db header =
     (if \<not> truthy (dict_get c (lit ''id'')) then Inr None
      else if normalize_auth_token_type (dict_get c (lit ''type'')) = PStr (lit ''admin'')
      then authenticate_admin al now jwt_secret db (al_encode al c k) (dict_get c (lit ''id''))
      else if normalize_auth_token_type (dict_get c (lit ''type'')) = PStr (lit ''authRecord'')
      then authenticate_record al now db (al_encode al c k) (dict_get c (lit ''id'')) (dict_get c (lit ''collectionId''))
      else Inr None)"
proof -
  have "bearer al [] = []" by (simp add: bearer_def)
  then have "header \<noteq> []" using assms(2,4) jwt_lawsD(1)[OF assms(1,3)] by auto
  then show ?thesis using assms(2,4) jwt_lawsD(1,2)[OF assms(1,3)] by (simp add: get_optional_auth_def)
qed

section \<open>File tokens are accepted for their lifetime, and only as file tokens\<close>

lemma superusers_member: "get_superusers_collection db = Some c \<Longrightarrow> c \<in> set (ad_collections db)"
  by (auto simp: get_superusers_collection_def find_Some_iff in_set_conv_nth)

lemma collection_by_id_member: "collection_by_id db v = Inr (Some c) \<Longrightarrow> c \<in> set (ad_collections db) \<and> v = PStr (ac_id c)"
  by (auto simp: collection_by_id_def find_Some_iff in_set_conv_nth split: pyval.splits)

definition file_payload :: "auth_lib \<Rightarrow> pydict \<Rightarrow> pydict" where
  "file_payload al auth =
     [(lit ''id'', PStr (claim_str al auth ''id'')), (lit ''type'', PStr (claim_str al auth ''type''))] @
     (if claim_str al auth ''type'' = lit ''admin'' then [] else [(lit ''collectionId'', PStr (claim_str al auth ''collectionId''))]) @
     [(lit ''for'', PStr (lit ''file''))]"

text \<open>The collection of an identity; its configuration gives the secret and the lifetime of the identity's file tokens.\<close>

definition identity_collection :: "auth_lib \<Rightarrow> auth_db \<Rightarrow> pydict \<Rightarrow> acoll option" where
  "identity_collection al db auth =
     (if claim_str al auth ''type'' = lit ''admin'' then get_superusers_collection db
      else find (\<lambda>c. ac_id c = claim_str al auth ''collectionId'') (ad_collections db))"

text \<open>The key that signs an identity's file tokens.\<close>

definition file_key :: "auth_lib \<Rightarrow> auth_db \<Rightarrow> pydict \<Rightarrow> acoll \<Rightarrow> pyval \<Rightarrow> pystr \<Rightarrow> bool" where
  "file_key al db auth c s secret \<longleftrightarrow>
     (if claim_str al auth ''type'' = lit ''admin'' then
        (\<exists>admin. select_row db SUPERUSERS (lit ''id'') (PStr (claim_str al auth ''id'')) = Inr (Some admin) \<and>
           get_superusers_collection db = Some c \<and> secret_key al (dict_get admin (lit ''token_key'')) s = Inr secret)
      else
        (\<exists>key. claim_str al auth ''collectionId'' \<noteq> [] \<and>
           collection_by_id db (PStr (claim_str al auth ''collectionId'')) = Inr (Some c) \<and>
           get_auth_record_token_key al db c (claim_str al auth ''id'') = Inr (Some key) \<and> key \<noteq> [] \<and>
           str_add (PStr key) s = Inr secret))"

lemma create_file_tokenD:
  assumes "create_file_token_for_auth al t0 db auth = Inr token"
    and "identity_collection al db auth = Some c" "get_collection_token_config c (lit ''fileToken'') = Inr (s, PInt d)"
  obtains secret where "token = al_encode al (token_claims (file_payload al auth) t0 (PInt (t0 + d))) secret"
    and "file_key al db auth c s secret" "claim_str al auth ''id'' \<noteq> []"
    and "claim_str al auth ''type'' \<in> {lit ''admin'', lit ''authRecord''}"
proof -
  consider (admin) admin secret where "claim_str al auth ''type'' = lit ''admin''" "claim_str al auth ''id'' \<noteq> []"
      "select_row db SUPERUSERS (lit ''id'') (PStr (claim_str al auth ''id'')) = Inr (Some admin)"
      "get_superusers_collection db = Some c" "secret_key al (dict_get admin (lit ''token_key'')) s = Inr secret"
      "create_token al t0 [(lit ''id'', dict_get admin (lit ''id'')), (lit ''type'', PStr (lit ''admin'')), (lit ''for'', PStr (lit ''file''))]
         secret (PInt d) = Inr token"
    | (rec) key secret where "claim_str al auth ''type'' = lit ''authRecord''" "claim_str al auth ''id'' \<noteq> []"
      "claim_str al auth ''collectionId'' \<noteq> []"
      "collection_by_id db (PStr (claim_str al auth ''collectionId'')) = Inr (Some c)"
      "get_auth_record_token_key al db c (claim_str al auth ''id'') = Inr (Some key)" "key \<noteq> []" "str_add (PStr key) s = Inr secret"
      "create_token al t0
         [(lit ''id'', PStr (claim_str al auth ''id'')), (lit ''type'', PStr (lit ''authRecord'')), (lit ''collectionId'', PStr (ac_id c)),
          (lit ''for'', PStr (lit ''file''))] secret (PInt d) = Inr token"
    using assms
    by (auto simp: create_file_token_for_auth_def Let_def res_simps identity_collection_def collection_by_id_def split: if_splits)
  then show thesis
  proof cases
    case admin
    have "file_key al db auth c s secret" using admin unfolding file_key_def by auto
    then show thesis
      using that[of secret] admin select_row_value[OF admin(3)] by (simp add: create_token_int file_payload_def)
  next
    case rec
    have "file_key al db auth c s secret" using rec unfolding file_key_def by auto
    then show thesis
      using that[of secret] rec collection_by_id_member[OF rec(4)] by (simp add: create_token_int file_payload_def)
  qed
qed

lemma file_payload_claims:
  assumes "claim_str al auth ''type'' \<in> {lit ''admin'', lit ''authRecord''}" "claim_str al auth ''id'' \<noteq> []"
  shows "claim_str al (file_payload al auth) ''type'' = claim_str al auth ''type''"
    and "claim_str al (file_payload al auth) ''id'' = claim_str al auth ''id''"
    and "dict_get (file_payload al auth) (lit ''for'') = PStr (lit ''file'')"
    and "claim_str al auth ''type'' = lit ''authRecord'' \<Longrightarrow> claim_str al auth ''collectionId'' \<noteq> [] \<Longrightarrow>
      claim_str al (file_payload al auth) ''collectionId'' = claim_str al auth ''collectionId''"
  using assms
  by (auto simp: file_payload_def dict_get_def claim_str_text)

lemma file_payload_issuable: "issuable (file_payload al auth)"
  by (auto simp: issuable_def file_payload_def registered_claims_def)

text \<open>The identity a file token of \<open>auth\<close> stands for: the superuser of that id with its address, or the record with its collection.\<close>

definition file_identity :: "auth_lib \<Rightarrow> auth_db \<Rightarrow> pydict \<Rightarrow> acoll \<Rightarrow> pydict \<Rightarrow> bool" where
  "file_identity al db auth c who \<longleftrightarrow>
     (if claim_str al auth ''type'' = lit ''admin'' then
        (\<exists>admin. select_row db SUPERUSERS (lit ''id'') (PStr (claim_str al auth ''id'')) = Inr (Some admin) \<and>
           who = [(lit ''id'', PStr (claim_str al auth ''id'')), (lit ''email'', dict_get admin (lit ''email'')), (lit ''type'', PStr (lit ''admin''))])
      else
        who = [(lit ''id'', PStr (claim_str al auth ''id'')), (lit ''type'', PStr (lit ''authRecord'')),
               (lit ''collectionId'', PStr (claim_str al auth ''collectionId'')), (lit ''collectionName'', PStr (ac_name c))])"

text \<open>
  C32: A file token made for an identity is accepted from the second it is issued until its lifetime is over and refused outside
  that window, and it is accepted as that identity: the superuser of its id, or the record with its collection's id and name.  The
  lifetime \<open>d\<close> is the one configured for the identity's collection.
\<close>

theorem file_token_window:
  assumes "jwt_laws al" "create_file_token_for_auth al t0 db auth = Inr token"
    and "identity_collection al db auth = Some c" "get_collection_token_config c (lit ''fileToken'') = Inr (s, PInt d)"
  shows "\<exists>who. file_identity al db auth c who \<and>
    verify_file_token al now db token = Inr (if t0 \<le> now \<and> now < t0 + d then Some who else None)"
proof -
  obtain secret where token: "token = al_encode al (token_claims (file_payload al auth) t0 (PInt (t0 + d))) secret"
    and key: "file_key al db auth c s secret" and id: "claim_str al auth ''id'' \<noteq> []"
    and ty: "claim_str al auth ''type'' \<in> {lit ''admin'', lit ''authRecord''}"
    by (rule create_file_tokenD[OF assms(2-4)])
  note laws = jwt_lawsD(2,4)[OF assms(1) file_payload_issuable] and claims = file_payload_claims[OF ty id]
  show ?thesis
  proof (cases "claim_str al auth ''type'' = lit ''admin''")
    case True
    obtain admin where k: "select_row db SUPERUSERS (lit ''id'') (PStr (claim_str al auth ''id'')) = Inr (Some admin)"
      "get_superusers_collection db = Some c" "secret_key al (dict_get admin (lit ''token_key'')) s = Inr secret"
      using key True unfolding file_key_def by auto
    have "verify_file_token al now db token = verify_admin_file_token al now db token (claim_str al auth ''id'')"
      using True id claims by (simp add: verify_file_token_def token laws)
    then show ?thesis
      using True k select_row_value[OF k(1)] assms(4)
      by (intro exI[of _ "[(lit ''id'', dict_get admin (lit ''id'')), (lit ''email'', dict_get admin (lit ''email'')), (lit ''type'', PStr (lit ''admin''))]"])
        (simp add: verify_admin_file_token_def token laws dict_get_def file_identity_def)
  next
    case False
    then have isrec: "claim_str al auth ''type'' = lit ''authRecord''" using ty by simp
    obtain key where k: "claim_str al auth ''collectionId'' \<noteq> []"
      "collection_by_id db (PStr (claim_str al auth ''collectionId'')) = Inr (Some c)"
      "get_auth_record_token_key al db c (claim_str al auth ''id'') = Inr (Some key)" "key \<noteq> []" "str_add (PStr key) s = Inr secret"
      using key False unfolding file_key_def by auto
    have "verify_file_token al now db token =
        verify_record_file_token al now db token (claim_str al auth ''id'') (claim_str al auth ''collectionId'')"
      using isrec id claims k(1) by (simp add: verify_file_token_def token laws)
    then show ?thesis
      using isrec k assms(4) collection_by_id_member[OF k(2)]
      by (intro exI[of _ "[(lit ''id'', PStr (claim_str al auth ''id'')), (lit ''type'', PStr (lit ''authRecord'')),
          (lit ''collectionId'', PStr (ac_id c)), (lit ''collectionName'', PStr (ac_name c))]"])
        (simp add: verify_record_file_token_def token laws dict_get_def file_identity_def)
  qed
qed

section \<open>Tokens of another purpose do not authenticate a request\<close>

lemma select_column_row:
  assumes "select_column db n c v = Inr (Some x)"
  obtains r where "select_row db n (lit ''id'') v = Inr (Some r)" "x = dict_get r c"
  using assms by (auto simp: select_column_def res_simps split: option.splits if_splits)

lemma file_token_not_admin:
  assumes "jwt_laws al" "file_key al db auth c s secret" "claim_str al auth ''type'' = lit ''admin''"
    and "\<And>s' v'. get_collection_token_config c (lit ''authToken'') = Inr (s', v') \<Longrightarrow> s' \<noteq> s"
    and "token = al_encode al (token_claims (file_payload al auth) t0 (PInt (t0 + d))) secret"
  shows "authenticate_admin al now jwt_secret db token (PStr (claim_str al auth ''id'')) \<noteq> Inr (Some q)"
proof
  assume acc: "authenticate_admin al now jwt_secret db token (PStr (claim_str al auth ''id'')) = Inr (Some q)"
  obtain admin where k: "select_row db SUPERUSERS (lit ''id'') (PStr (claim_str al auth ''id'')) = Inr (Some admin)"
    "get_superusers_collection db = Some c" "secret_key al (dict_get admin (lit ''token_key'')) s = Inr secret"
    using assms(2,3) unfolding file_key_def by auto
  obtain s' v' secret' where a: "get_collection_token_config c (lit ''authToken'') = Inr (s', v')"
    "str_add (dict_get admin (lit ''token_key'')) s' = Inr secret'" "al_decode al token secret' now = Some q"
    using acc k(1,2) by (auto simp: authenticate_admin_def res_simps)
  have "secret \<noteq> secret'" using a(2) k(3) assms(4)[OF a(1)] by (auto simp: secret_key_def str_add_iff)
  then show False using a(3) assms(5) jwt_lawsD(4)[OF assms(1) file_payload_issuable] by simp
qed

lemma file_token_not_record:
  assumes "jwt_laws al" "file_key al db auth c s secret" "claim_str al auth ''type'' = lit ''authRecord''"
    and "\<And>s' v'. get_collection_token_config c (lit ''authToken'') = Inr (s', v') \<Longrightarrow> s' \<noteq> s"
    and "token = al_encode al (token_claims (file_payload al auth) t0 (PInt (t0 + d))) secret"
  shows "authenticate_record al now db token (PStr (claim_str al auth ''id'')) (PStr (claim_str al auth ''collectionId'')) \<noteq> Inr (Some q)"
proof
  assume acc: "authenticate_record al now db token (PStr (claim_str al auth ''id'')) (PStr (claim_str al auth ''collectionId'')) = Inr (Some q)"
  obtain key where k: "collection_by_id db (PStr (claim_str al auth ''collectionId'')) = Inr (Some c)"
    "get_auth_record_token_key al db c (claim_str al auth ''id'') = Inr (Some key)" "str_add (PStr key) s = Inr secret"
    using assms(2,3) unfolding file_key_def by auto
  obtain key' s' v' secret' where a: "select_column db (ac_name c) (lit ''token_key'') (PStr (claim_str al auth ''id'')) = Inr (Some key')"
    "get_collection_token_config c (lit ''authToken'') = Inr (s', v')" "str_add key' s' = Inr secret'" "al_decode al token secret' now \<noteq> None"
    using acc k(1) by (auto simp: authenticate_record_def res_simps split: if_splits option.splits)
  have "secret \<noteq> secret'"
    using a(1,3) k(2,3) assms(4)[OF a(2)] by (auto simp: get_auth_record_token_key_def str_add_iff)
  then show False using a(4) assms(5) jwt_lawsD(4)[OF assms(1) file_payload_issuable] by simp
qed

text \<open>
  C8: A file token, presented in the \<open>Authorization\<close> header, never authenticates a request, whatever identity it was made for,
  as long as the file secret of that identity's collection is not also its auth secret (a whole number of seconds being configured
  as the token's lifetime).
\<close>

theorem file_token_not_auth:
  assumes "jwt_laws al" "create_file_token_for_auth al t0 db auth = Inr token" "bearer al header = token"
    and "identity_collection al db auth = Some c" "get_collection_token_config c (lit ''fileToken'') = Inr (s, PInt d)"
    and "\<And>s' v'. get_collection_token_config c (lit ''authToken'') = Inr (s', v') \<Longrightarrow> s' \<noteq> s"
  shows "get_optional_auth al now jwt_secret db header \<noteq> Inr (Some q)"
proof -
  obtain secret where token: "token = al_encode al (token_claims (file_payload al auth) t0 (PInt (t0 + d))) secret"
    and key: "file_key al db auth c s secret" and id: "claim_str al auth ''id'' \<noteq> []"
    and ty: "claim_str al auth ''type'' \<in> {lit ''admin'', lit ''authRecord''}"
    by (rule create_file_tokenD[OF assms(2,4,5)])
  have pay: "dict_get (file_payload al auth) (lit ''id'') = PStr (claim_str al auth ''id'')"
    "dict_get (file_payload al auth) (lit ''type'') = PStr (claim_str al auth ''type'')"
    "claim_str al auth ''type'' = lit ''authRecord'' \<Longrightarrow>
       dict_get (file_payload al auth) (lit ''collectionId'') = PStr (claim_str al auth ''collectionId'')"
    by (simp_all add: file_payload_def dict_get_def)
  note auth = get_optional_auth_encoded[OF assms(1) assms(3)[unfolded token] file_payload_issuable refl]
  from ty consider (admin) "claim_str al auth ''type'' = lit ''admin''" | (rec) "claim_str al auth ''type'' = lit ''authRecord''" by auto
  then show ?thesis
  proof cases
    case admin
    from file_token_not_admin[OF assms(1) key admin assms(6) token] id pay admin show ?thesis
      by (simp add: auth normalize_auth_token_type_def token)
  next
    case rec
    from file_token_not_record[OF assms(1) key rec assms(6) token] id pay rec show ?thesis
      by (simp add: auth normalize_auth_token_type_def token)
  qed
qed

text \<open>
  The purpose tokens of the mail flows (verification, password reset, email change) never authenticate a request, with no condition on
  the secrets.
\<close>

theorem purpose_token_not_auth:
  assumes "jwt_laws al" "create_purpose_token al t0 ty rid cid email new_email secret (PInt d) = Inr token"
    and "ty \<in> {''verification'', ''passwordReset'', ''emailChange''}" "bearer al header = token"
    and "json_scalar rid" "json_scalar email" "case new_email of None \<Rightarrow> True | Some e \<Rightarrow> json_scalar e"
  shows "get_optional_auth al now jwt_secret db header = Inr None"
proof -
  let ?p = "[(lit ''id'', rid), (lit ''collectionId'', PStr cid), (lit ''email'', email)] @
    (case new_email of None \<Rightarrow> [] | Some e \<Rightarrow> [(lit ''newEmail'', e)]) @ [(lit ''type'', PStr (lit ty))]"
  have "dict_get ?p (lit ''type'') = PStr (lit ty)" by (simp add: dict_get_def split: option.split)
  moreover have "bearer al header = al_encode al (token_claims ?p t0 (PInt (t0 + d))) secret"
    using assms(2,4) by (simp add: create_purpose_token_def create_token_int)
  moreover have "issuable ?p"
    using assms(5-7) by (cases new_email) (auto simp: issuable_def registered_claims_def)
  ultimately show ?thesis
    using assms(3) get_optional_auth_encoded[OF assms(1) _ _ refl, of header ?p] by (auto simp: normalize_auth_token_type_def)
qed

section \<open>Record tokens live and die with the record's key\<close>

definition record_payload :: "pystr \<Rightarrow> pystr \<Rightarrow> bool \<Rightarrow> pydict" where
  "record_payload rid cid refreshable =
     [(lit ''id'', PStr rid), (lit ''type'', PStr (lit ''authRecord'')), (lit ''collectionId'', PStr cid),
      (lit ''refreshable'', PBool refreshable)]"

lemma create_record_auth_token_int:
  assumes "map_of row (lit ''id'') = Some (PStr rid)" "map_of row (lit ''token_key'') = Some (PStr k)"
    and "get_collection_token_config c (lit ''authToken'') = Inr (PStr s, PInt d)" "1 \<le> d"
  shows "create_record_auth_token al t0 row c refreshable None =
     Inr (al_encode al (token_claims (record_payload rid (ac_id c) refreshable) t0 (PInt (t0 + d))) (k @ s))"
  using assms
  by (simp add: create_record_auth_token_def row_item_def str_add_def less_than_one_def create_token_int record_payload_def)

lemma record_token_accepted:
  assumes "jwt_laws al"
    and "map_of row (lit ''id'') = Some (PStr rid)" "map_of row (lit ''token_key'') = Some (PStr k)"
    and "get_collection_token_config c (lit ''authToken'') = Inr (PStr s, PInt d)" "1 \<le> d"
    and "create_record_auth_token al t0 row c refreshable None = Inr token" "bearer al header = token"
    and "rid \<noteq> []" "ac_id c \<noteq> []"
    and "collection_by_id db (PStr (ac_id c)) = Inr (Some c')"
    and "get_collection_token_config c' (lit ''authToken'') = Inr (PStr s', v')"
    and "select_column db (ac_name c') (lit ''token_key'') (PStr rid) = Inr (Some (PStr k'))"
  shows "get_optional_auth al now jwt_secret db header =
     Inr (if k @ s = k' @ s' \<and> t0 \<le> now \<and> now < t0 + d
          then Some (token_claims (record_payload rid (ac_id c) refreshable) t0 (PInt (t0 + d))) else None)"
proof -
  let ?c = "token_claims (record_payload rid (ac_id c) refreshable) t0 (PInt (t0 + d))"
  have hdr: "bearer al header = al_encode al ?c (k @ s)"
    using assms(6,7) create_record_auth_token_int[OF assms(2-5)] by simp
  have claims: "dict_get ?c (lit ''id'') = PStr rid" "dict_get ?c (lit ''type'') = PStr (lit ''authRecord'')"
    "dict_get ?c (lit ''collectionId'') = PStr (ac_id c)"
    by (simp_all add: record_payload_def dict_get_Cons)
  have ok: "issuable (record_payload rid (ac_id c) refreshable)"
    by (simp add: issuable_def record_payload_def registered_claims_def)
  have same: "dict_put ?c (lit ''type'') (PStr (lit ''authRecord'')) = ?c"
    by (simp add: dict_put_def token_claims_def record_payload_def)
  have "authenticate_record al now db (al_encode al ?c (k @ s)) (PStr rid) (PStr (ac_id c)) =
      Inr (map_option (\<lambda>payload. dict_put payload (lit ''type'') (PStr (lit ''authRecord'')))
        (al_decode al (al_encode al ?c (k @ s)) (k' @ s') now))"
    using assms(9-12) by (simp add: authenticate_record_def str_add_def)
  then show ?thesis
    using assms(8) claims same
    by (simp add: get_optional_auth_encoded[OF assms(1) hdr ok refl] normalize_auth_token_type_def jwt_lawsD(4)[OF assms(1) ok])
qed

text \<open>
  A record token is accepted exactly while its lifetime runs and the record and its collection still give the key that signed
  it; changing the record's \<open>token_key\<close> or the collection's secret revokes it at once.
\<close>

theorem record_token_accepted_iff:
  assumes "jwt_laws al"
    and "map_of row (lit ''id'') = Some (PStr rid)" "map_of row (lit ''token_key'') = Some (PStr k)"
    and "get_collection_token_config c (lit ''authToken'') = Inr (PStr s, PInt d)" "1 \<le> d"
    and "create_record_auth_token al t0 row c refreshable None = Inr token" "bearer al header = token"
    and "rid \<noteq> []" "ac_id c \<noteq> []"
    and "collection_by_id db (PStr (ac_id c)) = Inr (Some c')"
    and "get_collection_token_config c' (lit ''authToken'') = Inr (PStr s', v')"
    and "select_column db (ac_name c') (lit ''token_key'') (PStr rid) = Inr (Some (PStr k'))"
  shows "get_optional_auth al now jwt_secret db header =
     Inr (if k @ s = k' @ s' \<and> t0 \<le> now \<and> now < t0 + d
          then Some (token_claims (record_payload rid (ac_id c) refreshable) t0 (PInt (t0 + d))) else None)"
  by (rule record_token_accepted[OF assms])

section \<open>The collection's type is not checked\<close>

definition forged_claims :: "pystr \<Rightarrow> pystr \<Rightarrow> pydict" where
  "forged_claims rid cid =
     [(lit ''id'', PStr rid), (lit ''type'', PStr (lit ''authRecord'')), (lit ''collectionId'', PStr cid),
      (lit ''collectionName'', PStr SUPERUSERS)]"

text \<open>
  C35: Any collection whose table has a column \<open>token_key\<close> can sign request tokens: when it has no auth options (\<open>{}\<close>, as a collection is created, or null) the key is the column's
  text alone, so whoever writes that column can sign a token whose claims pass \<open>require_admin\<close>.
\<close>

theorem token_key_column_grants_superuser:
  assumes "jwt_laws al" "collection_by_id db (PStr (ac_id c)) = Inr (Some c)" "ac_options c \<in> {PDict [], PNone}"
    and "select_column db (ac_name c) (lit ''token_key'') (PStr rid) = Inr (Some (PStr k))" "rid \<noteq> []" "ac_id c \<noteq> []"
    and "bearer al header = al_encode al (token_claims (forged_claims rid (ac_id c)) t0 (PInt (t0 + d))) k" "t0 \<le> now" "now < t0 + d"
  shows "\<exists>p. get_optional_auth al now jwt_secret db header = Inr (Some p) \<and> require_admin (Some p) = Inr p"
proof -
  let ?c = "token_claims (forged_claims rid (ac_id c)) t0 (PInt (t0 + d))"
  have claims: "dict_get ?c (lit ''id'') = PStr rid" "dict_get ?c (lit ''type'') = PStr (lit ''authRecord'')"
    "dict_get ?c (lit ''collectionId'') = PStr (ac_id c)" "dict_get ?c (lit ''collectionName'') = PStr SUPERUSERS"
    by (simp_all add: forged_claims_def dict_get_Cons)
  have ok: "issuable (forged_claims rid (ac_id c))" by (simp add: issuable_def forged_claims_def registered_claims_def)
  have "get_collection_token_config c (lit ''authToken'') = Inr (PStr [], PInt (default_duration (lit ''authToken'')))"
    using assms(3) by (auto simp: get_collection_token_config_def py_or_def as_mapping_def dict_get_or_def)
  then have "authenticate_record al now db (al_encode al ?c k) (PStr rid) (PStr (ac_id c)) =
      Inr (Some (dict_put ?c (lit ''type'') (PStr (lit ''authRecord''))))"
    using assms(2,4,6,8,9) by (simp add: authenticate_record_def str_add_def jwt_lawsD(4)[OF assms(1) ok])
  then show ?thesis
    using assms(5) claims
    by (simp add: get_optional_auth_encoded[OF assms(1,7) ok refl] normalize_auth_token_type_def require_admin_def)
qed

section \<open>Witnesses\<close>

text \<open>A concrete library: a token is one code point that numbers the claims and the key.\<close>

instance pyfloat :: countable
  by countable_datatype

instance pydt :: countable
  by countable_datatype

instance pyval :: countable
  by countable_datatype

definition token_number :: "pydict \<times> pystr \<Rightarrow> nat" where
  "token_number = to_nat"

definition number_token :: "nat \<Rightarrow> pydict \<times> pystr" where
  "number_token = from_nat"

lemma number_token_inverse [simp]: "number_token (token_number x) = x"
  by (simp add: number_token_def token_number_def)

definition timely :: "pydict \<Rightarrow> int \<Rightarrow> bool" where
  "timely c now =
     (case (dict_get c (lit ''iat''), dict_get c (lit ''exp'')) of (PInt a, PInt b) \<Rightarrow> a \<le> now \<and> now < b | _ \<Rightarrow> False)"

definition sample_al :: auth_lib where
  "sample_al =
     \<lparr>al_rt = sample_rt,
      al_encode = (\<lambda>c k. [100000 + token_number (c, k)]),
      al_peek = (\<lambda>t. case t of [n] \<Rightarrow> Some (fst (number_token (n - 100000))) | _ \<Rightarrow> None),
      al_decode = (\<lambda>t k now. case t of
         [n] \<Rightarrow> if snd (number_token (n - 100000)) = k \<and> timely (fst (number_token (n - 100000))) now
                 then Some (fst (number_token (n - 100000))) else None
       | _ \<Rightarrow> None),
      al_checkpw = (\<lambda>plain hashed. plain = hashed), al_hashpw = id, al_float_add = (\<lambda>n f. f)\<rparr>"

lemma sample_decode:
  "al_decode sample_al t k now = Some c \<longleftrightarrow>
     (\<exists>n. t = [n] \<and> c = fst (number_token (n - 100000)) \<and> k = snd (number_token (n - 100000)) \<and> timely c now)"
  by (auto simp: sample_al_def split: list.splits if_splits)

lemma sample_encode_decode:
  "al_decode sample_al (al_encode sample_al c k) k' now = (if k = k' \<and> timely c now then Some c else None)"
  by (simp add: sample_al_def)

lemma sample_al_laws: "jwt_laws sample_al"
  unfolding jwt_laws_def sample_encode_decode
  by (auto simp: sample_decode timely_def) (auto simp: sample_al_def)

definition sample_users_coll :: acoll where
  "sample_users_coll =
     \<lparr>ac_id = lit ''c1'', ac_name = lit ''users'', ac_options = generate_default_auth_options False (\<lambda>i. lit ''secret'' @ [48 + i])\<rparr>"

definition sample_auth_db :: auth_db where
  "sample_auth_db =
     \<lparr>ad_collections = [sample_users_coll],
      ad_tables = [lit ''users'' \<mapsto>
        \<lparr>tb_columns = map lit [''id'', ''email'', ''token_key''],
         tb_rows = [[(lit ''id'', PStr (lit ''r1'')), (lit ''email'', PStr (lit ''a@b.c'')), (lit ''token_key'', PStr (lit ''key''))]]\<rparr>]\<rparr>"

definition sample_auth :: pydict where
  "sample_auth = [(lit ''type'', PStr (lit ''authRecord'')), (lit ''id'', PStr (lit ''r1'')), (lit ''collectionId'', PStr (lit ''c1''))]"

lemma sample_config [simp]:
  "get_collection_token_config sample_users_coll (lit ''fileToken'') = Inr (PStr (lit ''secret'' @ [52]), PInt 180)"
  "get_collection_token_config sample_users_coll (lit ''authToken'') = Inr (PStr (lit ''secret'' @ [48]), PInt 604800)"
  by (simp_all add: get_collection_token_config_def sample_users_coll_def generate_default_auth_options_def token_option_def
      as_mapping_def py_or_def dict_get_or_def)

lemma sample_coll_by_id: "collection_by_id sample_auth_db (PStr (lit ''c1'')) = Inr (Some sample_users_coll)"
  by (simp add: collection_by_id_def sample_auth_db_def sample_users_coll_def)

lemma sample_key_column: "select_column sample_auth_db (ac_name sample_users_coll) (lit ''token_key'') (PStr (lit ''r1'')) = Inr (Some (PStr (lit ''key'')))"
  by (simp add: select_column_def select_row_def find_row_def dict_get_Cons sample_auth_db_def sample_users_coll_def)

lemma sample_file_token:
  "create_file_token_for_auth sample_al 100 sample_auth_db sample_auth =
     Inr (al_encode sample_al (token_claims (file_payload sample_al sample_auth) 100 (PInt 280)) (lit ''key'' @ lit ''secret'' @ [52]))"
proof -
  have c: "claim_str sample_al sample_auth ''type'' = lit ''authRecord''" "claim_str sample_al sample_auth ''id'' = lit ''r1''"
    "claim_str sample_al sample_auth ''collectionId'' = lit ''c1''"
    by (rule claim_str_text, simp add: sample_auth_def)+
  have "ac_id sample_users_coll = lit ''c1''" by (simp add: sample_users_coll_def)
  then show ?thesis
    by (simp add: create_file_token_for_auth_def c sample_coll_by_id get_auth_record_token_key_def sample_key_column str_add_def
        create_token_int file_payload_def)
qed

lemma sample_identity: "identity_collection sample_al sample_auth_db sample_auth = Some sample_users_coll"
proof -
  have "claim_str sample_al sample_auth ''type'' = lit ''authRecord''" "claim_str sample_al sample_auth ''collectionId'' = lit ''c1''"
    by (rule claim_str_text, simp add: sample_auth_def)+
  then show ?thesis by (simp add: identity_collection_def sample_auth_db_def sample_users_coll_def)
qed

theorem file_token_window_witness:
  "verify_file_token sample_al 200 sample_auth_db
       (al_encode sample_al (token_claims (file_payload sample_al sample_auth) 100 (PInt 280)) (lit ''key'' @ lit ''secret'' @ [52])) =
     Inr (Some [(lit ''id'', PStr (lit ''r1'')), (lit ''type'', PStr (lit ''authRecord'')), (lit ''collectionId'', PStr (lit ''c1'')),
       (lit ''collectionName'', PStr (lit ''users''))])"
proof -
  have c: "claim_str sample_al sample_auth ''type'' = lit ''authRecord''" "claim_str sample_al sample_auth ''id'' = lit ''r1''"
    "claim_str sample_al sample_auth ''collectionId'' = lit ''c1''"
    by (rule claim_str_text, simp add: sample_auth_def)+
  have "ac_name sample_users_coll = lit ''users''" by (simp add: sample_users_coll_def)
  with file_token_window[OF sample_al_laws sample_file_token sample_identity sample_config(1), of 200] c show ?thesis
    by (auto simp: file_identity_def)
qed

lemma sample_bearer: "bearer sample_al (al_encode sample_al c k) = al_encode sample_al c k"
proof -
  have "take 7 (rt_lower sample_rt [100000 + n]) \<noteq> lit ''bearer ''" for n
    by (rule notI, drule arg_cong[where f = length]) (simp add: sample_rt_def)
  then show ?thesis by (simp add: bearer_def sample_al_def py_strip_def is_space_def)
qed

theorem file_token_not_auth_witness:
  "\<nexists>q. get_optional_auth sample_al 200 (lit ''app'') sample_auth_db
     (al_encode sample_al (token_claims (file_payload sample_al sample_auth) 100 (PInt 280)) (lit ''key'' @ lit ''secret'' @ [52])) = Inr (Some q)"
proof -
  have "s' \<noteq> PStr (lit ''secret'' @ [52])" if "get_collection_token_config sample_users_coll (lit ''authToken'') = Inr (s', v')" for s' v'
    using that by auto
  then show ?thesis
    using file_token_not_auth[OF sample_al_laws sample_file_token sample_bearer sample_identity sample_config(1), of 200 "lit ''app''"] by blast
qed

theorem purpose_token_not_auth_witness:
  "get_optional_auth sample_al 200 (lit ''app'') sample_auth_db
     (al_encode sample_al (token_claims
        [(lit ''id'', PStr (lit ''r1'')), (lit ''collectionId'', PStr (lit ''c1'')), (lit ''email'', PStr (lit ''a@b.c'')),
         (lit ''type'', PStr (lit ''passwordReset''))] 100 (PInt 1900)) (lit ''key'')) = Inr None"
  by (rule purpose_token_not_auth[OF sample_al_laws _ _ sample_bearer,
        where ty = "''passwordReset''" and rid = "PStr (lit ''r1'')" and cid = "lit ''c1''" and email = "PStr (lit ''a@b.c'')"
          and new_email = None and secret = "lit ''key''" and ?t0.0 = 100 and d = 1800])
    (simp_all add: create_purpose_token_def create_token_int)

abbreviation sample_row :: pydict where
  "sample_row \<equiv> [(lit ''id'', PStr (lit ''r1'')), (lit ''token_key'', PStr (lit ''key''))]"

text \<open>The token of an earlier key is refused.\<close>

theorem record_token_accepted_iff_witness:
  "get_optional_auth sample_al 200 (lit ''app'') sample_auth_db
     (al_encode sample_al (token_claims (record_payload (lit ''r1'') (lit ''c1'') True) 100 (PInt 604900)) (lit ''old'' @ lit ''secret'' @ [48])) = Inr None"
proof -
  have cid: "ac_id sample_users_coll = lit ''c1''" by (simp add: sample_users_coll_def)
  let ?row = "[(lit ''id'', PStr (lit ''r1'')), (lit ''token_key'', PStr (lit ''old''))]"
  have tok: "create_record_auth_token sample_al 100 ?row sample_users_coll True None =
      Inr (al_encode sample_al (token_claims (record_payload (lit ''r1'') (lit ''c1'') True) 100 (PInt (100 + 604800))) (lit ''old'' @ lit ''secret'' @ [48]))"
    using create_record_auth_token_int[of ?row "lit ''r1''" "lit ''old''" sample_users_coll "lit ''secret'' @ [48]" 604800] cid by simp
  show ?thesis
    using record_token_accepted_iff[OF sample_al_laws, of ?row "lit ''r1''" "lit ''old''" sample_users_coll "lit ''secret'' @ [48]" 604800 100 True,
        OF _ _ _ _ tok sample_bearer _ _ _ sample_config(2) sample_key_column, of 200 "lit ''app''"] cid sample_coll_by_id
    by simp
qed

definition sample_notes :: acoll where
  "sample_notes = \<lparr>ac_id = lit ''c2'', ac_name = lit ''notes'', ac_options = PDict []\<rparr>"

definition sample_notes_db :: auth_db where
  "sample_notes_db =
     \<lparr>ad_collections = [sample_notes],
      ad_tables = [lit ''notes'' \<mapsto> \<lparr>tb_columns = map lit [''id'', ''token_key''], tb_rows = [sample_row]\<rparr>]\<rparr>"

theorem token_key_column_grants_superuser_witness:
  "\<exists>p. get_optional_auth sample_al 200 (lit ''app'') sample_notes_db
       (al_encode sample_al (token_claims (forged_claims (lit ''r1'') (lit ''c2'')) 100 (PInt (100 + 1000))) (lit ''key'')) = Inr (Some p) \<and>
     require_admin (Some p) = Inr p"
proof -
  have cid: "ac_id sample_notes = lit ''c2''" by (simp add: sample_notes_def)
  show ?thesis
    by (rule token_key_column_grants_superuser[OF sample_al_laws, where c = sample_notes and rid = "lit ''r1''" and k = "lit ''key''" and ?t0.0 = 100 and d = 1000, unfolded cid])
      (simp_all add: sample_bearer, simp_all add: collection_by_id_def select_column_def select_row_def find_row_def dict_get_Cons
        sample_notes_db_def sample_notes_def)
qed

end
