(* ===== verification/Record_Response.thy ===== *)
theory Record_Response
  imports Access_Control
begin

text \<open>
  Model of the record responses of \<open>ppbase/models/record.py\<close> and of the relation expansion of
  \<open>ppbase/services/expand_service.py\<close>.

  A row, a response and a field definition are dicts.  Field names are text, as the collection validation ensures; another name raises
  \<open>TypeError\<close> here.  The database of the expansion is a function from table names to rows, \<open>None\<close> for a failing query.

  The expansion mutates the response dicts in place and may attach one dict to several parents.  All parents of one batch
  hold equal copies of it and every later step treats equal copies alike, so the model returns the updated list of
  records instead of using a store.
\<close>

section \<open>Values\<close>

definition format_datetime :: "py_runtime \<Rightarrow> pyval \<Rightarrow> pyexn + pystr" where
  "format_datetime rt v =
     (case v of
        PNone \<Rightarrow> Inr []
      | PStr s \<Rightarrow> Inr s
      | PDatetime d \<Rightarrow> Inr (rt_strftime rt d)
      | _ \<Rightarrow> Inl AttributeError)"

text \<open>Datetimes become text, and a float equal to its integer part that integer; \<open>int\<close> of NaN or an infinity raises.\<close>

definition response_value :: "py_runtime \<Rightarrow> pyval \<Rightarrow> pyexn + pyval" where
  "response_value rt v =
     (case v of
        PDatetime d \<Rightarrow> bindE (format_datetime rt v) (\<lambda>s. Inr (PStr s))
      | PFloat f \<Rightarrow> bindE (py_int rt v) (\<lambda>n. Inr (if f = FFin (of_int n) then PInt n else v))
      | _ \<Rightarrow> Inr v)"

definition AUTH_HIDDEN_COLUMNS :: "pystr list" where
  "AUTH_HIDDEN_COLUMNS = map lit [''password_hash'', ''token_key'']"

definition AUTH_COLUMN_MAP :: "(pystr \<times> pystr) list" where
  "AUTH_COLUMN_MAP = [(lit ''email_visibility'', lit ''emailVisibility'')]"

definition is_superuser_auth :: "pydict option \<Rightarrow> bool" where
  "is_superuser_auth auth =
     (case auth of
        None \<Rightarrow> False
      | Some p \<Rightarrow> dict_get p (lit ''type'') = PStr (lit ''admin'') \<or> dict_get p (lit ''collectionName'') = PStr (lit ''_superusers''))"

section \<open>Building a response\<close>

record response_options =
  ro_fields_filter :: "pystr list option"
  ro_hidden :: "pystr list"
  ro_is_auth :: bool
  ro_is_view :: bool
  ro_request_auth :: "pydict option"
  ro_apply_visibility :: bool

definition or_text :: "py_runtime \<Rightarrow> pydict \<Rightarrow> string \<Rightarrow> pystr" where
  "or_text rt d k = py_str rt (py_or (dict_get_or d (lit k) (PStr [])) (PStr []))"

definition can_view_auth_email :: "py_runtime \<Rightarrow> response_options \<Rightarrow> pydict \<Rightarrow> pystr \<Rightarrow> pystr \<Rightarrow> bool" where
  "can_view_auth_email rt ro row cid cname =
     (if \<not> ro_apply_visibility ro then True
      else if truthy (dict_get_or row (lit ''email_visibility'') (PBool False)) then True
      else (case ro_request_auth ro of
              None \<Rightarrow> False
            | Some auth \<Rightarrow>
                if auth = [] then False
                else if dict_get auth (lit ''type'') = PStr (lit ''admin'') then True
                else if dict_get auth (lit ''type'') \<noteq> PStr (lit ''authRecord'') then False
                else if or_text rt auth ''id'' \<noteq> or_text rt row ''id'' then False
                else or_text rt auth ''collectionId'' = cid \<or> or_text rt auth ''collectionName'' = cname))"

text \<open>A hidden field is left out unless it is asked for by name and, through the API, by a superuser.\<close>

definition skip_hidden :: "response_options \<Rightarrow> pystr \<Rightarrow> bool" where
  "skip_hidden ro fname \<longleftrightarrow>
     fname \<in> set (ro_hidden ro) \<and>
     (case ro_fields_filter ro of
        None \<Rightarrow> True
      | Some ff \<Rightarrow> fname \<notin> set ff \<or> (ro_apply_visibility ro \<and> \<not> is_superuser_auth (ro_request_auth ro)))"

fun add_schema_fields :: "py_runtime \<Rightarrow> response_options \<Rightarrow> pydict \<Rightarrow> pydict list \<Rightarrow> pydict \<Rightarrow> pyexn + pydict" where
  "add_schema_fields rt ro row [] result = Inr result"
| "add_schema_fields rt ro row (fd # schema) result =
     (let name = dict_get_or fd (lit ''name'') (PStr [])
      in if \<not> truthy name then add_schema_fields rt ro row schema result
      else (case name of
              PStr fname \<Rightarrow>
                if skip_hidden ro fname \<or> dict_get fd (lit ''type'') = PStr (lit ''password'')
                then add_schema_fields rt ro row schema result
                else bindE (response_value rt (dict_get row fname)) (\<lambda>v.
                  add_schema_fields rt ro row schema (dict_put result fname v))
            | _ \<Rightarrow> Inl TypeError))"

definition output_key :: "pystr \<Rightarrow> pystr" where
  "output_key k = (case map_of AUTH_COLUMN_MAP k of None \<Rightarrow> k | Some k' \<Rightarrow> k')"

fun add_view_columns :: "py_runtime \<Rightarrow> pydict \<Rightarrow> pydict \<Rightarrow> pyexn + pydict" where
  "add_view_columns rt [] result = Inr result"
| "add_view_columns rt ((key, v) # row) result =
     (if key \<in> {lit ''id'', lit ''created'', lit ''updated''} \<or> key \<in> set AUTH_HIDDEN_COLUMNS then add_view_columns rt row result
      else bindE (response_value rt v) (\<lambda>v'. add_view_columns rt row (dict_put result (output_key key) v')))"

definition system_fields :: "py_runtime \<Rightarrow> pydict \<Rightarrow> pystr \<Rightarrow> pystr \<Rightarrow> pyexn + pydict" where
  "system_fields rt row cid cname =
     bindE (format_datetime rt (dict_get row (lit ''created''))) (\<lambda>created.
     bindE (format_datetime rt (dict_get row (lit ''updated''))) (\<lambda>updated.
     Inr [(lit ''id'', dict_get_or row (lit ''id'') (PStr [])), (lit ''collectionId'', PStr cid), (lit ''collectionName'', PStr cname),
          (lit ''created'', PStr created), (lit ''updated'', PStr updated)]))"

definition auth_fields :: "py_runtime \<Rightarrow> response_options \<Rightarrow> pydict \<Rightarrow> pystr \<Rightarrow> pystr \<Rightarrow> pydict \<Rightarrow> pydict" where
  "auth_fields rt ro row cid cname result =
     (if \<not> ro_is_auth ro then result
      else (let r1 = (if can_view_auth_email rt ro row cid cname
                      then dict_put result (lit ''email'') (dict_get_or row (lit ''email'') (PStr [])) else result)
            in dict_put (dict_put r1 (lit ''emailVisibility'') (dict_get_or row (lit ''email_visibility'') (PBool False)))
                 (lit ''verified'') (dict_get_or row (lit ''verified'') (PBool False))))"

definition strip_auth_columns :: "pydict \<Rightarrow> pydict" where
  "strip_auth_columns result =
     fold (\<lambda>(snake, camel) r. if snake \<in> fst ` set r \<and> camel \<in> fst ` set r then AList.delete snake r else r) AUTH_COLUMN_MAP
       (fold AList.delete AUTH_HIDDEN_COLUMNS result)"

definition apply_filter :: "pystr list option \<Rightarrow> pydict \<Rightarrow> pydict" where
  "apply_filter ff result =
     (case ff of
        None \<Rightarrow> result
      | Some fs \<Rightarrow>
          if fs = [] \<or> lit ''*'' \<in> set fs then result
          else map (\<lambda>k. (k, dict_get result k)) (filter (\<lambda>k. k \<in> fst ` set result) (remdups fs)))"

definition build_record_response ::
  "py_runtime \<Rightarrow> response_options \<Rightarrow> pydict \<Rightarrow> pystr \<Rightarrow> pystr \<Rightarrow> pydict list \<Rightarrow> pyexn + pydict" where
  "build_record_response rt ro row cid cname schema =
     bindE (system_fields rt row cid cname) (\<lambda>r0.
     (let r1 = auth_fields rt ro row cid cname r0
      in bindE (if schema \<noteq> [] then add_schema_fields rt ro row schema r1
                else if ro_is_view ro then add_view_columns rt row r1 else Inr r1) (\<lambda>r2.
         Inr (apply_filter (ro_fields_filter ro) (strip_auth_columns r2)))))"

text \<open>\<open>max(1, math.ceil(total_items / per_page))\<close>; the quotient is exact for totals below \<open>2 ^ 53\<close>.\<close>

definition total_pages :: "int \<Rightarrow> int \<Rightarrow> int" where
  "total_pages per_page total_items =
     (if total_items < 0 then - 1 else if per_page \<le> 0 then 0 else max 1 (- ((- total_items) div per_page)))"

definition build_list_response :: "pyval list \<Rightarrow> int \<Rightarrow> int \<Rightarrow> int \<Rightarrow> pydict" where
  "build_list_response items page per_page total_items =
     [(lit ''page'', PInt page), (lit ''perPage'', PInt per_page), (lit ''totalItems'', PInt total_items),
      (lit ''totalPages'', PInt (total_pages per_page total_items)), (lit ''items'', PList items)]"

lemma total_pages_correct:
  assumes "0 \<le> total_items" "0 < per_page"
  shows "1 \<le> total_pages per_page total_items \<and> total_items \<le> total_pages per_page total_items * per_page \<and>
     (total_pages per_page total_items = 1 \<or> (total_pages per_page total_items - 1) * per_page < total_items)"
proof -
  define q where "q = - ((- total_items) div per_page)"
  have "0 \<le> (- total_items) mod per_page" "(- total_items) mod per_page < per_page" using assms(2) by simp_all
  moreover have "(- total_items) mod per_page = - total_items + q * per_page"
    using minus_mult_div_eq_mod[of "- total_items" per_page] by (simp add: q_def algebra_simps)
  ultimately have q: "total_items \<le> q * per_page" "(q - 1) * per_page < total_items"
    by (simp_all add: left_diff_distrib)
  have "total_pages per_page total_items = max 1 q" using assms by (simp add: total_pages_def q_def)
  moreover have "total_items \<le> per_page" if "q \<le> 1" using q(1) mult_right_mono[OF that, of per_page] assms(2) by linarith
  ultimately show ?thesis using q by (cases "q \<le> 1") (auto simp: max_def)
qed

section \<open>Expansion\<close>

definition MAX_EXPAND_DEPTH :: nat where
  "MAX_EXPAND_DEPTH = 6"

definition collection_type :: "py_runtime \<Rightarrow> coll \<Rightarrow> pystr" where
  "collection_type rt c = rt_lower rt (py_strip (if co_type c = [] then lit ''base'' else co_type c))"

definition parse_expand_string :: "pystr \<Rightarrow> pystr list list" where
  "parse_expand_string s =
     (if py_strip s = [] then []
      else map (\<lambda>part. take MAX_EXPAND_DEPTH (split_on 46 part)) (filter (\<lambda>p. p \<noteq> []) (map py_strip (split_on 44 s))))"

definition find_collection_by_id :: "pyval \<Rightarrow> coll list \<Rightarrow> coll option" where
  "find_collection_by_id v cs = find (\<lambda>c. PStr (co_id c) = v) cs"

definition get_relation_field :: "coll \<Rightarrow> pystr \<Rightarrow> pydict option" where
  "get_relation_field c name =
     find (\<lambda>f. dict_get f (lit ''name'') = PStr name \<and> dict_get f (lit ''type'') = PStr (lit ''relation'')) (co_schema c)"

type_synonym row_source = "pystr \<Rightarrow> pydict list option"

definition batch_fetch_records :: "row_source \<Rightarrow> coll \<Rightarrow> pystr list \<Rightarrow> pyexn + (pystr \<times> pydict) list" where
  "batch_fetch_records db c ids =
     (if ids = [] then Inr []
      else (case db (co_name c) of
              None \<Rightarrow> Inl DatabaseError
            | Some rows \<Rightarrow>
                Inr (concat (map (\<lambda>r. case dict_get r (lit ''id'') of PStr i \<Rightarrow> (if i \<in> set ids then [(i, r)] else []) | _ \<Rightarrow> []) rows))))"

text \<open>The identifiers a record holds in a relation field.\<close>

definition relation_ids :: "py_runtime \<Rightarrow> pystr \<Rightarrow> pydict \<Rightarrow> pystr list" where
  "relation_ids rt field rcd =
     (case dict_get rcd field of
        PNone \<Rightarrow> []
      | PList vs \<Rightarrow> map (py_str rt) (filter truthy vs)
      | v \<Rightarrow> if truthy v then [py_str rt v] else [])"

definition hidden_of :: "pydict list \<Rightarrow> pystr list" where
  "hidden_of schema =
     concat (map (\<lambda>f. if truthy (dict_get_or f (lit ''hidden'') (PBool False)) \<or> dict_get f (lit ''type'') = PStr (lit ''password'')
        then (case dict_get_or f (lit ''name'') (PStr []) of PStr n \<Rightarrow> [n] | _ \<Rightarrow> []) else []) schema)"

definition expand_options :: "py_runtime \<Rightarrow> coll \<Rightarrow> pydict option \<Rightarrow> response_options" where
  "expand_options rt target ctx =
     \<lparr>ro_fields_filter = None, ro_hidden = hidden_of (co_schema target),
      ro_is_auth = (collection_type rt target = lit ''auth''), ro_is_view = (collection_type rt target = lit ''view''),
      ro_request_auth = (case ctx of None \<Rightarrow> None | Some d \<Rightarrow> (case dict_get d (lit ''auth'') of PDict a \<Rightarrow> Some a | _ \<Rightarrow> None)),
      ro_apply_visibility = (ctx \<noteq> None)\<rparr>"

definition related_responses ::
  "py_runtime \<Rightarrow> coll \<Rightarrow> pydict option \<Rightarrow> (pystr \<times> pydict) list \<Rightarrow> pyexn + (pystr \<times> pydict) list" where
  "related_responses rt target ctx rows =
     mapE (\<lambda>(i, row). bindE (build_record_response rt (expand_options rt target ctx) row (co_id target) (co_name target) (co_schema target))
       (\<lambda>r. Inr (i, r))) rows"

definition as_items :: "pyval \<Rightarrow> pyval list" where
  "as_items v = (case v of PList vs \<Rightarrow> vs | _ \<Rightarrow> [v])"

text \<open>\<open>previous_by_id\<close>: of two items with one id the later wins.\<close>

definition previous_by_id :: "py_runtime \<Rightarrow> pyval \<Rightarrow> (pystr \<times> pydict) list" where
  "previous_by_id rt v =
     rev (concat (map (\<lambda>item. case item of PDict d \<Rightarrow> [(py_str rt (dict_get d (lit ''id'')), d)] | _ \<Rightarrow> []) (as_items v)))"

definition expand_dict :: "pydict \<Rightarrow> pydict" where
  "expand_dict rcd = (case dict_get_or rcd (lit ''expand'') (PDict []) of PDict d \<Rightarrow> d | _ \<Rightarrow> [])"

definition attach_value ::
  "py_runtime \<Rightarrow> pystr \<Rightarrow> bool \<Rightarrow> (pystr \<times> pydict) list \<Rightarrow> pydict \<Rightarrow> pyval option" where
  "attach_value rt field is_multi related rcd =
     (let v = dict_get rcd field;
          previous = previous_by_id rt (dict_get (expand_dict rcd) field);
          pick = (\<lambda>i. case map_of related i of
                        None \<Rightarrow> []
                      | Some r \<Rightarrow> [PDict (case map_of previous i of Some p \<Rightarrow> p | None \<Rightarrow> r)])
      in if is_multi then (case v of
             PList vs \<Rightarrow> (let xs = concat (map (\<lambda>x. pick (py_str rt x)) vs) in if xs = [] then None else Some (PList xs))
           | _ \<Rightarrow> None)
         else (case pick (if truthy v then py_str rt v else []) of [] \<Rightarrow> None | x # _ \<Rightarrow> Some x))"

definition attach :: "py_runtime \<Rightarrow> pystr \<Rightarrow> bool \<Rightarrow> (pystr \<times> pydict) list \<Rightarrow> pydict \<Rightarrow> pydict" where
  "attach rt field is_multi related rcd =
     (let e = expand_dict rcd
      in dict_put rcd (lit ''expand'')
           (PDict (if dict_get rcd field = PNone then e
                   else (case attach_value rt field is_multi related rcd of None \<Rightarrow> e | Some v \<Rightarrow> dict_put e field v))))"

text \<open>The nested records of one parent, and the parent with its nested records replaced.\<close>

definition nested :: "pystr \<Rightarrow> pydict \<Rightarrow> pydict list" where
  "nested field rcd =
     (case dict_get (expand_dict rcd) field of
        PList xs \<Rightarrow> concat (map (\<lambda>x. case x of PDict d \<Rightarrow> [d] | _ \<Rightarrow> []) xs)
      | PDict d \<Rightarrow> [d]
      | _ \<Rightarrow> [])"

definition put_nested :: "pystr \<Rightarrow> pydict list \<Rightarrow> pydict \<Rightarrow> pydict" where
  "put_nested field ds rcd =
     (case dict_get (expand_dict rcd) field of
        PList xs \<Rightarrow> dict_put rcd (lit ''expand'') (PDict (dict_put (expand_dict rcd) field (PList (map PDict ds))))
      | PDict d \<Rightarrow>
          (case ds of [] \<Rightarrow> rcd | d' # _ \<Rightarrow> dict_put rcd (lit ''expand'') (PDict (dict_put (expand_dict rcd) field (PDict d'))))
      | _ \<Rightarrow> rcd)"

fun distribute :: "pystr \<Rightarrow> pydict list \<Rightarrow> pydict list \<Rightarrow> pydict list" where
  "distribute field [] ds = []"
| "distribute field (r # rs) ds =
     (let n = length (nested field r) in put_nested field (take n ds) r # distribute field rs (drop n ds))"

text \<open>\<open>opts.get("maxSelect", 1) or 1\<close> compared with one.\<close>

definition multi_select :: "pydict \<Rightarrow> pyexn + bool" where
  "multi_select opts =
     (case py_or (dict_get_or opts (lit ''maxSelect'') (PInt 1)) (PInt 1) of
        PInt n \<Rightarrow> Inr (n > 1)
      | PBool b \<Rightarrow> Inr False
      | PFloat f \<Rightarrow> Inr (flt_less (FFin 1) f)
      | _ \<Rightarrow> Inl TypeError)"

text \<open>A field called \<open>expand\<close> whose value is not a dict makes the lookups in \<open>record["expand"]\<close> fail.\<close>

definition expand_clash :: "pystr \<Rightarrow> pystr list \<Rightarrow> pydict \<Rightarrow> bool" where
  "expand_clash field remaining rcd =
     (case dict_get_or rcd (lit ''expand'') (PDict []) of
        PDict _ \<Rightarrow> False | _ \<Rightarrow> dict_get rcd field \<noteq> PNone \<or> remaining \<noteq> [])"

fun expand_path ::
  "py_runtime \<Rightarrow> row_source \<Rightarrow> coll list \<Rightarrow> pydict option \<Rightarrow> coll \<Rightarrow> pydict list \<Rightarrow> nat \<Rightarrow> pystr list \<Rightarrow> pyexn + pydict list" where
  "expand_path rt db cs ctx c records depth [] = Inr records"
| "expand_path rt db cs ctx c records depth (field # remaining) =
     (if depth \<ge> MAX_EXPAND_DEPTH then Inr records
      else (case get_relation_field c field of
              None \<Rightarrow> Inr records
            | Some rel \<Rightarrow>
                (case dict_get_or rel (lit ''options'') (PDict []) of
                   PDict opts \<Rightarrow>
                     bindE (multi_select opts) (\<lambda>is_multi.
                     (case find_collection_by_id (dict_get_or opts (lit ''collectionId'') (PStr [])) cs of
                        None \<Rightarrow> Inr records
                      | Some target \<Rightarrow>
                          (let ids = remdups (concat (map (relation_ids rt field) records))
                           in if ids = [] then Inr records
                           else bindE (batch_fetch_records db target ids) (\<lambda>rows.
                             bindE (related_responses rt target ctx rows) (\<lambda>related.
                             if list_ex (expand_clash field remaining) records then Inl AttributeError
                             else (let attached = map (attach rt field is_multi related) records;
                                  ds = concat (map (nested field) attached)
                              in if remaining = [] \<or> ds = [] then Inr attached
                              else bindE (expand_path rt db cs ctx target ds (Suc depth) remaining) (\<lambda>ds'.
                                Inr (distribute field attached ds'))))))))
                 | _ \<Rightarrow> Inl AttributeError)))"

fun expand_paths ::
  "py_runtime \<Rightarrow> row_source \<Rightarrow> coll list \<Rightarrow> pydict option \<Rightarrow> coll \<Rightarrow> pystr list list \<Rightarrow> pydict list \<Rightarrow> pyexn + pydict list" where
  "expand_paths rt db cs ctx c [] records = Inr records"
| "expand_paths rt db cs ctx c (p # ps) records =
     bindE (expand_path rt db cs ctx c records 0 p) (expand_paths rt db cs ctx c ps)"

definition expand_records ::
  "py_runtime \<Rightarrow> row_source \<Rightarrow> coll list \<Rightarrow> pydict option \<Rightarrow> coll \<Rightarrow> pydict list \<Rightarrow> pystr \<Rightarrow> pyexn + pydict list" where
  "expand_records rt db cs ctx c records expand_str =
     (if expand_str = [] \<or> records = [] then Inr records
      else expand_paths rt db cs ctx c (parse_expand_string expand_str) records)"

section \<open>What a response contains\<close>

definition keys :: "pydict \<Rightarrow> pystr set" where
  "keys d = dom (map_of d)"

lemma keys_image: "fst ` set d = keys d"
  by (simp add: keys_def dom_map_of_conv_image_fst)

lemma keys_Cons [simp]: "keys ((k, v) # d) = insert k (keys d)" "keys [] = {}"
  by (auto simp: keys_def)

lemma keys_dict_put [simp]: "keys (dict_put d k v) = insert k (keys d)"
  by (auto simp: keys_def split: if_splits)

lemma keys_delete [simp]: "keys (AList.delete k d) = keys d - {k}"
  by (auto simp: keys_def delete_conv' split: if_splits)

text \<open>A field of the schema that may be shown.\<close>

definition visible_field :: "response_options \<Rightarrow> pydict list \<Rightarrow> pystr \<Rightarrow> bool" where
  "visible_field ro schema f \<longleftrightarrow>
     (\<exists>fd \<in> set schema. dict_get fd (lit ''name'') = PStr f \<and> dict_get fd (lit ''type'') \<noteq> PStr (lit ''password'') \<and> \<not> skip_hidden ro f)"

lemma add_schema_fields_keys:
  "add_schema_fields rt ro row schema r = Inr r' \<Longrightarrow> f \<in> keys r' \<Longrightarrow> f \<in> keys r \<or> visible_field ro schema f"
proof (induction schema arbitrary: r)
  case (Cons fd schema)
  have more: "visible_field ro schema f \<Longrightarrow> visible_field ro (fd # schema) f" by (auto simp: visible_field_def)
  consider "add_schema_fields rt ro row schema r = Inr r'"
    | fname v where "dict_get_or fd (lit ''name'') (PStr []) = PStr fname" "fname \<noteq> []" "\<not> skip_hidden ro fname"
      "dict_get fd (lit ''type'') \<noteq> PStr (lit ''password'')"
      "add_schema_fields rt ro row schema (dict_put r fname v) = Inr r'"
    using Cons.prems(1) by (auto simp: Let_def res_simps split: if_splits pyval.splits)
  then show ?case
  proof cases
    case 1
    with Cons more show ?thesis by blast
  next
    case 2
    then have "f = fname \<Longrightarrow> visible_field ro (fd # schema) f"
      by (auto simp: visible_field_def dict_get_or_def dict_get_def split: option.splits)
    with Cons.IH[OF 2(5) Cons.prems(2)] more show ?thesis by auto
  qed
qed simp

lemma add_view_columns_keys:
  "add_view_columns rt row r = Inr r' \<Longrightarrow> f \<in> keys r' \<Longrightarrow> f \<in> keys r \<or> f \<in> output_key ` keys row"
proof (induction row arbitrary: r)
  case (Cons kv row)
  obtain k v where kv: "kv = (k, v)" by (cases kv)
  from Cons.prems(1) consider "add_view_columns rt row r = Inr r'"
    | v' where "add_view_columns rt row (dict_put r (output_key k) v') = Inr r'"
    by (auto simp: kv res_simps split: if_splits)
  then show ?case using Cons.IH[OF _ Cons.prems(2)] by cases (fastforce simp: kv)+
qed simp

definition SYSTEM_KEYS :: "pystr set" where
  "SYSTEM_KEYS = lit ` {''id'', ''collectionId'', ''collectionName'', ''created'', ''updated''}"

lemma system_fields_keys: "system_fields rt row cid cname = Inr r \<Longrightarrow> keys r = SYSTEM_KEYS"
  by (auto simp: system_fields_def res_simps SYSTEM_KEYS_def)

lemma auth_fields_keys:
  "f \<in> keys (auth_fields rt ro row cid cname r) \<Longrightarrow>
     f \<in> keys r \<or> (ro_is_auth ro \<and> f \<in> lit ` {''email'', ''emailVisibility'', ''verified''} \<and>
       (f = lit ''email'' \<longrightarrow> can_view_auth_email rt ro row cid cname))"
  by (auto simp: auth_fields_def Let_def split: if_splits)

lemma strip_auth_columns_keys:
  "keys (strip_auth_columns r) \<subseteq> keys r - {lit ''password_hash'', lit ''token_key''}"
  by (auto simp: strip_auth_columns_def AUTH_HIDDEN_COLUMNS_def AUTH_COLUMN_MAP_def keys_image)

lemma apply_filter_keys: "keys (apply_filter ff r) \<subseteq> keys r"
  by (force simp: apply_filter_def keys_image[symmetric] split: option.splits if_splits)

lemma build_response_keys:
  assumes "build_record_response rt ro row cid cname schema = Inr r" "f \<in> keys r"
  shows "f \<notin> {lit ''password_hash'', lit ''token_key''} \<and>
     (f \<in> SYSTEM_KEYS \<or>
      (ro_is_auth ro \<and> f \<in> lit ` {''email'', ''emailVisibility'', ''verified''} \<and>
        (f = lit ''email'' \<longrightarrow> can_view_auth_email rt ro row cid cname)) \<or>
      visible_field ro schema f \<or> (schema = [] \<and> ro_is_view ro \<and> f \<in> output_key ` keys row))"
proof -
  obtain r0 r2 where r0: "system_fields rt row cid cname = Inr r0"
    and r2: "(if schema \<noteq> [] then add_schema_fields rt ro row schema (auth_fields rt ro row cid cname r0)
       else if ro_is_view ro then add_view_columns rt row (auth_fields rt ro row cid cname r0)
       else Inr (auth_fields rt ro row cid cname r0)) = Inr r2"
    and r: "r = apply_filter (ro_fields_filter ro) (strip_auth_columns r2)"
    using assms(1) by (auto simp: build_record_response_def Let_def res_simps)
  have f: "f \<in> keys r2" "f \<notin> {lit ''password_hash'', lit ''token_key''}"
    using assms(2) apply_filter_keys strip_auth_columns_keys unfolding r by blast+
  have "f \<in> keys (auth_fields rt ro row cid cname r0) \<or> visible_field ro schema f \<or>
      (schema = [] \<and> ro_is_view ro \<and> f \<in> output_key ` keys row)"
    using r2 f(1) add_schema_fields_keys[of rt ro row schema _ r2 f] add_view_columns_keys[of rt row _ r2 f] by (auto split: if_splits)
  then show ?thesis using f(2) auth_fields_keys system_fields_keys[OF r0] by blast
qed

text \<open>
  Who may see what, by the collection's data and the caller, without reference to the checks of the code.  A call that
  does not come through the API (\<open>ro_apply_visibility\<close> off) may see every address; a hidden field has to be named in
  \<open>fields\<close>, through the API by a superuser.
\<close>

definition marked_hidden :: "pydict list \<Rightarrow> pystr \<Rightarrow> bool" where
  "marked_hidden schema f \<longleftrightarrow>
     (\<exists>fd \<in> set schema. dict_get fd (lit ''name'') = PStr f \<and> truthy (dict_get_or fd (lit ''hidden'') (PBool False)))"

definition declared_field :: "pydict list \<Rightarrow> pystr \<Rightarrow> bool" where
  "declared_field schema f \<longleftrightarrow>
     (\<exists>fd \<in> set schema. dict_get fd (lit ''name'') = PStr f \<and> dict_get fd (lit ''type'') \<noteq> PStr (lit ''password''))"

inductive may_see_hidden :: "response_options \<Rightarrow> pystr \<Rightarrow> bool" where
  internal_asks: "ro_fields_filter ro = Some ff \<Longrightarrow> f \<in> set ff \<Longrightarrow> \<not> ro_apply_visibility ro \<Longrightarrow> may_see_hidden ro f"
| admin_asks: "ro_fields_filter ro = Some ff \<Longrightarrow> f \<in> set ff \<Longrightarrow> ro_request_auth ro = Some auth \<Longrightarrow>
     dict_get auth (lit ''type'') = PStr (lit ''admin'') \<Longrightarrow> may_see_hidden ro f"
| superuser_asks: "ro_fields_filter ro = Some ff \<Longrightarrow> f \<in> set ff \<Longrightarrow> ro_request_auth ro = Some auth \<Longrightarrow>
     dict_get auth (lit ''collectionName'') = PStr (lit ''_superusers'') \<Longrightarrow> may_see_hidden ro f"

inductive may_see_email :: "py_runtime \<Rightarrow> response_options \<Rightarrow> pydict \<Rightarrow> pystr \<Rightarrow> pystr \<Rightarrow> bool" for rt ro row cid cname where
  internal_call: "\<not> ro_apply_visibility ro \<Longrightarrow> may_see_email rt ro row cid cname"
| public_address: "truthy (dict_get_or row (lit ''email_visibility'') (PBool False)) \<Longrightarrow> may_see_email rt ro row cid cname"
| to_admin: "ro_request_auth ro = Some auth \<Longrightarrow> dict_get auth (lit ''type'') = PStr (lit ''admin'') \<Longrightarrow> may_see_email rt ro row cid cname"
| to_owner: "ro_request_auth ro = Some auth \<Longrightarrow> dict_get auth (lit ''type'') = PStr (lit ''authRecord'') \<Longrightarrow>
     or_text rt auth ''id'' = or_text rt row ''id'' \<Longrightarrow>
     or_text rt auth ''collectionId'' = cid \<or> or_text rt auth ''collectionName'' = cname \<Longrightarrow> may_see_email rt ro row cid cname"

lemma skip_hidden_sound: "f \<in> set (ro_hidden ro) \<Longrightarrow> \<not> skip_hidden ro f \<Longrightarrow> may_see_hidden ro f"
  by (auto simp: skip_hidden_def is_superuser_auth_def intro: may_see_hidden.intros split: option.splits)

lemma can_view_auth_email_sound: "can_view_auth_email rt ro row cid cname \<Longrightarrow> may_see_email rt ro row cid cname"
  by (auto simp: can_view_auth_email_def intro: may_see_email.intros split: option.splits if_splits)

lemma visible_field_sound:
  assumes "visible_field ro schema f" "\<And>g. marked_hidden schema g \<Longrightarrow> g \<in> set (ro_hidden ro)"
  shows "declared_field schema f \<and> (marked_hidden schema f \<longrightarrow> may_see_hidden ro f)"
  using assms skip_hidden_sound by (auto simp: visible_field_def declared_field_def)

text \<open>
  C9: A response never holds the password hash or the token key.  If the caller passes on which fields the schema marks
  as hidden, it holds, besides the system fields and the two flags of an auth record, only declared fields that are no
  passwords and, where the schema marks them as hidden, may be seen by the caller; the address of an auth record only when it
  is public, the caller is a superuser or its owner, the call is internal, or the schema declares a field \<open>email\<close>; and
  columns of the row only for a view collection without schema.
\<close>

theorem response_shows_only_visible:
  assumes "build_record_response rt ro row cid cname schema = Inr r" "f \<in> keys r"
    and "\<And>g. marked_hidden schema g \<Longrightarrow> g \<in> set (ro_hidden ro)"
  shows "f \<notin> {lit ''password_hash'', lit ''token_key''} \<and>
     (f \<in> lit ` {''id'', ''collectionId'', ''collectionName'', ''created'', ''updated''} \<or>
      (declared_field schema f \<and> (marked_hidden schema f \<longrightarrow> may_see_hidden ro f)) \<or>
      (ro_is_auth ro \<and> f \<in> lit ` {''emailVisibility'', ''verified''}) \<or>
      (ro_is_auth ro \<and> f = lit ''email'' \<and> may_see_email rt ro row cid cname) \<or>
      (schema = [] \<and> ro_is_view ro \<and> f \<in> output_key ` keys row))"
proof -
  note keys = build_response_keys[OF assms(1,2)]
  from conjunct2[OF keys] have "f \<in> lit ` {''id'', ''collectionId'', ''collectionName'', ''created'', ''updated''} \<or>
      (declared_field schema f \<and> (marked_hidden schema f \<longrightarrow> may_see_hidden ro f)) \<or>
      (ro_is_auth ro \<and> f \<in> lit ` {''emailVisibility'', ''verified''}) \<or>
      (ro_is_auth ro \<and> f = lit ''email'' \<and> may_see_email rt ro row cid cname) \<or>
      (schema = [] \<and> ro_is_view ro \<and> f \<in> output_key ` keys row)"
  proof (elim disjE)
    assume "visible_field ro schema f"
    from visible_field_sound[OF this assms(3)] show ?thesis by simp
  next
    assume "ro_is_auth ro \<and> f \<in> lit ` {''email'', ''emailVisibility'', ''verified''} \<and>
      (f = lit ''email'' \<longrightarrow> can_view_auth_email rt ro row cid cname)"
    then show ?thesis using can_view_auth_email_sound[of rt ro row cid cname] by (cases "f = lit ''email''") simp_all
  qed (simp_all add: SYSTEM_KEYS_def)
  with conjunct1[OF keys] show ?thesis by simp
qed

section \<open>What an expansion contains\<close>

definition dicts :: "pyval \<Rightarrow> pydict set" where
  "dicts v = {d. v = PDict d \<or> (\<exists>xs. v = PList xs \<and> PDict d \<in> set xs)}"

text \<open>Every record of the expansion tree satisfies \<open>Q\<close>, and the tree has at most \<open>n\<close> levels.\<close>

fun tree_ok :: "(pydict \<Rightarrow> bool) \<Rightarrow> nat \<Rightarrow> pydict \<Rightarrow> bool" where
  "tree_ok Q 0 r \<longleftrightarrow> Q r \<and> expand_dict r = []"
| "tree_ok Q (Suc n) r \<longleftrightarrow> Q r \<and> (\<forall>(f, v) \<in> set (expand_dict r). \<forall>d \<in> dicts v. tree_ok Q n d)"

lemma tree_ok_leaf: "Q r \<Longrightarrow> expand_dict r = [] \<Longrightarrow> tree_ok Q n r"
  by (cases n) auto

lemma expand_dict_put [simp]: "expand_dict (dict_put r (lit ''expand'') (PDict e)) = e"
  by (simp add: expand_dict_def dict_get_or_def)

lemma set_dict_put: "x \<in> set (dict_put d k v) \<Longrightarrow> x = (k, v) \<or> x \<in> set d"
  unfolding dict_put_def by (induction d) (auto split: if_splits)

lemma dicts_of_field:
  assumes "tree_ok Q (Suc n) r" "d \<in> dicts (dict_get (expand_dict r) field)"
  shows "tree_ok Q n d"
proof (cases "map_of (expand_dict r) field")
  case None
  then show ?thesis using assms(2) by (simp add: dict_get_def dicts_def)
next
  case (Some v)
  then show ?thesis using assms map_of_SomeD[OF Some] by (auto simp: dict_get_def)
qed

lemma put_field_ok:
  assumes "tree_ok Q (Suc n) r" "\<And>d. d \<in> dicts v \<Longrightarrow> tree_ok Q n d" "\<And>x. Q (dict_put r (lit ''expand'') x) = Q r"
  shows "tree_ok Q (Suc n) (dict_put r (lit ''expand'') (PDict (dict_put (expand_dict r) field v)))"
  using assms by (auto dest!: set_dict_put)

lemma previous_dicts: "(i, d) \<in> set (previous_by_id rt v) \<Longrightarrow> d \<in> dicts v"
  by (auto simp: previous_by_id_def as_items_def dicts_def split: pyval.splits)

lemma attach_value_dicts:
  assumes "attach_value rt field m related r = Some v" "d \<in> dicts v"
  shows "d \<in> snd ` set related \<or> d \<in> dicts (dict_get (expand_dict r) field)"
proof -
  let ?pick = "\<lambda>i. case map_of related i of None \<Rightarrow> []
     | Some x \<Rightarrow> [PDict (case map_of (previous_by_id rt (dict_get (expand_dict r) field)) i of Some p \<Rightarrow> p | None \<Rightarrow> x)]"
  have pick: "PDict e \<in> set (?pick i) \<Longrightarrow> e \<in> snd ` set related \<or> e \<in> dicts (dict_get (expand_dict r) field)" for e i
    by (cases "map_of related i"; cases "map_of (previous_by_id rt (dict_get (expand_dict r) field)) i")
      (auto dest!: map_of_SomeD previous_dicts intro: rev_image_eqI)
  have "\<exists>i. PDict d \<in> set (?pick i)"
  proof (cases m)
    case True
    then obtain vs where "v = PList (concat (map (\<lambda>x. ?pick (py_str rt x)) vs))"
      using assms(1) by (auto simp: attach_value_def Let_def split: pyval.splits if_splits)
    then show ?thesis using assms(2) by (auto simp: dicts_def)
  next
    case False
    then obtain x xs i where "?pick i = x # xs" "v = x"
      using assms(1) by (auto simp: attach_value_def Let_def split: list.splits)
    moreover have "\<exists>e. x = PDict e" using calculation(1) by (auto split: option.splits)
    ultimately have "PDict d \<in> set (?pick i)" using assms(2) by (auto simp: dicts_def)
    then show ?thesis by blast
  qed
  then show ?thesis using pick by blast
qed

lemma attach_ok:
  assumes "tree_ok Q (Suc n) r" "\<And>d. d \<in> snd ` set related \<Longrightarrow> tree_ok Q n d" "\<And>r x. Q (dict_put r (lit ''expand'') x) = Q r"
  shows "tree_ok Q (Suc n) (attach rt field m related r)"
proof -
  have same: "tree_ok Q (Suc n) (dict_put r (lit ''expand'') (PDict (expand_dict r)))" using assms(1,3) by simp
  have "tree_ok Q n d" if "attach_value rt field m related r = Some v" "d \<in> dicts v" for v d
    using attach_value_dicts[OF that] assms(2) dicts_of_field[OF assms(1)] by blast
  then show ?thesis
    using same put_field_ok[OF assms(1) _ assms(3)] by (auto simp: attach_def Let_def split: option.splits simp del: tree_ok.simps)
qed

lemma nested_dicts: "d \<in> set (nested field r) \<Longrightarrow> d \<in> dicts (dict_get (expand_dict r) field)"
  by (auto simp: nested_def dicts_def split: pyval.splits)

lemma put_nested_ok:
  assumes "tree_ok Q (Suc n) r" "\<And>d. d \<in> set ds \<Longrightarrow> tree_ok Q n d" "\<And>r x. Q (dict_put r (lit ''expand'') x) = Q r"
  shows "tree_ok Q (Suc n) (put_nested field ds r)"
proof -
  have "tree_ok Q (Suc n) (dict_put r (lit ''expand'') (PDict (dict_put (expand_dict r) field (PList (map PDict ds)))))"
    using assms(2) by (intro put_field_ok[OF assms(1) _ assms(3)]) (auto simp: dicts_def)
  moreover have "tree_ok Q (Suc n) (dict_put r (lit ''expand'') (PDict (dict_put (expand_dict r) field (PDict d))))" if "d \<in> set ds" for d
    using assms(2) that by (intro put_field_ok[OF assms(1) _ assms(3)]) (auto simp: dicts_def)
  ultimately show ?thesis
    using assms(1) by (auto simp: put_nested_def split: pyval.split list.split simp del: tree_ok.simps)
qed

lemma distribute_ok:
  assumes "\<And>r x. Q (dict_put r (lit ''expand'') x) = Q r"
  shows "(\<forall>r \<in> set rs. tree_ok Q (Suc n) r) \<Longrightarrow> (\<forall>d \<in> set ds. tree_ok Q n d) \<Longrightarrow> \<forall>r \<in> set (distribute field rs ds). tree_ok Q (Suc n) r"
proof (induction rs arbitrary: ds)
  case (Cons r rs)
  let ?n = "length (nested field r)"
  have "tree_ok Q (Suc n) (put_nested field (take ?n ds) r)"
    using Cons.prems by (intro put_nested_ok[OF _ _ assms]) (auto dest: in_set_takeD simp del: tree_ok.simps)
  moreover have "\<forall>r \<in> set (distribute field rs (drop ?n ds)). tree_ok Q (Suc n) r"
    using Cons.prems by (intro Cons.IH) (auto dest: in_set_dropD simp del: tree_ok.simps)
  ultimately show ?case by (simp add: Let_def del: tree_ok.simps)
qed simp

declare tree_ok.simps(2) [simp del]

lemma length_distribute [simp]: "length (distribute field rs ds) = length rs"
  by (induction rs arbitrary: ds) (simp_all add: Let_def)

lemma expand_path_cases:
  assumes "expand_path rt db cs ctx c records depth (field # remaining) = Inr rs"
  obtains (same) "rs = records"
  | (attached) target rows related m where "target \<in> set cs" "related_responses rt target ctx rows = Inr related"
      "batch_fetch_records db target (remdups (concat (map (relation_ids rt field) records))) = Inr rows"
      "rs = map (attach rt field m related) records"
  | (deeper) target rows related m ds where "target \<in> set cs" "related_responses rt target ctx rows = Inr related"
      "batch_fetch_records db target (remdups (concat (map (relation_ids rt field) records))) = Inr rows"
      "expand_path rt db cs ctx target (concat (map (nested field) (map (attach rt field m related) records))) (Suc depth) remaining = Inr ds"
      "rs = distribute field (map (attach rt field m related) records) ds"
proof -
  have mem: "find_collection_by_id v cs = Some t \<Longrightarrow> t \<in> set cs" for v t
    by (auto simp: find_collection_by_id_def find_Some_iff in_set_conv_nth)
  show thesis
  proof (cases "depth \<ge> MAX_EXPAND_DEPTH \<or> get_relation_field c field = None")
    case True
    then show thesis using assms same by (cases "depth \<ge> MAX_EXPAND_DEPTH") auto
  next
    case False
    then obtain rel where rel: "\<not> depth \<ge> MAX_EXPAND_DEPTH" "get_relation_field c field = Some rel" by auto
    obtain opts where opts: "dict_get_or rel (lit ''options'') (PDict []) = PDict opts"
      using assms rel by (cases "dict_get_or rel (lit ''options'') (PDict [])") auto
    obtain m where m: "multi_select opts = Inr m" using assms rel opts by (cases "multi_select opts") auto
    let ?ids = "remdups (concat (map (relation_ids rt field) records))"
    show thesis
    proof (cases "find_collection_by_id (dict_get_or opts (lit ''collectionId'') (PStr [])) cs")
      case None
      then show thesis using assms rel opts m same by simp
    next
      case (Some target)
      show thesis
      proof (cases "?ids = []")
        case True
        then show thesis using assms rel opts m Some same by simp
      next
        case ids: False
        obtain rows where rows: "batch_fetch_records db target ?ids = Inr rows"
          using assms rel opts m Some ids by (cases "batch_fetch_records db target ?ids") (auto simp del: remdups_eq_nil_iff)
        obtain related where related: "related_responses rt target ctx rows = Inr related"
          using assms rel opts m Some ids rows by (cases "related_responses rt target ctx rows") (auto simp del: remdups_eq_nil_iff)
        let ?att = "map (attach rt field m related) records"
        have run: "(if list_ex (expand_clash field remaining) records then Inl AttributeError
            else if remaining = [] \<or> concat (map (nested field) ?att) = [] then Inr ?att
            else bindE (expand_path rt db cs ctx target (concat (map (nested field) ?att)) (Suc depth) remaining)
              (\<lambda>ds'. Inr (distribute field ?att ds'))) = Inr rs"
          using assms
          unfolding expand_path.simps if_not_P[OF rel(1)] rel(2) option.case opts pyval.case m bindE.simps Some Let_def if_not_P[OF ids] rows related .
        show thesis
        proof (cases "rs = ?att")
          case True
          then show thesis by (rule attached[OF mem[OF Some] related rows])
        next
          case False
          then obtain ds where "expand_path rt db cs ctx target (concat (map (nested field) ?att)) (Suc depth) remaining = Inr ds"
            "rs = distribute field ?att ds"
            using run by (auto simp: res_simps simp del: concat_eq_Nil_conv split: if_splits)
          then show thesis by (rule deeper[OF mem[OF Some] related rows])
        qed
      qed
    qed
  qed
qed

lemma related_member:
  "related_responses rt target ctx rows = Inr related \<Longrightarrow> d \<in> snd ` set related \<Longrightarrow>
     \<exists>row \<in> snd ` set rows. build_record_response rt (expand_options rt target ctx) row (co_id target) (co_name target) (co_schema target) = Inr d"
proof -
  let ?f = "\<lambda>(i, row). bindE (build_record_response rt (expand_options rt target ctx) row (co_id target) (co_name target) (co_schema target))
    (\<lambda>r. Inr (i, r))"
  assume rel: "related_responses rt target ctx rows = Inr related" and d: "d \<in> snd ` set related"
  have all: "list_all2 (\<lambda>x z. ?f x = Inr z) rows related"
    using rel unfolding related_responses_def by (rule mapE_Inr_list_all2)
  from d obtain y where y: "y < length related" "snd (related ! y) = d" by (auto simp: in_set_conv_nth)
  with all have len: "y < length rows" and eq: "?f (rows ! y) = Inr (related ! y)" by (simp_all add: list_all2_conv_all_nth)
  have "snd (rows ! y) \<in> snd ` set rows" using len by simp
  moreover have "build_record_response rt (expand_options rt target ctx) (snd (rows ! y)) (co_id target) (co_name target) (co_schema target) = Inr d"
    using eq y(2) by (cases "rows ! y"; cases "related ! y") (auto simp: bindE_Inr_iff)
  ultimately show ?thesis by blast
qed

lemma fetched_member:
  "batch_fetch_records db c ids = Inr rows \<Longrightarrow> row \<in> snd ` set rows \<Longrightarrow> \<exists>all. db (co_name c) = Some all \<and> row \<in> set all"
  by (auto simp: batch_fetch_records_def split: if_splits option.splits pyval.splits)

text \<open>No collection has a field or column called \<open>expand\<close>.\<close>

definition no_expand_field :: "row_source \<Rightarrow> coll list \<Rightarrow> bool" where
  "no_expand_field db cs \<longleftrightarrow>
     (\<forall>c \<in> set cs. (\<forall>fd \<in> set (co_schema c). dict_get fd (lit ''name'') \<noteq> PStr (lit ''expand'')) \<and>
        (\<forall>rows. db (co_name c) = Some rows \<longrightarrow> (\<forall>row \<in> set rows. lit ''expand'' \<notin> keys row)))"

lemma fresh_leaf:
  assumes "no_expand_field db cs" "target \<in> set cs" "related_responses rt target ctx rows = Inr related"
    and "batch_fetch_records db target ids = Inr rows" "d \<in> snd ` set related"
  shows "expand_dict d = []" "keys d \<inter> {lit ''password_hash'', lit ''token_key''} = {}"
proof -
  obtain row where row: "row \<in> snd ` set rows"
    and d: "build_record_response rt (expand_options rt target ctx) row (co_id target) (co_name target) (co_schema target) = Inr d"
    using related_member[OF assms(3,5)] by blast
  have "lit ''expand'' \<notin> keys row" "\<not> visible_field (expand_options rt target ctx) (co_schema target) (lit ''expand'')"
    using assms(1,2) fetched_member[OF assms(4) row] unfolding no_expand_field_def visible_field_def by blast+
  then have "lit ''expand'' \<notin> keys d"
    using build_response_keys[OF d, of "lit ''expand''"]
    by (auto simp: keys_image SYSTEM_KEYS_def output_key_def AUTH_COLUMN_MAP_def split: if_splits)
  then show "expand_dict d = []" by (simp add: expand_dict_def dict_get_or_def keys_def domIff)
  show "keys d \<inter> {lit ''password_hash'', lit ''token_key''} = {}" using build_response_keys[OF d] by blast
qed

definition no_secrets :: "pydict \<Rightarrow> bool" where
  "no_secrets r \<longleftrightarrow> keys r \<inter> {lit ''password_hash'', lit ''token_key''} = {}"

lemma no_secrets_put [simp]: "no_secrets (dict_put r (lit ''expand'') x) = no_secrets r"
  by (simp add: no_secrets_def)

lemma expand_path_ok:
  assumes "no_expand_field db cs"
  shows "expand_path rt db cs ctx c records depth path = Inr rs \<Longrightarrow> length path \<le> n \<Longrightarrow>
     \<forall>r \<in> set records. tree_ok no_secrets n r \<Longrightarrow> \<forall>r \<in> set rs. tree_ok no_secrets n r"
proof (induction path arbitrary: c records depth rs n)
  case (Cons field remaining)
  then obtain k where n: "n = Suc k" by (cases n) auto
  have fresh: "tree_ok no_secrets k d"
    if "target \<in> set cs" "related_responses rt target ctx rows = Inr related" "batch_fetch_records db target ids = Inr rows"
      "d \<in> snd ` set related" for target rows related ids d
    using fresh_leaf[OF assms that] by (intro tree_ok_leaf) (simp_all add: no_secrets_def)
  have att: "\<forall>r \<in> set (map (attach rt field m related) records). tree_ok no_secrets n r"
    if "target \<in> set cs" "related_responses rt target ctx rows = Inr related" "batch_fetch_records db target ids = Inr rows"
    for target rows related ids m
    using attach_ok[OF _ fresh[OF that]] Cons.prems(3) unfolding n by auto
  from Cons.prems(1) show ?case
  proof (cases rule: expand_path_cases)
    case same
    then show ?thesis using Cons.prems(3) by simp
  next
    case (attached target rows related m)
    then show ?thesis using att by blast
  next
    case (deeper target rows related m ds)
    have "\<forall>d \<in> set (concat (map (nested field) (map (attach rt field m related) records))). tree_ok no_secrets k d"
      using att[OF deeper(1-3)] dicts_of_field nested_dicts unfolding n by (fastforce simp del: tree_ok.simps)
    then have "\<forall>d \<in> set ds. tree_ok no_secrets k d"
      using Cons.IH[OF deeper(4)] Cons.prems(2) n by auto
    then show ?thesis using distribute_ok[of no_secrets, OF no_secrets_put] att[OF deeper(1-3)] deeper(5) unfolding n by blast
  qed
qed simp

lemma expand_paths_ok:
  assumes "no_expand_field db cs"
  shows "expand_paths rt db cs ctx c ps records = Inr rs \<Longrightarrow> \<forall>p \<in> set ps. length p \<le> n \<Longrightarrow>
     \<forall>r \<in> set records. tree_ok no_secrets n r \<Longrightarrow> \<forall>r \<in> set rs. tree_ok no_secrets n r"
  by (induction ps arbitrary: records) (auto simp: res_simps simp del: tree_ok.simps dest: expand_path_ok[OF assms])

lemma parse_expand_bounded: "p \<in> set (parse_expand_string s) \<Longrightarrow> length p \<le> MAX_EXPAND_DEPTH"
  by (auto simp: parse_expand_string_def split: if_splits)

text \<open>
  C36: Expansion is bounded and leaks no secret: whatever the query asks for, starting from plain responses the tree of expanded records has at most
  six levels, and no record in it holds a password hash or a token key.
\<close>

theorem expansion_bounded_and_clean:
  assumes "no_expand_field db cs" "expand_records rt db cs ctx c records expand_str = Inr rs"
    and "\<forall>r \<in> set records. no_secrets r \<and> expand_dict r = []"
  shows "\<forall>r \<in> set rs. tree_ok no_secrets MAX_EXPAND_DEPTH r"
proof -
  have start: "\<forall>r \<in> set records. tree_ok no_secrets MAX_EXPAND_DEPTH r" using assms(3) by (simp add: tree_ok_leaf)
  show ?thesis
  proof (cases "expand_str = [] \<or> records = []")
    case True
    then show ?thesis using start assms(2) unfolding expand_records_def by simp
  next
    case False
    then have run: "expand_paths rt db cs ctx c (parse_expand_string expand_str) records = Inr rs"
      using assms(2) unfolding expand_records_def by simp
    show ?thesis by (rule expand_paths_ok[OF assms(1) run _ start]) (simp add: parse_expand_bounded)
  qed
qed

section \<open>Expansion only adds\<close>

definition same_fields :: "pydict \<Rightarrow> pydict \<Rightarrow> bool" where
  "same_fields r r' \<longleftrightarrow> (\<forall>k. k \<noteq> lit ''expand'' \<longrightarrow> map_of r' k = map_of r k)"

lemma same_fields_refl [simp]: "same_fields r r"
  by (simp add: same_fields_def)

lemma same_fields_trans: "same_fields a b \<Longrightarrow> same_fields b c \<Longrightarrow> same_fields a c"
  by (simp add: same_fields_def)

lemma same_fields_put [simp]: "same_fields r (dict_put r (lit ''expand'') v)"
  by (simp add: same_fields_def)

lemma put_nested_same: "same_fields r (put_nested field ds r)"
  by (auto simp: put_nested_def split: pyval.split list.split)

lemma distribute_same: "list_all2 same_fields rs (distribute field rs ds)"
  by (induction rs arbitrary: ds) (simp_all add: Let_def put_nested_same)

lemma attach_same: "list_all2 same_fields records (map (attach rt field m related) records)"
  by (simp add: list_all2_conv_all_nth attach_def Let_def)

lemma same_fields_list_trans: "list_all2 same_fields as bs \<Longrightarrow> list_all2 same_fields bs cs \<Longrightarrow> list_all2 same_fields as cs"
  by (rule list_all2_trans[OF same_fields_trans])

lemma expand_path_same:
  "expand_path rt db cs ctx c records depth path = Inr rs \<Longrightarrow> list_all2 same_fields records rs"
proof (cases path)
  case Nil
  assume "expand_path rt db cs ctx c records depth path = Inr rs"
  with Nil show ?thesis by (simp add: list_all2_same)
next
  case (Cons field remaining)
  assume "expand_path rt db cs ctx c records depth path = Inr rs"
  then show ?thesis
    unfolding Cons
    by (cases rule: expand_path_cases)
      (auto simp: list_all2_same intro: attach_same same_fields_list_trans[OF attach_same distribute_same])
qed

lemma expand_paths_same:
  "expand_paths rt db cs ctx c ps records = Inr rs \<Longrightarrow> list_all2 same_fields records rs"
proof (induction ps arbitrary: records)
  case (Cons p ps)
  then obtain rs1 where "expand_path rt db cs ctx c records 0 p = Inr rs1" "expand_paths rt db cs ctx c ps rs1 = Inr rs"
    by (auto simp: bindE_Inr_iff)
  then show ?case using same_fields_list_trans[OF expand_path_same Cons.IH] by blast
qed (simp add: list_all2_same)

text \<open>
  Expanding records returns the same records in the same order and changes nothing of them but the key \<open>expand\<close>.
\<close>

theorem expansion_only_adds:
  assumes "expand_records rt db cs ctx c records expand_str = Inr rs"
  shows "list_all2 same_fields records rs"
proof (cases "expand_str = [] \<or> records = []")
  case True
  then show ?thesis using assms unfolding expand_records_def by (simp add: list_all2_same)
next
  case False
  then show ?thesis using assms expand_paths_same unfolding expand_records_def by simp
qed

section \<open>Expansion asks no rule\<close>

lemma expand_single:
  assumes "get_relation_field c field = Some rel" "dict_get_or rel (lit ''options'') (PDict []) = PDict opts"
    and "multi_select opts = Inr False" "find_collection_by_id (dict_get_or opts (lit ''collectionId'') (PStr [])) cs = Some target"
    and "dict_get rcd field = PStr i" "i \<noteq> []" "lit ''expand'' \<notin> keys rcd"
    and "db (co_name target) = Some [row]" "dict_get row (lit ''id'') = PStr i"
    and "build_record_response rt (expand_options rt target ctx) row (co_id target) (co_name target) (co_schema target) = Inr r"
  shows "expand_path rt db cs ctx c [rcd] 0 [field] = Inr [dict_put rcd (lit ''expand'') (PDict [(field, PDict r)])]"
proof -
  have e: "expand_dict rcd = []" "dict_get_or rcd (lit ''expand'') (PDict []) = PDict []"
    using assms(7) by (simp_all add: expand_dict_def dict_get_or_def keys_def domIff)
  have att: "attach rt field False [(i, r)] rcd = dict_put rcd (lit ''expand'') (PDict [(field, PDict r)])"
    using assms(5,6) e by (simp add: attach_def attach_value_def previous_by_id_def as_items_def dict_get_def[of "[]"] dict_put_def)
  show ?thesis
    using assms(1-6,8-10) e att
    by (simp add: MAX_EXPAND_DEPTH_def relation_ids_def batch_fetch_records_def related_responses_def expand_clash_def)
qed

text \<open>
  A to-one relation whose related row exists is expanded for every caller: the response of the related record is attached whatever
  the request context says, since no rule of the related collection is consulted.
\<close>

theorem expansion_ignores_rules:
  assumes "get_relation_field c field = Some rel" "dict_get_or rel (lit ''options'') (PDict []) = PDict opts"
    and "multi_select opts = Inr False" "find_collection_by_id (dict_get_or opts (lit ''collectionId'') (PStr [])) cs = Some target"
    and "dict_get rcd field = PStr i" "i \<noteq> []" "lit ''expand'' \<notin> keys rcd"
    and "db (co_name target) = Some [row]" "dict_get row (lit ''id'') = PStr i"
    and "build_record_response rt (expand_options rt target ctx) row (co_id target) (co_name target) (co_schema target) = Inr r"
  shows "expand_path rt db cs ctx c [rcd] 0 [field] = Inr [dict_put rcd (lit ''expand'') (PDict [(field, PDict r)])]"
  by (rule expand_single[where db = db, OF assms])

section \<open>Witnesses\<close>

definition author_field :: pydict where
  "author_field =
     [(lit ''name'', PStr (lit ''author'')), (lit ''type'', PStr (lit ''relation'')), (lit ''options'', PDict [(lit ''collectionId'', PStr (lit ''c2''))])]"

definition note_field :: pydict where
  "note_field = [(lit ''name'', PStr (lit ''note'')), (lit ''type'', PStr (lit ''text'')), (lit ''hidden'', PBool True)]"

definition sample_posts_coll :: coll where
  "sample_posts_coll = \<lparr>co_id = lit ''c1'', co_name = lit ''posts'', co_type = lit ''base'', co_schema = [author_field]\<rparr>"

definition sample_people :: coll where
  "sample_people = \<lparr>co_id = lit ''c2'', co_name = lit ''people'', co_type = lit ''base'', co_schema = [note_field]\<rparr>"

definition sample_person :: pydict where
  "sample_person = [(lit ''id'', PStr (lit ''u1'')), (lit ''note'', PStr (lit ''private'')), (lit ''token_key'', PStr (lit ''k''))]"

definition sample_rows :: row_source where
  "sample_rows n = (if n = lit ''people'' then Some [sample_person] else None)"

definition sample_post :: pydict where
  "sample_post = [(lit ''id'', PStr (lit ''p1'')), (lit ''author'', PStr (lit ''u1''))]"

definition person_response :: pydict where
  "person_response =
     [(lit ''id'', PStr (lit ''u1'')), (lit ''collectionId'', PStr (lit ''c2'')), (lit ''collectionName'', PStr (lit ''people'')),
      (lit ''created'', PStr []), (lit ''updated'', PStr [])]"

lemma sample_hidden: "ro_hidden (expand_options sample_rt sample_people ctx) = [lit ''note'']"
  by (simp add: expand_options_def hidden_of_def sample_people_def note_field_def dict_get_or_def)

lemma sample_not_auth: "\<not> ro_is_auth (expand_options sample_rt sample_people ctx)" "ro_fields_filter (expand_options sample_rt sample_people ctx) = None"
  by (simp_all add: expand_options_def collection_type_def sample_people_def sample_rt_def)
    (rule notI, drule arg_cong[where f = hd], simp add: lit_def py_strip_def is_space_def ascii_lower_def)

lemma sample_person_response:
  "build_record_response sample_rt (expand_options sample_rt sample_people ctx) sample_person (co_id sample_people) (co_name sample_people)
     (co_schema sample_people) = Inr person_response"
proof -
  let ?ro = "expand_options sample_rt sample_people ctx"
  have sys: "system_fields sample_rt sample_person (co_id sample_people) (co_name sample_people) = Inr person_response"
    by (simp add: system_fields_def format_datetime_def sample_person_def dict_get_Cons dict_get_or_def sample_people_def person_response_def)
  have auth: "auth_fields sample_rt ?ro sample_person cid cname r = r" for cid cname r
    by (simp add: auth_fields_def sample_not_auth)
  have skip: "skip_hidden ?ro (lit ''note'')" by (simp add: skip_hidden_def sample_hidden sample_not_auth)
  have schema: "co_schema sample_people = [note_field]" "add_schema_fields sample_rt ?ro sample_person [note_field] r = Inr r" for r
    using skip by (simp_all add: sample_people_def note_field_def dict_get_or_def)
  have strip: "strip_auth_columns person_response = person_response"
    by (simp add: strip_auth_columns_def AUTH_HIDDEN_COLUMNS_def AUTH_COLUMN_MAP_def person_response_def)
  show ?thesis
    by (simp add: build_record_response_def sys auth schema strip apply_filter_def sample_not_auth del: add_schema_fields.simps)
qed

text \<open>A collection with a hidden field, seen by a superuser who asks for it.\<close>

definition asking_options :: response_options where
  "asking_options = \<lparr>ro_fields_filter = Some [lit ''note''], ro_hidden = [lit ''note''], ro_is_auth = False, ro_is_view = False,
     ro_request_auth = Some [(lit ''type'', PStr (lit ''admin''))], ro_apply_visibility = True\<rparr>"

lemma asking_response:
  "build_record_response sample_rt asking_options sample_person (lit ''c2'') (lit ''people'') [note_field] =
     Inr [(lit ''note'', PStr (lit ''private''))]"
proof -
  have "system_fields sample_rt sample_person (lit ''c2'') (lit ''people'') = Inr person_response"
    by (simp add: system_fields_def format_datetime_def sample_person_def dict_get_Cons dict_get_or_def person_response_def)
  moreover have "\<not> skip_hidden asking_options (lit ''note'')"
    by (simp add: skip_hidden_def asking_options_def is_superuser_auth_def dict_get_Cons)
  moreover have "add_schema_fields sample_rt asking_options sample_person [note_field] r = Inr (dict_put r (lit ''note'') (PStr (lit ''private'')))" for r
    using calculation(2) by (simp add: note_field_def dict_get_or_def dict_get_Cons response_value_def sample_person_def)
  moreover have "strip_auth_columns (dict_put person_response (lit ''note'') (PStr (lit ''private''))) =
      dict_put person_response (lit ''note'') (PStr (lit ''private''))"
    by (simp add: dict_put_def strip_auth_columns_def AUTH_HIDDEN_COLUMNS_def AUTH_COLUMN_MAP_def person_response_def)
  moreover have "auth_fields sample_rt asking_options sample_person (lit ''c2'') (lit ''people'') person_response = person_response"
    by (simp add: auth_fields_def asking_options_def)
  moreover have "apply_filter (ro_fields_filter asking_options) (dict_put person_response (lit ''note'') (PStr (lit ''private''))) =
      [(lit ''note'', PStr (lit ''private''))]"
    by (simp add: dict_put_def apply_filter_def asking_options_def person_response_def dict_get_def)
  ultimately show ?thesis by (simp add: build_record_response_def del: add_schema_fields.simps)
qed

theorem response_shows_only_visible_witness:
  "declared_field [note_field] (lit ''note'') \<and> marked_hidden [note_field] (lit ''note'') \<and> may_see_hidden asking_options (lit ''note'')"
proof -
  have h: "marked_hidden [note_field] g \<longleftrightarrow> g = lit ''note''" for g
    by (auto simp: marked_hidden_def note_field_def dict_get_Cons dict_get_or_def)
  then have "\<And>g. marked_hidden [note_field] g \<Longrightarrow> g \<in> set (ro_hidden asking_options)" by (simp add: asking_options_def)
  from response_shows_only_visible[OF asking_response _ this, of "lit ''note''"] h
  show ?thesis by (simp add: asking_options_def)
qed

lemma sample_relation:
  "get_relation_field sample_posts_coll (lit ''author'') = Some author_field"
  "dict_get_or author_field (lit ''options'') (PDict []) = PDict [(lit ''collectionId'', PStr (lit ''c2''))]"
  "multi_select [(lit ''collectionId'', PStr (lit ''c2''))] = Inr False"
  "find_collection_by_id (dict_get_or [(lit ''collectionId'', PStr (lit ''c2''))] (lit ''collectionId'') (PStr [])) [sample_people] = Some sample_people"
  "dict_get sample_post (lit ''author'') = PStr (lit ''u1'')" "lit ''u1'' \<noteq> []" "lit ''expand'' \<notin> keys sample_post"
  "sample_rows (co_name sample_people) = Some [sample_person]" "dict_get sample_person (lit ''id'') = PStr (lit ''u1'')"
  by (simp_all add: get_relation_field_def sample_posts_coll_def author_field_def dict_get_Cons multi_select_def dict_get_or_def py_or_def
      find_collection_by_id_def sample_people_def sample_post_def sample_rows_def sample_person_def)

theorem expansion_ignores_rules_witness:
  "expand_path sample_rt sample_rows [sample_people] None sample_posts_coll [sample_post] 0 [lit ''author''] =
     Inr [dict_put sample_post (lit ''expand'') (PDict [(lit ''author'', PDict person_response)])]"
  by (rule expansion_ignores_rules[where rt = sample_rt and db = sample_rows and cs = "[sample_people]" and ctx = None
        and c = sample_posts_coll and rcd = sample_post and r = person_response,
        OF sample_relation(1-9) sample_person_response])

lemma sample_expand_records:
  "expand_records sample_rt sample_rows [sample_people] None sample_posts_coll [sample_post] (lit ''author'') =
     Inr [dict_put sample_post (lit ''expand'') (PDict [(lit ''author'', PDict person_response)])]"
proof -
  have "parse_expand_string (lit ''author'') = [[lit ''author'']]"
    by (simp add: parse_expand_string_def MAX_EXPAND_DEPTH_def lit_def py_strip_def is_space_def)
  then show ?thesis
    using expand_single[where rt = sample_rt and db = sample_rows and cs = "[sample_people]" and ctx = None
        and c = sample_posts_coll and rcd = sample_post and r = person_response,
        OF sample_relation(1-9) sample_person_response]
    by (simp add: expand_records_def del: expand_path.simps)
qed

theorem expansion_bounded_and_clean_witness:
  "tree_ok no_secrets MAX_EXPAND_DEPTH (dict_put sample_post (lit ''expand'') (PDict [(lit ''author'', PDict person_response)]))"
proof -
  have "no_expand_field sample_rows [sample_people]"
    by (auto simp: no_expand_field_def sample_people_def note_field_def dict_get_Cons sample_rows_def sample_person_def split: if_splits)
  moreover have "no_secrets sample_post" "expand_dict sample_post = []"
    by (simp_all add: no_secrets_def sample_post_def expand_dict_def dict_get_or_def)
  ultimately show ?thesis using expansion_bounded_and_clean[OF _ sample_expand_records] by simp
qed

theorem expansion_only_adds_witness:
  "same_fields sample_post (dict_put sample_post (lit ''expand'') (PDict [(lit ''author'', PDict person_response)]))"
  using expansion_only_adds[OF sample_expand_records] by simp

end
