(* ===== verification/Record_Auth.thy ===== *)
theory Record_Auth
  imports Auth_Tokens Record_Response Field_Types
begin

text \<open>
  Model of \<open>ppbase/services/record_auth_service.py\<close>: login with a password or a one-time code, token refresh and
  impersonation, and the mail flows for verification, password reset and change of address.

  \<^item> The state is the database of \<open>Auth_Tokens\<close> and the table \<open>_otps\<close>.  Every query runs in a transaction of its own; an
    operation returns its result and the state it leaves.
  \<^item> A login with a code, a password reset and a change of address read in one transaction and write in another: each is the composition of a
    check and a write, which are definitions of their own, and \<open>confirm_verification\<close> composes \<open>flow_record\<close> and \<open>update_record_columns\<close>.
  \<^item> Fresh keys, identifiers and codes are arguments.  Mail is a returned value: the address and what it carries.
  \<^item> Times are seconds; tokens use the whole seconds.
\<close>

section \<open>State and helpers\<close>

record otp =
  ot_id :: pystr
  ot_created :: "rat option"
  ot_collection :: pystr
  ot_record :: pystr
  ot_password :: pystr
  ot_sent_to :: pystr

record auth_state =
  as_db :: auth_db
  as_otps :: "otp list"

definition options_dict :: "acoll \<Rightarrow> pyexn + pydict" where
  "options_dict c = as_mapping (py_or (ac_options c) (PDict []))"

definition get_identity_fields :: "acoll \<Rightarrow> pyexn + pyval" where
  "get_identity_fields c =
     bindE (options_dict c) (\<lambda>opts.
     bindE (as_mapping (dict_get_or opts (lit ''passwordAuth'') (PDict []))) (\<lambda>pa.
     Inr (dict_get_or pa (lit ''identityFields'') (PList [PStr (lit ''email'')]))))"

definition is_password_auth_enabled :: "acoll \<Rightarrow> pyexn + bool" where
  "is_password_auth_enabled c =
     bindE (options_dict c) (\<lambda>opts.
     bindE (as_mapping (py_or (dict_get_or opts (lit ''passwordAuth'') (PDict [])) (PDict []))) (\<lambda>pa.
     Inr (truthy (dict_get_or pa (lit ''enabled'') (PBool True)))))"

definition get_raw_record_by_id :: "auth_state \<Rightarrow> acoll \<Rightarrow> pyval \<Rightarrow> pyexn + pydict option" where
  "get_raw_record_by_id st c rid = select_row (as_db st) (ac_name c) (lit ''id'') rid"

definition get_raw_record_by_field :: "auth_state \<Rightarrow> acoll \<Rightarrow> pystr \<Rightarrow> pystr \<Rightarrow> pyexn + pydict option" where
  "get_raw_record_by_field st c field v = select_row (as_db st) (ac_name c) field (PStr v)"

definition update_row :: "pydict \<Rightarrow> pydict \<Rightarrow> pydict" where
  "update_row updates row = fold (\<lambda>(k, v) r. dict_put r k v) updates row"

definition update_record_columns :: "acoll \<Rightarrow> pyval \<Rightarrow> pydict \<Rightarrow> auth_state \<Rightarrow> pyexn + auth_state" where
  "update_record_columns c rid updates st =
     (case ad_tables (as_db st) (ac_name c) of
        None \<Rightarrow> Inl DatabaseError
      | Some t \<Rightarrow>
          if \<not> set (lit ''id'' # map fst updates) \<subseteq> set (tb_columns t) then Inl DatabaseError
          else Inr (st\<lparr>as_db := (as_db st)\<lparr>ad_tables := (ad_tables (as_db st))(ac_name c \<mapsto>
                 t\<lparr>tb_rows := map (\<lambda>r. if dict_get r (lit ''id'') = rid then update_row updates r else r) (tb_rows t)\<rparr>)\<rparr>\<rparr>))"

text \<open>\<open>int(otp.get(k, n) or n)\<close>.\<close>

definition otp_int :: "auth_lib \<Rightarrow> pydict \<Rightarrow> string \<Rightarrow> int \<Rightarrow> pyexn + int" where
  "otp_int al d k n = py_int (al_rt al) (py_or (dict_get_or d (lit k) (PInt n)) (PInt n))"

definition otp_config :: "auth_lib \<Rightarrow> acoll \<Rightarrow> pyexn + int \<times> int" where
  "otp_config al c =
     bindE (options_dict c) (\<lambda>opts.
     bindE (as_mapping (py_or (dict_get_or opts (lit ''otp'') (PDict [])) (PDict []))) (\<lambda>otp.
     bindE (otp_int al otp ''duration'' 180) (\<lambda>duration.
     bindE (otp_int al otp ''length'' 8) (\<lambda>len.
     Inr (if duration < 1 then 180 else duration, if len < 4 then 8 else len)))))"

section \<open>Passwords, refresh and impersonation\<close>

definition auth_options :: response_options where
  "auth_options =
     \<lparr>ro_fields_filter = None, ro_hidden = [], ro_is_auth = True, ro_is_view = False, ro_request_auth = None, ro_apply_visibility = False\<rparr>"

definition auth_record :: "auth_lib \<Rightarrow> acoll \<Rightarrow> pydict list \<Rightarrow> pydict \<Rightarrow> pyexn + pydict" where
  "auth_record al c schema row = build_record_response (al_rt al) auth_options row (ac_id c) (ac_name c) schema"

text \<open>\<open>_superusers\<close> gets an admin token, every other collection a record token.\<close>

definition issue_token :: "auth_lib \<Rightarrow> int \<Rightarrow> (pystr \<times> int) option \<Rightarrow> acoll \<Rightarrow> pydict \<Rightarrow> pyexn + pystr" where
  "issue_token al now settings c row =
     (if ac_name c = SUPERUSERS then create_admin_token al now row settings (Some c)
      else create_record_auth_token al now row c True None)"

definition generate_record_auth_token :: "auth_lib \<Rightarrow> int \<Rightarrow> auth_state \<Rightarrow> acoll \<Rightarrow> pystr \<Rightarrow> pyexn + pystr" where
  "generate_record_auth_token al now st c rid =
     bindE (get_raw_record_by_id st c (PStr rid)) (\<lambda>r.
     (case r of None \<Rightarrow> Inl ValueError | Some row \<Rightarrow> create_record_auth_token al now row c True None))"

definition password_matches :: "auth_lib \<Rightarrow> pystr \<Rightarrow> pydict \<Rightarrow> bool" where
  "password_matches al password row =
     (case dict_get_or row (lit ''password_hash'') (PStr []) of PStr h \<Rightarrow> h \<noteq> [] \<and> verify_password al password h | _ \<Rightarrow> False)"

text \<open>The column to look the identity up in; \<open>None\<close> refuses the login.\<close>

definition identity_column :: "auth_lib \<Rightarrow> pyval \<Rightarrow> pystr option \<Rightarrow> pyexn + pystr option" where
  "identity_column al configured requested =
     (case py_or configured (PList [PStr (lit ''email'')]) of
        PList fs \<Rightarrow>
          (case requested of
             Some f \<Rightarrow> if f \<noteq> [] then Inr (if PStr f \<in> set fs then Some f else None)
                       else (case hd fs of PStr g \<Rightarrow> Inr (Some g) | _ \<Rightarrow> Inl AttributeError)
           | None \<Rightarrow> (case hd fs of PStr g \<Rightarrow> Inr (Some g) | _ \<Rightarrow> Inl AttributeError))
      | _ \<Rightarrow> Inl TypeError)"

definition plain_column :: "auth_lib \<Rightarrow> pystr \<Rightarrow> bool" where
  "plain_column al f \<longleftrightarrow> (let g = filter (\<lambda>ch. ch \<noteq> 95) f in g \<noteq> [] \<and> list_all (rt_isalnum (al_rt al)) g)"

definition auth_with_password ::
  "auth_lib \<Rightarrow> int \<Rightarrow> (pystr \<times> int) option \<Rightarrow> auth_state \<Rightarrow> acoll \<Rightarrow> pydict list \<Rightarrow> pystr \<Rightarrow> pystr \<Rightarrow> pystr option \<Rightarrow>
     pyexn + (pystr \<times> pydict) option" where
  "auth_with_password al now settings st c schema identity password identity_field =
     bindE (is_password_auth_enabled c) (\<lambda>enabled.
     if \<not> enabled then Inr None
     else bindE (get_identity_fields c) (\<lambda>configured.
       bindE (identity_column al configured identity_field) (\<lambda>column.
       (case column of
          None \<Rightarrow> Inr None
        | Some f \<Rightarrow>
            if \<not> plain_column al f then Inr None
            else bindE (get_raw_record_by_field st c f identity) (\<lambda>r.
              (case r of
                 None \<Rightarrow> Inr None
               | Some row \<Rightarrow>
                   if \<not> password_matches al password row then Inr None
                   else bindE (issue_token al now settings c row) (\<lambda>token.
                     bindE (auth_record al c schema row) (\<lambda>record. Inr (Some (token, record))))))))))"

definition auth_refresh ::
  "auth_lib \<Rightarrow> int \<Rightarrow> (pystr \<times> int) option \<Rightarrow> auth_state \<Rightarrow> acoll \<Rightarrow> pydict list \<Rightarrow> pydict \<Rightarrow> pyexn + (pystr \<times> pydict) option" where
  "auth_refresh al now settings st c schema payload =
     (if dict_get payload (lit ''refreshable'') = PBool False then Inr None
      else if \<not> truthy (dict_get payload (lit ''id'')) then Inr None
      else bindE (get_raw_record_by_id st c (dict_get payload (lit ''id''))) (\<lambda>r.
        (case r of
           None \<Rightarrow> Inr None
         | Some row \<Rightarrow>
             bindE (issue_token al now settings c row) (\<lambda>token.
             bindE (auth_record al c schema row) (\<lambda>record. Inr (Some (token, record)))))))"

text \<open>An admin token is decoded, marked and signed again; \<open>duration if duration else 1209600\<close>.\<close>

definition impersonation_token ::
  "auth_lib \<Rightarrow> int \<Rightarrow> (pystr \<times> int) option \<Rightarrow> acoll \<Rightarrow> pydict \<Rightarrow> int option \<Rightarrow> pyexn + pystr" where
  "impersonation_token al now settings c row duration =
     (if ac_name c = SUPERUSERS then
        bindE (create_admin_token al now row settings (Some c)) (\<lambda>token.
        (case al_peek al token of
           None \<Rightarrow> Inl ValueError
         | Some claims \<Rightarrow>
             bindE (get_collection_token_config c (lit ''authToken'')) (\<lambda>(auth_secret, _).
             bindE (str_add (dict_get_or row (lit ''token_key'') (PStr [])) auth_secret) (\<lambda>secret.
             create_token al now (dict_put claims (lit ''refreshable'') (PBool False)) secret
               (PInt (case duration of None \<Rightarrow> 1209600 | Some d \<Rightarrow> if d = 0 then 1209600 else d))))))
      else create_record_auth_token al now row c False duration)"

definition impersonate_auth_record ::
  "auth_lib \<Rightarrow> int \<Rightarrow> (pystr \<times> int) option \<Rightarrow> auth_state \<Rightarrow> acoll \<Rightarrow> pydict list \<Rightarrow> pystr \<Rightarrow> int option \<Rightarrow>
     pyexn + (pystr \<times> pydict) option" where
  "impersonate_auth_record al now settings st c schema rid duration =
     bindE (get_raw_record_by_id st c (PStr rid)) (\<lambda>r.
     (case r of
        None \<Rightarrow> Inr None
      | Some row \<Rightarrow>
          bindE (impersonation_token al now settings c row duration) (\<lambda>token.
          bindE (auth_record al c schema row) (\<lambda>record. Inr (Some (token, record))))))"

definition verify_record_auth_token :: "auth_lib \<Rightarrow> int \<Rightarrow> auth_state \<Rightarrow> acoll \<Rightarrow> pystr \<Rightarrow> pyexn + pydict option" where
  "verify_record_auth_token al now st c token =
     (case al_peek al token of
        None \<Rightarrow> Inr None
      | Some unverified \<Rightarrow>
          (let token_type = normalize_auth_token_type (dict_get unverified (lit ''type''))
           in if (if ac_name c = SUPERUSERS then token_type \<notin> {PStr (lit ''admin''), PStr (lit ''authRecord'')}
                  else token_type \<noteq> PStr (lit ''authRecord'')) then Inr None
           else if dict_get unverified (lit ''collectionId'') \<noteq> PStr (ac_id c) then Inr None
           else if \<not> truthy (dict_get unverified (lit ''id'')) then Inr None
           else bindE (get_raw_record_by_id st c (dict_get unverified (lit ''id''))) (\<lambda>r.
             (case r of
                None \<Rightarrow> Inr None
              | Some row \<Rightarrow>
                  bindE (get_collection_token_config c (lit ''authToken'')) (\<lambda>(auth_secret, _).
                  bindE (str_add (dict_get_or row (lit ''token_key'') (PStr [])) auth_secret) (\<lambda>secret.
                  Inr (map_option (\<lambda>payload. if dict_get payload (lit ''type'') \<noteq> PStr (lit ''admin'')
                         then dict_put payload (lit ''type'') token_type else payload) (al_decode al token secret now))))))))"

section \<open>One-time codes\<close>

definition same_owner :: "acoll \<Rightarrow> pystr \<Rightarrow> otp \<Rightarrow> bool" where
  "same_owner c rid q \<longleftrightarrow> ot_collection q = ac_id c \<and> ot_record q = rid"

definition recent :: "rat \<Rightarrow> otp \<Rightarrow> bool" where
  "recent since q = (case ot_created q of None \<Rightarrow> False | Some t \<Rightarrow> since \<le> t)"

definition older :: "rat \<Rightarrow> otp \<Rightarrow> bool" where
  "older since q = (case ot_created q of None \<Rightarrow> False | Some t \<Rightarrow> t < since)"

text \<open>The result is the identifier, whether the request was rate limited, and the mail.\<close>

definition request_otp ::
  "auth_lib \<Rightarrow> rat \<Rightarrow> pystr \<Rightarrow> pystr \<Rightarrow> acoll \<Rightarrow> pystr \<Rightarrow> auth_state \<Rightarrow>
     pyexn + (pystr \<times> bool \<times> (pystr \<times> pystr) option) \<times> auth_state" where
  "request_otp al now fresh_id code c email st =
     (let address = py_strip email
      in bindE (get_raw_record_by_field st c (lit ''email'') address) (\<lambda>r.
      (case r of
         None \<Rightarrow> Inr ((fresh_id, False, None), st)
       | Some row \<Rightarrow>
           bindE (otp_config al c) (\<lambda>(duration, len).
           bindE (row_item row ''id'') (\<lambda>rid.
           (case rid of
              PStr i \<Rightarrow>
                if list_ex (\<lambda>q. same_owner c i q \<and> ot_sent_to q = address \<and> recent (now - 60) q) (as_otps st)
                then Inr ((fresh_id, True, None), st)
                else Inr ((fresh_id, False, Some (address, code)),
                  st\<lparr>as_otps := filter (\<lambda>q. \<not> (same_owner c i q \<and> older (now - of_int duration) q)) (as_otps st) @
                    [\<lparr>ot_id = fresh_id, ot_created = Some now, ot_collection = ac_id c, ot_record = i,
                      ot_password = al_hashpw al code, ot_sent_to = address\<rparr>]\<rparr>)
            | _ \<Rightarrow> Inl DatabaseError))))))"

definition delete_otp :: "pystr \<Rightarrow> auth_state \<Rightarrow> auth_state" where
  "delete_otp otp_id st = st\<lparr>as_otps := filter (\<lambda>q. ot_id q \<noteq> otp_id) (as_otps st)\<rparr>"

text \<open>
  The first half of \<open>auth_with_otp\<close> reads and checks the code and the record; the second half consumes the code and issues
  the token.  Other requests can run between the halves.
\<close>

definition otp_expired :: "rat \<Rightarrow> int \<Rightarrow> otp \<Rightarrow> bool" where
  "otp_expired now duration q = (case ot_created q of None \<Rightarrow> True | Some t \<Rightarrow> now - t > of_int duration)"

definition otp_check ::
  "auth_lib \<Rightarrow> rat \<Rightarrow> acoll \<Rightarrow> pystr \<Rightarrow> pystr \<Rightarrow> auth_state \<Rightarrow> pyexn + pydict option \<times> auth_state" where
  "otp_check al now c otp_id password st =
     bindE (otp_config al c) (\<lambda>(duration, _).
     (case find (\<lambda>q. ot_id q = otp_id \<and> ot_collection q = ac_id c) (as_otps st) of
        None \<Rightarrow> Inr (None, st)
      | Some q \<Rightarrow>
          if otp_expired now duration q then Inr (None, delete_otp otp_id st)
          else if ot_password q = [] \<or> \<not> verify_password al password (ot_password q) then Inr (None, st)
          else bindE (get_raw_record_by_id st c (PStr (ot_record q))) (\<lambda>r. Inr (r, st))))"

definition otp_consume ::
  "auth_lib \<Rightarrow> rat \<Rightarrow> acoll \<Rightarrow> pydict list \<Rightarrow> pystr \<Rightarrow> pydict \<Rightarrow> auth_state \<Rightarrow> (pyexn + pystr \<times> pydict) \<times> auth_state" where
  "otp_consume al now c schema otp_id row st =
     (bindE (create_record_auth_token al \<lfloor>now\<rfloor> row c True None) (\<lambda>token.
      bindE (auth_record al c schema row) (\<lambda>record. Inr (token, record))), delete_otp otp_id st)"

definition auth_with_otp ::
  "auth_lib \<Rightarrow> rat \<Rightarrow> acoll \<Rightarrow> pydict list \<Rightarrow> pystr \<Rightarrow> pystr \<Rightarrow> auth_state \<Rightarrow> (pyexn + (pystr \<times> pydict) option) \<times> auth_state" where
  "auth_with_otp al now c schema otp_id password st =
     (case otp_check al now c otp_id password st of
        Inl e \<Rightarrow> (Inl e, st)
      | Inr (None, st') \<Rightarrow> (Inr None, st')
      | Inr (Some row, st') \<Rightarrow>
          (case otp_consume al now c schema otp_id row st' of (r, st'') \<Rightarrow> (bindE r (\<lambda>x. Inr (Some x)), st'')))"

section \<open>Mail flows\<close>

datatype flow_error = BadToken | PasswordMismatch | PasswordLength | BadCredentials | EmailRequired | EmailInvalid | EmailTaken

text \<open>\<open>row.get("token_key", "") + secret\<close>.\<close>

definition purpose_secret :: "acoll \<Rightarrow> string \<Rightarrow> pydict \<Rightarrow> pyexn + pystr \<times> pyval" where
  "purpose_secret c ty row =
     bindE (get_collection_token_config c (lit ty)) (\<lambda>(s, duration).
     bindE (str_add (dict_get_or row (lit ''token_key'') (PStr [])) s) (\<lambda>secret. Inr (secret, duration)))"

definition request_verification :: "auth_lib \<Rightarrow> int \<Rightarrow> acoll \<Rightarrow> pystr \<Rightarrow> auth_state \<Rightarrow> pyexn + (pystr \<times> pystr) option" where
  "request_verification al now c email st =
     bindE (get_raw_record_by_field st c (lit ''email'') email) (\<lambda>r.
     (case r of
        None \<Rightarrow> Inr None
      | Some row \<Rightarrow>
          if truthy (dict_get_or row (lit ''verified'') (PBool False)) then Inr None
          else bindE (purpose_secret c ''verificationToken'' row) (\<lambda>(secret, duration).
            bindE (row_item row ''id'') (\<lambda>rid.
            bindE (create_verification_token al now rid (ac_id c) (PStr email) secret duration) (\<lambda>token. Inr (Some (email, token)))))))"

definition request_password_reset :: "auth_lib \<Rightarrow> int \<Rightarrow> acoll \<Rightarrow> pystr \<Rightarrow> auth_state \<Rightarrow> pyexn + (pystr \<times> pystr) option" where
  "request_password_reset al now c email st =
     bindE (get_raw_record_by_field st c (lit ''email'') email) (\<lambda>r.
     (case r of
        None \<Rightarrow> Inr None
      | Some row \<Rightarrow>
          bindE (purpose_secret c ''passwordResetToken'' row) (\<lambda>(secret, duration).
          bindE (row_item row ''id'') (\<lambda>rid.
          bindE (create_password_reset_token al now rid (ac_id c) (PStr email) secret duration) (\<lambda>token. Inr (Some (email, token)))))))"

text \<open>
  The common part of the three confirmations: the record a token of the given type belongs to and its claims, when the token verifies
  under the record's current key and carries its current address.
\<close>

definition flow_record ::
  "auth_lib \<Rightarrow> int \<Rightarrow> acoll \<Rightarrow> string \<Rightarrow> string \<Rightarrow> pystr \<Rightarrow> auth_state \<Rightarrow> pyexn + (pyval \<times> pydict \<times> pydict) option" where
  "flow_record al now c ty cfg token st =
     (case al_peek al token of
        None \<Rightarrow> Inr None
      | Some unverified \<Rightarrow>
          if dict_get unverified (lit ''type'') \<noteq> PStr (lit ty) then Inr None
          else if \<not> truthy (dict_get unverified (lit ''id'')) then Inr None
          else bindE (get_raw_record_by_id st c (dict_get unverified (lit ''id''))) (\<lambda>r.
            (case r of
               None \<Rightarrow> Inr None
             | Some row \<Rightarrow>
                 bindE (purpose_secret c cfg row) (\<lambda>(secret, _).
                 (case verify_purpose_token al now token secret (lit ty) of
                    None \<Rightarrow> Inr None
                  | Some payload \<Rightarrow>
                      if dict_get payload (lit ''email'') \<noteq> dict_get row (lit ''email'') then Inr None
                      else Inr (Some (dict_get unverified (lit ''id''), row, payload)))))))"

definition confirm_verification :: "auth_lib \<Rightarrow> int \<Rightarrow> acoll \<Rightarrow> pystr \<Rightarrow> auth_state \<Rightarrow> pyexn + bool \<times> auth_state" where
  "confirm_verification al now c token st =
     bindE (flow_record al now c ''verification'' ''verificationToken'' token st) (\<lambda>found.
     (case found of
        None \<Rightarrow> Inr (False, st)
      | Some (rid, _, _) \<Rightarrow>
          bindE (update_record_columns c rid [(lit ''verified'', PBool True)] st) (\<lambda>st'. Inr (True, st'))))"

text \<open>
  \<open>confirm_password_reset\<close> reads and checks in one transaction and writes in another: \<open>reset_check\<close> gives the record the token may
  reset, \<open>reset_apply\<close> writes.  Other requests can run between the halves.
\<close>

definition reset_check ::
  "auth_lib \<Rightarrow> int \<Rightarrow> acoll \<Rightarrow> pystr \<Rightarrow> pystr \<Rightarrow> pystr \<Rightarrow> auth_state \<Rightarrow> pyexn + (flow_error + pyval)" where
  "reset_check al now c token password password_confirm st =
     (if password \<noteq> password_confirm then Inr (Inl PasswordMismatch)
      else if length password < 8 then Inr (Inl PasswordLength)
      else bindE (flow_record al now c ''passwordReset'' ''passwordResetToken'' token st) (\<lambda>found.
        (case found of None \<Rightarrow> Inr (Inl BadToken) | Some (rid, _, _) \<Rightarrow> Inr (Inr rid))))"

definition reset_apply :: "auth_lib \<Rightarrow> pystr \<Rightarrow> acoll \<Rightarrow> pyval \<Rightarrow> pystr \<Rightarrow> auth_state \<Rightarrow> pyexn + auth_state" where
  "reset_apply al fresh_key c rid password st =
     update_record_columns c rid [(lit ''password_hash'', PStr (al_hashpw al password)), (lit ''token_key'', PStr fresh_key)] st"

definition confirm_password_reset ::
  "auth_lib \<Rightarrow> int \<Rightarrow> pystr \<Rightarrow> acoll \<Rightarrow> pystr \<Rightarrow> pystr \<Rightarrow> pystr \<Rightarrow> auth_state \<Rightarrow> pyexn + flow_error option \<times> auth_state" where
  "confirm_password_reset al now fresh_key c token password password_confirm st =
     bindE (reset_check al now c token password password_confirm st) (\<lambda>checked.
     (case checked of
        Inl e \<Rightarrow> Inr (Some e, st)
      | Inr rid \<Rightarrow> bindE (reset_apply al fresh_key c rid password st) (\<lambda>st'. Inr (None, st'))))"

definition email_in_use :: "auth_state \<Rightarrow> acoll \<Rightarrow> pystr \<Rightarrow> pyval \<Rightarrow> pyexn + bool" where
  "email_in_use st c email rid =
     bindE (get_raw_record_by_field st c (lit ''email'') email) (\<lambda>dup.
     Inr (case dup of None \<Rightarrow> False | Some row \<Rightarrow> dict_get row (lit ''id'') \<noteq> rid))"

definition request_email_change ::
  "auth_lib \<Rightarrow> int \<Rightarrow> acoll \<Rightarrow> pystr \<Rightarrow> pystr \<Rightarrow> auth_state \<Rightarrow> pyexn + (flow_error + pystr \<times> pystr)" where
  "request_email_change al now c rid new_email st =
     bindE (get_raw_record_by_id st c (PStr rid)) (\<lambda>r.
     (case r of
        None \<Rightarrow> Inr (Inl BadToken)
      | Some row \<Rightarrow>
          (let address = py_strip new_email
           in if address = [] then Inr (Inl EmailRequired)
           else if \<not> email_re address then Inr (Inl EmailInvalid)
           else bindE (email_in_use st c address (PStr rid)) (\<lambda>taken.
             if taken then Inr (Inl EmailTaken)
             else bindE (purpose_secret c ''emailChangeToken'' row) (\<lambda>(secret, duration).
               bindE (row_item row ''id'') (\<lambda>i.
               bindE (create_email_change_token al now i (ac_id c) (dict_get_or row (lit ''email'') (PStr [])) (PStr address) secret duration)
                 (\<lambda>token. Inr (Inr (address, token)))))))))"

text \<open>\<open>confirm_email_change\<close> likewise: \<open>change_check\<close> gives the record and its new address, \<open>change_apply\<close> writes.\<close>

definition change_check :: "auth_lib \<Rightarrow> int \<Rightarrow> acoll \<Rightarrow> pystr \<Rightarrow> pystr \<Rightarrow> auth_state \<Rightarrow> pyexn + (flow_error + pyval \<times> pystr)" where
  "change_check al now c token password st =
     bindE (flow_record al now c ''emailChange'' ''emailChangeToken'' token st) (\<lambda>found.
     (case found of
        None \<Rightarrow> Inr (Inl BadToken)
      | Some (rid, row, payload) \<Rightarrow>
          (let new_email = py_strip (py_str (al_rt al) (dict_get_or payload (lit ''newEmail'') (PStr [])))
           in if new_email = [] \<or> \<not> email_re new_email then Inr (Inl BadToken)
           else if \<not> password_matches al password row then Inr (Inl BadCredentials)
           else bindE (email_in_use st c new_email rid) (\<lambda>taken.
             if taken then Inr (Inl EmailTaken) else Inr (Inr (rid, new_email))))))"

definition change_apply :: "pystr \<Rightarrow> acoll \<Rightarrow> pyval \<Rightarrow> pystr \<Rightarrow> auth_state \<Rightarrow> pyexn + auth_state" where
  "change_apply fresh_key c rid new_email st =
     update_record_columns c rid
       [(lit ''email'', PStr new_email), (lit ''verified'', PBool True), (lit ''token_key'', PStr fresh_key)] st"

definition confirm_email_change ::
  "auth_lib \<Rightarrow> int \<Rightarrow> pystr \<Rightarrow> acoll \<Rightarrow> pystr \<Rightarrow> pystr \<Rightarrow> auth_state \<Rightarrow> pyexn + flow_error option \<times> auth_state" where
  "confirm_email_change al now fresh_key c token password st =
     bindE (change_check al now c token password st) (\<lambda>checked.
     (case checked of
        Inl e \<Rightarrow> Inr (Some e, st)
      | Inr (rid, new_email) \<Rightarrow> bindE (change_apply fresh_key c rid new_email st) (\<lambda>st'. Inr (None, st'))))"

section \<open>Updates\<close>

lemma update_row_keep: "k \<notin> fst ` set updates \<Longrightarrow> dict_get (update_row updates r) k = dict_get r k"
  unfolding update_row_def by (induction updates arbitrary: r) auto

lemma update_row_other: "k \<notin> fst ` set updates \<Longrightarrow> map_of (update_row updates r) k = map_of r k"
  unfolding update_row_def by (induction updates arbitrary: r) auto

lemma update_row_set: "distinct (map fst updates) \<Longrightarrow> (k, v) \<in> set updates \<Longrightarrow> map_of (update_row updates r) k = Some v"
proof (induction updates arbitrary: r)
  case (Cons kv updates)
  then show ?case
  proof (cases "kv = (k, v)")
    case True
    then have "k \<notin> fst ` set updates" using Cons.prems(1) by simp
    then show ?thesis using True update_row_other[of k updates "dict_put r k v"] by (simp add: update_row_def)
  next
    case False
    then show ?thesis using Cons by (simp add: update_row_def case_prod_beta)
  qed
qed simp

lemma find_map_same: "(\<And>x. P (f x) = P x) \<Longrightarrow> find P (map f xs) = map_option f (find P xs)"
  by (induction xs) auto

lemma update_record_columnsD:
  assumes "update_record_columns c rid updates st = Inr st'" "lit ''id'' \<notin> fst ` set updates"
  obtains t where "ad_tables (as_db st) (ac_name c) = Some t" "lit ''id'' \<in> set (tb_columns t)"
    and "ad_tables (as_db st') (ac_name c) =
      Some (t\<lparr>tb_rows := map (\<lambda>r. if dict_get r (lit ''id'') = rid then update_row updates r else r) (tb_rows t)\<rparr>)"
    and "\<And>n. n \<noteq> ac_name c \<Longrightarrow> ad_tables (as_db st') n = ad_tables (as_db st) n"
    and "as_otps st' = as_otps st" "ad_collections (as_db st') = ad_collections (as_db st)"
  using assms by (auto simp: update_record_columns_def split: option.splits if_splits)

lemma update_record_columns_row:
  assumes "update_record_columns c rid updates st = Inr st'" "lit ''id'' \<notin> fst ` set updates"
    and "get_raw_record_by_id st c rid = Inr (Some row)"
  shows "get_raw_record_by_id st' c rid = Inr (Some (update_row updates row))"
proof -
  let ?f = "\<lambda>r. if dict_get r (lit ''id'') = rid then update_row updates r else r"
  obtain t where t: "ad_tables (as_db st) (ac_name c) = Some t" "lit ''id'' \<in> set (tb_columns t)"
    "ad_tables (as_db st') (ac_name c) = Some (t\<lparr>tb_rows := map ?f (tb_rows t)\<rparr>)"
    by (rule update_record_columnsD[OF assms(1,2)]) (rule that)
  have row: "find_row (lit ''id'') rid (tb_rows t) = Some row" "\<exists>x. rid = PStr x"
    using assms(3) t by (auto simp: get_raw_record_by_id_def select_row_def split: pyval.splits)
  have "find_row (lit ''id'') rid (map ?f (tb_rows t)) = map_option ?f (find_row (lit ''id'') rid (tb_rows t))"
    unfolding find_row_def by (rule find_map_same) (simp add: update_row_keep[OF assms(2)])
  then show ?thesis using t row find_row_value[OF row(1)] by (auto simp: get_raw_record_by_id_def select_row_def)
qed

section \<open>A reset token works once\<close>

lemma skip_cases:
  "(case x of None \<Rightarrow> Inr None | Some y \<Rightarrow> f y) = Inr (Some z) \<longleftrightarrow> (\<exists>y. x = Some y \<and> f y = Inr (Some z))"
  "(if b then Inr None else e) = Inr (Some z) \<longleftrightarrow> \<not> b \<and> e = Inr (Some z)"
  by (auto split: option.splits)

lemma refuse_cases:
  "(case x of None \<Rightarrow> Inr (Inl e) | Some y \<Rightarrow> f y) = Inr (Inr z) \<longleftrightarrow> (\<exists>y. x = Some y \<and> f y = Inr (Inr z))"
  "(if b then Inr (Inl e) else m) = Inr (Inr z) \<longleftrightarrow> \<not> b \<and> m = Inr (Inr z)"
  by (auto split: option.splits)

lemma flow_recordD:
  assumes "flow_record al now c ty cfg token st = Inr (Some (rid, row, payload))"
  obtains u secret dur where "al_peek al token = Some u" "dict_get u (lit ''type'') = PStr (lit ty)" "rid = dict_get u (lit ''id'')"
    and "truthy rid" "get_raw_record_by_id st c rid = Inr (Some row)" "purpose_secret c cfg row = Inr (secret, dur)"
    and "al_decode al token secret now = Some payload" "dict_get payload (lit ''email'') = dict_get row (lit ''email'')"
proof -
  obtain u row0 sd payload0 where f: "al_peek al token = Some u" "dict_get u (lit ''type'') = PStr (lit ty)" "truthy (dict_get u (lit ''id''))"
    "get_raw_record_by_id st c (dict_get u (lit ''id'')) = Inr (Some row0)" "purpose_secret c cfg row0 = Inr sd"
    "verify_purpose_token al now token (fst sd) (lit ty) = Some payload0" "dict_get payload0 (lit ''email'') = dict_get row0 (lit ''email'')"
    "rid = dict_get u (lit ''id'')" "row = row0" "payload = payload0"
    using assms unfolding flow_record_def skip_cases bindE_Inr_iff case_prod_beta by auto
  have "al_decode al token (fst sd) now = Some payload0"
    using f(6) by (auto simp: verify_purpose_token_def verify_token_def split: option.splits if_splits)
  then show thesis using that[of u "fst sd" "snd sd"] f by simp
qed

lemma purpose_secretD:
  assumes "purpose_secret c cfg row = Inr (secret, dur)"
  obtains s k where "get_collection_token_config c (lit cfg) = Inr (PStr s, dur)" "dict_get_or row (lit ''token_key'') (PStr []) = PStr k"
    and "secret = k @ s"
  using assms by (auto simp: purpose_secret_def res_simps str_add_iff)

lemma flow_record_revoked:
  assumes "jwt_laws al" "flow_record al now c ty cfg token st = Inr (Some (rid, row, payload))"
    and "update_record_columns c rid updates st = Inr st'" "lit ''id'' \<notin> fst ` set updates"
    and "distinct (map fst updates)" "(lit ''token_key'', PStr fresh) \<in> set updates"
    and "dict_get_or row (lit ''token_key'') (PStr []) \<noteq> PStr fresh"
  shows "flow_record al now' c ty cfg token st' = Inr None"
proof -
  obtain u secret dur where f: "al_peek al token = Some u" "dict_get u (lit ''type'') = PStr (lit ty)" "rid = dict_get u (lit ''id'')"
    "truthy rid" "get_raw_record_by_id st c rid = Inr (Some row)" "purpose_secret c cfg row = Inr (secret, dur)"
    "al_decode al token secret now = Some payload"
    by (rule flow_recordD[OF assms(2)])
  obtain s k where k: "get_collection_token_config c (lit cfg) = Inr (PStr s, dur)" "dict_get_or row (lit ''token_key'') (PStr []) = PStr k"
    "secret = k @ s"
    by (rule purpose_secretD[OF f(6)])
  have row': "get_raw_record_by_id st' c rid = Inr (Some (update_row updates row))"
    by (rule update_record_columns_row[OF assms(3,4) f(5)])
  have "purpose_secret c cfg (update_row updates row) = Inr (fresh @ s, dur)"
    using k(1) update_row_set[OF assms(5,6), of row] by (simp add: purpose_secret_def str_add_def dict_get_or_def)
  moreover have "al_decode al token (fresh @ s) now' = None"
    using jwt_lawsD(5)[OF assms(1) f(7)] k assms(7) by (metis append_same_eq not_Some_eq)
  ultimately show ?thesis using f(1-4) row' by (simp add: flow_record_def verify_purpose_token_def verify_token_def)
qed

text \<open>
  C19: A password-reset token works once: after a reset that succeeded, with a fresh key that differs from the old one, the same token
  is refused at any later time, whatever password comes with it, and the state stays as it is.
\<close>

theorem password_reset_once:
  assumes "jwt_laws al" "confirm_password_reset al now fresh c token password password st = Inr (None, st')"
    and "\<And>rid row. get_raw_record_by_id st c rid = Inr (Some row) \<Longrightarrow> dict_get_or row (lit ''token_key'') (PStr []) \<noteq> PStr fresh"
    and "8 \<le> length password'"
  shows "confirm_password_reset al now' fresh' c token password' password' st' = Inr (Some BadToken, st')"
proof -
  obtain rid row payload where flow: "flow_record al now c ''passwordReset'' ''passwordResetToken'' token st = Inr (Some (rid, row, payload))"
    and upd: "update_record_columns c rid [(lit ''password_hash'', PStr (al_hashpw al password)), (lit ''token_key'', PStr fresh)] st = Inr st'"
    using assms(2) by (auto simp: confirm_password_reset_def reset_check_def reset_apply_def res_simps split: if_splits option.splits sum.splits)
  have row: "get_raw_record_by_id st c rid = Inr (Some row)" by (rule flow_recordD[OF flow])
  have "flow_record al now' c ''passwordReset'' ''passwordResetToken'' token st' = Inr None"
    by (rule flow_record_revoked[OF assms(1) flow upd _ _ _ assms(3)[OF row]]) simp_all
  then show ?thesis using assms(4) by (simp add: confirm_password_reset_def reset_check_def)
qed

text \<open>
  Overlapping requests defeat this as well: once two of them have checked the token, the second write succeeds after the first.
\<close>

lemma update_record_columns_again:
  assumes "update_record_columns c rid updates st = Inr st'" "map fst updates' = map fst updates"
  shows "\<exists>st''. update_record_columns c rid updates' st' = Inr st''"
proof -
  have keys: "fst ` set updates' = fst ` set updates" using assms(2) by (metis list.set_map)
  show ?thesis using assms(1) by (auto simp: update_record_columns_def keys split: option.splits if_splits) force
qed

theorem reset_race:
  assumes "confirm_password_reset al now fresh c token password password st = Inr (None, st')"
    and "reset_check al now c token password' password' st = Inr (Inr rid)"
  shows "\<exists>st''. reset_apply al fresh' c rid password' st' = Inr st''"
proof -
  have "reset_apply al fresh c rid password st = Inr st'"
    using assms by (auto simp: confirm_password_reset_def reset_check_def res_simps split: if_splits option.splits sum.splits)
  then show ?thesis unfolding reset_apply_def by (rule update_record_columns_again) simp
qed

section \<open>One-time codes\<close>

lemma otp_checkD:
  assumes "otp_check al now c otp_id password st = Inr (Some row, st')"
  shows "st' = st" "is_ok (otp_config al c)"
  using assms by (auto simp: otp_check_def res_simps split: option.splits if_splits)

text \<open>
  A one-time code works once when requests do not overlap: after a login with it, the same identifier is refused.
\<close>

theorem otp_used_once:
  assumes "auth_with_otp al now c schema otp_id password st = (Inr (Some x), st')"
  shows "auth_with_otp al now' c schema' otp_id password' st' = (Inr None, st')"
proof -
  obtain row st1 where chk: "otp_check al now c otp_id password st = Inr (Some row, st1)" and st': "st' = delete_otp otp_id st1"
    using assms by (auto simp: auth_with_otp_def otp_consume_def split: sum.splits prod.splits option.splits)
  obtain cfg where "otp_config al c = Inr cfg" using otp_checkD(2)[OF chk] by (auto simp: is_ok_iff)
  moreover have "find (\<lambda>q. ot_id q = otp_id \<and> ot_collection q = ac_id c) (as_otps st') = None"
    by (auto simp: st' delete_otp_def find_None_iff)
  ultimately show ?thesis by (simp add: auth_with_otp_def otp_check_def case_prod_beta)
qed

text \<open>
  Overlapping requests defeat this: when two requests both read the code before either deletes it, both log in.
\<close>

theorem otp_race:
  assumes "auth_with_otp al now c schema otp_id password st = (Inr (Some x), st')"
  shows "\<exists>row. otp_check al now c otp_id password st = Inr (Some row, st) \<and>
     (let (r1, st1) = otp_consume al now c schema otp_id row st; (r2, st2) = otp_consume al now c schema otp_id row st1
      in r1 = Inr x \<and> r2 = Inr x)"
proof -
  obtain row st1 where chk: "otp_check al now c otp_id password st = Inr (Some row, st1)"
    and res: "fst (otp_consume al now c schema otp_id row st1) = Inr x"
    using assms by (auto simp: auth_with_otp_def res_simps split: sum.splits prod.splits option.splits)
  then show ?thesis using otp_checkD(1)[OF chk] by (auto simp: otp_consume_def Let_def)
qed

section \<open>Addresses stay unique\<close>

definition unique_accounts :: "auth_state \<Rightarrow> acoll \<Rightarrow> bool" where
  "unique_accounts st c \<longleftrightarrow>
     (\<exists>t. ad_tables (as_db st) (ac_name c) = Some t \<and> distinct (map (\<lambda>r. dict_get r (lit ''id'')) (tb_rows t)) \<and>
        distinct (map (\<lambda>r. dict_get r (lit ''email'')) (tb_rows t)))"

lemma distinct_map_update:
  assumes "distinct (map key xs)" "distinct (map val xs)" "\<And>x. key (f x) = key x"
    and "\<And>x. x \<in> set xs \<Longrightarrow> val (f x) = (if key x = k then v else val x)"
    and "\<And>x. x \<in> set xs \<Longrightarrow> key x \<noteq> k \<Longrightarrow> val x \<noteq> v"
  shows "distinct (map val (map f xs))"
  using assms(1,2,4,5)
proof (induction xs)
  case (Cons x xs)
  have "val (f x) \<noteq> val (f y)" if "y \<in> set xs" for y
  proof -
    have "key x \<noteq> key y" "val x \<noteq> val y" using Cons.prems(1,2) that by auto
    then show ?thesis using Cons.prems(3,4)[of x] Cons.prems(3,4)[of y] that by (auto split: if_splits)
  qed
  moreover have "distinct (map val (map f xs))" using Cons by simp
  ultimately show ?case by auto
qed simp

lemma email_free:
  assumes "email_in_use st c new rid = Inr False" "ad_tables (as_db st) (ac_name c) = Some t"
    and "distinct (map (\<lambda>r. dict_get r (lit ''email'')) (tb_rows t))"
    and "r \<in> set (tb_rows t)" "dict_get r (lit ''id'') \<noteq> rid"
  shows "dict_get r (lit ''email'') \<noteq> PStr new"
proof
  assume e: "dict_get r (lit ''email'') = PStr new"
  obtain d where d: "find_row (lit ''email'') (PStr new) (tb_rows t) = d" "d = None \<or> (\<exists>row. d = Some row \<and> dict_get row (lit ''id'') = rid)"
    using assms(1,2) by (auto simp: email_in_use_def get_raw_record_by_field_def select_row_def res_simps split: if_splits option.splits)
  then show False
  proof (cases d)
    case None
    then show False using d(1) e assms(4) by (auto simp: find_row_def find_None_iff)
  next
    case (Some row)
    then have "row \<in> set (tb_rows t)" "dict_get row (lit ''email'') = PStr new"
      using d(1) by (auto simp: find_row_def find_Some_iff in_set_conv_nth)
    then have "row = r" using e assms(3,4) by (auto simp: distinct_map inj_on_def)
    then show False using Some d(2) assms(5) by simp
  qed
qed

text \<open>
  C34: Confirming a change of address keeps the addresses of a collection unique, whatever token and password are presented.
\<close>

theorem email_change_keeps_unique:
  assumes "unique_accounts st c" "confirm_email_change al now fresh c token password st = Inr (r, st')"
  shows "unique_accounts st' c"
proof (cases "st' = st")
  case False
  obtain rid new where chk: "change_check al now c token password st = Inr (Inr (rid, new))"
    and upd: "update_record_columns c rid
      [(lit ''email'', PStr new), (lit ''verified'', PBool True), (lit ''token_key'', PStr fresh)] st = Inr st'"
    proof -
    obtain x where x: "change_check al now c token password st = Inr x" using assms(2) by (auto simp: confirm_email_change_def res_simps)
    then obtain rid new where "x = Inr (rid, new)" using assms(2) False by (cases x) (auto simp: confirm_email_change_def)
    then show thesis using that x assms(2) by (auto simp: confirm_email_change_def change_apply_def res_simps)
  qed
  have free: "email_in_use st c new rid = Inr False"
    using chk unfolding change_check_def Let_def refuse_cases bindE_Inr_iff case_prod_beta by auto
  let ?u = "[(lit ''email'', PStr new), (lit ''verified'', PBool True), (lit ''token_key'', PStr fresh)]"
  let ?f = "\<lambda>r. if dict_get r (lit ''id'') = rid then update_row ?u r else r"
  obtain t where t: "ad_tables (as_db st) (ac_name c) = Some t"
    "ad_tables (as_db st') (ac_name c) = Some (t\<lparr>tb_rows := map ?f (tb_rows t)\<rparr>)"
    by (rule update_record_columnsD[OF upd]) (simp, rule that)
  have d: "distinct (map (\<lambda>r. dict_get r (lit ''id'')) (tb_rows t))" "distinct (map (\<lambda>r. dict_get r (lit ''email'')) (tb_rows t))"
    using assms(1) t(1) by (auto simp: unique_accounts_def)
  have ids: "dict_get (?f r) (lit ''id'') = dict_get r (lit ''id'')" for r by (simp add: update_row_def)
  have emails: "dict_get (?f r) (lit ''email'') = (if dict_get r (lit ''id'') = rid then PStr new else dict_get r (lit ''email''))" for r
    by (simp add: update_row_def)
  have "distinct (map (\<lambda>r. dict_get r (lit ''email'')) (map ?f (tb_rows t)))"
    using distinct_map_update[where key = "\<lambda>r. dict_get r (lit ''id'')" and val = "\<lambda>r. dict_get r (lit ''email'')" and f = ?f
        and k = rid and v = "PStr new", OF d ids emails] email_free[OF free t(1) d(2)] by simp
  moreover have "distinct (map (\<lambda>r. dict_get r (lit ''id'')) (map ?f (tb_rows t)))"
    using d(1) ids by (simp add: comp_def)
  ultimately show ?thesis using t(2) by (auto simp: unique_accounts_def)
qed (use assms(1) in simp)

section \<open>Tokens of superusers\<close>

text \<open>
  A superuser's own token is never accepted by the check that \<open>auth-refresh\<close> and the e-mail change endpoints use, since admin tokens carry no
  collection: it answers \<open>None\<close> for every admin token, also for the collection \<open>_superusers\<close>.
\<close>

theorem admin_token_never_verifies:
  assumes "jwt_laws al" "create_admin_token al t0 row settings (Some su) = Inr token"
    and "json_scalar (dict_get_or row (lit ''id'') (PStr []))" "get_collection_token_config su (lit ''authToken'') = Inr (s, PInt d)"
  shows "verify_record_auth_token al now st c token = Inr None"
proof -
  let ?p = "[(lit ''id'', dict_get_or row (lit ''id'') (PStr [])), (lit ''type'', PStr (lit ''admin''))]"
  let ?c = "token_claims ?p t0 (PInt (t0 + d))"
  obtain secret where token: "token = al_encode al ?c secret"
    using assms(2,4) by (auto simp: create_admin_token_def create_token_int res_simps Let_def)
  have ok: "issuable ?p" using assms(3) by (simp add: issuable_def registered_claims_def)
  have "dict_get ?c (lit ''collectionId'') = PNone" by (simp add: dict_get_Cons)
  then show ?thesis by (simp add: verify_record_auth_token_def token jwt_lawsD(2)[OF assms(1) ok] Let_def)
qed

section \<open>Logging in\<close>

definition accounts_ok :: "auth_state \<Rightarrow> acoll \<Rightarrow> bool" where
  "accounts_ok st c \<longleftrightarrow>
     (\<exists>t. ad_tables (as_db st) (ac_name c) = Some t \<and> {lit ''id'', lit ''token_key''} \<subseteq> set (tb_columns t) \<and>
        distinct (map (\<lambda>r. dict_get r (lit ''id'')) (tb_rows t)) \<and>
        (\<forall>r \<in> set (tb_rows t). \<exists>i k. i \<noteq> [] \<and> map_of r (lit ''id'') = Some (PStr i) \<and> map_of r (lit ''token_key'') = Some (PStr k)))"

lemma find_row_unique:
  assumes "distinct (map (\<lambda>r. dict_get r c) rows)" "r \<in> set rows"
  shows "find_row c (dict_get r c) rows = Some r"
  using assms
proof (induction rows)
  case (Cons x rows)
  then show ?case by (cases "dict_get x c = dict_get r c") (auto simp: find_row_def)
qed simp

lemma accounts_okD:
  assumes "accounts_ok st c" "select_row (as_db st) (ac_name c) f v = Inr (Some row)"
  obtains i k where "i \<noteq> []" "map_of row (lit ''id'') = Some (PStr i)" "map_of row (lit ''token_key'') = Some (PStr k)"
    and "select_column (as_db st) (ac_name c) (lit ''token_key'') (PStr i) = Inr (Some (PStr k))"
proof -
  obtain t where t: "ad_tables (as_db st) (ac_name c) = Some t" "{lit ''id'', lit ''token_key''} \<subseteq> set (tb_columns t)"
    "distinct (map (\<lambda>r. dict_get r (lit ''id'')) (tb_rows t))"
    "\<forall>r \<in> set (tb_rows t). \<exists>i k. i \<noteq> [] \<and> map_of r (lit ''id'') = Some (PStr i) \<and> map_of r (lit ''token_key'') = Some (PStr k)"
    using assms(1) unfolding accounts_ok_def by auto
  have row: "row \<in> set (tb_rows t)"
    using assms(2) t(1) by (auto simp: select_row_def find_row_def find_Some_iff in_set_conv_nth split: if_splits pyval.splits)
  then obtain i k where ik: "i \<noteq> []" "map_of row (lit ''id'') = Some (PStr i)" "map_of row (lit ''token_key'') = Some (PStr k)"
    using t(4) by blast
  have "find_row (lit ''id'') (PStr i) (tb_rows t) = Some row"
    using find_row_unique[OF t(3) row] ik(2) by (simp add: dict_get_def)
  then show thesis using that ik t(1,2) by (simp add: select_column_def select_row_def dict_get_def)
qed

lemma auth_with_passwordD:
  assumes "auth_with_password al now settings st c schema identity password field = Inr (Some (token, record))"
  obtains f row where "get_raw_record_by_field st c f identity = Inr (Some row)" "password_matches al password row"
    and "issue_token al now settings c row = Inr token"
  using assms unfolding auth_with_password_def skip_cases bindE_Inr_iff by auto

text \<open>
  C33: A successful login has found a record by an identity column and matched its password, and the token it returns authenticates
  requests as that record for the lifetime configured for the collection.
\<close>

theorem login_round_trip:
  assumes "jwt_laws al"
    and "auth_with_password al t0 settings st c schema identity password field = Inr (Some (token, record))"
    and "ac_name c \<noteq> SUPERUSERS" "get_collection_token_config c (lit ''authToken'') = Inr (PStr s, PInt d)" "1 \<le> d"
    and "collection_by_id (as_db st) (PStr (ac_id c)) = Inr (Some c)" "ac_id c \<noteq> []" "accounts_ok st c"
    and "bearer al header = token" "t0 \<le> now" "now < t0 + d"
  shows "\<exists>f row p. get_raw_record_by_field st c f identity = Inr (Some row) \<and> password_matches al password row \<and>
     get_optional_auth al now jwt_secret (as_db st) header = Inr (Some p) \<and> dict_get p (lit ''id'') = dict_get row (lit ''id'')"
proof -
  obtain f row where row: "get_raw_record_by_field st c f identity = Inr (Some row)" "password_matches al password row"
    and token: "issue_token al t0 settings c row = Inr token"
    by (rule auth_with_passwordD[OF assms(2)])
  obtain i k where ik: "i \<noteq> []" "map_of row (lit ''id'') = Some (PStr i)" "map_of row (lit ''token_key'') = Some (PStr k)"
    "select_column (as_db st) (ac_name c) (lit ''token_key'') (PStr i) = Inr (Some (PStr k))"
    by (rule accounts_okD[OF assms(8) row(1)[unfolded get_raw_record_by_field_def]])
  have tok: "create_record_auth_token al t0 row c True None = Inr token" using token assms(3) by (simp add: issue_token_def)
  have "get_optional_auth al now jwt_secret (as_db st) header =
      Inr (Some (token_claims (record_payload i (ac_id c) True) t0 (PInt (t0 + d))))"
    using record_token_accepted[OF assms(1) ik(2,3) assms(4,5) tok assms(9) ik(1) assms(7) assms(6) assms(4) ik(4), of now jwt_secret]
      assms(10,11) by simp
  moreover have "dict_get (token_claims (record_payload i (ac_id c) True) t0 (PInt (t0 + d))) (lit ''id'') = dict_get row (lit ''id'')"
    using ik(2) by (simp add: record_payload_def dict_get_Cons) (simp add: dict_get_def)
  ultimately show ?thesis using row by blast
qed

section \<open>Witnesses\<close>

definition sample_account :: pydict where
  "sample_account =
     [(lit ''id'', PStr (lit ''r1'')), (lit ''email'', PStr (lit ''a@b.c'')), (lit ''verified'', PBool False),
      (lit ''token_key'', PStr (lit ''key'')), (lit ''password_hash'', PStr (lit ''password1''))]"

definition sample_state :: auth_state where
  "sample_state =
     \<lparr>as_db = \<lparr>ad_collections = [sample_users_coll],
        ad_tables = [lit ''users'' \<mapsto>
          \<lparr>tb_columns = map lit [''id'', ''email'', ''verified'', ''token_key'', ''password_hash''], tb_rows = [sample_account]\<rparr>]\<rparr>,
      as_otps = [\<lparr>ot_id = lit ''o1'', ot_created = Some 100, ot_collection = lit ''c1'', ot_record = lit ''r1'',
        ot_password = lit ''12345678'', ot_sent_to = lit ''a@b.c''\<rparr>]\<rparr>"

lemma users_coll [simp]: "ac_id sample_users_coll = lit ''c1''" "ac_name sample_users_coll = lit ''users''"
  by (simp_all add: sample_users_coll_def)

lemma sample_by_id: "get_raw_record_by_id sample_state sample_users_coll v = Inr (Some row) \<Longrightarrow> row = sample_account"
  by (auto simp: get_raw_record_by_id_def select_row_def sample_state_def find_row_def split: pyval.splits if_splits)

lemma sample_by_id_r1: "get_raw_record_by_id sample_state sample_users_coll (PStr (lit ''r1'')) = Inr (Some sample_account)"
  by (simp add: get_raw_record_by_id_def select_row_def sample_state_def find_row_def sample_account_def dict_get_Cons)

lemma sample_reset_config:
  "get_collection_token_config sample_users_coll (lit ''passwordResetToken'') = Inr (PStr (lit ''secret'' @ [49]), PInt 1800)"
  by (simp add: get_collection_token_config_def sample_users_coll_def generate_default_auth_options_def token_option_def
      as_mapping_def py_or_def dict_get_or_def)

definition reset_payload :: pydict where
  "reset_payload =
     [(lit ''id'', PStr (lit ''r1'')), (lit ''collectionId'', PStr (lit ''c1'')), (lit ''email'', PStr (lit ''a@b.c'')),
      (lit ''type'', PStr (lit ''passwordReset''))]"

definition reset_claims :: pydict where
  "reset_claims = token_claims reset_payload 100 (PInt (100 + 1800))"

lemma reset_issuable: "issuable reset_payload"
  by (simp add: reset_payload_def issuable_def registered_claims_def)

abbreviation reset_token :: pystr where
  "reset_token \<equiv> al_encode sample_al reset_claims (lit ''key'' @ lit ''secret'' @ [49])"

lemma reset_claims_get:
  "dict_get reset_claims (lit ''type'') = PStr (lit ''passwordReset'')" "dict_get reset_claims (lit ''id'') = PStr (lit ''r1'')"
  "dict_get reset_claims (lit ''email'') = PStr (lit ''a@b.c'')"
  by (simp_all add: reset_claims_def reset_payload_def dict_get_Cons)

lemma sample_reset_flow:
  "flow_record sample_al 200 sample_users_coll ''passwordReset'' ''passwordResetToken'' reset_token sample_state =
     Inr (Some (PStr (lit ''r1''), sample_account, reset_claims))"
proof -
  have peek: "al_peek sample_al reset_token = Some reset_claims"
    unfolding reset_claims_def by (rule jwt_lawsD(2)[OF sample_al_laws reset_issuable])
  have dec: "al_decode sample_al reset_token (lit ''key'' @ lit ''secret'' @ [49]) 200 = Some reset_claims"
    unfolding reset_claims_def jwt_lawsD(4)[OF sample_al_laws reset_issuable] by simp
  have key: "purpose_secret sample_users_coll ''passwordResetToken'' sample_account = Inr (lit ''key'' @ lit ''secret'' @ [49], PInt 1800)"
    by (simp add: purpose_secret_def sample_reset_config str_add_def sample_account_def dict_get_or_def)
  have "dict_get sample_account (lit ''email'') = PStr (lit ''a@b.c'')" by (simp add: sample_account_def dict_get_Cons)
  then show ?thesis
    by (simp add: flow_record_def peek reset_claims_get sample_by_id_r1 key verify_purpose_token_def verify_token_def dec)
qed

definition after_reset :: auth_state where
  "after_reset =
     (case confirm_password_reset sample_al 200 (lit ''new'') sample_users_coll reset_token (lit ''password2'') (lit ''password2'') sample_state of
        Inr (_, st) \<Rightarrow> st | Inl _ \<Rightarrow> sample_state)"

lemma sample_reset:
  "confirm_password_reset sample_al 200 (lit ''new'') sample_users_coll reset_token (lit ''password2'') (lit ''password2'') sample_state =
     Inr (None, after_reset)"
  unfolding after_reset_def
  by (simp add: confirm_password_reset_def reset_check_def sample_reset_flow) (simp add: reset_apply_def update_record_columns_def sample_state_def)

theorem password_reset_once_witness:
  "confirm_password_reset sample_al 300 (lit ''newer'') sample_users_coll reset_token (lit ''password3'') (lit ''password3'') after_reset =
     Inr (Some BadToken, after_reset)"
  by (rule password_reset_once[OF sample_al_laws sample_reset])
    (auto dest!: sample_by_id simp: sample_account_def dict_get_or_def)

lemma sample_otp_config: "otp_config sample_al sample_users_coll = Inr (180, 8)"
  by (simp add: otp_config_def options_dict_def sample_users_coll_def generate_default_auth_options_def as_mapping_def py_or_def
      dict_get_or_def otp_int_def)

lemma sample_otp:
  "\<exists>x st'. auth_with_otp sample_al 150 sample_users_coll [] (lit ''o1'') (lit ''12345678'') sample_state = (Inr (Some x), st')"
proof -
  have chk: "otp_check sample_al 150 sample_users_coll (lit ''o1'') (lit ''12345678'') sample_state = Inr (Some sample_account, sample_state)"
  proof -
    obtain q where q: "as_otps sample_state = [q]" "ot_id q = lit ''o1''" "ot_collection q = lit ''c1''" "ot_record q = lit ''r1''"
      "ot_created q = Some 100" "ot_password q = lit ''12345678''"
      by (simp add: sample_state_def)
    have "verify_password sample_al (lit ''12345678'') (lit ''12345678'')" by (simp add: verify_password_def sample_al_def)
    then show ?thesis by (simp add: otp_check_def sample_otp_config otp_expired_def q sample_by_id_r1)
  qed
  have tok: "\<exists>t. create_record_auth_token sample_al 150 sample_account sample_users_coll True None = Inr t"
    using create_record_auth_token_int[of sample_account "lit ''r1''" "lit ''key''" sample_users_coll "lit ''secret'' @ [48]" 604800]
    by (simp add: sample_account_def)
  have "\<exists>r. auth_record sample_al sample_users_coll [] sample_account = Inr r"
    by (simp add: auth_record_def build_record_response_def system_fields_def format_datetime_def sample_account_def dict_get_Cons
        auth_options_def)
  with tok show ?thesis by (auto simp: auth_with_otp_def chk otp_consume_def)
qed

theorem otp_used_once_witness:
  "\<exists>x st'. auth_with_otp sample_al 150 sample_users_coll [] (lit ''o1'') (lit ''12345678'') sample_state = (Inr (Some x), st') \<and>
     auth_with_otp sample_al 151 sample_users_coll [] (lit ''o1'') (lit ''12345678'') st' = (Inr None, st')"
  using sample_otp otp_used_once by blast

theorem otp_race_witness:
  "\<exists>row x. otp_check sample_al 150 sample_users_coll (lit ''o1'') (lit ''12345678'') sample_state = Inr (Some row, sample_state) \<and>
     (let (r1, st1) = otp_consume sample_al 150 sample_users_coll [] (lit ''o1'') row sample_state;
          (r2, st2) = otp_consume sample_al 150 sample_users_coll [] (lit ''o1'') row st1
      in r1 = Inr x \<and> r2 = Inr x)"
  using sample_otp otp_race by blast

lemma sample_unique: "unique_accounts sample_state sample_users_coll"
  by (simp add: unique_accounts_def sample_state_def)

definition change_payload :: pydict where
  "change_payload =
     [(lit ''id'', PStr (lit ''r1'')), (lit ''collectionId'', PStr (lit ''c1'')), (lit ''email'', PStr (lit ''a@b.c'')),
      (lit ''newEmail'', PStr (lit ''n@b.c'')), (lit ''type'', PStr (lit ''emailChange''))]"

definition change_claims :: pydict where
  "change_claims = token_claims change_payload 100 (PInt (100 + 1800))"

lemma change_issuable: "issuable change_payload"
  by (simp add: change_payload_def issuable_def registered_claims_def)

abbreviation change_token :: pystr where
  "change_token \<equiv> al_encode sample_al change_claims (lit ''key'' @ lit ''secret'' @ [51])"

lemma change_claims_get:
  "dict_get change_claims (lit ''type'') = PStr (lit ''emailChange'')" "dict_get change_claims (lit ''id'') = PStr (lit ''r1'')"
  "dict_get change_claims (lit ''email'') = PStr (lit ''a@b.c'')" "map_of change_claims (lit ''newEmail'') = Some (PStr (lit ''n@b.c''))"
  by (simp_all add: change_claims_def change_payload_def dict_get_Cons) (simp add: token_claims_def)

lemma sample_change_flow:
  "flow_record sample_al 200 sample_users_coll ''emailChange'' ''emailChangeToken'' change_token sample_state =
     Inr (Some (PStr (lit ''r1''), sample_account, change_claims))"
proof -
  have peek: "al_peek sample_al change_token = Some change_claims"
    unfolding change_claims_def by (rule jwt_lawsD(2)[OF sample_al_laws change_issuable])
  have dec: "al_decode sample_al change_token (lit ''key'' @ lit ''secret'' @ [51]) 200 = Some change_claims"
    unfolding change_claims_def jwt_lawsD(4)[OF sample_al_laws change_issuable] by simp
  have cfg: "get_collection_token_config sample_users_coll (lit ''emailChangeToken'') = Inr (PStr (lit ''secret'' @ [51]), PInt 1800)"
    by (simp add: get_collection_token_config_def sample_users_coll_def generate_default_auth_options_def token_option_def
        as_mapping_def py_or_def dict_get_or_def)
  have key: "purpose_secret sample_users_coll ''emailChangeToken'' sample_account = Inr (lit ''key'' @ lit ''secret'' @ [51], PInt 1800)"
    by (simp add: purpose_secret_def cfg str_add_def sample_account_def dict_get_or_def)
  have "dict_get sample_account (lit ''email'') = PStr (lit ''a@b.c'')" by (simp add: sample_account_def dict_get_Cons)
  then show ?thesis
    by (simp add: flow_record_def peek change_claims_get sample_by_id_r1 key verify_purpose_token_def verify_token_def dec)
qed

definition after_change :: auth_state where
  "after_change =
     (case confirm_email_change sample_al 200 (lit ''new'') sample_users_coll change_token (lit ''password1'') sample_state of
        Inr (_, st) \<Rightarrow> st | Inl _ \<Rightarrow> sample_state)"

lemma sample_change:
  "confirm_email_change sample_al 200 (lit ''new'') sample_users_coll change_token (lit ''password1'') sample_state = Inr (None, after_change)"
proof -
  have mail: "py_strip (lit ''n@b.c'') = lit ''n@b.c''" "email_re (lit ''n@b.c'')"
    by (simp_all add: lit_def py_strip_def is_space_def email_re_def)
  have pw: "password_matches sample_al (lit ''password1'') sample_account"
    by (simp add: password_matches_def sample_account_def dict_get_or_def verify_password_def sample_al_def)
  have free: "email_in_use sample_state sample_users_coll (lit ''n@b.c'') (PStr (lit ''r1'')) = Inr False"
    by (simp add: email_in_use_def get_raw_record_by_field_def select_row_def sample_state_def find_row_def sample_account_def dict_get_Cons)
  show ?thesis
    unfolding after_change_def
    by (simp add: confirm_email_change_def change_check_def sample_change_flow dict_get_or_def change_claims_get mail pw free)
      (simp add: change_apply_def update_record_columns_def sample_state_def)
qed

theorem email_change_keeps_unique_witness: "unique_accounts after_change sample_users_coll"
  by (rule email_change_keeps_unique[OF sample_unique sample_change])

theorem admin_token_never_verifies_witness:
  "verify_record_auth_token sample_al 200 sample_state \<lparr>ac_id = lit ''su'', ac_name = SUPERUSERS, ac_options = PNone\<rparr>
     (al_encode sample_al (token_claims [(lit ''id'', PStr (lit ''r1'')), (lit ''type'', PStr (lit ''admin''))] 100 (PInt 604900)) (lit ''key'')) = Inr None"
  by (rule admin_token_never_verifies[OF sample_al_laws, where row = sample_account and settings = None and ?t0.0 = 100
        and su = "\<lparr>ac_id = lit ''su'', ac_name = SUPERUSERS, ac_options = PNone\<rparr>"])
    (simp_all add: create_admin_token_def sample_account_def dict_get_or_def get_collection_token_config_def py_or_def as_mapping_def
      str_add_def create_token_int default_duration_def)

abbreviation login_token :: pystr where
  "login_token \<equiv>
     al_encode sample_al (token_claims (record_payload (lit ''r1'') (lit ''c1'') True) 100 (PInt 604900)) (lit ''key'' @ lit ''secret'' @ [48])"

lemma sample_login:
  "\<exists>r. auth_with_password sample_al 100 None sample_state sample_users_coll [] (lit ''a@b.c'') (lit ''password1'') None = Inr (Some (login_token, r))"
proof -
  have cfg: "is_password_auth_enabled sample_users_coll = Inr True" "get_identity_fields sample_users_coll = Inr (PList [PStr (lit ''email'')])"
    by (simp_all add: is_password_auth_enabled_def get_identity_fields_def options_dict_def sample_users_coll_def
        generate_default_auth_options_def as_mapping_def py_or_def dict_get_or_def)
  have col: "identity_column sample_al (PList [PStr (lit ''email'')]) None = Inr (Some (lit ''email''))" "plain_column sample_al (lit ''email'')"
    by (simp_all add: identity_column_def py_or_def plain_column_def sample_al_def sample_rt_def lit_def ascii_alpha_def)
  have row: "get_raw_record_by_field sample_state sample_users_coll (lit ''email'') (lit ''a@b.c'') = Inr (Some sample_account)"
    by (simp add: get_raw_record_by_field_def select_row_def sample_state_def find_row_def sample_account_def dict_get_Cons)
  have pw: "password_matches sample_al (lit ''password1'') sample_account"
    by (simp add: password_matches_def sample_account_def dict_get_or_def verify_password_def sample_al_def)
  have tok: "issue_token sample_al 100 None sample_users_coll sample_account = Inr login_token"
    using create_record_auth_token_int[of sample_account "lit ''r1''" "lit ''key''" sample_users_coll "lit ''secret'' @ [48]" 604800]
    by (simp add: sample_account_def issue_token_def SUPERUSERS_def)
  have "\<exists>r. auth_record sample_al sample_users_coll [] sample_account = Inr r"
    by (simp add: auth_record_def build_record_response_def system_fields_def format_datetime_def sample_account_def dict_get_Cons
        auth_options_def)
  with tok show ?thesis by (auto simp: auth_with_password_def cfg col row pw)
qed

lemma sample_accounts_ok: "accounts_ok sample_state sample_users_coll"
  by (simp add: accounts_ok_def sample_state_def sample_account_def)

theorem login_round_trip_witness:
  "\<exists>p. get_optional_auth sample_al 200 [] (as_db sample_state) login_token = Inr (Some p)"
proof -
  obtain r where x: "auth_with_password sample_al 100 None sample_state sample_users_coll [] (lit ''a@b.c'') (lit ''password1'') None =
      Inr (Some (login_token, r))"
    using sample_login by blast
  have coll: "collection_by_id (as_db sample_state) (PStr (ac_id sample_users_coll)) = Inr (Some sample_users_coll)"
    by (simp add: collection_by_id_def sample_state_def)
  have "\<exists>f row p. get_raw_record_by_field sample_state sample_users_coll f (lit ''a@b.c'') = Inr (Some row) \<and>
      password_matches sample_al (lit ''password1'') row \<and>
      get_optional_auth sample_al 200 [] (as_db sample_state) login_token = Inr (Some p) \<and> dict_get p (lit ''id'') = dict_get row (lit ''id'')"
    by (rule login_round_trip[OF sample_al_laws x _ sample_config(2) _ coll _ sample_accounts_ok sample_bearer]) (simp_all add: SUPERUSERS_def)
  then show ?thesis by blast
qed

end
