(* ===== verification/Record_Store.thy ===== *)
theory Record_Store
  imports Storage_Safety Record_Response Field_Types
begin

text \<open>
  Model of the record operations of \<open>ppbase/services/record_service.py\<close>: create, update with its field modifiers and uploads, delete
  with cascades, and the calls of \<open>save_files\<close> and \<open>delete_files\<close> of \<open>ppbase/services/file_storage.py\<close> they make.

  \<^item> The state holds the rows of each table, the stored files as triples of collection, record and name, and the notifications sent.
  \<^item> An operation returns its result and the state it leaves, also when it raises.
  \<^item> The end of each write transaction is an argument, by table and record: committed, rolled back, or an exception after the last statement with the
    transaction applied or lost.
  \<^item> The candidates for generated file names, the failing writes, fresh keys, password hashing, MIME guessing and float arithmetic are
    arguments.  Directories, symbolic links, thumbnails, the S3 backend and the
    deferred deletions of a record transaction are not modelled.
  \<^item> The schema is given both as raw dicts and as the parsed field definitions that pydantic builds from them.
\<close>

section \<open>State\<close>

datatype commit_outcome = Committed | RolledBack | AmbiguousApplied | AmbiguousLost

datatype rec_code =
    FieldCode field_code | Required | LengthOutOfRange | ValuesMismatch | BadEmail | NotUnique | InvalidRecordId | MaxSizeConstraint | InvalidMimeType

type_synonym rec_errors = "(pystr \<times> rec_code) list"

datatype rec_exn = ValidationErrors rec_errors | UnsafeStorage | RaisedPy pyexn | OsFailure

record store =
  st_tables :: "pystr \<rightharpoonup> pydict list"
  st_files :: "(pystr \<times> pystr \<times> pystr) set"
  st_notified :: "(pystr \<times> pystr \<times> pystr) list"

record rcoll =
  rl_id :: pystr
  rl_name :: pystr
  rl_type :: pystr
  rl_schema :: "pydict list"
  rl_fields :: "field_definition list"

record store_env =
  se_rt :: py_runtime
  se_hash :: "pystr \<Rightarrow> pystr"
  se_key :: pystr
  se_id :: pystr
  se_now :: pydt
  se_fadd :: "pyfloat \<Rightarrow> pyfloat \<Rightarrow> pyfloat"
  se_fsub :: "pyfloat \<Rightarrow> pyfloat \<Rightarrow> pyfloat"
  se_guess_mime :: "pystr \<Rightarrow> pystr option"
  se_names :: "pystr \<Rightarrow> nat \<Rightarrow> nat \<Rightarrow> pystr"
  se_io_fail :: "pystr \<Rightarrow> nat \<Rightarrow> bool"
  se_commit :: "pystr \<Rightarrow> pystr \<Rightarrow> commit_outcome"

type_synonym 'a rec_result = "(rec_exn + 'a) \<times> store"

type_synonym upload = "(pystr \<times> nat list) list"

section \<open>Stored files\<close>

definition file_keys :: "pystr \<Rightarrow> pystr \<Rightarrow> pystr list \<Rightarrow> (pystr \<times> pystr \<times> pystr) set" where
  "file_keys cid rid names = (\<lambda>n. (cid, rid, n)) ` set names"

text \<open>A name is tried up to twenty times; a file is written only when the name is free.\<close>

fun free_name :: "(nat \<Rightarrow> pystr) \<Rightarrow> (pystr \<Rightarrow> bool) \<Rightarrow> nat \<Rightarrow> nat \<Rightarrow> pystr option" where
  "free_name gen taken attempt 0 = None"
| "free_name gen taken attempt (Suc n) = (if taken (gen attempt) then free_name gen taken (Suc attempt) n else Some (gen attempt))"

fun save_loop ::
  "store_env \<Rightarrow> pystr \<Rightarrow> pystr \<Rightarrow> pystr \<Rightarrow> bool \<Rightarrow> nat \<Rightarrow> upload \<Rightarrow> pystr list \<Rightarrow> store \<Rightarrow> pystr list rec_result" where
  "save_loop env cid rid field single i [] saved st = (Inr saved, st)"
| "save_loop env cid rid field single i (f # fs) saved st =
     (let undo = st\<lparr>st_files := st_files st - file_keys cid rid saved\<rparr>
      in if se_io_fail env field i then (Inl OsFailure, undo)
      else (case free_name (se_names env field i) (\<lambda>n. (cid, rid, n) \<in> st_files st) 0 20 of
              None \<Rightarrow> (Inl (RaisedPy RuntimeError), undo)
            | Some n \<Rightarrow>
                (let st' = st\<lparr>st_files := insert (cid, rid, n) (st_files st)\<rparr>
                 in if single then (Inr (saved @ [n]), st')
                 else save_loop env cid rid field single (Suc i) fs (saved @ [n]) st')))"

text \<open>The ids that name the record's directory pass the storage checks.\<close>

definition storage_location :: "pystr \<Rightarrow> pystr \<Rightarrow> bool" where
  "storage_location cid rid = (validate_collection_id (PStr cid) = Inr cid \<and> validate_record_id (PStr rid) = Inr rid)"

definition save_files :: "store_env \<Rightarrow> pystr \<Rightarrow> pystr \<Rightarrow> pystr \<Rightarrow> upload \<Rightarrow> bool \<Rightarrow> store \<Rightarrow> pystr list rec_result" where
  "save_files env cid rid field fs single st =
     (if fs = [] then (Inr [], st)
      else if \<not> storage_location cid rid then (Inl UnsafeStorage, st)
      else save_loop env cid rid field single 0 fs [] st)"

text \<open>\<open>delete_files\<close> refuses the whole batch when a name is unsafe.\<close>

definition delete_files :: "store_env \<Rightarrow> pystr \<Rightarrow> pystr \<Rightarrow> pyval list \<Rightarrow> store \<Rightarrow> unit rec_result" where
  "delete_files env cid rid names st =
     (if names = [] then (Inr (), st)
      else if \<not> storage_location cid rid then (Inl UnsafeStorage, st)
      else (case deletable_file_references (se_rt env) names of
              Inl _ \<Rightarrow> (Inl UnsafeStorage, st)
            | Inr ns \<Rightarrow> (Inr (), st\<lparr>st_files := st_files st - file_keys cid rid ns\<rparr>)))"

text \<open>Errors of the cleanup are logged and dropped.\<close>

definition cleanup_new_storage_files :: "store_env \<Rightarrow> pystr \<Rightarrow> pystr \<Rightarrow> pystr list \<Rightarrow> store \<Rightarrow> store" where
  "cleanup_new_storage_files env cid rid names st = snd (delete_files env cid rid (map PStr names) st)"

section \<open>Upload constraints\<close>

definition matches_mime_pattern :: "py_runtime \<Rightarrow> pystr \<Rightarrow> pyval \<Rightarrow> bool" where
  "matches_mime_pattern rt mime_type pattern =
     (let candidate = rt_lower rt (py_strip mime_type); rule = rt_lower rt (py_strip (py_str rt (py_or pattern (PStr []))))
      in if candidate = [] \<or> rule = [] then False
      else if 2 \<le> length rule \<and> drop (length rule - 2) rule = lit ''/*''
      then take (length rule - 1) candidate = take (length rule - 1) rule
      else candidate = rule)"

definition size_limit :: "py_runtime \<Rightarrow> field_definition \<Rightarrow> int" where
  "size_limit rt fd =
     (let v = opt fd ''maxSize'' in if is_none_blank_zero v then 0 else (case py_int rt v of Inl _ \<Rightarrow> 0 | Inr n \<Rightarrow> n))"

definition validate_uploaded_file_constraints :: "store_env \<Rightarrow> field_definition \<Rightarrow> pystr \<Rightarrow> nat list \<Rightarrow> rec_code option" where
  "validate_uploaded_file_constraints env fd name content =
     (if 0 < size_limit (se_rt env) fd \<and> size_limit (se_rt env) fd < int (length content) then Some MaxSizeConstraint
      else (case opt fd ''mimeTypes'' of
              PList patterns \<Rightarrow>
                if patterns = [] then None
                else (let mime = rt_lower (se_rt env) (case se_guess_mime env name of None \<Rightarrow> lit ''application/octet-stream'' | Some m \<Rightarrow>
                            if m = [] then lit ''application/octet-stream'' else m)
                      in if list_ex (matches_mime_pattern (se_rt env) mime) patterns then None else Some InvalidMimeType)
            | _ \<Rightarrow> None))"

text \<open>\<open>max_select == 1\<close> for \<open>options.get("maxSelect", 1) or 1\<close>.\<close>

definition single_file :: "field_definition \<Rightarrow> bool" where
  "single_file fd = (num_val (max_select fd) = Some (FFin 1))"

definition find_field :: "rcoll \<Rightarrow> pystr \<Rightarrow> field_definition option" where
  "find_field c name = map_of (rev (map (\<lambda>f. (fd_name f, f)) (rl_fields c))) name"

definition put_error :: "rec_errors \<Rightarrow> pystr \<Rightarrow> rec_code \<Rightarrow> rec_errors" where
  "put_error errs k e = AList.update k e errs"

text \<open>All files of an upload are checked; the last error of a field is kept.\<close>

definition upload_errors :: "store_env \<Rightarrow> field_definition \<Rightarrow> upload \<Rightarrow> rec_code list" where
  "upload_errors env fd fs =
     concat (map (\<lambda>(name, content). case validate_uploaded_file_constraints env fd name content of None \<Rightarrow> [] | Some e \<Rightarrow> [e]) fs)"

section \<open>Creating\<close>

definition collection_kind :: "store_env \<Rightarrow> rcoll \<Rightarrow> pystr" where
  "collection_kind env c = rt_lower (se_rt env) (py_strip (if rl_type c = [] then lit ''base'' else rl_type c))"

definition serialize_for_pg :: "py_runtime \<Rightarrow> pyval \<Rightarrow> field_definition \<Rightarrow> pyexn + pyval" where
  "serialize_for_pg rt v fd =
     (if fd_type fd \<in> {Json, GeoPoint} then bindE (rt_json_dumps rt v) (\<lambda>s. Inr (PStr s)) else Inr v)"

text \<open>\<open>len(v)\<close>.\<close>

definition py_len :: "pyval \<Rightarrow> pyexn + nat" where
  "py_len v = (case v of PStr s \<Rightarrow> Inr (length s) | PList xs \<Rightarrow> Inr (length xs) | PDict d \<Rightarrow> Inr (length d) | _ \<Rightarrow> Inl TypeError)"

definition hash_value :: "store_env \<Rightarrow> pyval \<Rightarrow> pyexn + pyval" where
  "hash_value env v = (case v of PStr s \<Rightarrow> Inr (PStr (se_hash env s)) | _ \<Rightarrow> Inl AttributeError)"

text \<open>The e-mail of the body: an error, or the stripped address.\<close>

definition body_email :: "store_env \<Rightarrow> pyval \<Rightarrow> rec_code + pystr" where
  "body_email env v =
     (if (case v of PNone \<Rightarrow> True | PStr s \<Rightarrow> py_strip s = [] | _ \<Rightarrow> False) then Inl Required
      else (let s = py_strip (py_str (se_rt env) v) in if email_re s then Inr s else Inl BadEmail))"

lemma size_list_member: "x \<in> set xs \<Longrightarrow> f x < Suc (size_list f xs)"
  by (induction xs) auto

text \<open>Python's \<open>==\<close>: numbers compare by value across their types, NaN is unequal to itself.\<close>

function (sequential) py_eq :: "pyval \<Rightarrow> pyval \<Rightarrow> bool" where
  "py_eq (PList xs) (PList ys) = (length xs = length ys \<and> list_all (\<lambda>(x, y). py_eq x y) (zip xs ys))"
| "py_eq (PDict d) (PDict e) =
     (fst ` set d = fst ` set e \<and> list_all (\<lambda>(k, v). case map_of e k of None \<Rightarrow> False | Some w \<Rightarrow> py_eq v w) d)"
| "py_eq v w =
     (case (num_val v, num_val w) of
        (Some a, Some b) \<Rightarrow> a = b \<and> a \<noteq> FNan
      | _ \<Rightarrow> v = w)"
  by pat_completeness auto

termination
proof (relation "measure (\<lambda>(v, w). size v)", goal_cases)
  case (2 xs ys z x y)
  then have "x \<in> set xs" by (auto dest: set_zip_leftD)
  then show ?case using size_list_member[of x xs size] by simp
next
  case (3 d e z k v w)
  then show ?case using size_list_member[of "(k, v)" d "size_prod (\<lambda>x. 0) size"] by auto
qed simp

definition create_password :: "store_env \<Rightarrow> pyval \<Rightarrow> pyval \<Rightarrow> pyexn + rec_errors \<times> pydict" where
  "create_password env password confirm =
     (if \<not> truthy password then Inr ([(lit ''password'', Required)], [])
      else bindE (py_len password) (\<lambda>n.
        if n < 8 then Inr ([(lit ''password'', LengthOutOfRange)], [])
        else if \<not> py_eq confirm password then Inr ([(lit ''passwordConfirm'', ValuesMismatch)], [])
        else bindE (hash_value env password) (\<lambda>h.
          Inr ([], [(lit ''password_hash'', h), (lit ''token_key'', PStr (se_key env))]))))"

definition without :: "string list \<Rightarrow> pydict \<Rightarrow> pydict" where
  "without ks d = filter (\<lambda>(k, v). k \<notin> lit ` set ks) d"

text \<open>The auth columns of a new record: errors, columns and the rest of the body.\<close>

definition create_auth :: "store_env \<Rightarrow> rcoll \<Rightarrow> pydict \<Rightarrow> pyexn + rec_errors \<times> pydict \<times> pydict" where
  "create_auth env c data =
     bindE (create_password env (dict_get data (lit ''password'')) (dict_get data (lit ''passwordConfirm''))) (\<lambda>(errs, cols).
     (let rest = without [''password_hash'', ''token_key'', ''password'', ''passwordConfirm'', ''email''] data;
          (errs2, cols2) = (case body_email env (dict_get data (lit ''email'')) of
             Inl e \<Rightarrow> (put_error errs (lit ''email'') e, cols) | Inr s \<Rightarrow> (errs, dict_put cols (lit ''email'') (PStr s)))
      in if rl_name c = lit ''_superusers'' then Inr (errs2, cols2, without [''email_visibility'', ''emailVisibility'', ''verified''] rest)
         else Inr (errs2,
           dict_put (dict_put cols2 (lit ''email_visibility'') (PBool (truthy (dict_get_or rest (lit ''email_visibility'') (PBool False)))))
             (lit ''verified'') (PBool (truthy (dict_get_or rest (lit ''verified'') (PBool False)))),
           without [''email_visibility'', ''verified''] rest)))"

text \<open>The uploads: the body, the errors, the names saved so far.\<close>

fun create_uploads ::
  "store_env \<Rightarrow> rcoll \<Rightarrow> pystr \<Rightarrow> (pystr \<times> upload) list \<Rightarrow> pydict \<Rightarrow> rec_errors \<Rightarrow> pystr list \<Rightarrow> store \<Rightarrow>
     (pydict \<times> rec_errors \<times> pystr list) rec_result" where
  "create_uploads env c rid [] data errs saved st = (Inr (data, errs, saved), st)"
| "create_uploads env c rid ((field, fs) # uploads) data errs saved st =
     (case find_field c field of
        None \<Rightarrow> create_uploads env c rid uploads data errs saved st
      | Some fd \<Rightarrow>
          if fd_type fd \<noteq> File then create_uploads env c rid uploads data errs saved st
          else if upload_errors env fd fs \<noteq> []
          then create_uploads env c rid uploads data (put_error errs (fd_name fd) (last (upload_errors env fd fs))) saved st
          else (case save_files env (rl_id c) rid field fs (single_file fd) st of
                  (Inl e, st') \<Rightarrow> (Inl e, cleanup_new_storage_files env (rl_id c) rid saved st')
                | (Inr names, st') \<Rightarrow>
                    create_uploads env c rid uploads
                      (dict_put data field
                        (if single_file fd then PStr (case names of [] \<Rightarrow> [] | n # _ \<Rightarrow> n) else PList (map PStr names)))
                      errs (saved @ names) st'))"

definition AUTH_COLUMNS_HANDLED_SEPARATELY :: "pystr list" where
  "AUTH_COLUMNS_HANDLED_SEPARATELY = map lit [''email'', ''email_visibility'', ''emailVisibility'', ''verified'']"

definition skip_field :: "bool \<Rightarrow> field_definition \<Rightarrow> bool" where
  "skip_field is_auth fd \<longleftrightarrow> fd_type fd = Autodate \<or> (is_auth \<and> fd_name fd \<in> set AUTH_COLUMNS_HANDLED_SEPARATELY)"

fun create_fields ::
  "store_env \<Rightarrow> bool \<Rightarrow> pydict \<Rightarrow> field_definition list \<Rightarrow> pydict \<Rightarrow> rec_errors \<Rightarrow> pyexn + pydict \<times> rec_errors" where
  "create_fields env is_auth data [] cols errs = Inr (cols, errs)"
| "create_fields env is_auth data (fd # fds) cols errs =
     (if skip_field is_auth fd then create_fields env is_auth data fds cols errs
      else (case validate_field_value (se_rt env) fd (dict_get data (fd_name fd)) of
              Inl (FieldError n e) \<Rightarrow> create_fields env is_auth data fds cols (put_error errs n (FieldCode e))
            | Inl (Raised e) \<Rightarrow> Inl e
            | Inr v \<Rightarrow> bindE (serialize_for_pg (se_rt env) v fd) (\<lambda>w. create_fields env is_auth data fds (dict_put cols (fd_name fd) w) errs)))"

definition email_taken :: "store \<Rightarrow> rcoll \<Rightarrow> pyval \<Rightarrow> pystr option \<Rightarrow> pyexn + bool" where
  "email_taken st c email except =
     (case st_tables st (rl_name c) of
        None \<Rightarrow> Inl DatabaseError
      | Some rows \<Rightarrow>
          Inr (list_ex (\<lambda>r. dict_get r (lit ''email'') = email \<and>
            (case except of None \<Rightarrow> True | Some i \<Rightarrow> dict_get r (lit ''id'') \<noteq> PStr i)) rows))"

text \<open>
  The write transaction: \<open>f\<close> changes the rows or fails.  The flag says whether the last statement had run when an exception left it.
\<close>

definition write_rows ::
  "store_env \<Rightarrow> rcoll \<Rightarrow> pystr \<Rightarrow> string \<Rightarrow> (pydict list \<Rightarrow> pydict list option) \<Rightarrow> store \<Rightarrow> (pyexn \<times> bool + unit) \<times> store" where
  "write_rows env c rid action f st =
     (case st_tables st (rl_name c) of
        None \<Rightarrow> (Inl (DatabaseError, False), st)
      | Some rows \<Rightarrow>
          (case f rows of
             None \<Rightarrow> (Inl (DatabaseError, False), st)
           | Some rows' \<Rightarrow>
               (let st' = st\<lparr>st_tables := (st_tables st)(rl_name c \<mapsto> rows'), st_notified := st_notified st @ [(rl_name c, rid, lit action)]\<rparr>
                in case se_commit env (rl_name c) rid of
                     Committed \<Rightarrow> (Inr (), st')
                   | RolledBack \<Rightarrow> (Inl (DatabaseError, False), st)
                   | AmbiguousApplied \<Rightarrow> (Inl (DatabaseError, True), st')
                   | AmbiguousLost \<Rightarrow> (Inl (DatabaseError, True), st))))"

definition SUPERUSERS_HIDDEN_COLUMNS :: "string list" where
  "SUPERUSERS_HIDDEN_COLUMNS = [''password_hash'', ''token_key'', ''last_reset_sent_at'']"

definition fields_filter :: "pystr \<Rightarrow> pystr list option" where
  "fields_filter s = (if s = [] then None else Some (filter (\<lambda>f. f \<noteq> []) (map py_strip (split_on 44 s))))"

definition hidden_fields :: "rcoll \<Rightarrow> pystr list" where
  "hidden_fields c = map fd_name (filter fd_hidden (rl_fields c))"

definition read_options :: "store_env \<Rightarrow> rcoll \<Rightarrow> pystr \<Rightarrow> pydict option \<Rightarrow> response_options" where
  "read_options env c fs ctx =
     \<lparr>ro_fields_filter = fields_filter fs, ro_hidden = hidden_fields c,
      ro_is_auth = (collection_kind env c = lit ''auth''), ro_is_view = (collection_kind env c = lit ''view''),
      ro_request_auth = (case ctx of None \<Rightarrow> None | Some d \<Rightarrow> (case dict_get d (lit ''auth'') of PDict a \<Rightarrow> Some a | _ \<Rightarrow> None)),
      ro_apply_visibility = (ctx \<noteq> None)\<rparr>"

definition find_record :: "store \<Rightarrow> rcoll \<Rightarrow> pystr \<Rightarrow> pyexn + pydict option" where
  "find_record st c rid =
     (case st_tables st (rl_name c) of
        None \<Rightarrow> Inl DatabaseError | Some rows \<Rightarrow> Inr (find (\<lambda>r. dict_get r (lit ''id'') = PStr rid) rows))"

definition get_record :: "store_env \<Rightarrow> rcoll \<Rightarrow> pystr \<Rightarrow> pystr \<Rightarrow> pydict option \<Rightarrow> store \<Rightarrow> pyexn + pydict option" where
  "get_record env c rid fs ctx st =
     bindE (find_record st c rid) (\<lambda>r.
     (case r of
        None \<Rightarrow> Inr None
      | Some row \<Rightarrow>
          bindE (build_record_response (se_rt env) (read_options env c fs ctx)
                   (if rl_name c = lit ''_superusers'' then without SUPERUSERS_HIDDEN_COLUMNS row else row)
                   (rl_id c) (rl_name c) (rl_schema c)) (\<lambda>d. Inr (Some d))))"

text \<open>\<open>(await get_record(..)) or {..}\<close> at the end of creating.\<close>

definition created_response :: "store_env \<Rightarrow> rcoll \<Rightarrow> pystr \<Rightarrow> store \<Rightarrow> pydict rec_result" where
  "created_response env c rid st =
     (case get_record env c rid [] None st of
        Inl e \<Rightarrow> (Inl (RaisedPy e), st)
      | Inr (Some d) \<Rightarrow> (Inr d, st)
      | Inr None \<Rightarrow>
          (Inr [(lit ''id'', PStr rid), (lit ''collectionId'', PStr (rl_id c)), (lit ''collectionName'', PStr (rl_name c)),
                (lit ''created'', PStr (rt_strftime (se_rt env) (se_now env))), (lit ''updated'', PStr (rt_strftime (se_rt env) (se_now env)))], st))"

definition insert_row :: "pydict \<Rightarrow> pydict list \<Rightarrow> pydict list option" where
  "insert_row row rows =
     (if list_ex (\<lambda>r. dict_get r (lit ''id'') = dict_get row (lit ''id'')) rows then None else Some (rows @ [row]))"

definition new_record_id :: "store_env \<Rightarrow> pydict \<Rightarrow> rec_exn + pystr" where
  "new_record_id env data =
     (let v = dict_get data (lit ''id'')
      in if v = PNone \<or> v = PStr [] then Inr (se_id env)
      else (case validate_record_id v of Inl _ \<Rightarrow> Inl (ValidationErrors [(lit ''id'', InvalidRecordId)]) | Inr s \<Rightarrow> Inr s))"

text \<open>The last part of creating: refuse errors and duplicate addresses, write the row, keep or remove the new files.\<close>

definition create_finish ::
  "store_env \<Rightarrow> rcoll \<Rightarrow> bool \<Rightarrow> pystr \<Rightarrow> pydict \<Rightarrow> rec_errors \<Rightarrow> pystr list \<Rightarrow> store \<Rightarrow> pydict rec_result" where
  "create_finish env c is_auth rid cols errs saved st =
     (let cleaned = cleanup_new_storage_files env (rl_id c) rid saved st
      in if errs \<noteq> [] then (Inl (ValidationErrors errs), cleaned)
      else (case (if is_auth \<and> lit ''email'' \<in> fst ` set cols then email_taken st c (dict_get cols (lit ''email'')) None else Inr False) of
              Inl e \<Rightarrow> (Inl (RaisedPy e), cleaned)
            | Inr True \<Rightarrow> (Inl (ValidationErrors [(lit ''email'', NotUnique)]), cleaned)
            | Inr False \<Rightarrow>
                (case write_rows env c rid ''create'' (insert_row cols) st of
                   (Inl (e, finished), st') \<Rightarrow>
                     (Inl (RaisedPy e), if finished then st' else cleanup_new_storage_files env (rl_id c) rid saved st')
                 | (Inr _, st') \<Rightarrow> created_response env c rid st')))"

definition create_record :: "store_env \<Rightarrow> rcoll \<Rightarrow> pydict \<Rightarrow> (pystr \<times> upload) list \<Rightarrow> store \<Rightarrow> pydict rec_result" where
  "create_record env c data files st =
     (case new_record_id env data of
        Inl e \<Rightarrow> (Inl e, st)
      | Inr rid \<Rightarrow>
          (let is_auth = collection_kind env c = lit ''auth'';
               base = [(lit ''id'', PStr rid), (lit ''created'', PDatetime (se_now env)), (lit ''updated'', PDatetime (se_now env))];
               body = without [''id''] data
           in case (if is_auth then create_auth env c body else Inr ([], [], body)) of
                Inl e \<Rightarrow> (Inl (RaisedPy e), st)
              | Inr (errs, auth_cols, rest) \<Rightarrow>
                  (case create_uploads env c rid files rest errs [] st of
                     (Inl e, st') \<Rightarrow> (Inl e, st')
                   | (Inr (data', errs', saved), st') \<Rightarrow>
                       (case create_fields env is_auth data' (rl_fields c) (base @ auth_cols) errs' of
                          Inl e \<Rightarrow> (Inl (RaisedPy e), cleanup_new_storage_files env (rl_id c) rid saved st')
                        | Inr (cols, errs'') \<Rightarrow> create_finish env c is_auth rid cols errs'' saved st'))))"

section \<open>Field modifiers\<close>

datatype modifier = Plain | Append | Prepend | RemoveValues

definition parse_modifier_key :: "pystr \<Rightarrow> pystr \<times> modifier" where
  "parse_modifier_key key =
     (if key \<noteq> [] \<and> hd key = 43 then (tl key, Prepend)
      else if key \<noteq> [] \<and> last key = 43 then (butlast key, Append)
      else if key \<noteq> [] \<and> last key = 45 then (butlast key, RemoveValues)
      else (key, Plain))"

definition coerce_modifier_values :: "pyval \<Rightarrow> pyval list" where
  "coerce_modifier_values v = (case v of PList xs \<Rightarrow> xs | PNone \<Rightarrow> [] | PStr s \<Rightarrow> (if s = [] then [] else [v]) | _ \<Rightarrow> [v])"

definition float_or_zero :: "py_runtime \<Rightarrow> pyval \<Rightarrow> pyexn + pyfloat" where
  "float_or_zero rt v = (if v = PNone then Inr (FFin 0) else py_float rt v)"

definition apply_number :: "py_runtime \<Rightarrow> (pyfloat \<Rightarrow> pyfloat \<Rightarrow> pyfloat) \<Rightarrow> pyval \<Rightarrow> pyval \<Rightarrow> pyexn + pyval" where
  "apply_number rt op cur x =
     bindE (float_or_zero rt cur) (\<lambda>a. bindE (float_or_zero rt x) (\<lambda>b. Inr (PFloat (op a b))))"

definition listed :: "pyval \<Rightarrow> pyval list" where
  "listed v = (case v of PList xs \<Rightarrow> xs | PNone \<Rightarrow> [] | _ \<Rightarrow> [v])"

definition apply_append :: "store_env \<Rightarrow> pyval \<Rightarrow> pyval \<Rightarrow> field_definition \<Rightarrow> pyexn + pyval" where
  "apply_append env cur x fd =
     (if fd_type fd = Number then apply_number (se_rt env) (se_fadd env) cur x
      else Inr (PList (coerce_modifier_values cur @ listed x)))"

definition apply_prepend :: "store_env \<Rightarrow> pyval \<Rightarrow> pyval \<Rightarrow> field_definition \<Rightarrow> pyexn + pyval" where
  "apply_prepend env cur x fd =
     (if fd_type fd = Number then apply_number (se_rt env) (se_fadd env) cur x
      else Inr (PList (listed x @ coerce_modifier_values cur)))"

definition apply_remove :: "store_env \<Rightarrow> pyval \<Rightarrow> pyval \<Rightarrow> field_definition \<Rightarrow> pyexn + pyval" where
  "apply_remove env cur x fd =
     (if fd_type fd = Number then apply_number (se_rt env) (se_fsub env) cur x
      else Inr (PList (filter (\<lambda>v. py_str (se_rt env) v \<notin> py_str (se_rt env) ` set (listed x)) (coerce_modifier_values cur))))"

section \<open>Updating\<close>

fun update_auth_email :: "store_env \<Rightarrow> pyval option \<Rightarrow> rec_errors \<times> pydict \<Rightarrow> rec_errors \<times> pydict" where
  "update_auth_email env None r = r"
| "update_auth_email env (Some v) (errs, ups) =
     (case body_email env v of Inl e \<Rightarrow> (put_error errs (lit ''email'') e, ups) | Inr s \<Rightarrow> (errs, dict_put ups (lit ''email'') (PStr s)))"

definition update_password :: "store_env \<Rightarrow> pyval \<Rightarrow> pyval \<Rightarrow> pydict \<Rightarrow> pyexn + rec_errors \<times> pydict" where
  "update_password env password confirm ups =
     (if password = PNone then Inr ([], ups)
      else bindE (py_len password) (\<lambda>n.
        if n < 8 then Inr ([(lit ''password'', LengthOutOfRange)], ups)
        else if \<not> py_eq confirm password then Inr ([(lit ''passwordConfirm'', ValuesMismatch)], ups)
        else bindE (hash_value env password) (\<lambda>h.
          Inr ([], dict_put (dict_put ups (lit ''password_hash'') h) (lit ''token_key'') (PStr (se_key env))))))"

definition update_auth :: "store_env \<Rightarrow> rcoll \<Rightarrow> pydict \<Rightarrow> pydict \<Rightarrow> pyexn + rec_errors \<times> pydict \<times> pydict" where
  "update_auth env c data ups0 =
     bindE (update_password env (dict_get data (lit ''password'')) (dict_get data (lit ''passwordConfirm'')) ups0) (\<lambda>r.
     (let (errs, ups) = update_auth_email env (map_of data (lit ''email'')) r;
          rest = without [''password_hash'', ''token_key'', ''password'', ''passwordConfirm'', ''email''] data
      in if rl_name c = lit ''_superusers'' then Inr (errs, ups, without [''email_visibility'', ''emailVisibility'', ''verified''] rest)
         else (let ups1 = (case map_of rest (lit ''email_visibility'') of
                   Some v \<Rightarrow> dict_put ups (lit ''email_visibility'') (PBool (truthy v))
                 | None \<Rightarrow> (case map_of rest (lit ''emailVisibility'') of
                     Some v \<Rightarrow> dict_put ups (lit ''email_visibility'') (PBool (truthy v)) | None \<Rightarrow> ups));
                   rest1 = (if map_of rest (lit ''email_visibility'') \<noteq> None then without [''email_visibility''] rest
                            else without [''emailVisibility''] rest);
                   ups2 = (case map_of rest (lit ''verified'') of Some v \<Rightarrow> dict_put ups1 (lit ''verified'') (PBool (truthy v)) | None \<Rightarrow> ups1)
               in Inr (errs, ups2, without [''verified''] rest1))))"

definition initial_state :: "rcoll \<Rightarrow> pydict \<Rightarrow> pydict" where
  "initial_state c row =
     fold (\<lambda>fd d. if fd_type fd = Autodate then d else dict_put d (fd_name fd) (dict_get row (fd_name fd)))
       (filter (\<lambda>fd. find_field c (fd_name fd) = Some fd) (rl_fields c)) []"

definition apply_modifier :: "store_env \<Rightarrow> modifier \<Rightarrow> pyval \<Rightarrow> pyval \<Rightarrow> field_definition \<Rightarrow> pyexn + pyval" where
  "apply_modifier env m cur v fd =
     (case m of
        Plain \<Rightarrow> Inr v | Append \<Rightarrow> apply_append env cur v fd | Prepend \<Rightarrow> apply_prepend env cur v fd | RemoveValues \<Rightarrow> apply_remove env cur v fd)"

fun update_body :: "store_env \<Rightarrow> rcoll \<Rightarrow> pydict \<Rightarrow> pydict \<Rightarrow> pyexn + pydict" where
  "update_body env c [] fs = Inr fs"
| "update_body env c ((key, v) # data) fs =
     (if key = lit ''id'' then update_body env c data fs
      else (case parse_modifier_key key of (name, m) \<Rightarrow>
        (case find_field c name of
           None \<Rightarrow> update_body env c data fs
         | Some fd \<Rightarrow>
             if fd_type fd = Autodate then update_body env c data fs
             else bindE (apply_modifier env m (dict_get fs name) v fd) (\<lambda>w. update_body env c data (dict_put fs name w)))))"

text \<open>\<open>_coerce_file_value\<close>: \<open>max_select > 1\<close> keeps the list, otherwise the last name counts.\<close>

definition coerce_file_value :: "field_definition \<Rightarrow> pystr list \<Rightarrow> pyexn + pyval" where
  "coerce_file_value fd names =
     (case num_val (max_select fd) of
        None \<Rightarrow> Inl TypeError
      | Some f \<Rightarrow> Inr (if flt_less (FFin 1) f then PList (map PStr names) else PStr (if names = [] then [] else last names)))"

definition apply_upload :: "store_env \<Rightarrow> modifier \<Rightarrow> pyval \<Rightarrow> pystr list \<Rightarrow> field_definition \<Rightarrow> pyexn + pyval" where
  "apply_upload env m cur names fd =
     (case m of
        Append \<Rightarrow> apply_append env cur (PList (map PStr names)) fd
      | Prepend \<Rightarrow> apply_prepend env cur (PList (map PStr names)) fd
      | _ \<Rightarrow> coerce_file_value fd names)"

fun update_uploads ::
  "store_env \<Rightarrow> rcoll \<Rightarrow> pystr \<Rightarrow> (pystr \<times> upload) list \<Rightarrow> pydict \<Rightarrow> rec_errors \<Rightarrow> pystr list \<Rightarrow> store \<Rightarrow>
     (pydict \<times> rec_errors \<times> pystr list) rec_result" where
  "update_uploads env c rid [] fs errs saved st = (Inr (fs, errs, saved), st)"
| "update_uploads env c rid ((key, files) # uploads) fs errs saved st =
     (case parse_modifier_key key of (name, m) \<Rightarrow>
        (case find_field c name of
           None \<Rightarrow> update_uploads env c rid uploads fs errs saved st
         | Some fd \<Rightarrow>
             if fd_type fd \<noteq> File then update_uploads env c rid uploads fs errs saved st
             else if upload_errors env fd files \<noteq> []
             then update_uploads env c rid uploads fs (put_error errs (fd_name fd) (last (upload_errors env fd files))) saved st
             else (case save_files env (rl_id c) rid name files (single_file fd) st of
                     (Inl e, st') \<Rightarrow> (Inl e, cleanup_new_storage_files env (rl_id c) rid saved st')
                   | (Inr names, st') \<Rightarrow>
                       (case apply_upload env m (dict_get fs name) names fd of
                          Inl e \<Rightarrow> (Inl (RaisedPy e), cleanup_new_storage_files env (rl_id c) rid (saved @ names) st')
                        | Inr w \<Rightarrow> update_uploads env c rid uploads (dict_put fs name w) errs (saved @ names) st'))))"

definition raw_file_list :: "py_runtime \<Rightarrow> pyval \<Rightarrow> pystr list" where
  "raw_file_list rt v =
     (case v of PList xs \<Rightarrow> map (py_str rt) (filter truthy xs) | _ \<Rightarrow> if truthy v then [py_str rt v] else [])"

fun update_fields ::
  "store_env \<Rightarrow> rcoll \<Rightarrow> pydict \<Rightarrow> pydict \<Rightarrow> pydict \<Rightarrow> rec_errors \<Rightarrow> pystr list \<Rightarrow> pyexn + pydict \<times> rec_errors \<times> pystr list" where
  "update_fields env c row [] ups errs removed = Inr (ups, errs, removed)"
| "update_fields env c row ((name, v) # fs) ups errs removed =
     (case find_field c name of
        None \<Rightarrow> update_fields env c row fs ups errs removed
      | Some fd \<Rightarrow>
          if fd_type fd = Autodate \<or> py_eq v (dict_get row name) then update_fields env c row fs ups errs removed
          else (case validate_field_value (se_rt env) fd v of
                  Inl (FieldError n e) \<Rightarrow> update_fields env c row fs ups (put_error errs n (FieldCode e)) removed
                | Inl (Raised e) \<Rightarrow> Inl e
                | Inr w \<Rightarrow>
                    bindE (serialize_for_pg (se_rt env) w fd) (\<lambda>x.
                    update_fields env c row fs (dict_put ups name x) errs
                      (removed @ (if fd_type fd = File
                        then filter (\<lambda>n. n \<notin> set (raw_file_list (se_rt env) w)) (remdups (raw_file_list (se_rt env) (dict_get row name)))
                        else [])))))"

definition update_rows :: "pystr \<Rightarrow> pydict \<Rightarrow> pydict list \<Rightarrow> pydict list option" where
  "update_rows rid ups rows =
     Some (map (\<lambda>r. if dict_get r (lit ''id'') = PStr rid then fold (\<lambda>(k, v) d. dict_put d k v) ups r else r) rows)"

definition update_finish ::
  "store_env \<Rightarrow> rcoll \<Rightarrow> bool \<Rightarrow> pystr \<Rightarrow> pydict \<Rightarrow> pydict \<Rightarrow> rec_errors \<Rightarrow> pystr list \<Rightarrow> pystr list \<Rightarrow> store \<Rightarrow> pydict option rec_result" where
  "update_finish env c is_auth rid existing ups errs removed saved st =
     (let cleaned = cleanup_new_storage_files env (rl_id c) rid saved st
      in if errs \<noteq> [] then (Inl (ValidationErrors errs), cleaned)
      else (case (if is_auth \<and> truthy (dict_get ups (lit ''email'')) then email_taken st c (dict_get ups (lit ''email'')) (Some rid) else Inr False) of
              Inl e \<Rightarrow> (Inl (RaisedPy e), cleaned)
            | Inr True \<Rightarrow> (Inl (ValidationErrors [(lit ''email'', NotUnique)]), cleaned)
            | Inr False \<Rightarrow>
                if length ups \<le> 1 then (Inr (Some existing), cleaned)
                else (case write_rows env c rid ''update'' (update_rows rid ups) st of
                        (Inl (e, finished), st') \<Rightarrow>
                          (Inl (RaisedPy e), if finished then st' else cleanup_new_storage_files env (rl_id c) rid saved st')
                      | (Inr _, st') \<Rightarrow>
                          (let st'' = snd (delete_files env (rl_id c) rid (map PStr removed) st')
                           in case get_record env c rid [] None st'' of Inl e \<Rightarrow> (Inl (RaisedPy e), st'') | Inr d \<Rightarrow> (Inr d, st'')))))"

definition update_record :: "store_env \<Rightarrow> rcoll \<Rightarrow> pystr \<Rightarrow> pydict \<Rightarrow> (pystr \<times> upload) list \<Rightarrow> store \<Rightarrow> pydict option rec_result" where
  "update_record env c record_id data files st =
     (case validate_record_id (PStr record_id) of
        Inl _ \<Rightarrow> (Inl UnsafeStorage, st)
      | Inr rid \<Rightarrow>
          (case get_record env c rid [] None st of
             Inl e \<Rightarrow> (Inl (RaisedPy e), st)
           | Inr None \<Rightarrow> (Inr None, st)
           | Inr (Some existing) \<Rightarrow>
               (let row = (case find_record st c rid of Inr (Some r) \<Rightarrow> r | _ \<Rightarrow> []);
                    is_auth = collection_kind env c = lit ''auth'';
                    ups0 = [(lit ''updated'', PDatetime (se_now env))]
                in case (if is_auth then update_auth env c data ups0 else Inr ([], ups0, data)) of
                     Inl e \<Rightarrow> (Inl (RaisedPy e), st)
                   | Inr (errs, ups, rest) \<Rightarrow>
                       (case update_body env c rest (initial_state c row) of
                          Inl e \<Rightarrow> (Inl (RaisedPy e), st)
                        | Inr fs \<Rightarrow>
                            (case update_uploads env c rid files fs errs [] st of
                               (Inl e, st') \<Rightarrow> (Inl e, st')
                             | (Inr (fs', errs', saved), st') \<Rightarrow>
                                 (case update_fields env c row fs' ups errs' [] of
                                    Inl e \<Rightarrow> (Inl (RaisedPy e), cleanup_new_storage_files env (rl_id c) rid saved st')
                                  | Inr (ups', errs'', removed) \<Rightarrow>
                                      update_finish env c is_auth rid existing ups' errs'' removed saved st'))))))"

section \<open>Deleting\<close>

definition owned_files :: "py_runtime \<Rightarrow> rcoll \<Rightarrow> pydict \<Rightarrow> pystr list" where
  "owned_files rt c row = concat (map (\<lambda>fd. raw_file_list rt (dict_get row (fd_name fd))) (filter (\<lambda>fd. fd_type fd = File) (rl_fields c)))"

text \<open>The cascading relations that point to a collection: the other collection, the column and whether it holds a list.\<close>

definition cascade_field :: "rcoll \<Rightarrow> pydict \<Rightarrow> pyexn + (pystr \<times> bool) option" where
  "cascade_field c f =
     (if dict_get f (lit ''type'') \<noteq> PStr (lit ''relation'') then Inr None
      else bindE (case dict_get_or f (lit ''options'') (PDict []) of PDict d \<Rightarrow> Inr d | _ \<Rightarrow> Inl AttributeError) (\<lambda>opts.
        if dict_get opts (lit ''collectionId'') \<noteq> PStr (rl_id c) \<or> \<not> truthy (dict_get_or opts (lit ''cascadeDelete'') (PBool False)) then Inr None
        else (case dict_get_or f (lit ''name'') (PStr []) of
                PStr name \<Rightarrow> if name = [] then Inr None else bindE (multi_select opts) (\<lambda>m. Inr (Some (name, m)))
              | _ \<Rightarrow> Inl TypeError)))"

definition references :: "pystr \<Rightarrow> pystr \<Rightarrow> bool \<Rightarrow> pydict \<Rightarrow> bool" where
  "references rid field multi row =
     (if multi then (case dict_get row field of PList xs \<Rightarrow> PStr rid \<in> set xs | _ \<Rightarrow> False) else dict_get row field = PStr rid)"

definition related_ids :: "store \<Rightarrow> rcoll \<Rightarrow> pystr \<Rightarrow> pystr \<Rightarrow> bool \<Rightarrow> pyexn + pyval list" where
  "related_ids st other rid field multi =
     (case st_tables st (rl_name other) of
        None \<Rightarrow> Inl DatabaseError
      | Some rows \<Rightarrow> Inr (map (\<lambda>r. dict_get r (lit ''id'')) (filter (references rid field multi) rows)))"

text \<open>Run an operation for every element; \<open>None\<close> when one of them does not return.\<close>

fun for_each :: "('a \<Rightarrow> store \<Rightarrow> (unit rec_result) option) \<Rightarrow> 'a list \<Rightarrow> store \<Rightarrow> (unit rec_result) option" where
  "for_each f [] st = Some (Inr (), st)"
| "for_each f (x # xs) st =
     (case f x st of
        None \<Rightarrow> None
      | Some (Inl e, st') \<Rightarrow> Some (Inl e, st')
      | Some (Inr _, st') \<Rightarrow> for_each f xs st')"

text \<open>One field of one collection in \<open>_cascade_delete\<close>; \<open>delete\<close> is the recursive call.\<close>

definition cascade_one ::
  "(rcoll \<Rightarrow> pyval \<Rightarrow> store \<Rightarrow> (bool rec_result) option) \<Rightarrow> rcoll \<Rightarrow> pystr \<Rightarrow> rcoll \<times> pydict \<Rightarrow> store \<Rightarrow> (unit rec_result) option" where
  "cascade_one delete c rid target st =
     (case target of (other, f) \<Rightarrow>
        (case cascade_field c f of
           Inl e \<Rightarrow> Some (Inl (RaisedPy e), st)
         | Inr None \<Rightarrow> Some (Inr (), st)
         | Inr (Some (name, multi)) \<Rightarrow>
             (case related_ids st other rid name multi of
                Inl e \<Rightarrow> Some (Inl (RaisedPy e), st)
              | Inr ids \<Rightarrow>
                  for_each (\<lambda>i st. map_option (\<lambda>(r, st'). (case r of Inl e \<Rightarrow> Inl e | Inr _ \<Rightarrow> Inr (), st')) (delete other i st)) ids st)))"

definition cascade_targets :: "rcoll list \<Rightarrow> (rcoll \<times> pydict) list" where
  "cascade_targets cs = concat (map (\<lambda>other. map (Pair other) (rl_schema other)) cs)"

text \<open>\<open>validate_record_id\<close> also refuses an id that is not text.\<close>

definition remove_row :: "pystr \<Rightarrow> pydict list \<Rightarrow> pydict list option" where
  "remove_row rid rows = Some (filter (\<lambda>r. dict_get r (lit ''id'') \<noteq> PStr rid) rows)"

definition delete_finish :: "store_env \<Rightarrow> rcoll \<Rightarrow> pystr \<Rightarrow> pydict \<Rightarrow> store \<Rightarrow> bool rec_result" where
  "delete_finish env c rid row st =
     (case write_rows env c rid ''delete'' (remove_row rid) st of
        (Inl (e, _), st') \<Rightarrow> (Inl (RaisedPy e), st')
      | (Inr _, st') \<Rightarrow> (Inr True, snd (delete_files env (rl_id c) rid (map PStr (owned_files (se_rt env) c row)) st')))"

text \<open>The first argument bounds the depth of the recursion; \<open>None\<close> means that it was not enough.\<close>

fun delete_record :: "nat \<Rightarrow> store_env \<Rightarrow> rcoll list \<Rightarrow> rcoll \<Rightarrow> pyval \<Rightarrow> store \<Rightarrow> (bool rec_result) option" where
  "delete_record 0 env cs c record_id st = None"
| "delete_record (Suc n) env cs c record_id st =
     (case validate_record_id record_id of
        Inl _ \<Rightarrow> Some (Inl UnsafeStorage, st)
      | Inr rid \<Rightarrow>
          (case find_record st c rid of
             Inl e \<Rightarrow> Some (Inl (RaisedPy e), st)
           | Inr None \<Rightarrow> Some (Inr False, st)
           | Inr (Some row) \<Rightarrow>
               (case for_each (cascade_one (delete_record n env cs) c rid) (cascade_targets cs) st of
                  None \<Rightarrow> None
                | Some (Inl e, st') \<Rightarrow> Some (Inl e, st')
                | Some (Inr _, st') \<Rightarrow> Some (delete_finish env c rid row st'))))"

section \<open>Deleting: what changes\<close>

definition rows_of :: "store \<Rightarrow> pystr \<Rightarrow> pydict list" where
  "rows_of st t = (case st_tables st t of None \<Rightarrow> [] | Some rows \<Rightarrow> rows)"

definition has_row :: "store \<Rightarrow> rcoll \<Rightarrow> pystr \<Rightarrow> bool" where
  "has_row st c i = (\<exists>row \<in> set (rows_of st (rl_name c)). dict_get row (lit ''id'') = PStr i)"

text \<open>A row of \<open>other\<close> points to record \<open>i\<close> of \<open>c\<close> through a relation with \<open>cascadeDelete\<close>.\<close>

definition cascade_ref :: "rcoll list \<Rightarrow> store \<Rightarrow> rcoll \<Rightarrow> pystr \<Rightarrow> rcoll \<Rightarrow> pydict \<Rightarrow> bool" where
  "cascade_ref cs st c i other row = (\<exists>f name multi. (other, f) \<in> set (cascade_targets cs) \<and>
     row \<in> set (rows_of st (rl_name other)) \<and> cascade_field c f = Inr (Some (name, multi)) \<and> references i name multi row)"

definition shrinks :: "store \<Rightarrow> store \<Rightarrow> bool" where
  "shrinks st st' = (st_files st' \<subseteq> st_files st \<and> (\<forall>t. set (rows_of st' t) \<subseteq> set (rows_of st t)))"

text \<open>The records deleted on the way from \<open>st\<close> to \<open>st'\<close> take every cascading reference to them along.\<close>

definition closed_step :: "rcoll list \<Rightarrow> store \<Rightarrow> store \<Rightarrow> bool" where
  "closed_step cs st st' = (shrinks st st' \<and>
     (\<forall>c \<in> set cs. \<forall>i. has_row st c i \<longrightarrow> \<not> has_row st' c i \<longrightarrow> (\<forall>other row. \<not> cascade_ref cs st' c i other row)))"

lemma shrinks_refl [simp]: "shrinks st st"
  by (simp add: shrinks_def)

lemma shrinks_trans: "\<lbrakk>shrinks a b; shrinks b c\<rbrakk> \<Longrightarrow> shrinks a c"
  unfolding shrinks_def by blast

lemma shrinks_row: "\<lbrakk>shrinks a b; has_row b c i\<rbrakk> \<Longrightarrow> has_row a c i"
  unfolding shrinks_def has_row_def by blast

lemma shrinks_ref: "\<lbrakk>shrinks a b; cascade_ref cs b c i other row\<rbrakk> \<Longrightarrow> cascade_ref cs a c i other row"
  unfolding shrinks_def cascade_ref_def by blast

lemma closed_step_refl [simp]: "closed_step cs st st"
  by (simp add: closed_step_def)

lemma closed_step_shrinks: "closed_step cs st st' \<Longrightarrow> shrinks st st'"
  by (simp add: closed_step_def)

lemma closed_step_trans: "\<lbrakk>closed_step cs a b; closed_step cs b d\<rbrakk> \<Longrightarrow> closed_step cs a d"
  unfolding closed_step_def using shrinks_trans shrinks_ref by meson

text \<open>What holds of every call of a loop holds of the loop, for a reflexive and transitive relation on the store.\<close>

locale store_relation =
  fixes R :: "store \<Rightarrow> store \<Rightarrow> bool"
  assumes refl: "R st st" and trans: "\<lbrakk>R a b; R b d\<rbrakk> \<Longrightarrow> R a d"
begin

lemma for_each_rel:
  assumes "for_each f xs st = Some (r, st')" "\<And>x st r st'. \<lbrakk>x \<in> set xs; f x st = Some (r, st')\<rbrakk> \<Longrightarrow> R st st'"
  shows "R st st'"
  using assms
proof (induction xs arbitrary: st)
  case (Cons x xs)
  obtain q st1 where x: "f x st = Some (q, st1)" using Cons.prems(1) by (cases "f x st") auto
  have 1: "R st st1" using Cons.prems(2)[OF _ x] by simp
  show ?case
  proof (cases q)
    case (Inr u)
    have "for_each f xs st1 = Some (r, st')" using Cons.prems(1) x Inr by simp
    then have "R st1 st'" by (rule Cons.IH) (rule Cons.prems(2); simp)
    then show ?thesis by (rule trans[OF 1])
  qed (use Cons.prems(1) x 1 in simp)
qed (simp add: refl)

lemma for_each_done:
  assumes "for_each f xs st = Some (Inr u, st')" "x \<in> set xs"
    and "\<And>x st r st'. \<lbrakk>x \<in> set xs; f x st = Some (r, st')\<rbrakk> \<Longrightarrow> R st st'"
  shows "\<exists>st1 st2 v. f x st1 = Some (Inr v, st2) \<and> R st st1 \<and> R st2 st'"
  using assms
proof (induction xs arbitrary: st)
  case (Cons y ys)
  obtain v st1 where y: "f y st = Some (Inr v, st1)" "for_each f ys st1 = Some (Inr u, st')"
    using Cons.prems(1) by (auto split: option.splits sum.splits)
  have 1: "R st st1" using Cons.prems(3)[OF _ y(1)] by simp
  show ?case
  proof (cases "x = y")
    case True
    have "R st1 st'" using y(2) by (rule for_each_rel) (rule Cons.prems(3); simp)
    then show ?thesis using y(1) True refl by blast
  next
    case False
    have "\<exists>s1 s2 v. f x s1 = Some (Inr v, s2) \<and> R st1 s1 \<and> R s2 st'"
      by (rule Cons.IH[OF y(2)]) (use Cons.prems False in auto)
    then show ?thesis using trans[OF 1] by blast
  qed
qed simp

end

interpretation shrinking: store_relation shrinks
  by unfold_locales (simp, rule shrinks_trans)

interpretation closing: store_relation "closed_step cs" for cs
  by unfold_locales (simp, rule closed_step_trans)

lemma rows_of_put [simp]: "rows_of (st\<lparr>st_tables := (st_tables st)(t \<mapsto> rows), st_notified := ns\<rparr>) t' = (if t' = t then rows else rows_of st t')"
  by (simp add: rows_of_def)

lemma rows_of_files [simp]: "rows_of (st\<lparr>st_files := fs\<rparr>) t = rows_of st t"
  by (simp add: rows_of_def)

lemma delete_files_cases:
  "snd (delete_files env cid rid names st) = st \<or>
   (\<exists>ns. deletable_file_references (se_rt env) names = Inr ns \<and>
     snd (delete_files env cid rid names st) = st\<lparr>st_files := st_files st - file_keys cid rid ns\<rparr>)"
  by (auto simp: delete_files_def split: sum.splits)

lemma rows_of_delete_files [simp]: "rows_of (snd (delete_files env cid rid names st)) t = rows_of st t"
  using delete_files_cases[of env cid rid names st] by auto

lemma delete_files_shrinks: "st_files (snd (delete_files env cid rid names st)) \<subseteq> st_files st"
  using delete_files_cases[of env cid rid names st] by auto

lemma delete_finish_rows:
  assumes "delete_finish env c rid row st = (r, st')"
  shows "st_files st' \<subseteq> st_files st \<and>
    ((\<forall>t. rows_of st' t = rows_of st t) \<and> (\<forall>b. r \<noteq> Inr b) \<or>
     (\<forall>t. rows_of st' t = (if t = rl_name c then filter (\<lambda>x. dict_get x (lit ''id'') \<noteq> PStr rid) (rows_of st t) else rows_of st t)))"
  using assms
  by (auto simp: delete_finish_def write_rows_def remove_row_def Let_def rows_of_def[of st "rl_name c"]
      dest!: subsetD[OF delete_files_shrinks]
      split: option.splits commit_outcome.splits prod.splits sum.splits)

text \<open>One recursive call: the store only shrinks, references go with their records, and success removes the record.\<close>

definition deletes_well :: "rcoll list \<Rightarrow> (rcoll \<Rightarrow> pyval \<Rightarrow> store \<Rightarrow> (bool rec_result) option) \<Rightarrow> bool" where
  "deletes_well cs del = (\<forall>c v st r st'. c \<in> set cs \<longrightarrow> del c v st = Some (r, st') \<longrightarrow> closed_step cs st st' \<and>
     (\<forall>b. r = Inr b \<longrightarrow> (\<exists>i. v = PStr i \<and> \<not> has_row st' c i \<and> (b \<longrightarrow> (\<forall>other row. \<not> cascade_ref cs st' c i other row)))))"

lemma cascade_loop_closed:
  assumes "deletes_well cs del" "other \<in> set cs"
    and "for_each (\<lambda>i st. map_option (\<lambda>(r, st'). (case r of Inl e \<Rightarrow> Inl e | Inr _ \<Rightarrow> Inr (), st')) (del other i st)) ids st = Some (r, st')"
  shows "closed_step cs st st'"
  using assms(3) by (rule closing.for_each_rel) (use assms(1,2) in \<open>auto simp: deletes_well_def\<close>)

lemma cascade_one_closed:
  assumes "deletes_well cs del" "fst target \<in> set cs" "cascade_one del c rid target st = Some (r, st')"
  shows "closed_step cs st st'"
  using assms(3) cascade_loop_closed[OF assms(1,2)]
  by (auto simp: cascade_one_def split: prod.splits sum.splits option.splits)

lemma cascade_targets_coll: "(other, f) \<in> set (cascade_targets cs) \<Longrightarrow> other \<in> set cs"
  by (auto simp: cascade_targets_def)

lemma cascade_one_done:
  assumes del: "deletes_well cs del" "other \<in> set cs" and run: "cascade_one del c rid (other, f) st = Some (Inr u, st')"
    and f: "cascade_field c f = Inr (Some (name, multi))" and row: "row \<in> set (rows_of st' (rl_name other))"
  shows "\<not> references rid name multi row"
proof
  assume ref: "references rid name multi row"
  obtain ids where ids: "related_ids st other rid name multi = Inr ids"
    and loop: "for_each (\<lambda>i st. map_option (\<lambda>(r, st'). (case r of Inl e \<Rightarrow> Inl e | Inr _ \<Rightarrow> Inr (), st')) (del other i st)) ids st = Some (Inr u, st')"
    using run f by (auto simp: cascade_one_def split: sum.splits)
  have "row \<in> set (rows_of st (rl_name other))"
    using row closed_step_shrinks[OF cascade_loop_closed[OF del loop]] unfolding shrinks_def by blast
  then have "dict_get row (lit ''id'') \<in> set ids"
    using ids ref by (auto simp: related_ids_def rows_of_def split: option.splits)
  from closing.for_each_done[OF loop this, of cs] del
  obtain s1 s2 b where call: "del other (dict_get row (lit ''id'')) s1 = Some (Inr b, s2)" and rest: "closed_step cs s2 st'"
    unfolding deletes_well_def by (fastforce split: sum.splits)
  then obtain i where i: "dict_get row (lit ''id'') = PStr i" "\<not> has_row s2 other i"
    using del unfolding deletes_well_def by blast
  have "has_row st' other i" using row i(1) unfolding has_row_def by blast
  then show False using i(2) shrinks_row[OF closed_step_shrinks[OF rest]] by blast
qed

lemma cascades_done:
  assumes del: "deletes_well cs del" and run: "for_each (cascade_one del c rid) (cascade_targets cs) st = Some (Inr u, st')"
  shows "\<not> cascade_ref cs st' c rid other row"
proof
  assume "cascade_ref cs st' c rid other row"
  then obtain f name multi where t: "(other, f) \<in> set (cascade_targets cs)" and row: "row \<in> set (rows_of st' (rl_name other))"
    and f: "cascade_field c f = Inr (Some (name, multi))" "references rid name multi row"
    unfolding cascade_ref_def by blast
  have "\<exists>s1 s2 v. cascade_one del c rid (other, f) s1 = Some (Inr v, s2) \<and> closed_step cs st s1 \<and> closed_step cs s2 st'"
    by (rule closing.for_each_done[OF run t]) (metis cascade_one_closed[OF del] cascade_targets_coll prod.collapse)
  then obtain s1 s2 v where "cascade_one del c rid (other, f) s1 = Some (Inr v, s2)" "closed_step cs s2 st'" by blast
  moreover from this row have "row \<in> set (rows_of s2 (rl_name other))"
    using closed_step_shrinks unfolding shrinks_def by blast
  ultimately show False using cascade_one_done[OF del cascade_targets_coll[OF t] _ f(1)] f(2) by blast
qed

lemma validate_record_id_PStr: "validate_record_id v = Inr i \<Longrightarrow> v = PStr i"
  by (cases v) (auto simp: validate_record_id_def validate_single_component_iff split: if_splits)

lemma find_record_none: "find_record st c i = Inr None \<Longrightarrow> \<not> has_row st c i"
  by (auto simp: find_record_def has_row_def rows_of_def find_None_iff split: option.splits)

lemma cascades_closed:
  assumes "deletes_well cs del" "for_each (cascade_one del c rid) (cascade_targets cs) st = Some (r, st')"
  shows "closed_step cs st st'"
  using assms(2) by (rule closing.for_each_rel) (metis cascade_one_closed[OF assms(1)] cascade_targets_coll prod.collapse)

lemma delete_finish_closed:
  assumes inj: "inj_on rl_name (set cs)" "c \<in> set cs" and run: "delete_finish env c rid row st = (r, st')"
    and none: "\<And>other row. \<not> cascade_ref cs st c rid other row"
  shows "closed_step cs st st' \<and> (\<forall>b. r = Inr b \<longrightarrow> \<not> has_row st' c rid)"
proof -
  note d = delete_finish_rows[OF run]
  have "set (rows_of st' t) \<subseteq> set (rows_of st t)" for t using d by (cases "t = rl_name c") auto
  then have sh: "shrinks st st'" using d unfolding shrinks_def by blast
  have "\<not> cascade_ref cs st' c' i other x" if "c' \<in> set cs" "has_row st c' i" "\<not> has_row st' c' i" for c' i other x
  proof -
    have name: "rl_name c' = rl_name c" using d that by (cases "rl_name c' = rl_name c") (auto simp: has_row_def)
    then have "c' = c" using inj that(1) by (auto dest: inj_onD)
    moreover have "i = rid" using d that(2,3) name by (auto simp: has_row_def)
    ultimately have "c' = c \<and> i = rid" by simp
    then show ?thesis using none shrinks_ref[OF sh] by blast
  qed
  then show ?thesis using sh d unfolding closed_step_def by (auto simp: has_row_def)
qed

lemma delete_record_well:
  assumes inj: "inj_on rl_name (set cs)"
  shows "deletes_well cs (delete_record n env cs)"
proof (induction n)
  case (Suc n)
  show ?case unfolding deletes_well_def
  proof (intro allI impI)
    fix c v st r st' assume c: "c \<in> set cs" and run: "delete_record (Suc n) env cs c v st = Some (r, st')"
    show "closed_step cs st st' \<and>
       (\<forall>b. r = Inr b \<longrightarrow> (\<exists>i. v = PStr i \<and> \<not> has_row st' c i \<and> (b \<longrightarrow> (\<forall>other row. \<not> cascade_ref cs st' c i other row))))"
    proof (cases "\<exists>rid row. validate_record_id v = Inr rid \<and> find_record st c rid = Inr (Some row)")
      case False
      then have "st' = st \<and> (\<forall>b. r = Inr b \<longrightarrow> \<not> b \<and> (\<exists>i. v = PStr i \<and> find_record st c i = Inr None))"
        using run validate_record_id_PStr[of v] by (cases "validate_record_id v") (auto split: sum.splits option.splits)
      then show ?thesis using find_record_none by auto
    next
      case True
      then obtain rid row where v: "validate_record_id v = Inr rid" "find_record st c rid = Inr (Some row)" by blast
      obtain q st1 where casc: "for_each (cascade_one (delete_record n env cs) c rid) (cascade_targets cs) st = Some (q, st1)"
        using run v by (auto split: option.splits)
      note cl = cascades_closed[OF Suc.IH casc]
      show ?thesis
      proof (cases q)
        case (Inl e)
        then show ?thesis using run v casc cl by auto
      next
        case (Inr u)
        note none = cascades_done[OF Suc.IH casc[unfolded Inr]]
        have fin: "delete_finish env c rid row st1 = (r, st')" using run v casc Inr by simp
        note f = delete_finish_closed[OF inj c fin none]
        then have "\<not> cascade_ref cs st' c rid other x" for other x
          using none shrinks_ref[OF closed_step_shrinks] by blast
        then show ?thesis using f closed_step_trans[OF cl] validate_record_id_PStr[OF v(1)] by blast
      qed
    qed
  qed
qed (simp add: deletes_well_def)

section \<open>Deleting: termination\<close>

text \<open>A rank of the records that falls along every cascading reference: there is no cycle.\<close>

definition ranked :: "rcoll list \<Rightarrow> (pystr \<Rightarrow> pystr \<Rightarrow> nat) \<Rightarrow> store \<Rightarrow> bool" where
  "ranked cs rk st = (\<forall>c i other row j. c \<in> set cs \<longrightarrow> cascade_ref cs st c i other row \<longrightarrow> dict_get row (lit ''id'') = PStr j \<longrightarrow>
     rk (rl_name other) j < rk (rl_name c) i)"

lemma ranked_shrinks: "\<lbrakk>ranked cs rk st; shrinks st st'\<rbrakk> \<Longrightarrow> ranked cs rk st'"
  unfolding ranked_def using shrinks_ref by blast

lemma for_each_total:
  assumes "\<And>x st. \<lbrakk>x \<in> set xs; P st\<rbrakk> \<Longrightarrow> f x st \<noteq> None" "\<And>x st r st'. \<lbrakk>x \<in> set xs; P st; f x st = Some (r, st')\<rbrakk> \<Longrightarrow> P st'"
  shows "P st \<Longrightarrow> for_each f xs st \<noteq> None"
  using assms
proof (induction xs arbitrary: st)
  case (Cons x xs)
  obtain r st' where x: "f x st = Some (r, st')" using Cons.prems(2)[of x st] Cons.prems(1) by auto
  have "P st'" using Cons.prems(3)[OF _ Cons.prems(1) x] by simp
  then have "for_each f xs st' \<noteq> None"
    by (rule Cons.IH) (use Cons.prems(2,3) in \<open>simp, meson list.set_intros(2)\<close>)
  then show ?case using x by (auto split: sum.splits)
qed simp

lemma cascade_one_total:
  assumes well: "deletes_well cs del" and target: "(other, f) \<in> set (cascade_targets cs)" and c: "c \<in> set cs" and rk: "ranked cs rk st"
    and del: "\<And>j st. \<lbrakk>\<And>k. j = PStr k \<Longrightarrow> rk (rl_name other) k < rk (rl_name c) rid; ranked cs rk st\<rbrakk> \<Longrightarrow> del other j st \<noteq> None"
  shows "cascade_one del c rid (other, f) st \<noteq> None"
proof -
  have o: "other \<in> set cs" by (rule cascade_targets_coll[OF target])
  have "for_each (\<lambda>i st. map_option (\<lambda>(r, st'). (case r of Inl e \<Rightarrow> Inl e | Inr _ \<Rightarrow> Inr (), st')) (del other i st)) ids st \<noteq> None"
    if f: "cascade_field c f = Inr (Some (name, multi))" and ids: "related_ids st other rid name multi = Inr ids" for name multi ids
  proof (rule for_each_total[of ids "ranked cs rk", OF _ _ rk])
    fix j s assume j: "j \<in> set ids" and s: "ranked cs rk s"
    have "rk (rl_name other) k < rk (rl_name c) rid" if jk: "j = PStr k" for k
    proof -
      obtain row where "row \<in> set (rows_of st (rl_name other))" "references rid name multi row" "dict_get row (lit ''id'') = PStr k"
        using ids j jk by (cases "st_tables st (rl_name other)") (auto simp: related_ids_def rows_of_def)
      then have "cascade_ref cs st c rid other row" using target f unfolding cascade_ref_def by blast
      then show ?thesis using rk c \<open>dict_get row (lit ''id'') = PStr k\<close> unfolding ranked_def by blast
    qed
    then show "map_option (\<lambda>(r, st'). (case r of Inl e \<Rightarrow> Inl e | Inr _ \<Rightarrow> Inr (), st')) (del other j s) \<noteq> None"
      using del[OF _ s] by simp
  next
    fix j s r s' assume "ranked cs rk s" "map_option (\<lambda>(r, st'). (case r of Inl e \<Rightarrow> Inl e | Inr _ \<Rightarrow> Inr (), st')) (del other j s) = Some (r, s')"
    then show "ranked cs rk s'"
      using well o ranked_shrinks closed_step_shrinks unfolding deletes_well_def by fastforce
  qed
  then show ?thesis by (auto simp: cascade_one_def split: sum.splits option.splits)
qed

lemma delete_record_total:
  assumes inj: "inj_on rl_name (set cs)"
  shows "\<lbrakk>c \<in> set cs; ranked cs rk st; \<And>i. v = PStr i \<Longrightarrow> Suc (rk (rl_name c) i) < n; 0 < n\<rbrakk> \<Longrightarrow> delete_record n env cs c v st \<noteq> None"
proof (induction n arbitrary: c v st)
  case (Suc n)
  have "for_each (cascade_one (delete_record n env cs) c rid) (cascade_targets cs) st \<noteq> None" if "v = PStr rid" for rid
  proof (rule for_each_total[of _ "ranked cs rk", OF _ _ Suc.prems(2)])
    fix t s assume t: "t \<in> set (cascade_targets cs)" and s: "ranked cs rk s"
    obtain other f where tt: "t = (other, f)" by (cases t)
    have "delete_record n env cs other j s' \<noteq> None"
      if j: "\<And>k. j = PStr k \<Longrightarrow> rk (rl_name other) k < rk (rl_name c) rid" and s': "ranked cs rk s'" for j s'
    proof (rule Suc.IH[OF _ s'])
      show "other \<in> set cs" using t tt cascade_targets_coll by blast
      show "0 < n" using Suc.prems(3)[OF \<open>v = PStr rid\<close>] by simp
      show "Suc (rk (rl_name other) k) < n" if "j = PStr k" for k
        using j[OF that] Suc.prems(3)[OF \<open>v = PStr rid\<close>] by simp
    qed
    then show "cascade_one (delete_record n env cs) c rid t s \<noteq> None"
      using cascade_one_total[OF delete_record_well[OF inj] t[unfolded tt] Suc.prems(1) s] tt by blast
  next
    fix t s r s' assume "t \<in> set (cascade_targets cs)" "ranked cs rk s" "cascade_one (delete_record n env cs) c rid t s = Some (r, s')"
    then show "ranked cs rk s'"
      by (metis cascade_one_closed[OF delete_record_well[OF inj]] cascade_targets_coll closed_step_shrinks prod.collapse ranked_shrinks)
  qed
  then show ?case using validate_record_id_PStr[of v] by (auto split: sum.splits option.splits)
qed simp

section \<open>Deleting: nothing else goes\<close>

text \<open>The records that deleting record \<open>i\<close> of \<open>c\<close> reaches through cascading references.\<close>

inductive cascades :: "rcoll list \<Rightarrow> store \<Rightarrow> rcoll \<Rightarrow> pystr \<Rightarrow> rcoll \<Rightarrow> pystr \<Rightarrow> bool" for cs st c i where
  self: "cascades cs st c i c i"
| step: "\<lbrakk>cascades cs st c i d j; cascade_ref cs st d j other row; dict_get row (lit ''id'') = PStr k\<rbrakk> \<Longrightarrow> cascades cs st c i other k"

lemma cascades_trans: "\<lbrakk>cascades cs st d j e k; cascades cs st c i d j\<rbrakk> \<Longrightarrow> cascades cs st c i e k"
  by (induction rule: cascades.induct) (auto intro: cascades.step)

text \<open>Between \<open>st\<close> and \<open>st'\<close> only rows and files of the given records disappear.\<close>

definition loses_only :: "(rcoll \<Rightarrow> pystr \<Rightarrow> bool) \<Rightarrow> store \<Rightarrow> store \<Rightarrow> bool" where
  "loses_only P st st' = (shrinks st st' \<and>
     (\<forall>t row. row \<in> set (rows_of st t) - set (rows_of st' t) \<longrightarrow> (\<exists>d j. P d j \<and> rl_name d = t \<and> dict_get row (lit ''id'') = PStr j)) \<and>
     (\<forall>cid rid name. (cid, rid, name) \<in> st_files st - st_files st' \<longrightarrow> (\<exists>d. P d rid \<and> rl_id d = cid)))"

lemma loses_only_trans: "\<lbrakk>loses_only P a b; loses_only P b d\<rbrakk> \<Longrightarrow> loses_only P a d"
  unfolding loses_only_def by (intro conjI) (blast intro: shrinks_trans, blast, blast)

interpretation losing: store_relation "loses_only P" for P
  by unfold_locales (simp add: loses_only_def, rule loses_only_trans)

lemma loses_only_shrinks: "loses_only P st st' \<Longrightarrow> shrinks st st'"
  by (simp add: loses_only_def)

lemma loses_only_mono: "\<lbrakk>loses_only P st st'; \<And>d j. P d j \<Longrightarrow> Q d j\<rbrakk> \<Longrightarrow> loses_only Q st st'"
  unfolding loses_only_def by blast

lemma delete_files_loses: "loses_only (\<lambda>d j. d = c \<and> j = rid) st (snd (delete_files env (rl_id c) rid names st))"
  using delete_files_cases[of env "rl_id c" rid names st] by (auto simp: loses_only_def shrinks_def file_keys_def)

lemma remove_row_loses:
  assumes "st_tables st (rl_name c) = Some rows"
  shows "loses_only (\<lambda>d j. d = c \<and> j = rid) st
    (st\<lparr>st_tables := (st_tables st)(rl_name c \<mapsto> filter (\<lambda>r. dict_get r (lit ''id'') \<noteq> PStr rid) rows), st_notified := ns\<rparr>)"
  using assms by (auto simp: loses_only_def shrinks_def rows_of_def split: if_splits)

lemma delete_finish_loses:
  assumes "delete_finish env c rid row st = (r, st')"
  shows "loses_only (\<lambda>d j. d = c \<and> j = rid) st st'"
  using assms losing.refl remove_row_loses[of st c] losing.trans[OF remove_row_loses delete_files_loses]
  by (auto simp: delete_finish_def write_rows_def remove_row_def Let_def
      split: option.splits commit_outcome.splits prod.splits sum.splits)

lemma cascades_shrinks: "\<lbrakk>cascades cs st' c i d j; shrinks st st'\<rbrakk> \<Longrightarrow> cascades cs st c i d j"
  by (induction rule: cascades.induct) (auto intro: cascades.intros shrinks_ref)

text \<open>The loop keeps, next to what it lost, that its store came from \<open>st0\<close>.\<close>

definition loses_from :: "store \<Rightarrow> (rcoll \<Rightarrow> pystr \<Rightarrow> bool) \<Rightarrow> store \<Rightarrow> store \<Rightarrow> bool" where
  "loses_from st0 P st st' = (shrinks st0 st \<longrightarrow> loses_only P st st')"

interpretation losing_from: store_relation "loses_from st0 P" for st0 P
  by unfold_locales (auto simp: loses_from_def losing.refl intro: losing.trans shrinks_trans dest: loses_only_shrinks)

definition deletes_only :: "rcoll list \<Rightarrow> (rcoll \<Rightarrow> pyval \<Rightarrow> store \<Rightarrow> (bool rec_result) option) \<Rightarrow> bool" where
  "deletes_only cs del = (\<forall>c v st r st'. del c v st = Some (r, st') \<longrightarrow>
     loses_only (\<lambda>d j. \<exists>i. v = PStr i \<and> cascades cs st c i d j) st st')"

lemma call_loses:
  assumes del: "deletes_only cs del" "del other j a = Some (b, z)" and reach: "\<And>k. j = PStr k \<Longrightarrow> cascades cs st c rid other k"
  shows "loses_from st (cascades cs st c rid) a z"
  unfolding loses_from_def
proof
  assume sh: "shrinks st a"
  have "loses_only (\<lambda>d k. \<exists>i. j = PStr i \<and> cascades cs a other i d k) a z" using del unfolding deletes_only_def by blast
  then show "loses_only (cascades cs st c rid) a z"
  proof (rule loses_only_mono)
    fix d k assume "\<exists>i. j = PStr i \<and> cascades cs a other i d k"
    then obtain i where i: "j = PStr i" "cascades cs a other i d k" by blast
    show "cascades cs st c rid d k" by (rule cascades_trans[OF cascades_shrinks[OF i(2) sh] reach[OF i(1)]])
  qed
qed

lemma cascade_one_loses:
  assumes del: "deletes_only cs del" and t: "(other, f) \<in> set (cascade_targets cs)"
    and run: "cascade_one del c rid (other, f) s = Some (p, s')"
  shows "loses_from st (cascades cs st c rid) s s'"
proof (cases "shrinks st s")
  case sh: True
  consider (none) "s' = s" | (loop) name multi ids where "cascade_field c f = Inr (Some (name, multi))"
      "related_ids s other rid name multi = Inr ids"
      "for_each (\<lambda>i st. map_option (\<lambda>(r, st'). (case r of Inl e \<Rightarrow> Inl e | Inr _ \<Rightarrow> Inr (), st')) (del other i st)) ids s = Some (p, s')"
    using run by (auto simp: cascade_one_def split: sum.splits option.splits)
  then show ?thesis
  proof cases
    case loop
    from loop(3) show ?thesis
    proof (rule losing_from.for_each_rel)
      fix j a b z assume j: "j \<in> set ids"
        and call: "map_option (\<lambda>(r, st'). (case r of Inl e \<Rightarrow> Inl e | Inr _ \<Rightarrow> Inr (), st')) (del other j a) = Some (b, z)"
      obtain row where row: "row \<in> set (rows_of s (rl_name other))" "references rid name multi row" "j = dict_get row (lit ''id'')"
        using loop(2) j by (cases "st_tables s (rl_name other)") (auto simp: related_ids_def rows_of_def)
      then have "cascade_ref cs s c rid other row" using t loop(1) unfolding cascade_ref_def by blast
      then have "cascades cs st c rid other k" if "j = PStr k" for k
        using cascades.step[OF cascades.self shrinks_ref[OF sh]] row(3) that by metis
      moreover obtain b' where "del other j a = Some (b', z)" using call by auto
      ultimately show "loses_from st (cascades cs st c rid) a z" using call_loses[OF del] by blast
    qed
  qed (simp add: losing_from.refl)
qed (simp add: loses_from_def)

lemma delete_record_loses: "deletes_only cs (delete_record n env cs)"
proof (induction n)
  case (Suc n)
  show ?case unfolding deletes_only_def
  proof (intro allI impI)
    fix c v st r st' assume run: "delete_record (Suc n) env cs c v st = Some (r, st')"
    show "loses_only (\<lambda>d j. \<exists>i. v = PStr i \<and> cascades cs st c i d j) st st'"
    proof (cases "\<exists>rid row. validate_record_id v = Inr rid \<and> find_record st c rid = Inr (Some row)")
      case False
      then show ?thesis using run losing.refl by (auto split: sum.splits option.splits)
    next
      case True
      then obtain rid row where v: "validate_record_id v = Inr rid" "find_record st c rid = Inr (Some row)" by blast
      obtain q st1 where casc: "for_each (cascade_one (delete_record n env cs) c rid) (cascade_targets cs) st = Some (q, st1)"
        using run v by (auto split: option.splits)
      have "loses_from st (cascades cs st c rid) st st1"
        using casc by (rule losing_from.for_each_rel) (metis cascade_one_loses[OF Suc.IH] prod.collapse)
      then have lost: "loses_only (cascades cs st c rid) st st1" by (simp add: loses_from_def)
      have "loses_only (cascades cs st c rid) st1 st'"
      proof (cases q)
        case (Inl e)
        then show ?thesis using run v casc losing.refl by auto
      next
        case (Inr u)
        then have "delete_finish env c rid row st1 = (r, st')" using run v casc by simp
        then show ?thesis using loses_only_mono[OF delete_finish_loses] cascades.self by blast
      qed
      then show ?thesis using losing.trans[OF lost] validate_record_id_PStr[OF v(1)] by (auto elim: loses_only_mono)
    qed
  qed
qed (simp add: deletes_only_def)

section \<open>Properties of deleting\<close>

text \<open>No cascading relation points to a record that is not there.\<close>

definition no_dangling :: "rcoll list \<Rightarrow> store \<Rightarrow> bool" where
  "no_dangling cs st = (\<forall>c \<in> set cs. \<forall>i other row. i \<noteq> [] \<longrightarrow> cascade_ref cs st c i other row \<longrightarrow> has_row st c i)"

lemma closed_step_no_dangling: "\<lbrakk>closed_step cs st st'; no_dangling cs st\<rbrakk> \<Longrightarrow> no_dangling cs st'"
  unfolding no_dangling_def closed_step_def using shrinks_ref by blast

definition relation_field :: "string \<Rightarrow> string \<Rightarrow> pydict" where
  "relation_field name target = [(lit ''name'', PStr (lit name)), (lit ''type'', PStr (lit ''relation'')),
     (lit ''options'', PDict [(lit ''collectionId'', PStr (lit target)), (lit ''cascadeDelete'', PBool True)])]"

definition sample_articles :: rcoll where
  "sample_articles = \<lparr>rl_id = lit ''ca'', rl_name = lit ''articles'', rl_type = lit ''base'', rl_schema = [], rl_fields = []\<rparr>"

definition sample_comments :: rcoll where
  "sample_comments = \<lparr>rl_id = lit ''cc'', rl_name = lit ''comments'', rl_type = lit ''base'',
     rl_schema = [relation_field ''article'' ''ca'', relation_field ''parent'' ''cc''], rl_fields = []\<rparr>"

definition sample_comment :: "string \<Rightarrow> string \<Rightarrow> pydict" where
  "sample_comment i parent = [(lit ''id'', PStr (lit i)), (lit ''article'', PStr (lit ''a1'')), (lit ''parent'', PStr (lit parent))]"

definition sample_store :: "pydict list \<Rightarrow> store" where
  "sample_store comments = \<lparr>st_tables = [lit ''articles'' \<mapsto> [[(lit ''id'', PStr (lit ''a1''))]], lit ''comments'' \<mapsto> comments],
     st_files = {}, st_notified = []\<rparr>"

definition sample_env :: store_env where
  "sample_env = \<lparr>se_rt = sample_rt, se_hash = (\<lambda>s. lit ''h'' @ s), se_key = lit ''key'', se_id = lit ''id0000000000000'', se_now = PyDt 0 (Some 0),
     se_fadd = (\<lambda>a b. FNan), se_fsub = (\<lambda>a b. FNan), se_guess_mime = (\<lambda>n. None), se_names = (\<lambda>field i k. field @ nat_str i @ nat_str k),
     se_io_fail = (\<lambda>f i. False), se_commit = (\<lambda>t i. Committed)\<rparr>"

lemma sample_delete:
  "map_option (\<lambda>(r, st). (r, rows_of st (lit ''articles''), rows_of st (lit ''comments''), st_notified st))
     (delete_record 5 sample_env [sample_articles, sample_comments] sample_articles (PStr (lit ''a1''))
       (sample_store [sample_comment ''c1'' '''', sample_comment ''c2'' ''c1'']))
   = Some (Inr True, [], [], [(lit ''comments'', lit ''c2'', lit ''delete''), (lit ''comments'', lit ''c1'', lit ''delete''), (lit ''articles'', lit ''a1'', lit ''delete'')])"
  by code_simp

definition sample_thread :: store where
  "sample_thread = sample_store [sample_comment ''c1'' '''', sample_comment ''c2'' ''c1'']"

lemma sample_cascade_fields:
  "cascade_field sample_articles (relation_field ''article'' ''ca'') = Inr (Some (lit ''article'', False))"
  "cascade_field sample_articles (relation_field ''parent'' ''cc'') = Inr None"
  "cascade_field sample_comments (relation_field ''article'' ''ca'') = Inr None"
  "cascade_field sample_comments (relation_field ''parent'' ''cc'') = Inr (Some (lit ''parent'', False))"
  by code_simp+

lemma sample_distinct [simp]: "sample_articles \<noteq> sample_comments" "sample_comments \<noteq> sample_articles"
  by (simp_all add: sample_articles_def sample_comments_def)

lemma cascade_ref_iff:
  "cascade_ref cs st c i other row \<longleftrightarrow> (\<exists>t \<in> set (cascade_targets cs). fst t = other \<and> row \<in> set (rows_of st (rl_name other)) \<and>
     (case cascade_field c (snd t) of Inr (Some (name, multi)) \<Rightarrow> references i name multi row | _ \<Rightarrow> False))"
proof -
  have "(case cascade_field c f of Inr (Some (name, multi)) \<Rightarrow> references i name multi row | _ \<Rightarrow> False) \<longleftrightarrow>
      (\<exists>name multi. cascade_field c f = Inr (Some (name, multi)) \<and> references i name multi row)" for f
    by (auto split: sum.splits option.splits)
  then show ?thesis unfolding cascade_ref_def by (auto simp: Bex_def)
qed

lemma sample_cascade_ref:
  assumes "c \<in> {sample_articles, sample_comments}"
  shows "cascade_ref [sample_articles, sample_comments] sample_thread c i other row \<longleftrightarrow>
    other = sample_comments \<and>
    (c = sample_articles \<and> i = lit ''a1'' \<and> row \<in> {sample_comment ''c1'' '''', sample_comment ''c2'' ''c1''} \<or>
     c = sample_comments \<and> (i = [] \<and> row = sample_comment ''c1'' '''' \<or> i = lit ''c1'' \<and> row = sample_comment ''c2'' ''c1''))"
proof -
  have t: "cascade_targets [sample_articles, sample_comments] =
      [(sample_comments, relation_field ''article'' ''ca''), (sample_comments, relation_field ''parent'' ''cc'')]"
    by (simp add: cascade_targets_def sample_articles_def sample_comments_def)
  have r: "rows_of sample_thread (rl_name sample_comments) = [sample_comment ''c1'' '''', sample_comment ''c2'' ''c1'']" by code_simp
  have g: "dict_get (sample_comment j p) (lit ''article'') = PStr (lit ''a1'')" "dict_get (sample_comment j p) (lit ''parent'') = PStr (lit p)" for j p
    by (simp_all add: sample_comment_def dict_get_Cons)
  have e: "lit '''' = []" by (simp add: lit_def)
  have s: "references k (lit ''article'') False (sample_comment j p) \<longleftrightarrow> k = lit ''a1''"
    "references k (lit ''parent'') False (sample_comment j p) \<longleftrightarrow> k = lit p" for k j p by (auto simp: references_def g)
  have "cascade_ref [sample_articles, sample_comments] sample_thread c i other row \<longleftrightarrow>
      other = sample_comments \<and> row \<in> {sample_comment ''c1'' '''', sample_comment ''c2'' ''c1''} \<and>
      (c = sample_articles \<and> references i (lit ''article'') False row \<or> c = sample_comments \<and> references i (lit ''parent'') False row)"
    unfolding cascade_ref_iff t using assms
    by (elim insertE emptyE; simp add: sample_cascade_fields; metis r list.set(1,2) insert_iff empty_iff)
  then show ?thesis using assms by (elim insertE emptyE; auto simp: s e)
qed

lemma sample_ids:
  "dict_get (sample_comment j p) (lit ''id'') = PStr (lit j)" "rl_name sample_articles = lit ''articles''" "rl_name sample_comments = lit ''comments''"
  "inj_on rl_name {sample_articles, sample_comments}"
  by (simp_all add: sample_comment_def dict_get_Cons sample_articles_def sample_comments_def)

lemma sample_no_dangling: "no_dangling [sample_articles, sample_comments] sample_thread"
proof -
  have "rows_of sample_thread (lit ''articles'') = [[(lit ''id'', PStr (lit ''a1''))]]"
    "rows_of sample_thread (lit ''comments'') = [sample_comment ''c1'' '''', sample_comment ''c2'' ''c1'']" by code_simp+
  then show ?thesis by (auto simp: no_dangling_def sample_cascade_ref has_row_def sample_ids dict_get_Cons)
qed

definition sample_rank :: "pystr \<Rightarrow> pystr \<Rightarrow> nat" where
  "sample_rank t i = (if t = lit ''articles'' then 2 else if i = lit ''c2'' then 0 else if i = lit ''c1'' then 1 else 2)"

lemma sample_ranked: "ranked [sample_articles, sample_comments] sample_rank sample_thread"
  by (auto simp: ranked_def sample_cascade_ref sample_ids sample_rank_def)

text \<open>
  C5: deleting a record, whatever comes of it (an error in the middle of the cascades, a commit that was rolled back or is in doubt),
  never leaves a cascading relation that points to a missing record; when it reports success, the record and every row that pointed to it
  are gone.
\<close>

theorem cascade_delete_integrity:
  assumes "inj_on rl_name (set cs)" "c \<in> set cs" "delete_record n env cs c v st = Some (r, st')" "no_dangling cs st"
  shows "no_dangling cs st' \<and>
    (\<forall>b. r = Inr b \<longrightarrow> (\<exists>i. v = PStr i \<and> \<not> has_row st' c i \<and> (b \<longrightarrow> (\<forall>other row. \<not> cascade_ref cs st' c i other row))))"
  using delete_record_well[OF assms(1), of n env] assms(2-4) closed_step_no_dangling unfolding deletes_well_def by blast

theorem cascade_delete_integrity_witness:
  "\<exists>st'. delete_record 5 sample_env [sample_articles, sample_comments] sample_articles (PStr (lit ''a1'')) sample_thread = Some (Inr True, st') \<and>
     no_dangling [sample_articles, sample_comments] st' \<and> \<not> has_row st' sample_articles (lit ''a1'')"
proof -
  obtain st' where run: "delete_record 5 sample_env [sample_articles, sample_comments] sample_articles (PStr (lit ''a1'')) sample_thread = Some (Inr True, st')"
    using sample_delete unfolding sample_thread_def by auto
  show ?thesis using cascade_delete_integrity[OF _ _ run sample_no_dangling] run sample_ids(4) by auto
qed

text \<open>
  C26: deleting removes only the record and the rows that reach it through cascading references, and only files stored for those records.
\<close>

theorem cascade_delete_only_reached:
  assumes "delete_record n env cs c (PStr i) st = Some (r, st')"
  shows "loses_only (cascades cs st c i) st st'"
  using delete_record_loses[of cs n env] assms unfolding deletes_only_def by (fastforce elim: loses_only_mono)

theorem cascade_delete_only_reached_witness:
  "\<exists>st'. delete_record 5 sample_env [sample_articles, sample_comments] sample_comments (PStr (lit ''c2'')) sample_thread = Some (Inr True, st') \<and>
     loses_only (cascades [sample_articles, sample_comments] sample_thread sample_comments (lit ''c2'')) sample_thread st'"
proof -
  have "map_option fst (delete_record 5 sample_env [sample_articles, sample_comments] sample_comments (PStr (lit ''c2'')) sample_thread) = Some (Inr True)"
    by code_simp
  then obtain st' where run: "delete_record 5 sample_env [sample_articles, sample_comments] sample_comments (PStr (lit ''c2'')) sample_thread = Some (Inr True, st')"
    by auto
  show ?thesis using cascade_delete_only_reached[OF run] run by blast
qed

text \<open>
  C27: when the cascading references have no cycle, deleting a record returns: a depth of the record's rank plus two is enough for the
  recursion, whatever errors and commit outcomes it meets.
\<close>

theorem cascade_delete_terminates:
  assumes "inj_on rl_name (set cs)" "c \<in> set cs" "ranked cs rk st" "Suc (rk (rl_name c) i) < n"
  shows "\<exists>r st'. delete_record n env cs c (PStr i) st = Some (r, st')"
  using delete_record_total[OF assms(1-3), where v = "PStr i" and n = n and env = env] assms(4) by auto

theorem cascade_delete_terminates_witness:
  "\<exists>r st'. delete_record 4 sample_env [sample_articles, sample_comments] sample_articles (PStr (lit ''a1'')) sample_thread = Some (r, st')"
  by (rule cascade_delete_terminates[OF _ _ sample_ranked]) (simp_all add: sample_ids sample_rank_def)


definition sample_nodes :: rcoll where
  "sample_nodes = \<lparr>rl_id = lit ''cn'', rl_name = lit ''nodes'', rl_type = lit ''base'', rl_schema = [relation_field ''parent'' ''cn''], rl_fields = []\<rparr>"


end
