(* ===== verification/Record_Writes.thy ===== *)
theory Record_Writes
  imports Record_Store
begin

text \<open>
  Facts about creating and updating records (\<open>Record_Store\<close>): uploads are kept or removed together with the write they belong to,
  the columns that reach the database passed their validators, and addresses stay unique.
\<close>

section \<open>Uploads: all or nothing\<close>

text \<open>Generated names are accepted by the storage layer and are not remote references.\<close>

definition storable_names :: "store_env \<Rightarrow> bool" where
  "storable_names env = (\<forall>field i k. validate_file_reference (PStr (se_names env field i k)) = Inr (se_names env field i k) \<and>
     \<not> is_remote_file_reference (se_rt env) (PStr (se_names env field i k)))"

definition generated :: "store_env \<Rightarrow> pystr \<Rightarrow> bool" where
  "generated env n = (\<exists>field i k. n = se_names env field i k)"

text \<open>\<open>st'\<close> is \<open>st\<close> with new files of one record.\<close>

definition adds :: "store_env \<Rightarrow> pystr \<Rightarrow> pystr \<Rightarrow> pystr list \<Rightarrow> store \<Rightarrow> store \<Rightarrow> bool" where
  "adds env cid rid names st st' = (st' = st\<lparr>st_files := st_files st \<union> file_keys cid rid names\<rparr> \<and>
     st_files st \<inter> file_keys cid rid names = {} \<and> list_all (generated env) names \<and> (names \<noteq> [] \<longrightarrow> storage_location cid rid))"

lemma adds_Nil [simp]: "adds env cid rid [] st st' \<longleftrightarrow> st' = st"
  by (auto simp: adds_def file_keys_def)

lemma file_keys_append: "file_keys cid rid (ns @ ms) = file_keys cid rid ns \<union> file_keys cid rid ms"
  by (auto simp: file_keys_def)

lemma adds_snoc:
  assumes "adds env cid rid ns st st'" "generated env n" "(cid, rid, n) \<notin> st_files st'" "storage_location cid rid"
  shows "adds env cid rid (ns @ [n]) st (st'\<lparr>st_files := insert (cid, rid, n) (st_files st')\<rparr>)"
  using assms by (auto simp: adds_def file_keys_def)

lemma adds_trans: "\<lbrakk>adds env cid rid ns a b; adds env cid rid ms b d\<rbrakk> \<Longrightarrow> adds env cid rid (ns @ ms) a d"
  by (auto simp: adds_def file_keys_append Un_assoc)

lemma adds_undo: "adds env cid rid ns st st' \<Longrightarrow> st'\<lparr>st_files := st_files st' - file_keys cid rid ns\<rparr> = st"
  by (cases st) (auto simp: adds_def)

lemma mapE_ident: "(\<And>x. x \<in> set xs \<Longrightarrow> f (g x) = Inr x) \<Longrightarrow> mapE f (map g xs) = Inr xs"
  by (induction xs) (auto simp: res_simps)

lemma deletable_generated:
  assumes "storable_names env" "list_all (generated env) ns"
  shows "deletable_file_references (se_rt env) (map PStr ns) = Inr ns"
proof -
  have g: "validate_file_reference (PStr n) = Inr n \<and> \<not> is_remote_file_reference (se_rt env) (PStr n)" if "n \<in> set ns" for n
    using assms that by (auto simp: storable_names_def generated_def list_all_iff)
  then have "filter (\<lambda>f. \<not> is_remote_file_reference (se_rt env) f) (map PStr ns) = map PStr ns" by (auto intro!: filter_True)
  then show ?thesis using g by (auto simp: deletable_file_references_def intro: mapE_ident)
qed

lemma adds_cleanup:
  assumes "storable_names env" "adds env cid rid ns st st'"
  shows "cleanup_new_storage_files env cid rid ns st' = st"
proof -
  have loc: "ns \<noteq> [] \<longrightarrow> storage_location cid rid" using assms(2) by (simp add: adds_def)
  have "list_all (generated env) ns" using assms(2) by (simp add: adds_def)
  then have "deletable_file_references (se_rt env) (map PStr ns) = Inr ns" by (rule deletable_generated[OF assms(1)])
  then show ?thesis using assms(2) adds_undo[OF assms(2)] loc
    by (cases "ns = []") (simp_all add: cleanup_new_storage_files_def delete_files_def)
qed

lemma free_name_some: "free_name gen taken k n = Some s \<Longrightarrow> \<not> taken s \<and> (\<exists>j. s = gen j)"
  by (induction gen taken k n rule: free_name.induct) (auto split: if_splits)

lemma save_loop_adds:
  assumes loc: "storage_location cid rid" and "adds env cid rid saved base st" "save_loop env cid rid field single i fs saved st = (r, st')"
  shows "case r of Inl e \<Rightarrow> st' = base | Inr names \<Rightarrow> adds env cid rid names base st'"
  using assms(2,3)
proof (induction fs arbitrary: i saved st)
  case (Cons f fs)
  show ?case
  proof (cases "se_io_fail env field i \<or> free_name (se_names env field i) (\<lambda>n. (cid, rid, n) \<in> st_files st) 0 20 = None")
    case True
    then have "st' = base \<and> (\<exists>e. r = Inl e)"
      using Cons.prems(2) adds_undo[OF Cons.prems(1)] by (elim disjE) (auto simp: Let_def split: if_splits)
    then show ?thesis by auto
  next
    case False
    then obtain n where n: "free_name (se_names env field i) (\<lambda>n. (cid, rid, n) \<in> st_files st) 0 20 = Some n" by auto
    have "generated env n" "(cid, rid, n) \<notin> st_files st" using free_name_some[OF n] by (auto simp: generated_def)
    then have 1: "adds env cid rid (saved @ [n]) base (st\<lparr>st_files := insert (cid, rid, n) (st_files st)\<rparr>)"
      using adds_snoc[OF Cons.prems(1)] loc by blast
    show ?thesis
    proof (cases single)
      case True
      then show ?thesis using Cons.prems(2) False n 1 by (auto simp: Let_def)
    next
      case False
      then show ?thesis using Cons.prems(2) \<open>\<not> (_ \<or> _)\<close> n Cons.IH[OF 1] by (simp add: Let_def)
    qed
  qed
qed auto

lemma save_files_adds:
  assumes "save_files env cid rid field fs single st = (r, st')"
  shows "case r of Inl e \<Rightarrow> st' = st | Inr names \<Rightarrow> adds env cid rid names st st'"
  using save_loop_adds[of cid rid env "[]" st st] assms by (auto simp: save_files_def split: if_splits)

lemma create_uploads_adds:
  assumes "storable_names env" "adds env (rl_id c) rid saved base st" "create_uploads env c rid uploads data errs saved st = (r, st')"
  shows "case r of Inl e \<Rightarrow> st' = base | Inr (data', errs', saved') \<Rightarrow> adds env (rl_id c) rid saved' base st'"
  using assms(2,3)
proof (induction uploads arbitrary: data errs saved st)
  case (Cons u uploads)
  obtain field fs where u: "u = (field, fs)" by (cases u)
  show ?case
  proof (cases "\<exists>fd. find_field c field = Some fd \<and> fd_type fd = File \<and> upload_errors env fd fs = []")
    case False
    then obtain errs' where "create_uploads env c rid uploads data errs' saved st = (r, st')"
      using Cons.prems(2) u by (auto split: option.splits if_splits)
    then show ?thesis by (rule Cons.IH[OF Cons.prems(1)])
  next
    case True
    then obtain fd where fd: "find_field c field = Some fd" "fd_type fd = File" "upload_errors env fd fs = []" by blast
    obtain q st1 where save: "save_files env (rl_id c) rid field fs (single_file fd) st = (q, st1)" by fastforce
    note s = save_files_adds[OF save]
    show ?thesis
    proof (cases q)
      case (Inl e)
      then show ?thesis using Cons.prems(2) u fd save s adds_cleanup[OF assms(1) Cons.prems(1)] by auto
    next
      case (Inr names)
      then have "adds env (rl_id c) rid (saved @ names) base st1" using s adds_trans[OF Cons.prems(1)] by auto
      then show ?thesis by (rule Cons.IH) (use Cons.prems(2) u fd save Inr in simp)
    qed
  qed
qed auto

lemma update_uploads_adds:
  assumes "storable_names env" "adds env (rl_id c) rid saved base st" "update_uploads env c rid uploads fs errs saved st = (r, st')"
  shows "case r of Inl e \<Rightarrow> st' = base | Inr (fs', errs', saved') \<Rightarrow> adds env (rl_id c) rid saved' base st'"
  using assms(2,3)
proof (induction uploads arbitrary: fs errs saved st)
  case (Cons u uploads)
  obtain key files where u: "u = (key, files)" by (cases u)
  obtain name m where k: "parse_modifier_key key = (name, m)" by fastforce
  show ?case
  proof (cases "\<exists>fd. find_field c name = Some fd \<and> fd_type fd = File \<and> upload_errors env fd files = []")
    case False
    then obtain errs' where "update_uploads env c rid uploads fs errs' saved st = (r, st')"
      using Cons.prems(2) u k by (auto split: option.splits if_splits)
    then show ?thesis by (rule Cons.IH[OF Cons.prems(1)])
  next
    case True
    then obtain fd where fd: "find_field c name = Some fd" "fd_type fd = File" "upload_errors env fd files = []" by blast
    obtain q st1 where save: "save_files env (rl_id c) rid name files (single_file fd) st = (q, st1)" by fastforce
    note s = save_files_adds[OF save]
    show ?thesis
    proof (cases q)
      case (Inl e)
      then show ?thesis using Cons.prems(2) u k fd save s adds_cleanup[OF assms(1) Cons.prems(1)] by auto
    next
      case (Inr names)
      then have a: "adds env (rl_id c) rid (saved @ names) base st1" using s adds_trans[OF Cons.prems(1)] by auto
      show ?thesis
      proof (cases "apply_upload env m (dict_get fs name) names fd")
        case (Inl e)
        then show ?thesis using Cons.prems(2) u k fd save \<open>q = Inr names\<close> adds_cleanup[OF assms(1) a] by auto
      next
        case (Inr w)
        then show ?thesis using Cons.IH[OF a] Cons.prems(2) u k fd save \<open>q = Inr names\<close> by simp
      qed
    qed
  qed
qed auto

text \<open>The outcome of a write transaction on the rows of a collection.\<close>

definition wrote :: "store_env \<Rightarrow> rcoll \<Rightarrow> pystr \<Rightarrow> string \<Rightarrow> (pydict list \<Rightarrow> pydict list option) \<Rightarrow> store \<Rightarrow> store \<Rightarrow> bool" where
  "wrote env c rid action f st st' = (\<exists>rows rows'. st_tables st (rl_name c) = Some rows \<and> f rows = Some rows' \<and>
     (se_commit env (rl_name c) rid \<in> {Committed, AmbiguousApplied} \<and>
        st' = st\<lparr>st_tables := (st_tables st)(rl_name c \<mapsto> rows'), st_notified := st_notified st @ [(rl_name c, rid, lit action)]\<rparr> \<or>
      se_commit env (rl_name c) rid = AmbiguousLost \<and> st' = st))"

lemma write_rows_cases:
  assumes "write_rows env c rid action f st = (r, st')"
  shows "(\<exists>e. r = Inl (e, False)) \<and> st' = st \<or>
    wrote env c rid action f st st' \<and> (r = Inr () \<and> se_commit env (rl_name c) rid = Committed \<or> (\<exists>e. r = Inl (e, True)) \<and> se_commit env (rl_name c) rid \<noteq> Committed)"
  using assms by (auto simp: write_rows_def wrote_def Let_def split: option.splits commit_outcome.splits)

lemma create_finish_cases:
  assumes "storable_names env" "adds env (rl_id c) rid saved base st" "create_finish env c is_auth rid cols errs saved st = (r, st')"
  shows "st' = base \<and> (\<exists>e. r = Inl e) \<or>
    wrote env c rid ''create'' (insert_row cols) st st' \<and> ((\<exists>e. r = Inl e) \<or> se_commit env (rl_name c) rid = Committed)"
proof -
  note cl = adds_cleanup[OF assms(1,2)]
  consider (refused) e where "r = Inl e" "st' = base"
    | (writing) q st1 where "write_rows env c rid ''create'' (insert_row cols) st = (q, st1)"
       "(case q of Inl (e, finished) \<Rightarrow> (Inl (RaisedPy e), if finished then st1 else cleanup_new_storage_files env (rl_id c) rid saved st1)
         | Inr _ \<Rightarrow> created_response env c rid st1) = (r, st')"
    using assms(3) cl by (auto simp: create_finish_def Let_def split: sum.splits bool.splits prod.splits if_splits)
  then show ?thesis
  proof cases
    case writing
    have "snd (created_response env c rid st1) = st1" by (auto simp: created_response_def split: sum.splits option.splits)
    then show ?thesis using write_rows_cases[OF writing(1)] writing(2) cl by (auto split: sum.splits)
  qed simp
qed

section \<open>Creating: what a new row holds\<close>

lemma put_error_nonempty [simp]: "put_error errs k e \<noteq> []"
  by (cases errs) (auto simp: put_error_def split: if_splits)

lemma create_fields_errs: "create_fields env is_auth data fds cols errs = Inr (cols', []) \<Longrightarrow> errs = []"
  by (induction fds arbitrary: cols errs) (fastforce simp: bindE_Inr_iff split: if_splits sum.splits field_error.splits)+

lemma create_fields_keep:
  assumes "create_fields env is_auth data fds cols errs = Inr (cols', errs')" "\<And>fd. \<lbrakk>fd \<in> set fds; \<not> skip_field is_auth fd\<rbrakk> \<Longrightarrow> fd_name fd \<noteq> k"
  shows "map_of cols' k = map_of cols k"
  using assms
proof (induction fds arbitrary: cols errs)
  case (Cons g fds)
  have IH: "create_fields env is_auth data fds cols errs = Inr (cols', errs') \<Longrightarrow> map_of cols' k = map_of cols k" for cols errs
    using Cons.IH Cons.prems(2) by simp
  show ?case
  proof (cases "skip_field is_auth g")
    case False
    then have "k \<noteq> fd_name g" using Cons.prems(2)[of g] by auto
    then show ?thesis using False Cons.prems(1) IH
      by (auto simp: bindE_Inr_iff split: sum.splits field_error.splits)
  qed (use Cons.prems(1) IH in simp)
qed simp

text \<open>Every column of a schema field holds a value that the field's validator accepted.\<close>

definition accepted_value :: "store_env \<Rightarrow> field_definition \<Rightarrow> pyval \<Rightarrow> bool" where
  "accepted_value env fd x = (\<exists>v w. validate_field_value (se_rt env) fd v = Inr w \<and> serialize_for_pg (se_rt env) w fd = Inr x)"

lemma create_fields_accepted:
  assumes "create_fields env is_auth data fds cols errs = Inr (cols', [])" "distinct (map fd_name fds)"
    "fd \<in> set fds" "\<not> skip_field is_auth fd"
  shows "accepted_value env fd (dict_get cols' (fd_name fd))"
  using assms
proof (induction fds arbitrary: cols errs)
  case (Cons g fds)
  show ?case
  proof (cases "fd = g")
    case False
    then show ?thesis using Cons.prems Cons.IH
      by (auto simp: bindE_Inr_iff split: if_splits sum.splits field_error.splits)
  next
    case True
    have "\<not> (\<exists>n e. validate_field_value (se_rt env) g (dict_get data (fd_name g)) = Inl (FieldError n e))"
      using Cons.prems(1,4) True by (auto dest!: create_fields_errs)
    then obtain v w where v: "validate_field_value (se_rt env) g (dict_get data (fd_name g)) = Inr v"
        "serialize_for_pg (se_rt env) v g = Inr w" "create_fields env is_auth data fds (dict_put cols (fd_name g) w) errs = Inr (cols', [])"
      using Cons.prems(1,4) True by (auto simp: bindE_Inr_iff split: sum.splits field_error.splits)
    have "map_of cols' (fd_name g) = map_of (dict_put cols (fd_name g) w) (fd_name g)"
      by (rule create_fields_keep[OF v(3)]) (use Cons.prems(2) in \<open>auto simp: image_iff\<close>)
    then have "map_of cols' (fd_name g) = Some w" by simp
    then show ?thesis using v(1,2) True unfolding accepted_value_def dict_get_def by auto
  qed
qed simp

lemma create_finish_wrote:
  assumes "storable_names env" "adds env (rl_id c) rid saved base st" "create_finish env c is_auth rid cols errs saved st = (r, st')" "st' \<noteq> base"
  shows "errs = [] \<and> (is_auth \<longrightarrow> lit ''email'' \<in> fst ` set cols \<longrightarrow> email_taken st c (dict_get cols (lit ''email'')) None = Inr False)"
  using assms(3,4) adds_cleanup[OF assms(1,2)] by (auto simp: create_finish_def Let_def split: sum.splits bool.splits if_splits)

lemma create_auth_cases:
  assumes "create_auth env c data = Inr ([], cols, rest)"
  shows "\<exists>s. map_of cols (lit ''email'') = Some (PStr s)"
proof -
  obtain errs pcols where "create_password env (dict_get data (lit ''password'')) (dict_get data (lit ''passwordConfirm'')) = Inr (errs, pcols)"
    using assms by (auto simp: create_auth_def bindE_Inr_iff)
  then show ?thesis using assms
    by (cases "body_email env (dict_get data (lit ''email''))") (auto simp: create_auth_def res_simps Let_def split: if_splits)
qed

lemma create_uploads_errs: "create_uploads env c rid us data errs saved st = (Inr (d, [], n), st') \<Longrightarrow> errs = []"
  by (induction us arbitrary: data errs saved st) (fastforce split: option.splits if_splits prod.splits sum.splits)+

text \<open>A create either leaves the store as it was or reaches its last part with the columns it collected.\<close>

definition create_reaches ::
  "store_env \<Rightarrow> rcoll \<Rightarrow> pystr \<Rightarrow> pydict \<Rightarrow> pydict \<Rightarrow> rec_errors \<Rightarrow> rec_errors \<Rightarrow> pydict \<Rightarrow> rec_errors \<Rightarrow> bool" where
  "create_reaches env c rid data' acols errs errs' cols errs'' =
     (let is_auth = collection_kind env c = lit ''auth'' in
     (errs' = [] \<longrightarrow> errs = []) \<and> (is_auth \<longrightarrow> (\<exists>data rest. create_auth env c data = Inr (errs, acols, rest))) \<and>
     create_fields env is_auth data' (rl_fields c)
       ([(lit ''id'', PStr rid), (lit ''created'', PDatetime (se_now env)), (lit ''updated'', PDatetime (se_now env))] @ acols) errs'
     = Inr (cols, errs''))"

lemma create_record_split:
  assumes st: "storable_names env" and run: "create_record env c data files st = (r, st')"
  obtains (none) e where "st' = st" "r = Inl e"
  | (finish) rid saved st1 data' acols errs errs' cols errs'' where "adds env (rl_id c) rid saved st st1"
      "create_reaches env c rid data' acols errs errs' cols errs''"
      "create_finish env c (collection_kind env c = lit ''auth'') rid cols errs'' saved st1 = (r, st')"
proof -
  let ?auth = "collection_kind env c = lit ''auth''" and ?body = "without [''id''] data"
  consider e where "new_record_id env data = Inl e"
    | rid e where "new_record_id env data = Inr rid" "(if ?auth then create_auth env c ?body else Inr ([], [], ?body)) = Inl e"
    | rid errs acols rest where "new_record_id env data = Inr rid"
        "(if ?auth then create_auth env c ?body else Inr ([], [], ?body)) = Inr (errs, acols, rest)"
    by (metis sum.exhaust prod_cases3)
  then show thesis
  proof cases
    case (3 rid errs acols rest)
    obtain q st1 where up: "create_uploads env c rid files rest errs [] st = (q, st1)" by fastforce
    have ad: "case q of Inl e \<Rightarrow> st1 = st | Inr (data', errs', saved') \<Rightarrow> adds env (rl_id c) rid saved' st st1"
      by (rule create_uploads_adds[OF st _ up]) simp
    show ?thesis
    proof (cases q)
      case (Inl e)
      then show ?thesis using none run 3 up ad by (auto simp: create_record_def Let_def)
    next
      case (Inr u)
      obtain data' errs' saved where u: "q = Inr (data', errs', saved)" using Inr by (cases u) auto
      have ad': "adds env (rl_id c) rid saved st st1" using ad u by simp
      let ?base = "[(lit ''id'', PStr rid), (lit ''created'', PDatetime (se_now env)), (lit ''updated'', PDatetime (se_now env))] @ acols"
      show ?thesis
      proof (cases "create_fields env ?auth data' (rl_fields c) ?base errs'")
        case (Inl e)
        then show ?thesis using none run 3 up u adds_cleanup[OF st ad'] by (auto simp: create_record_def Let_def)
      next
        case fs: (Inr w)
        obtain cols errs'' where w: "w = (cols, errs'')" by (cases w)
        have "create_reaches env c rid data' acols errs errs' cols errs''"
          using fs w 3(2) create_uploads_errs up u by (auto simp: create_reaches_def Let_def split: if_splits)
        then show ?thesis using finish[OF ad'] run 3 up u fs w by (simp add: create_record_def Let_def)
      qed
    qed
  qed (use none run in \<open>auto simp: create_record_def Let_def\<close>)
qed

lemma create_reaches_email:
  assumes "create_reaches env c rid data' acols errs errs' cols []" "collection_kind env c = lit ''auth''"
  shows "\<exists>s. map_of cols (lit ''email'') = Some (PStr s)"
proof -
  let ?base = "[(lit ''id'', PStr rid), (lit ''created'', PDatetime (se_now env)), (lit ''updated'', PDatetime (se_now env))] @ acols"
  have fs: "create_fields env True data' (rl_fields c) ?base errs' = Inr (cols, [])" using assms by (simp add: create_reaches_def)
  have "errs' = []" using create_fields_errs[OF fs] .
  then obtain data rest where "create_auth env c data = Inr ([], acols, rest)" using assms by (auto simp: create_reaches_def)
  then have "\<exists>s. map_of acols (lit ''email'') = Some (PStr s)" by (rule create_auth_cases)
  moreover have "map_of cols (lit ''email'') = map_of ?base (lit ''email'')"
    by (rule create_fields_keep[OF fs]) (auto simp: skip_field_def AUTH_COLUMNS_HANDLED_SEPARATELY_def)
  ultimately show ?thesis by auto
qed

section \<open>Properties of creating\<close>

definition unique_emails :: "rcoll \<Rightarrow> store \<Rightarrow> bool" where
  "unique_emails c st = distinct (map (\<lambda>r. dict_get r (lit ''email'')) (rows_of st (rl_name c)))"

lemma adds_tables: "adds env cid rid ns st st' \<Longrightarrow> st_tables st' = st_tables st \<and> st_notified st' = st_notified st \<and> st_files st \<subseteq> st_files st'"
  by (auto simp: adds_def)

lemma wrote_insert_email:
  assumes "wrote env c rid action (insert_row cols) st st'" "email_taken st c (dict_get cols (lit ''email'')) None = Inr False" "unique_emails c st"
  shows "unique_emails c st'"
proof -
  obtain rows where rows: "st_tables st (rl_name c) = Some rows" "dict_get cols (lit ''email'') \<notin> (\<lambda>r. dict_get r (lit ''email'')) ` set rows"
    using assms(2) by (force simp: email_taken_def list_ex_iff split: option.splits)
  have "st' = st \<or> (\<exists>ns. st' = st\<lparr>st_tables := (st_tables st)(rl_name c \<mapsto> rows @ [cols]), st_notified := ns\<rparr>)"
    using assms(1) rows(1) by (auto simp: wrote_def insert_row_def split: if_splits)
  then show ?thesis using assms(3) rows by (elim disjE exE) (simp_all add: unique_emails_def rows_of_def)
qed


text \<open>
  C29: the row a create inserts holds, for every schema field it handles, a value that the field's validator accepted, and in an auth collection
  the addresses stay unique.
\<close>

theorem create_inserts_accepted:
  assumes "storable_names env" "create_record env c data files st = (r, st')" "st_tables st' \<noteq> st_tables st"
    and "distinct (map fd_name (rl_fields c))"
  shows "\<exists>rows row. st_tables st (rl_name c) = Some rows \<and> st_tables st' = (st_tables st)(rl_name c \<mapsto> rows @ [row]) \<and>
    (\<forall>fd. fd \<in> set (rl_fields c) \<and> \<not> skip_field (collection_kind env c = lit ''auth'') fd \<longrightarrow> accepted_value env fd (dict_get row (fd_name fd))) \<and>
    (collection_kind env c = lit ''auth'' \<and> unique_emails c st \<longrightarrow> unique_emails c st')"
proof (cases rule: create_record_split[OF assms(1,2), case_names none finish])
  case (finish rid saved st1 data' acols errs errs' cols errs'')
  let ?auth = "collection_kind env c = lit ''auth''"
  have new: "st' \<noteq> st" using assms(3) by auto
  note w = create_finish_wrote[OF assms(1) finish(1,3) new]
  have wr: "wrote env c rid ''create'' (insert_row cols) st1 st'" using create_finish_cases[OF assms(1) finish(1,3)] new by blast
  have fs: "\<exists>base. create_fields env ?auth data' (rl_fields c) base errs' = Inr (cols, [])"
    using finish(2) w by (auto simp: create_reaches_def Let_def)
  have acc: "accepted_value env fd (dict_get cols (fd_name fd))" if "fd \<in> set (rl_fields c)" "\<not> skip_field ?auth fd" for fd
    using create_fields_accepted[OF _ assms(4) that] fs by blast
  have "unique_emails c st'" if ?auth "unique_emails c st"
  proof (rule wrote_insert_email[OF wr])
    have "lit ''email'' \<in> fst ` set cols" using create_reaches_email[of env c rid data' acols errs errs' cols] finish(2) w that(1)
      by (force dest: map_of_SomeD)
    then show "email_taken st1 c (dict_get cols (lit ''email'')) None = Inr False" using w that(1) by blast
    show "unique_emails c st1" using that(2) adds_tables[OF finish(1)] by (simp add: unique_emails_def rows_of_def)
  qed
  moreover obtain rows where "st_tables st (rl_name c) = Some rows" "st_tables st' = (st_tables st)(rl_name c \<mapsto> rows @ [cols])"
    using wr adds_tables[OF finish(1)] assms(3) by (auto simp: wrote_def insert_row_def split: if_splits)
  ultimately show ?thesis using acc by (intro exI[of _ rows] exI[of _ cols]) simp
qed (use assms(3) in simp)

section \<open>Properties of updating\<close>

text \<open>The record's own files that a committed update removes; nothing else is touched.\<close>

definition removes :: "pystr \<Rightarrow> pystr \<Rightarrow> store \<Rightarrow> store \<Rightarrow> bool" where
  "removes cid rid st st' = (\<exists>ns. st' = st\<lparr>st_files := st_files st - file_keys cid rid ns\<rparr>)"

lemma delete_files_removes: "removes cid rid st (snd (delete_files env cid rid names st))"
proof -
  have "removes cid rid st st" unfolding removes_def by (rule exI[of _ "[]"]) (simp add: file_keys_def)
  then show ?thesis using delete_files_cases[of env cid rid names st] by (auto simp: removes_def)
qed

lemma update_finish_cases:
  assumes "storable_names env" "adds env (rl_id c) rid saved base st"
    "update_finish env c is_auth rid existing ups errs removed saved st = (r, st')"
  shows "st' = base \<or>
    (\<exists>st1. wrote env c rid ''update'' (update_rows rid ups) st st1 \<and>
      (st' = st1 \<and> (\<exists>e. r = Inl e) \<or> se_commit env (rl_name c) rid = Committed \<and> removes (rl_id c) rid st1 st'))"
proof -
  note cl = adds_cleanup[OF assms(1,2)]
  consider (refused) "st' = base"
    | (writing) q st1 where "write_rows env c rid ''update'' (update_rows rid ups) st = (q, st1)"
       "(case q of Inl (e, finished) \<Rightarrow> (Inl (RaisedPy e), if finished then st1 else cleanup_new_storage_files env (rl_id c) rid saved st1)
         | Inr _ \<Rightarrow> (let st2 = snd (delete_files env (rl_id c) rid (map PStr removed) st1)
              in case get_record env c rid [] None st2 of Inl e \<Rightarrow> (Inl (RaisedPy e), st2) | Inr d \<Rightarrow> (Inr d, st2))) = (r, st')"
    using assms(3) cl by (auto simp: update_finish_def Let_def split: sum.splits bool.splits prod.splits if_splits)
  then show ?thesis
  proof cases
    case writing
    show ?thesis
    proof (cases q)
      case (Inl x)
      then show ?thesis using write_rows_cases[OF writing(1)] writing(2) cl by (cases x) auto
    next
      case (Inr u)
      then have "st' = snd (delete_files env (rl_id c) rid (map PStr removed) st1)"
        using writing(2) by (auto simp: Let_def split: sum.splits)
      then show ?thesis using write_rows_cases[OF writing(1)] Inr delete_files_removes by blast
    qed
  qed simp
qed


section \<open>Examples\<close>

definition sample_names_env :: "commit_outcome \<Rightarrow> store_env" where
  "sample_names_env outcome = sample_env\<lparr>se_names := (\<lambda>field i k. lit ''pic'' @ [48 + k mod 10]), se_commit := (\<lambda>t i. outcome)\<rparr>"

lemma sample_storable: "storable_names (sample_names_env outcome)"
proof -
  have "\<forall>d \<in> set [0..<10]. validate_file_reference (PStr (lit ''pic'' @ [48 + d])) = Inr (lit ''pic'' @ [48 + d])" by code_simp
  then have "validate_file_reference (PStr (lit ''pic'' @ [48 + k mod 10])) = Inr (lit ''pic'' @ [48 + k mod 10])" for k :: nat by simp
  then show ?thesis by (simp add: storable_names_def sample_names_env_def sample_env_def is_remote_file_reference_def sample_rt_def)
qed

definition avatar_field :: field_definition where
  "avatar_field = \<lparr>fd_id = lit ''f1'', fd_name = lit ''avatar'', fd_type = File, fd_required = False, fd_system = False, fd_hidden = False,
     fd_presentable = False, fd_options = [(lit ''maxSelect'', PInt 1)]\<rparr>"

definition sample_users :: rcoll where
  "sample_users = \<lparr>rl_id = lit ''cu'', rl_name = lit ''users'', rl_type = lit ''auth'', rl_schema = [], rl_fields = [avatar_field]\<rparr>"

definition sample_body :: pydict where
  "sample_body = [(lit ''id'', PStr (lit ''u2'')), (lit ''email'', PStr (lit ''b@x.io'')), (lit ''password'', PStr (lit ''12345678'')),
     (lit ''passwordConfirm'', PStr (lit ''12345678''))]"

definition sample_user :: pydict where
  "sample_user = [(lit ''id'', PStr (lit ''u1'')), (lit ''email'', PStr (lit ''a@x.io'')), (lit ''avatar'', PStr (lit ''pic0''))]"

definition sample_user_store :: store where
  "sample_user_store = \<lparr>st_tables = [lit ''users'' \<mapsto> [sample_user]], st_files = {(lit ''cu'', lit ''u1'', lit ''pic0'')}, st_notified = []\<rparr>"

definition sample_upload :: "(pystr \<times> upload) list" where
  "sample_upload = [(lit ''avatar'', [(lit ''a.png'', [1, 2, 3])])]"


abbreviation sample_created :: "pydict rec_result" where
  "sample_created \<equiv> create_record (sample_names_env Committed) sample_users sample_body sample_upload sample_user_store"

abbreviation sample_updated :: "pydict option rec_result" where
  "sample_updated \<equiv> update_record (sample_names_env Committed) sample_users (lit ''u1'') [] sample_upload sample_user_store"

lemma sample_create:
  "(\<lambda>(r, st). map (\<lambda>r. (dict_get r (lit ''email''), dict_get r (lit ''avatar''))) (rows_of st (lit ''users''))) sample_created
   = [(PStr (lit ''a@x.io''), PStr (lit ''pic0'')), (PStr (lit ''b@x.io''), PStr (lit ''pic0''))]"
  by code_simp

lemma sample_update:
  "(\<lambda>(r, st). (map (\<lambda>r. dict_get r (lit ''avatar'')) (rows_of st (lit ''users'')),
      (lit ''cu'', lit ''u1'', lit ''pic0'') \<in> st_files st, (lit ''cu'', lit ''u1'', lit ''pic1'') \<in> st_files st)) sample_updated
   = ([PStr (lit ''pic1'')], False, True)"
  by code_simp


theorem create_inserts_accepted_witness:
  "\<exists>rows row. st_tables (snd sample_created) = (st_tables sample_user_store)(lit ''users'' \<mapsto> rows @ [row]) \<and>
     accepted_value (sample_names_env Committed) avatar_field (dict_get row (lit ''avatar'')) \<and> unique_emails sample_users (snd sample_created)"
proof -
  obtain r st' where run: "sample_created = (r, st')" by fastforce
  have "rows_of st' (lit ''users'') \<noteq> rows_of sample_user_store (lit ''users'')"
    using sample_create unfolding run by (auto simp: sample_user_store_def rows_of_def)
  then have new: "st_tables st' \<noteq> st_tables sample_user_store" by (auto simp: rows_of_def)
  have "rl_name sample_users = lit ''users''" "distinct (map fd_name (rl_fields sample_users))" "rl_fields sample_users = [avatar_field]"
    "fd_name avatar_field = lit ''avatar''" "fd_type avatar_field = File" by (simp_all add: sample_users_def avatar_field_def)
  moreover have "collection_kind (sample_names_env Committed) sample_users = lit ''auth''" "unique_emails sample_users sample_user_store" by code_simp+
  ultimately show ?thesis using create_inserts_accepted[OF sample_storable run new] run
    by (auto simp: skip_field_def AUTH_COLUMNS_HANDLED_SEPARATELY_def)
qed


end
