(* ===== verification/Storage_Transaction.thy ===== *)
theory Storage_Transaction
  imports Record_Store
begin

text \<open>
  Model of \<open>ppbase/services/record_storage_coordinator.py\<close>, of \<open>ppbase/services/file_references.py\<close> and of the trackers of
  \<open>ppbase/services/file_storage.py\<close> they use: one database transaction together with the files it stores and the deletions it defers.

  \<^item> An operation is the list of its actions on rows and files, and the exception it ends with, if any; the statement is about every list.
  \<^item> The outcome of the commit, the checks of the write-barrier lease, failing reads and failing deletions are arguments.
  \<^item> The local backend is modelled, with files as triples of collection, record and name (\<open>Record_Store\<close>); thumbnails, empty directories
    and the S3 backend are not.  Other transactions do not change the affected records meanwhile.
\<close>

section \<open>Canonical file references\<close>

type_synonym file_ref = "pystr \<times> pystr \<times> pystr"

datatype tx_exn = UnsafeReference | BadIdentifier | MissingCollection | ReadFailed | LeaseLost | LeaseBroken | OperationRaised | CommitRaised

definition raw_file_values :: "py_runtime \<Rightarrow> pyval \<Rightarrow> pyval list" where
  "raw_file_values rt v =
     (case v of
        PList xs \<Rightarrow> xs
      | PStr s \<Rightarrow>
          (let stripped = py_strip s
           in if stripped = [] then []
           else if hd stripped = 91 then (case rt_json_loads rt stripped of Some (PList xs) \<Rightarrow> xs | _ \<Rightarrow> [v])
           else [v])
      | _ \<Rightarrow> if truthy v then [v] else [])"

definition owns_storage :: "rcoll \<Rightarrow> bool" where
  "owns_storage c = ((if rl_type c = [] then lit ''base'' else rl_type c) \<in> {lit ''base'', lit ''auth''})"

definition safe :: "storage_error + 'a \<Rightarrow> tx_exn + 'a" where
  "safe r = (case r of Inl _ \<Rightarrow> Inl UnsafeReference | Inr x \<Rightarrow> Inr x)"

definition file_field_name :: "py_runtime \<Rightarrow> pydict \<Rightarrow> pystr option" where
  "file_field_name rt f =
     (let name = py_str rt (py_or (dict_get_or f (lit ''name'') (PStr [])) (PStr []))
      in if dict_get f (lit ''type'') \<noteq> PStr (lit ''file'') \<or> name = [] then None else Some name)"

text \<open>The references of one field, then of one row.\<close>

definition field_references :: "py_runtime \<Rightarrow> pystr \<Rightarrow> pystr \<Rightarrow> pyval \<Rightarrow> tx_exn + file_ref list" where
  "field_references rt cid rid v =
     mapE (\<lambda>n. bindE (safe (validate_file_reference (PStr n))) (\<lambda>m. Inr (cid, rid, m)))
       (filter (\<lambda>n. n \<noteq> [] \<and> \<not> is_remote_file_reference rt (PStr n)) (map (py_str rt) (raw_file_values rt v)))"

definition row_references :: "py_runtime \<Rightarrow> rcoll \<Rightarrow> pydict \<Rightarrow> tx_exn + file_ref list" where
  "row_references rt c row =
     (if \<not> owns_storage c then Inr []
      else bindE (safe (validate_collection_id (PStr (rl_id c)))) (\<lambda>cid.
        bindE (safe (validate_record_id (dict_get row (lit ''id'')))) (\<lambda>rid.
        bindE (mapE (\<lambda>name. field_references rt cid rid (dict_get row name)) (List.map_filter (file_field_name rt) (rl_schema c)))
          (\<lambda>rs. Inr (concat rs)))))"

text \<open>The references of one collection among the given records; \<open>None\<close> when the collection is not a target.\<close>

definition collection_references ::
  "py_runtime \<Rightarrow> (pystr \<rightharpoonup> pydict list) \<Rightarrow> (pystr \<times> pystr) list \<Rightarrow> rcoll \<Rightarrow> tx_exn + (pystr \<times> file_ref list) option" where
  "collection_references rt tables targets c =
     (if \<not> owns_storage c then Inr None
      else bindE (safe (validate_collection_id (PStr (rl_id c)))) (\<lambda>cid.
        (let rids = map snd (filter (\<lambda>t. fst t = cid) targets)
         in if rids = [] then Inr None
         else if List.map_filter (file_field_name rt) (rl_schema c) = [] then Inr (Some (cid, []))
         else if rl_name c = [] \<or> 0 \<in> set (rl_name c) \<or> (\<exists>f \<in> set (List.map_filter (file_field_name rt) (rl_schema c)). 0 \<in> set f)
         then Inl BadIdentifier
         else (case tables (rl_name c) of
                 None \<Rightarrow> Inl ReadFailed
               | Some rows \<Rightarrow>
                   bindE (mapE (row_references rt c) (filter (\<lambda>r. dict_get r (lit ''id'') \<in> PStr ` set rids) rows))
                     (\<lambda>rs. Inr (Some (cid, concat rs)))))))"

definition check_target :: "pystr \<times> pystr \<Rightarrow> tx_exn + (pystr \<times> pystr)" where
  "check_target t =
     bindE (safe (validate_collection_id (PStr (fst t)))) (\<lambda>cid. bindE (safe (validate_record_id (PStr (snd t)))) (\<lambda>rid. Inr (cid, rid)))"

text \<open>\<open>read_canonical_local_file_references\<close> with an explicit target set.\<close>

definition read_references ::
  "py_runtime \<Rightarrow> rcoll list \<Rightarrow> (pystr \<rightharpoonup> pydict list) \<Rightarrow> (pystr \<times> pystr) list \<Rightarrow> tx_exn + file_ref list" where
  "read_references rt cs tables raw_targets =
     bindE (mapE check_target raw_targets) (\<lambda>targets.
     if targets = [] then Inr []
     else bindE (mapE (collection_references rt tables targets) cs) (\<lambda>found.
       if list_all (\<lambda>t. fst t \<in> fst ` set (List.map_filter id found)) targets then Inr (concat (map snd (List.map_filter id found)))
       else Inl MissingCollection))"

section \<open>The operation\<close>

datatype deferred = DeferFiles pystr pystr "pystr list" | DeferAll pystr pystr

record txn =
  tx_tables :: "pystr \<rightharpoonup> pydict list"
  tx_files :: "file_ref set"
  tx_created :: "file_ref list"
  tx_deferred :: "deferred list"

datatype action =
    SqlWrite "(pystr \<rightharpoonup> pydict list) \<Rightarrow> (pystr \<rightharpoonup> pydict list)"
  | SaveFiles pystr pystr "pystr list"
  | DeleteFiles pystr pystr "pyval list"
  | DeleteAllFiles pystr pystr

text \<open>
  An action inside the trackers: files are written only under free names and recorded, deletions are recorded instead of done.
\<close>

definition run_action :: "py_runtime \<Rightarrow> action \<Rightarrow> txn \<Rightarrow> txn" where
  "run_action rt a tx =
     (case a of
        SqlWrite f \<Rightarrow> tx\<lparr>tx_tables := f (tx_tables tx)\<rparr>
      | SaveFiles cid rid names \<Rightarrow>
          (let new = filter (\<lambda>f. f \<notin> tx_files tx) (map (\<lambda>n. (cid, rid, n)) names)
           in if storage_location cid rid then tx\<lparr>tx_files := tx_files tx \<union> set new, tx_created := tx_created tx @ new\<rparr> else tx)
      | DeleteFiles cid rid names \<Rightarrow>
          (case deletable_file_references rt names of
             Inl _ \<Rightarrow> tx
           | Inr ns \<Rightarrow> if ns = [] \<or> \<not> storage_location cid rid then tx else tx\<lparr>tx_deferred := tx_deferred tx @ [DeferFiles cid rid ns]\<rparr>)
      | DeleteAllFiles cid rid \<Rightarrow> if storage_location cid rid then tx\<lparr>tx_deferred := tx_deferred tx @ [DeferAll cid rid]\<rparr> else tx)"

definition run_actions :: "py_runtime \<Rightarrow> action list \<Rightarrow> txn \<Rightarrow> txn" where
  "run_actions rt as tx = fold (run_action rt) as tx"

fun deferred_target :: "deferred \<Rightarrow> pystr \<times> pystr" where
  "deferred_target (DeferFiles cid rid ns) = (cid, rid)"
| "deferred_target (DeferAll cid rid) = (cid, rid)"

definition affected_records :: "txn \<Rightarrow> (pystr \<times> pystr) list" where
  "affected_records tx = remdups (map (\<lambda>(cid, rid, n). (cid, rid)) (tx_created tx) @ map deferred_target (tx_deferred tx))"

section \<open>Settling the files\<close>

text \<open>A deletion fails for the files in \<open>bad\<close>; these stay.\<close>

definition cleanup_created :: "file_ref set \<Rightarrow> file_ref list \<Rightarrow> file_ref set \<Rightarrow> file_ref set" where
  "cleanup_created bad targets files = files - (set targets - bad)"

definition cleanup_unreferenced_created :: "file_ref set \<Rightarrow> file_ref list \<Rightarrow> file_ref list \<Rightarrow> file_ref set \<Rightarrow> file_ref set" where
  "cleanup_unreferenced_created bad created refs files = cleanup_created bad (filter (\<lambda>f. f \<notin> set refs) created) files"

definition deferred_files :: "deferred \<Rightarrow> file_ref list \<Rightarrow> file_ref set \<Rightarrow> file_ref set" where
  "deferred_files d preserved files =
     (case d of
        DeferFiles cid rid ns \<Rightarrow> {f \<in> files. f \<in> (\<lambda>n. (cid, rid, n)) ` set ns \<and> f \<notin> set preserved}
      | DeferAll cid rid \<Rightarrow> {f \<in> files. fst f = cid \<and> fst (snd f) = rid \<and> f \<notin> set preserved})"

text \<open>\<open>flush_deferred_storage_deletes\<close>: the number of failed actions and the files left.\<close>

fun flush_deferred :: "file_ref set \<Rightarrow> file_ref list \<Rightarrow> deferred list \<Rightarrow> file_ref set \<Rightarrow> nat \<times> file_ref set" where
  "flush_deferred bad preserved [] files = (0, files)"
| "flush_deferred bad preserved (d # ds) files =
     (let del = deferred_files d preserved files;
          (n, files') = flush_deferred bad preserved ds (files - (del - bad))
      in ((if del \<inter> bad = {} then n else Suc n), files'))"

section \<open>The transaction\<close>

datatype lease_check = Held | Lost | Broken

datatype commit_result = CommitOk | CommitFailed (commit_applied: bool) (commit_regular: bool)

record tx_env =
  te_rt :: py_runtime
  te_raises :: bool
  te_read_fails :: bool
  te_commit :: commit_result
  te_lease_error :: lease_check
  te_reread_fails :: bool
  te_lease_before :: lease_check
  te_lease_after :: lease_check
  te_bad :: "file_ref set"

definition lease_exn :: "lease_check \<Rightarrow> tx_exn option" where
  "lease_exn l = (case l of Held \<Rightarrow> None | Lost \<Rightarrow> Some LeaseLost | Broken \<Rightarrow> Some LeaseBroken)"

text \<open>The body inside the transaction: the references of the affected records as the transaction sees them.\<close>

definition transaction_body :: "tx_env \<Rightarrow> rcoll list \<Rightarrow> txn \<Rightarrow> tx_exn + file_ref list" where
  "transaction_body env cs tx =
     (if te_raises env then Inl OperationRaised
      else if affected_records tx = [] then Inr []
      else if te_read_fails env then Inl ReadFailed
      else read_references (te_rt env) cs (tx_tables tx) (affected_records tx))"

text \<open>After an exception: rows as the database has them, and what becomes of the files.\<close>

definition settle_failed :: "tx_env \<Rightarrow> txn \<Rightarrow> tx_exn \<Rightarrow> file_ref set \<Rightarrow> tx_exn \<times> file_ref set" where
  "settle_failed env tx e files =
     (case lease_exn (te_lease_error env) of Some l \<Rightarrow> (l, files) | None \<Rightarrow> (e, cleanup_created (te_bad env) (tx_created tx) files))"

definition reconcile :: "tx_env \<Rightarrow> rcoll list \<Rightarrow> (pystr \<rightharpoonup> pydict list) \<Rightarrow> txn \<Rightarrow> file_ref list option" where
  "reconcile env cs durable tx =
     (if affected_records tx = [] then Some []
      else if te_reread_fails env then None
      else (case read_references (te_rt env) cs durable (affected_records tx) of Inl _ \<Rightarrow> None | Inr refs \<Rightarrow> Some refs))"

definition settle_ambiguous :: "tx_env \<Rightarrow> rcoll list \<Rightarrow> (pystr \<rightharpoonup> pydict list) \<Rightarrow> bool \<Rightarrow> txn \<Rightarrow> tx_exn \<times> file_ref set" where
  "settle_ambiguous env cs durable regular tx =
     (case lease_exn (te_lease_error env) of
        Some l \<Rightarrow> (l, tx_files tx)
      | None \<Rightarrow>
          (CommitRaised,
           if \<not> regular then tx_files tx
           else (case reconcile env cs durable tx of
                   None \<Rightarrow> tx_files tx
                 | Some refs \<Rightarrow> cleanup_unreferenced_created (te_bad env) (tx_created tx) refs (tx_files tx))))"

definition settle_committed :: "tx_env \<Rightarrow> txn \<Rightarrow> file_ref list \<Rightarrow> (tx_exn + unit) \<times> file_ref set" where
  "settle_committed env tx refs =
     (case lease_exn (te_lease_before env) of
        Some l \<Rightarrow> (Inl l, tx_files tx)
      | None \<Rightarrow>
          (let files = snd (flush_deferred (te_bad env) refs (tx_deferred tx)
                 (cleanup_unreferenced_created (te_bad env) (tx_created tx) refs (tx_files tx)))
           in (case lease_exn (te_lease_after env) of Some l \<Rightarrow> (Inl l, files) | None \<Rightarrow> (Inr (), files))))"

definition start_txn :: "(pystr \<rightharpoonup> pydict list) \<Rightarrow> file_ref set \<Rightarrow> txn" where
  "start_txn tables files = \<lparr>tx_tables = tables, tx_files = files, tx_created = [], tx_deferred = []\<rparr>"

text \<open>
  \<open>run_record_storage_transaction\<close>: its result, the durable rows and the files.
\<close>

definition run_record_storage_transaction ::
  "tx_env \<Rightarrow> rcoll list \<Rightarrow> action list \<Rightarrow> (pystr \<rightharpoonup> pydict list) \<Rightarrow> file_ref set
     \<Rightarrow> (tx_exn + unit) \<times> (pystr \<rightharpoonup> pydict list) \<times> file_ref set" where
  "run_record_storage_transaction env cs as tables files =
     (let tx = run_actions (te_rt env) as (start_txn tables files)
      in case transaction_body env cs tx of
           Inl e \<Rightarrow> (case settle_failed env tx e (tx_files tx) of (x, fs) \<Rightarrow> (Inl x, tables, fs))
         | Inr refs \<Rightarrow>
             (case te_commit env of
                CommitOk \<Rightarrow> (case settle_committed env tx refs of (r, fs) \<Rightarrow> (r, tx_tables tx, fs))
              | CommitFailed applied regular \<Rightarrow>
                  (let durable = (if applied then tx_tables tx else tables)
                   in case settle_ambiguous env cs durable regular tx of (x, fs) \<Rightarrow> (Inl x, durable, fs))))"

section \<open>What the references are\<close>

definition all_references :: "py_runtime \<Rightarrow> rcoll list \<Rightarrow> (pystr \<rightharpoonup> pydict list) \<Rightarrow> file_ref set" where
  "all_references rt cs tables = {f. \<exists>c \<in> set cs. \<exists>rows row fs. tables (rl_name c) = Some rows \<and> row \<in> set rows \<and>
     row_references rt c row = Inr fs \<and> f \<in> set fs}"

lemma mapE_ex: "\<lbrakk>mapE g xs = Inr ys; x \<in> set xs\<rbrakk> \<Longrightarrow> \<exists>y \<in> set ys. g x = Inr y"
  by (induction xs arbitrary: ys) (auto simp: bindE_Inr_iff)

lemma mapE_mem: "\<lbrakk>mapE g xs = Inr ys; y \<in> set ys\<rbrakk> \<Longrightarrow> \<exists>x \<in> set xs. g x = Inr y"
  by (induction xs arbitrary: ys) (auto simp: bindE_Inr_iff)

lemma safe_Inr: "safe r = Inr x \<longleftrightarrow> r = Inr x"
  by (cases r) (auto simp: safe_def)

lemma validate_collection_id_PStr: "validate_collection_id v = Inr i \<Longrightarrow> v = PStr i"
  by (simp add: validate_collection_id_def validate_single_component_iff)

lemma check_targets: "mapE check_target ts = Inr us \<Longrightarrow> us = ts"
  by (induction ts arbitrary: us)
    (auto simp: bindE_Inr_iff check_target_def safe_Inr dest!: validate_collection_id_PStr validate_record_id_PStr)

lemma row_references_keys:
  assumes "row_references rt c row = Inr fs" "f \<in> set fs"
  shows "owns_storage c \<and> fst f = rl_id c \<and> dict_get row (lit ''id'') = PStr (fst (snd f)) \<and>
    validate_collection_id (PStr (rl_id c)) = Inr (rl_id c) \<and> List.map_filter (file_field_name rt) (rl_schema c) \<noteq> []"
proof -
  obtain cid rid rs where o: "owns_storage c" and i: "validate_collection_id (PStr (rl_id c)) = Inr cid"
      "validate_record_id (dict_get row (lit ''id'')) = Inr rid"
      "mapE (\<lambda>name. field_references rt cid rid (dict_get row name)) (List.map_filter (file_field_name rt) (rl_schema c)) = Inr rs" "fs = concat rs"
    using assms by (auto simp: row_references_def bindE_Inr_iff safe_Inr split: if_splits)
  obtain r where r: "r \<in> set rs" "f \<in> set r" using assms(2) i(4) by auto
  then obtain name where "field_references rt cid rid (dict_get row name) = Inr r" using mapE_mem[OF i(3)] by blast
  then have "fst f = cid \<and> fst (snd f) = rid" using mapE_mem[of _ _ r f] r(2) by (fastforce simp: field_references_def bindE_Inr_iff)
  moreover have "List.map_filter (file_field_name rt) (rl_schema c) \<noteq> []" using i(3) r(1) by auto
  ultimately show ?thesis using o i(1,2) validate_collection_id_PStr[OF i(1)] validate_record_id_PStr[OF i(2)] by simp
qed

lemma collection_references_found:
  assumes run: "collection_references rt tables targets c = Inr z" and c: "tables (rl_name c) = Some rows" "row \<in> set rows"
    and row: "row_references rt c row = Inr fs" "f \<in> set fs" and t: "(fst f, fst (snd f)) \<in> set targets"
  shows "\<exists>cid rs. z = Some (cid, rs) \<and> f \<in> set rs"
proof -
  note k = row_references_keys[OF row]
  let ?rids = "map snd (filter (\<lambda>t. fst t = rl_id c) targets)"
  have "(rl_id c, fst (snd f)) \<in> set (filter (\<lambda>t. fst t = rl_id c) targets)" using t k by simp
  then have rid: "fst (snd f) \<in> set ?rids" by force
  then have "?rids \<noteq> []" by (metis list.set(1) empty_iff)
  then obtain rs where rs: "mapE (row_references rt c) (filter (\<lambda>r. dict_get r (lit ''id'') \<in> PStr ` set ?rids) rows) = Inr rs"
      "z = Some (rl_id c, concat rs)"
    using run c(1) k by (auto simp: collection_references_def bindE_Inr_iff safe_def Let_def split: if_splits)
  have "row \<in> set (filter (\<lambda>r. dict_get r (lit ''id'') \<in> PStr ` set ?rids) rows)" using c(2) k rid by auto
  from mapE_ex[OF rs(1) this] have "fs \<in> set rs" using row(1) by auto
  then show ?thesis using rs(2) row(2) by auto
qed

lemma collection_references_sound:
  assumes "collection_references rt tables targets c = Inr (Some (cid, rs))" "f \<in> set rs"
  shows "\<exists>rows row fs. tables (rl_name c) = Some rows \<and> row \<in> set rows \<and> row_references rt c row = Inr fs \<and> f \<in> set fs"
  using assms mapE_mem by (fastforce simp: collection_references_def bindE_Inr_iff Let_def split: if_splits option.splits)

lemma set_found: "x \<in> set (List.map_filter id zs) \<longleftrightarrow> Some x \<in> set zs"
  by (induction zs) (auto simp: map_filter_simps split: option.splits)

lemma in_concat_snd: "\<lbrakk>(a, r) \<in> set ps; f \<in> set r\<rbrakk> \<Longrightarrow> f \<in> set (concat (map snd ps))"
  by (induction ps) auto

lemma read_references_complete:
  assumes "read_references rt cs tables targets = Inr refs" "f \<in> all_references rt cs tables" "(fst f, fst (snd f)) \<in> set targets"
  shows "f \<in> set refs"
proof -
  obtain c rows row fs where c: "c \<in> set cs" "tables (rl_name c) = Some rows" "row \<in> set rows" "row_references rt c row = Inr fs" "f \<in> set fs"
    using assms(2) unfolding all_references_def by blast
  obtain found where found: "mapE (collection_references rt tables targets) cs = Inr found" "refs = concat (map snd (List.map_filter id found))"
    using assms(1,3) by (auto simp: read_references_def bindE_Inr_iff dest!: check_targets split: if_splits)
  obtain z where z: "z \<in> set found" "collection_references rt tables targets c = Inr z" using mapE_ex[OF found(1) c(1)] by blast
  obtain cid rs where "z = Some (cid, rs)" "f \<in> set rs" using collection_references_found[OF z(2) c(2-5) assms(3)] by (elim exE conjE)
  with z(1) have "(cid, rs) \<in> set (List.map_filter id found)" by (simp add: set_found)
  then show ?thesis unfolding found(2) using \<open>f \<in> set rs\<close> by (rule in_concat_snd)
qed

lemma read_references_sound:
  assumes "read_references rt cs tables targets = Inr refs" "f \<in> set refs"
  shows "f \<in> all_references rt cs tables"
proof -
  obtain found where found: "mapE (collection_references rt tables targets) cs = Inr found" "refs = concat (map snd (List.map_filter id found))"
    using assms by (auto simp: read_references_def bindE_Inr_iff dest!: check_targets split: if_splits)
  obtain p where p: "p \<in> set (List.map_filter id found)" "f \<in> set (snd p)" using assms(2) found(2) by auto
  obtain cid rs where "p = (cid, rs)" by (cases p)
  with p have "Some (cid, rs) \<in> set found" "f \<in> set rs" by (simp_all add: set_found)
  then show ?thesis using mapE_mem[OF found(1)] collection_references_sound unfolding all_references_def by blast
qed

section \<open>What an operation adds\<close>

text \<open>The files are the old ones and the created ones, and a created file was not there before.\<close>

definition tracked :: "file_ref set \<Rightarrow> txn \<Rightarrow> bool" where
  "tracked files tx = (tx_files tx = files \<union> set (tx_created tx) \<and> files \<inter> set (tx_created tx) = {})"

lemma run_action_tracked: "tracked files tx \<Longrightarrow> tracked files (run_action rt a tx)"
  by (cases a) (auto simp: tracked_def run_action_def Let_def split: sum.splits)

lemma run_actions_tracked: "tracked files (run_actions rt as (start_txn tables files))"
proof -
  have "tracked files tx \<Longrightarrow> tracked files (fold (run_action rt) as tx)" for tx
    by (induction as arbitrary: tx) (auto intro: run_action_tracked)
  then show ?thesis by (simp add: run_actions_def start_txn_def tracked_def)
qed

lemma created_affected: "f \<in> set (tx_created tx) \<Longrightarrow> (fst f, fst (snd f)) \<in> set (affected_records tx)"
  by (cases f) (force simp: affected_records_def)

lemma deferred_affected: "d \<in> set (tx_deferred tx) \<Longrightarrow> deferred_target d \<in> set (affected_records tx)"
  by (auto simp: affected_records_def)

section \<open>What is removed\<close>

lemma deferred_files_member:
  "f \<in> deferred_files d preserved files \<longleftrightarrow> f \<in> files \<and> f \<notin> set preserved \<and> (fst f, fst (snd f)) = deferred_target d \<and>
     (case d of DeferFiles cid rid ns \<Rightarrow> snd (snd f) \<in> set ns | DeferAll cid rid \<Rightarrow> True)"
  by (cases f; cases d) (auto simp: deferred_files_def)

lemma flush_removed:
  "f \<in> files - snd (flush_deferred bad preserved ds files) \<Longrightarrow> f \<notin> set preserved \<and> (\<exists>d \<in> set ds. (fst f, fst (snd f)) = deferred_target d)"
proof (induction bad preserved ds files rule: flush_deferred.induct)
  case (2 bad preserved d ds files)
  show ?case
  proof (cases "f \<in> deferred_files d preserved files - bad")
    case True
    then show ?thesis using deferred_files_member[of f d preserved files] by auto
  next
    case False
    then show ?thesis using 2 by (auto simp: Let_def split: prod.splits)
  qed
qed simp

lemma flush_subset: "snd (flush_deferred bad preserved ds files) \<subseteq> files"
  by (induction bad preserved ds files rule: flush_deferred.induct) (auto simp: Let_def split: prod.splits)

lemma body_references:
  assumes "transaction_body env cs tx = Inr refs" "f \<in> all_references (te_rt env) cs (tx_tables tx)" "(fst f, fst (snd f)) \<in> set (affected_records tx)"
  shows "f \<in> set refs"
  using assms read_references_complete[of "te_rt env" cs "tx_tables tx" "affected_records tx" refs f]
  by (auto simp: transaction_body_def split: if_splits)

lemma committed_keeps:
  assumes "transaction_body env cs tx = Inr refs" "settle_committed env tx refs = (r, fs)" "f \<in> all_references (te_rt env) cs (tx_tables tx)"
    "f \<in> tx_files tx"
  shows "f \<in> fs"
proof -
  note ref = body_references[OF assms(1,3)]
  let ?clean = "cleanup_unreferenced_created (te_bad env) (tx_created tx) refs (tx_files tx)"
  have "f \<in> ?clean" using assms(4) ref created_affected[of f tx] by (auto simp: cleanup_unreferenced_created_def cleanup_created_def)
  then have "f \<in> snd (flush_deferred (te_bad env) refs (tx_deferred tx) ?clean)"
    using flush_removed[of f ?clean] ref deferred_affected by fastforce
  then show ?thesis using assms(2,4) by (auto simp: settle_committed_def Let_def split: option.splits)
qed

lemma ambiguous_keeps:
  assumes "settle_ambiguous env cs durable regular tx = (x, fs)" "f \<in> all_references (te_rt env) cs durable" "f \<in> tx_files tx"
  shows "f \<in> fs"
proof (rule ccontr)
  assume "f \<notin> fs"
  then obtain refs where refs: "reconcile env cs durable tx = Some refs" "f \<notin> cleanup_unreferenced_created (te_bad env) (tx_created tx) refs (tx_files tx)"
    using assms(1,3) by (auto simp: settle_ambiguous_def split: option.splits if_splits)
  then have c: "f \<in> set (tx_created tx)" "f \<notin> set refs" using assms(3) by (auto simp: cleanup_unreferenced_created_def cleanup_created_def)
  then have "affected_records tx \<noteq> []" using created_affected by fastforce
  then have "read_references (te_rt env) cs durable (affected_records tx) = Inr refs"
    using refs(1) by (auto simp: reconcile_def split: if_splits sum.splits)
  then show False using read_references_complete assms(2) created_affected[OF c(1)] c(2) by blast
qed

text \<open>
  C6: no transaction loses a file that the database still refers to.  Whatever the operation did, whether it raised, the commit succeeded,
  failed or was in doubt, or the lock was lost: a file that was there before or was stored by the operation, and to which a row refers as the
  database finally has it, is still there.
\<close>

theorem referenced_files_kept:
  assumes "all_references (te_rt env) cs tables \<subseteq> files"
    and "run_record_storage_transaction env cs as tables files = (r, tables', files')"
    and "f \<in> all_references (te_rt env) cs tables'" "f \<in> tx_files (run_actions (te_rt env) as (start_txn tables files))"
  shows "f \<in> files'"
proof -
  let ?tx = "run_actions (te_rt env) as (start_txn tables files)"
  have tr: "tracked files ?tx" by (rule run_actions_tracked)
  show ?thesis
  proof (cases "transaction_body env cs ?tx")
    case (Inl e)
    then have t: "tables' = tables" "\<exists>x. settle_failed env ?tx e (tx_files ?tx) = (x, files')"
      using assms(2) by (auto simp: run_record_storage_transaction_def Let_def split: prod.splits)
    have "f \<in> files" using assms(1,3) t(1) by auto
    then have "f \<notin> set (tx_created ?tx)" using tr by (auto simp: tracked_def)
    then show ?thesis using t(2) assms(4) by (auto simp: settle_failed_def cleanup_created_def split: option.splits)
  next
    case (Inr refs)
    show ?thesis
    proof (cases "te_commit env")
      case CommitOk
      then have t: "tables' = tx_tables ?tx" "settle_committed env ?tx refs = (r, files')"
        using assms(2) Inr by (auto simp: run_record_storage_transaction_def Let_def split: prod.splits)
      show ?thesis by (rule committed_keeps[OF Inr t(2)]) (use assms(3,4) t(1) in simp_all)
    next
      case (CommitFailed applied regular)
      then obtain x where "settle_ambiguous env cs tables' regular ?tx = (x, files')"
        using assms(2) Inr by (auto simp: run_record_storage_transaction_def Let_def split: prod.splits if_splits)
      then show ?thesis using ambiguous_keeps assms(3,4) by blast
    qed
  qed
qed

text \<open>A deferred deletion names a file.\<close>

definition hits :: "deferred \<Rightarrow> file_ref \<Rightarrow> bool" where
  "hits d f = ((fst f, fst (snd f)) = deferred_target d \<and> (case d of DeferFiles cid rid ns \<Rightarrow> snd (snd f) \<in> set ns | DeferAll cid rid \<Rightarrow> True))"

lemma flush_exact:
  "f \<in> snd (flush_deferred {} preserved ds files) \<longleftrightarrow> f \<in> files \<and> (f \<in> set preserved \<or> (\<forall>d \<in> set ds. \<not> hits d f))"
proof (induction ds arbitrary: files)
  case (Cons d ds)
  have "snd (flush_deferred {} preserved (d # ds) files) = snd (flush_deferred {} preserved ds (files - deferred_files d preserved files))"
    by (simp add: Let_def split: prod.splits)
  then show ?case using Cons.IH by (auto simp: deferred_files_member hits_def)
qed simp

lemma body_references_iff:
  assumes "transaction_body env cs tx = Inr refs" "(fst f, fst (snd f)) \<in> set (affected_records tx)"
  shows "f \<in> set refs \<longleftrightarrow> f \<in> all_references (te_rt env) cs (tx_tables tx)"
proof
  assume "f \<in> set refs"
  then have "read_references (te_rt env) cs (tx_tables tx) (affected_records tx) = Inr refs"
    using assms by (auto simp: transaction_body_def split: if_splits)
  then show "f \<in> all_references (te_rt env) cs (tx_tables tx)" using read_references_sound \<open>f \<in> set refs\<close> by blast
qed (rule body_references[OF assms(1) _ assms(2)])

text \<open>
  C7: when nothing goes wrong with the lock and the deletions, a committed transaction leaves exactly the files it should: of the old and the
  stored files, those are gone that no row refers to and that were either stored by the operation itself or deleted by it; a transaction
  that raised before its end leaves rows and files as they were.
\<close>

theorem transaction_files_exact:
  assumes "run_record_storage_transaction env cs as tables files = (r, tables', files')"
    and "te_bad env = {}" "te_lease_error env = Held"
  shows "(\<forall>u. r = Inr u \<longrightarrow>
      (let tx = run_actions (te_rt env) as (start_txn tables files) in
       tables' = tx_tables tx \<and>
       files' = {f \<in> tx_files tx. f \<in> all_references (te_rt env) cs tables' \<or> (f \<notin> set (tx_created tx) \<and> (\<forall>d \<in> set (tx_deferred tx). \<not> hits d f))})) \<and>
    (r = Inl OperationRaised \<longrightarrow> tables' = tables \<and> files' = files)"
proof -
  let ?tx = "run_actions (te_rt env) as (start_txn tables files)"
  have ok: "tables' = tx_tables ?tx \<and>
      files' = {f \<in> tx_files ?tx. f \<in> all_references (te_rt env) cs tables' \<or> (f \<notin> set (tx_created ?tx) \<and> (\<forall>d \<in> set (tx_deferred ?tx). \<not> hits d f))}"
    if ru: "r = Inr u" for u
  proof -
    obtain refs where b: "transaction_body env cs ?tx = Inr refs" "settle_committed env ?tx refs = (Inr (), files')" "tables' = tx_tables ?tx"
      using assms(1) ru by (cases "transaction_body env cs ?tx"; cases "te_commit env")
        (auto simp: run_record_storage_transaction_def Let_def split: prod.splits)
    have files: "files' = snd (flush_deferred {} refs (tx_deferred ?tx) (cleanup_unreferenced_created {} (tx_created ?tx) refs (tx_files ?tx)))"
      using b(2) assms(2) by (auto simp: settle_committed_def Let_def split: option.splits)
    have refs: "f \<in> set refs \<longleftrightarrow> f \<in> all_references (te_rt env) cs (tx_tables ?tx)" if "f \<in> set (tx_created ?tx) \<or> (\<exists>d \<in> set (tx_deferred ?tx). hits d f)" for f
      using body_references_iff[OF b(1), of f] created_affected[of f ?tx] deferred_affected that unfolding hits_def by metis
    have "f \<in> files' \<longleftrightarrow> f \<in> tx_files ?tx \<and> (f \<in> all_references (te_rt env) cs tables' \<or> (f \<notin> set (tx_created ?tx) \<and> (\<forall>d \<in> set (tx_deferred ?tx). \<not> hits d f)))" for f
      unfolding files flush_exact b(3) using refs[of f] by (auto simp: cleanup_unreferenced_created_def cleanup_created_def)
    then show ?thesis using b(3) by blast
  qed
  have "tables' = tables \<and> files' = files" if r: "r = Inl OperationRaised"
  proof -
    have "\<exists>e. transaction_body env cs ?tx = Inl e \<and> tables' = tables \<and> files' = cleanup_created {} (tx_created ?tx) (tx_files ?tx)"
      using assms r by (cases "transaction_body env cs ?tx"; cases "te_commit env")
        (auto simp: run_record_storage_transaction_def settle_failed_def settle_committed_def settle_ambiguous_def lease_exn_def Let_def
          split: prod.splits lease_check.splits)
    then show ?thesis using run_actions_tracked[of files "te_rt env" as tables] by (auto simp: tracked_def cleanup_created_def)
  qed
  then show ?thesis using ok by (auto simp: Let_def)
qed

section \<open>Examples\<close>

definition photo_schema :: "pydict list" where
  "photo_schema = [[(lit ''name'', PStr (lit ''photo'')), (lit ''type'', PStr (lit ''file''))]]"

definition sample_gallery :: rcoll where
  "sample_gallery = \<lparr>rl_id = lit ''cg'', rl_name = lit ''gallery'', rl_type = lit ''base'', rl_schema = photo_schema, rl_fields = []\<rparr>"

definition photo_row :: "string \<Rightarrow> string \<Rightarrow> pydict" where
  "photo_row i n = [(lit ''id'', PStr (lit i)), (lit ''photo'', PStr (lit n))]"

definition gallery_tables :: "pydict list \<Rightarrow> pystr \<rightharpoonup> pydict list" where
  "gallery_tables rows = [lit ''gallery'' \<mapsto> rows]"

text \<open>The photo of one record is replaced, and the commit ends as given.\<close>

definition sample_tx_env :: "commit_result \<Rightarrow> tx_env" where
  "sample_tx_env commit = \<lparr>te_rt = sample_rt, te_raises = False, te_read_fails = False, te_commit = commit, te_lease_error = Held,
     te_reread_fails = False, te_lease_before = Held, te_lease_after = Held, te_bad = {}\<rparr>"

definition replace_photo :: "action list" where
  "replace_photo = [SaveFiles (lit ''cg'') (lit ''g1'') [lit ''b.png''], SqlWrite (\<lambda>_. gallery_tables [photo_row ''g1'' ''b.png'']),
     DeleteFiles (lit ''cg'') (lit ''g1'') [PStr (lit ''a.png'')]]"

definition old_photo :: "file_ref set" where
  "old_photo = {(lit ''cg'', lit ''g1'', lit ''a.png'')}"

definition replaced :: "commit_result \<Rightarrow> (tx_exn + unit) \<times> (pystr \<rightharpoonup> pydict list) \<times> file_ref set" where
  "replaced commit = run_record_storage_transaction (sample_tx_env commit) [sample_gallery] replace_photo (gallery_tables [photo_row ''g1'' ''a.png'']) old_photo"

lemma sample_row_references:
  "row_references sample_rt sample_gallery (photo_row ''g1'' ''a.png'') = Inr [(lit ''cg'', lit ''g1'', lit ''a.png'')]"
  "row_references sample_rt sample_gallery (photo_row ''g1'' ''b.png'') = Inr [(lit ''cg'', lit ''g1'', lit ''b.png'')]"
  by code_simp+

lemma single_references:
  assumes "tables (rl_name c) = Some [row]" "row_references rt c row = Inr fs"
  shows "all_references rt [c] tables = set fs"
  using assms by (auto simp: all_references_def)

lemma sample_replaced:
  "fst (replaced CommitOk) = Inr ()"
  "fst (snd (replaced CommitOk)) (lit ''gallery'') = Some [photo_row ''g1'' ''b.png'']"
  "fst (snd (replaced (CommitFailed False True))) (lit ''gallery'') = Some [photo_row ''g1'' ''a.png'']"
  "(lit ''cg'', lit ''g1'', lit ''a.png'') \<in> tx_files (run_actions sample_rt replace_photo (start_txn (gallery_tables [photo_row ''g1'' ''a.png'']) old_photo))"
  "rl_name sample_gallery = lit ''gallery''" "gallery_tables [photo_row ''g1'' ''a.png''] (lit ''gallery'') = Some [photo_row ''g1'' ''a.png'']"
  by code_simp+

theorem referenced_files_kept_witness:
  "(lit ''cg'', lit ''g1'', lit ''a.png'') \<in> snd (snd (replaced (CommitFailed False True)))"
proof -
  obtain r tables' files' where run: "replaced (CommitFailed False True) = (r, tables', files')" by (metis prod_cases3)
  have rt: "te_rt (sample_tx_env (CommitFailed False True)) = sample_rt" by (simp add: sample_tx_env_def)
  have old: "all_references sample_rt [sample_gallery] (gallery_tables [photo_row ''g1'' ''a.png'']) = set [(lit ''cg'', lit ''g1'', lit ''a.png'')]"
    by (rule single_references[OF _ sample_row_references(1)]) (simp add: sample_replaced(5,6))
  have new: "all_references sample_rt [sample_gallery] tables' = set [(lit ''cg'', lit ''g1'', lit ''a.png'')]"
    by (rule single_references[OF _ sample_row_references(1)]) (use sample_replaced(3,5) run in simp)
  show ?thesis
    using referenced_files_kept[OF _ run[unfolded replaced_def], of "(lit ''cg'', lit ''g1'', lit ''a.png'')"] old new rt sample_replaced(4) run
    by (simp add: old_photo_def)
qed

theorem transaction_files_exact_witness:
  "(lit ''cg'', lit ''g1'', lit ''a.png'') \<notin> snd (snd (replaced CommitOk))"
proof -
  obtain tables' files' where run: "replaced CommitOk = (Inr (), tables', files')" using sample_replaced(1) by (cases "replaced CommitOk") auto
  have rt: "te_rt (sample_tx_env CommitOk) = sample_rt" by (simp add: sample_tx_env_def)
  have new: "all_references sample_rt [sample_gallery] tables' = set [(lit ''cg'', lit ''g1'', lit ''b.png'')]"
    by (rule single_references[OF _ sample_row_references(2)]) (use sample_replaced(2,5) run in simp)
  have d: "tx_deferred (run_actions sample_rt replace_photo (start_txn (gallery_tables [photo_row ''g1'' ''a.png'']) old_photo))
      = [DeferFiles (lit ''cg'') (lit ''g1'') [lit ''a.png'']]" by code_simp
  have "lit ''a.png'' \<noteq> lit ''b.png''" by simp
  then show ?thesis
    using transaction_files_exact[OF run[unfolded replaced_def]] run rt new d by (simp add: sample_tx_env_def hits_def Let_def)
qed

end
