(* ===== verification/Process_Restart.thy ===== *)
theory Process_Restart
  imports Py_Value
begin

text \<open>
  Model of \<open>ppbase/services/process_control.py\<close>: the single-flight slot of process restarts, with its reservations, the calls of
  \<open>schedule_process_restart\<close> and their worker threads.

  \<^item> A block under \<open>_restart_lock\<close> is one atomic operation on the state; between two of them any other thread may act.
  \<^item> A call is a thread with a program counter; the environment check, the start of the worker, \<open>os.execvpe\<close> and the failure callback
    may go either way.
  \<^item> A successful \<open>execvpe\<close> replaces the process and ends the run.
\<close>

section \<open>Commands and environment\<close>

text \<open>\<open>_normalize_command\<close>.\<close>

definition normalize_command :: "py_runtime \<Rightarrow> pyval \<Rightarrow> pystr list option" where
  "normalize_command rt v =
     (case v of
        PList items \<Rightarrow>
          (let command = map (py_str rt) (filter (\<lambda>i. py_strip (py_str rt (py_or i (PStr []))) \<noteq> []) items)
           in if items = [] \<or> command = [] then None else Some command)
      | _ \<Rightarrow> None)"

text \<open>\<open>get_restart_command\<close>: the environment variable, its decoded JSON, and the inferred command.\<close>

definition get_restart_command :: "py_runtime \<Rightarrow> pystr option \<Rightarrow> pystr list option \<Rightarrow> pystr list option" where
  "get_restart_command rt env_value inferred =
     (let raw = py_strip (case env_value of None \<Rightarrow> [] | Some s \<Rightarrow> s)
      in if raw = [] then inferred
      else (case rt_json_loads rt raw of
              None \<Rightarrow> inferred
            | Some v \<Rightarrow> (case normalize_command rt v of None \<Rightarrow> inferred | Some c \<Rightarrow> Some c)))"

text \<open>\<open>_infer_restart_command\<close>: the script file, the interpreter and the arguments; \<open>resolve\<close> is \<open>Path.resolve\<close>.\<close>

definition infer_restart_command :: "(pystr \<Rightarrow> pystr) \<Rightarrow> pystr \<Rightarrow> pystr \<Rightarrow> pystr list \<Rightarrow> pystr list option" where
  "infer_restart_command resolve main_file executable argv =
     (if py_strip main_file = [] \<or> py_strip executable = [] then None
      else Some (py_strip executable # resolve (py_strip main_file) # argv))"

text \<open>\<open>_validated_restart_command\<close>: \<open>PStr\<close> and anything that is not a sequence are refused or raise.\<close>

definition validated_restart_command :: "py_runtime \<Rightarrow> pystr list option \<Rightarrow> pyval option \<Rightarrow> pyexn + pystr list option" where
  "validated_restart_command rt fallback command =
     (case command of
        None \<Rightarrow> Inr fallback
      | Some (PStr s) \<Rightarrow> Inr None
      | Some (PList items) \<Rightarrow>
          (let normalized = map (py_str rt) items
           in if normalized = [] \<or> list_ex (\<lambda>i. i = [] \<or> 0 \<in> set i) normalized then Inr None else Inr (Some normalized))
      | Some _ \<Rightarrow> Inl TypeError)"

definition unsafe_entry :: "pystr \<Rightarrow> pystr \<Rightarrow> bool" where
  "unsafe_entry k v = (k = [] \<or> 61 \<in> set k \<or> 0 \<in> set k \<or> 0 \<in> set v)"

text \<open>\<open>_restart_environment\<close>.\<close>

fun restart_environment :: "(pystr \<times> pystr) list \<Rightarrow> (pystr \<times> pystr) list \<Rightarrow> pyexn + (pystr \<times> pystr) list" where
  "restart_environment env [] = Inr env"
| "restart_environment env ((k, v) # overrides) =
     (if unsafe_entry k v then Inl ValueError else restart_environment (AList.update k v env) overrides)"

section \<open>The slot\<close>

record slot =
  sl_scheduled :: bool
  sl_current :: "nat option"
  sl_active :: "nat \<Rightarrow> bool"
  sl_claimed :: "nat \<Rightarrow> bool"
  sl_next :: nat

definition empty_slot :: slot where
  "empty_slot = \<lparr>sl_scheduled = False, sl_current = None, sl_active = (\<lambda>_. False), sl_claimed = (\<lambda>_. False), sl_next = 0\<rparr>"

definition release :: "nat \<Rightarrow> slot \<Rightarrow> slot" where
  "release r s =
     (if \<not> sl_active s r \<or> sl_current s \<noteq> Some r then s
      else s\<lparr>sl_active := (sl_active s)(r := False), sl_claimed := (sl_claimed s)(r := False), sl_current := None, sl_scheduled := False\<rparr>)"

definition reserve_process_restart :: "slot \<Rightarrow> nat option \<times> slot" where
  "reserve_process_restart s =
     (if sl_scheduled s then (None, s)
      else (let r = sl_next s
            in (Some r, s\<lparr>sl_active := (sl_active s)(r := True), sl_claimed := (sl_claimed s)(r := False), sl_current := Some r,
                  sl_scheduled := True, sl_next := Suc r\<rparr>)))"

definition claim_restart_reservation :: "nat \<Rightarrow> slot \<Rightarrow> bool \<times> slot" where
  "claim_restart_reservation r s =
     (if \<not> sl_active s r \<or> sl_claimed s r \<or> \<not> sl_scheduled s \<or> sl_current s \<noteq> Some r then (False, s)
      else (True, s\<lparr>sl_claimed := (sl_claimed s)(r := True)\<rparr>))"

definition detach_restart_reservation :: "nat \<Rightarrow> slot \<Rightarrow> slot" where
  "detach_restart_reservation r s =
     (let s' = s\<lparr>sl_active := (sl_active s)(r := False), sl_claimed := (sl_claimed s)(r := False)\<rparr>
      in if sl_current s = Some r then s'\<lparr>sl_current := None\<rparr> else s')"

definition clear_restart_scheduled :: "slot \<Rightarrow> slot" where
  "clear_restart_scheduled s =
     (let s' = (case sl_current s of None \<Rightarrow> s
                | Some r \<Rightarrow> s\<lparr>sl_active := (sl_active s)(r := False), sl_claimed := (sl_claimed s)(r := False)\<rparr>)
      in s'\<lparr>sl_current := None, sl_scheduled := False\<rparr>)"

text \<open>The first part of a call: claim the reservation, or take the free slot.\<close>

definition take_slot :: "nat option \<Rightarrow> slot \<Rightarrow> bool \<times> slot" where
  "take_slot res s =
     (case res of
        Some r \<Rightarrow> claim_restart_reservation r s
      | None \<Rightarrow> if sl_scheduled s then (False, s) else (True, s\<lparr>sl_scheduled := True\<rparr>))"

section \<open>Calls and workers\<close>

datatype call = Idle | Holding "nat option" | Clearing | Detaching nat | Returned bool

datatype worker = Absent | Running | Settled | Unsettled | Cleared

record control =
  ct_slot :: slot
  ct_call :: "nat \<Rightarrow> call"
  ct_worker :: "nat \<Rightarrow> worker"

definition initial_control :: control where
  "initial_control = \<lparr>ct_slot = empty_slot, ct_call = (\<lambda>_. Idle), ct_worker = (\<lambda>_. Absent)\<rparr>"

text \<open>The call of thread \<open>t\<close> enters with a valid command.\<close>

definition call_enter :: "nat \<Rightarrow> nat option \<Rightarrow> control \<Rightarrow> control" where
  "call_enter t res s =
     (case take_slot res (ct_slot s) of
        (True, sl) \<Rightarrow> s\<lparr>ct_slot := sl, ct_call := (ct_call s)(t := Holding res)\<rparr>
      | (False, sl) \<Rightarrow> s\<lparr>ct_slot := sl, ct_call := (ct_call s)(t := Returned False)\<rparr>)"

text \<open>The environment is invalid or the worker does not start: only a slot without reservation is cleared by the call.\<close>

definition call_fails :: "nat \<Rightarrow> nat option \<Rightarrow> control \<Rightarrow> control" where
  "call_fails t res s = s\<lparr>ct_call := (ct_call s)(t := (if res = None then Clearing else Returned False))\<rparr>"

definition call_clears :: "nat \<Rightarrow> control \<Rightarrow> control" where
  "call_clears t s = s\<lparr>ct_slot := clear_restart_scheduled (ct_slot s), ct_call := (ct_call s)(t := Returned False)\<rparr>"

definition call_starts :: "nat \<Rightarrow> nat option \<Rightarrow> control \<Rightarrow> control" where
  "call_starts t res s =
     s\<lparr>ct_worker := (ct_worker s)(t := Running), ct_call := (ct_call s)(t := (case res of None \<Rightarrow> Returned True | Some r \<Rightarrow> Detaching r))\<rparr>"

definition call_detaches :: "nat \<Rightarrow> nat \<Rightarrow> control \<Rightarrow> control" where
  "call_detaches t r s =
     s\<lparr>ct_slot := detach_restart_reservation r (ct_slot s), ct_call := (ct_call s)(t := Returned True)\<rparr>"

text \<open>The worker fails before it replaced the process; \<open>ok\<close> tells whether the failure callback settled the outcome.\<close>

definition worker_fails :: "nat \<Rightarrow> bool \<Rightarrow> control \<Rightarrow> control" where
  "worker_fails t ok s = s\<lparr>ct_worker := (ct_worker s)(t := (if ok then Settled else Unsettled))\<rparr>"

definition worker_clears :: "nat \<Rightarrow> control \<Rightarrow> control" where
  "worker_clears t s = s\<lparr>ct_slot := clear_restart_scheduled (ct_slot s), ct_worker := (ct_worker s)(t := Cleared)\<rparr>"

text \<open>A call of some thread is between claiming \<open>r\<close> and detaching it.\<close>

definition in_use :: "nat \<Rightarrow> control \<Rightarrow> bool" where
  "in_use r s = (\<exists>t. ct_call s t \<in> {Holding (Some r), Detaching r})"

text \<open>
  The steps.  With \<open>polite\<close>, the owner of a reservation does not release it while a call that uses it is under way, as the callers in
  \<open>ppbase/backup/service.py\<close> do; without it, \<open>release\<close> may come at any time.
\<close>

inductive restart_step :: "bool \<Rightarrow> control \<Rightarrow> control \<Rightarrow> bool" for polite where
  reserve: "restart_step polite s (s\<lparr>ct_slot := snd (reserve_process_restart (ct_slot s))\<rparr>)"
| released: "\<lbrakk>polite \<Longrightarrow> \<not> in_use r s\<rbrakk> \<Longrightarrow> restart_step polite s (s\<lparr>ct_slot := release r (ct_slot s)\<rparr>)"
| enter: "\<lbrakk>ct_call s t = Idle\<rbrakk> \<Longrightarrow> restart_step polite s (call_enter t res s)"
| fails: "\<lbrakk>ct_call s t = Holding res\<rbrakk> \<Longrightarrow> restart_step polite s (call_fails t res s)"
| clears: "\<lbrakk>ct_call s t = Clearing\<rbrakk> \<Longrightarrow> restart_step polite s (call_clears t s)"
| starts: "\<lbrakk>ct_call s t = Holding res\<rbrakk> \<Longrightarrow> restart_step polite s (call_starts t res s)"
| detaches: "\<lbrakk>ct_call s t = Detaching r\<rbrakk> \<Longrightarrow> restart_step polite s (call_detaches t r s)"
| worker_fail: "\<lbrakk>ct_worker s t = Running\<rbrakk> \<Longrightarrow> restart_step polite s (worker_fails t ok s)"
| worker_clear: "\<lbrakk>ct_worker s t = Settled\<rbrakk> \<Longrightarrow> restart_step polite s (worker_clears t s)"

inductive restart_reachable :: "bool \<Rightarrow> control \<Rightarrow> bool" for polite where
  start: "restart_reachable polite initial_control"
| step: "\<lbrakk>restart_reachable polite s; restart_step polite s s'\<rbrakk> \<Longrightarrow> restart_reachable polite s'"

inductive_cases restart_stepE: "restart_step polite s s'"

section \<open>One restart at a time\<close>

definition live :: "worker \<Rightarrow> bool" where
  "live w = (w \<in> {Running, Settled, Unsettled})"

text \<open>Thread \<open>t\<close> has the slot: through its call or through its worker.\<close>

definition owns :: "control \<Rightarrow> nat \<Rightarrow> bool" where
  "owns s t = ((\<exists>res. ct_call s t = Holding res) \<or> ct_call s t = Clearing \<or> live (ct_worker s t))"

definition slot_ok :: "slot \<Rightarrow> bool" where
  "slot_ok s = (\<forall>r. sl_current s = Some r \<longrightarrow> sl_scheduled s \<and> sl_active s r \<and> r < sl_next s)"

definition call_ok :: "slot \<Rightarrow> call \<Rightarrow> worker \<Rightarrow> bool" where
  "call_ok s c w =
     (case c of
        Idle \<Rightarrow> w = Absent
      | Holding None \<Rightarrow> w = Absent \<and> sl_scheduled s \<and> sl_current s = None
      | Holding (Some r) \<Rightarrow> w = Absent \<and> sl_scheduled s \<and> sl_current s = Some r \<and> sl_claimed s r
      | Clearing \<Rightarrow> w = Absent \<and> sl_scheduled s \<and> sl_current s = None
      | Detaching r \<Rightarrow> r < sl_next s \<and> (live w \<longrightarrow> sl_scheduled s \<and> sl_current s = Some r \<and> sl_claimed s r) \<and>
          (sl_current s = Some r \<longrightarrow> live w)
      | Returned b \<Rightarrow> live w \<longrightarrow> sl_scheduled s \<and> sl_current s = None)"

definition single_flight :: "control \<Rightarrow> bool" where
  "single_flight s = (slot_ok (ct_slot s) \<and> (\<forall>t. call_ok (ct_slot s) (ct_call s t) (ct_worker s t)) \<and>
     (\<forall>t u. owns s t \<longrightarrow> owns s u \<longrightarrow> t = u))"

lemmas control_defs = call_enter_def call_fails_def call_clears_def call_starts_def call_detaches_def worker_fails_def worker_clears_def
lemmas slot_defs = release_def reserve_process_restart_def claim_restart_reservation_def detach_restart_reservation_def
  clear_restart_scheduled_def take_slot_def

text \<open>A thread that owns the slot keeps it scheduled, and its reservation, if it has one, is claimed.\<close>

lemma owner_scheduled:
  assumes "call_ok sl (ct_call s t) (ct_worker s t)" "owns s t"
  shows "sl_scheduled sl \<and> (\<forall>r. sl_current sl = Some r \<longrightarrow> sl_claimed sl r \<and> ct_call s t \<in> {Holding (Some r), Detaching r})"
  using assms by (cases "ct_call s t") (auto simp: owns_def call_ok_def live_def split: option.splits)

text \<open>A thread that does not own the slot stays in order whatever becomes of the slot, except that its old reservation must not come back.\<close>

lemma idle_ok:
  assumes "call_ok sl (ct_call s t) (ct_worker s t)" "\<not> owns s t" "sl_next sl \<le> sl_next sl'"
    and "\<And>r. sl_current sl' = Some r \<Longrightarrow> sl_current sl = Some r \<or> r = sl_next sl"
  shows "call_ok sl' (ct_call s t) (ct_worker s t)"
  using assms by (cases "ct_call s t") (auto simp: owns_def call_ok_def split: option.splits)

lemma single_flightI:
  assumes "slot_ok (ct_slot s')" "\<And>u. u \<noteq> t \<Longrightarrow> ct_call s' u = ct_call s u \<and> ct_worker s' u = ct_worker s u"
    and "\<And>u. u \<noteq> t \<Longrightarrow> \<not> owns s u" "call_ok (ct_slot s') (ct_call s' t) (ct_worker s' t)"
    and "single_flight s" "sl_next (ct_slot s) \<le> sl_next (ct_slot s')"
    and "\<And>r. sl_current (ct_slot s') = Some r \<Longrightarrow> sl_current (ct_slot s) = Some r \<or> r = sl_next (ct_slot s)"
  shows "single_flight s'"
proof -
  have "call_ok (ct_slot s') (ct_call s' u) (ct_worker s' u)" for u
  proof (cases "u = t")
    case False
    then show ?thesis using assms(2,3) idle_ok[OF _ _ assms(6,7)] assms(5) unfolding single_flight_def by metis
  qed (use assms(4) in simp)
  moreover have "\<not> owns s' u" if "u \<noteq> t" for u using assms(2,3)[OF that] by (simp add: owns_def)
  ultimately show ?thesis using assms(1) unfolding single_flight_def by metis
qed

lemma initial_single_flight: "single_flight initial_control"
  by (simp add: single_flight_def initial_control_def empty_slot_def slot_ok_def call_ok_def owns_def live_def)

lemma others_idle: "\<lbrakk>single_flight s; owns s t; u \<noteq> t\<rbrakk> \<Longrightarrow> \<not> owns s u"
  unfolding single_flight_def by blast

lemma nobody_owns:
  assumes "single_flight s" "\<And>t r. \<not> (owns s t \<and> sl_scheduled (ct_slot s) \<and>
     (\<forall>r. sl_current (ct_slot s) = Some r \<longrightarrow> sl_claimed (ct_slot s) r \<and> ct_call s t \<in> {Holding (Some r), Detaching r}))"
  shows "\<not> owns s t"
  using assms owner_scheduled[of "ct_slot s" s t] unfolding single_flight_def by blast

lemma unowned_single_flight:
  assumes "single_flight s" "\<And>t. \<not> owns s t" "ct_call s' = ct_call s" "ct_worker s' = ct_worker s" "slot_ok (ct_slot s')"
    and "sl_next (ct_slot s) \<le> sl_next (ct_slot s')"
    and "\<And>r. sl_current (ct_slot s') = Some r \<Longrightarrow> sl_current (ct_slot s) = Some r \<or> r = sl_next (ct_slot s)"
  shows "single_flight s'"
proof -
  have "call_ok (ct_slot s') (ct_call s' u) (ct_worker s' u)" for u
    using idle_ok[OF _ assms(2,6,7)] assms(1,3,4) unfolding single_flight_def by simp
  moreover have "\<not> owns s' u" for u using assms(2-4) by (simp add: owns_def)
  ultimately show ?thesis using assms(5) unfolding single_flight_def by blast
qed

text \<open>A thread that owns the slot, or takes it when nobody does, changes its own counter and the slot.\<close>

lemma owner_single_flight:
  assumes "single_flight s" "owns s t \<or> (\<forall>u. \<not> owns s u)" "\<And>u. u \<noteq> t \<Longrightarrow> ct_call s' u = ct_call s u \<and> ct_worker s' u = ct_worker s u"
    and "slot_ok (ct_slot s')" "call_ok (ct_slot s') (ct_call s' t) (ct_worker s' t)"
    and "sl_next (ct_slot s) = sl_next (ct_slot s')" "sl_current (ct_slot s') \<in> {None, sl_current (ct_slot s)}"
  shows "single_flight s'"
  by (rule single_flightI[where t = t and s = s, OF assms(4,3) _ assms(5,1)]) (use assms(2,6,7) others_idle[OF assms(1)] in \<open>auto split: if_splits\<close>)

lemma thread_ok: "single_flight s \<Longrightarrow> call_ok (ct_slot s) (ct_call s t) (ct_worker s t)"
  by (simp add: single_flight_def)

lemma current_ok: "single_flight s \<Longrightarrow> slot_ok (ct_slot s)"
  by (simp add: single_flight_def)

lemma reserve_single_flight:
  assumes "single_flight s"
  shows "single_flight (s\<lparr>ct_slot := snd (reserve_process_restart (ct_slot s))\<rparr>)"
proof (cases "sl_scheduled (ct_slot s)")
  case False
  then have "\<not> owns s t" for t using nobody_owns[OF assms] by blast
  then show ?thesis
    by (rule unowned_single_flight[OF assms]) (simp_all add: False reserve_process_restart_def slot_ok_def Let_def)
qed (use assms in \<open>simp add: reserve_process_restart_def\<close>)

lemma release_single_flight:
  assumes "single_flight s" "\<not> in_use r s"
  shows "single_flight (s\<lparr>ct_slot := release r (ct_slot s)\<rparr>)"
proof (cases "sl_active (ct_slot s) r \<and> sl_current (ct_slot s) = Some r")
  case True
  then have "\<not> owns s t" for t using nobody_owns[OF assms(1)] assms(2) unfolding in_use_def by blast
  then show ?thesis
    by (rule unowned_single_flight[OF assms(1)]) (simp_all add: True release_def slot_ok_def)
qed (use assms in \<open>auto simp: release_def\<close>)

lemma enter_single_flight:
  assumes "single_flight s" "ct_call s t = Idle"
  shows "single_flight (call_enter t res s)"
proof (cases "fst (take_slot res (ct_slot s))")
  case True
  have none: "\<not> owns s u" for u
    by (rule nobody_owns[OF assms(1)]) (use True in \<open>auto simp: take_slot_def claim_restart_reservation_def split: option.splits if_splits\<close>)
  have ok: "ct_worker s t = Absent" using thread_ok[OF assms(1), of t] assms(2) by (simp add: call_ok_def)
  show ?thesis
    by (rule owner_single_flight[OF assms(1), where t = t])
      (use none ok True current_ok[OF assms(1)] in \<open>auto simp: call_enter_def take_slot_def claim_restart_reservation_def slot_ok_def call_ok_def
        split: option.splits if_splits\<close>)
next
  case False
  then have e: "call_enter t res s = s\<lparr>ct_call := (ct_call s)(t := Returned False)\<rparr>"
    by (auto simp: call_enter_def take_slot_def claim_restart_reservation_def split: option.splits if_splits)
  have "ct_worker s t = Absent" using thread_ok[OF assms(1), of t] assms(2) by (simp add: call_ok_def)
  then have "owns (call_enter t res s) u = owns s u" for u using assms(2) by (simp add: e owns_def live_def)
  moreover have "call_ok (ct_slot s) (ct_call (call_enter t res s) u) (ct_worker s u)" for u
    using thread_ok[OF assms(1), of u] \<open>ct_worker s t = Absent\<close> by (simp add: e call_ok_def live_def)
  ultimately show ?thesis using assms(1) by (simp add: single_flight_def e)
qed

lemma call_single_flight:
  assumes "single_flight s" "ct_call s t = Holding res"
  shows "single_flight (call_fails t res s)" "single_flight (call_starts t res s)"
proof -
  have own: "owns s t" using assms(2) by (simp add: owns_def)
  note ok = thread_ok[OF assms(1), of t] current_ok[OF assms(1)]
  show "single_flight (call_fails t res s)"
    by (rule owner_single_flight[OF assms(1), where t = t])
      (use ok own assms(2) in \<open>simp_all add: call_fails_def call_ok_def slot_ok_def live_def split: option.splits\<close>)
  show "single_flight (call_starts t res s)"
    by (rule owner_single_flight[OF assms(1), where t = t])
      (use ok own assms(2) in \<open>simp_all add: call_starts_def call_ok_def slot_ok_def live_def split: option.splits\<close>)
qed

lemma clear_single_flight:
  assumes "single_flight s" "ct_call s t = Clearing \<or> ct_worker s t = Settled"
  shows "ct_call s t = Clearing \<Longrightarrow> single_flight (call_clears t s)" "ct_worker s t = Settled \<Longrightarrow> single_flight (worker_clears t s)"
proof -
  have own: "owns s t" using assms(2) by (auto simp: owns_def live_def)
  note ok = thread_ok[OF assms(1), of t] current_ok[OF assms(1)]
  show "single_flight (call_clears t s)" if "ct_call s t = Clearing"
    by (rule owner_single_flight[OF assms(1), where t = t])
      (use ok own that in \<open>auto simp: call_clears_def clear_restart_scheduled_def call_ok_def slot_ok_def live_def split: option.splits\<close>)
  show "single_flight (worker_clears t s)" if "ct_worker s t = Settled"
    by (rule owner_single_flight[OF assms(1), where t = t])
      (use ok own that in \<open>auto simp: worker_clears_def clear_restart_scheduled_def call_ok_def slot_ok_def live_def split: option.splits call.splits\<close>)
qed

lemma worker_fails_single_flight:
  assumes "single_flight s" "ct_worker s t = Running"
  shows "single_flight (worker_fails t ok s)"
proof -
  have own: "owns s t" using assms(2) by (simp add: owns_def live_def)
  note ok = thread_ok[OF assms(1), of t] current_ok[OF assms(1)]
  show ?thesis
    by (rule owner_single_flight[OF assms(1), where t = t])
      (use ok own assms(2) in \<open>auto simp: worker_fails_def call_ok_def live_def split: call.splits option.splits\<close>)
qed

lemma call_ok_slot:
  assumes "sl_scheduled sl' = sl_scheduled sl" "sl_current sl' = sl_current sl" "sl_next sl' = sl_next sl"
    and "\<And>r. sl_current sl = Some r \<Longrightarrow> sl_claimed sl' r = sl_claimed sl r"
  shows "call_ok sl' c w = call_ok sl c w"
  using assms by (auto simp: call_ok_def split: call.splits option.splits)

lemma detach_single_flight:
  assumes "single_flight s" "ct_call s t = Detaching r"
  shows "single_flight (call_detaches t r s)"
proof (cases "live (ct_worker s t)")
  case True
  then have own: "owns s t" by (simp add: owns_def)
  note ok = thread_ok[OF assms(1), of t] current_ok[OF assms(1)]
  show ?thesis
    by (rule owner_single_flight[OF assms(1), where t = t])
      (use ok own True assms(2) in \<open>simp_all add: call_detaches_def detach_restart_reservation_def Let_def call_ok_def slot_ok_def\<close>)
next
  case False
  then have cur: "sl_current (ct_slot s) \<noteq> Some r" using thread_ok[OF assms(1), of t] assms(2) by (auto simp: call_ok_def)
  let ?s = "call_detaches t r s"
  have "call_ok (ct_slot ?s) c w = call_ok (ct_slot s) c w" for c w
    by (rule call_ok_slot) (use cur in \<open>auto simp: call_detaches_def detach_restart_reservation_def Let_def\<close>)
  then have "call_ok (ct_slot ?s) (ct_call ?s u) (ct_worker ?s u)" for u
    using thread_ok[OF assms(1), of u] False by (simp add: call_detaches_def call_ok_def)
  moreover have "owns ?s u = owns s u" for u using assms(2) by (simp add: call_detaches_def owns_def)
  moreover have "slot_ok (ct_slot ?s)"
    using current_ok[OF assms(1)] cur by (auto simp: call_detaches_def detach_restart_reservation_def Let_def slot_ok_def)
  ultimately show ?thesis using assms(1) by (simp add: single_flight_def)
qed

lemma reachable_single_flight: "restart_reachable True s \<Longrightarrow> single_flight s"
proof (induction rule: restart_reachable.induct)
  case (step s s')
  from step(2) show ?case
    by (rule restart_stepE) (use step.IH in \<open>auto intro: reserve_single_flight release_single_flight enter_single_flight call_single_flight
      clear_single_flight worker_fails_single_flight detach_single_flight\<close>)
qed (rule initial_single_flight)

text \<open>
  C25: as long as nobody releases a reservation while a call uses it, at most one restart worker is alive at any time, whatever the
  interleaving of reservations, calls, failures and workers; while one is alive, no reservation is given out and every call is refused.
\<close>

theorem restart_single_flight:
  assumes "restart_reachable True s" "live (ct_worker s t)"
  shows "(\<forall>u. live (ct_worker s u) \<longrightarrow> u = t) \<and> fst (reserve_process_restart (ct_slot s)) = None \<and>
    (\<forall>res. \<not> fst (take_slot res (ct_slot s)))"
proof -
  have sf: "single_flight s" by (rule reachable_single_flight[OF assms(1)])
  have own: "owns s t" using assms(2) by (simp add: owns_def)
  have "u = t" if "live (ct_worker s u)" for u using others_idle[OF sf own, of u] that by (auto simp: owns_def)
  moreover have "sl_scheduled (ct_slot s) \<and> (\<forall>r. sl_current (ct_slot s) = Some r \<longrightarrow> sl_claimed (ct_slot s) r)"
    using owner_scheduled[OF thread_ok[OF sf] own] by blast
  ultimately show ?thesis by (auto simp: reserve_process_restart_def take_slot_def claim_restart_reservation_def split: option.splits)
qed

text \<open>A run: a reservation is claimed, and its worker starts.\<close>

definition sample_run :: "bool \<Rightarrow> control" where
  "sample_run released =
     (let s1 = initial_control\<lparr>ct_slot := snd (reserve_process_restart empty_slot)\<rparr>;
          s2 = call_enter 0 (Some 0) s1
      in if released then call_starts 0 (Some 0) (call_starts 1 None (call_enter 1 None (s2\<lparr>ct_slot := release 0 (ct_slot s2)\<rparr>)))
         else call_starts 0 (Some 0) s2)"

lemma sample_run_reachable: "restart_reachable p (sample_run False)" "restart_reachable False (sample_run True)"
proof -
  let ?s1 = "initial_control\<lparr>ct_slot := snd (reserve_process_restart empty_slot)\<rparr>"
  let ?s2 = "call_enter 0 (Some 0) ?s1" let ?s3 = "?s2\<lparr>ct_slot := release 0 (ct_slot ?s2)\<rparr>" let ?s4 = "call_enter 1 None ?s3"
  let ?s5 = "call_starts 1 None ?s4"
  note simps = initial_control_def empty_slot_def call_enter_def call_starts_def slot_defs Let_def
  have s1: "restart_reachable q ?s1" for q
    using restart_reachable.step[OF restart_reachable.start restart_step.reserve, of q] by (simp add: initial_control_def)
  have s2: "restart_reachable q ?s2" for q
    by (rule restart_reachable.step[OF s1 restart_step.enter]) (simp add: simps)
  have s3: "restart_reachable False ?s3" by (rule restart_reachable.step[OF s2 restart_step.released]) simp
  have s4: "restart_reachable False ?s4" by (rule restart_reachable.step[OF s3 restart_step.enter]) (simp add: simps)
  have s5: "restart_reachable False ?s5" by (rule restart_reachable.step[OF s4 restart_step.starts]) (simp add: simps)
  show "restart_reachable p (sample_run False)"
    using restart_reachable.step[OF s2[of p] restart_step.starts[where t = 0 and res = "Some 0"]] by (simp add: sample_run_def simps)
  show "restart_reachable False (sample_run True)"
    using restart_reachable.step[OF s5 restart_step.starts[where t = 0 and res = "Some 0"]] by (simp add: sample_run_def simps)
qed

theorem restart_single_flight_witness:
  "fst (reserve_process_restart (ct_slot (sample_run False))) = None \<and> \<not> live (ct_worker (sample_run False) 1)"
  using restart_single_flight[OF sample_run_reachable(1), of 0]
  by (auto simp: sample_run_def call_starts_def live_def Let_def initial_control_def call_enter_def slot_defs empty_slot_def)

text \<open>\<open>release\<close> does not look at the claim: released between the claim and the start of the worker, a reservation lets a second worker run.\<close>

lemma claimed_release_breaks_single_flight:
  "\<exists>s. restart_reachable False s \<and> live (ct_worker s 0) \<and> live (ct_worker s 1)"
  using sample_run_reachable(2) by (intro exI[of _ "sample_run True"]) (simp add: sample_run_def call_starts_def live_def Let_def)

section \<open>Checked commands and environments\<close>

text \<open>A command or an environment that passes the checks has no empty or NUL-containing part.\<close>

lemma validated_command_safe:
  "validated_restart_command rt None (Some v) = Inr (Some c) \<Longrightarrow> c \<noteq> [] \<and> (\<forall>i \<in> set c. i \<noteq> [] \<and> 0 \<notin> set i)"
  by (auto simp: validated_restart_command_def Let_def list_ex_iff split: pyval.splits if_splits) metis

lemma restart_environment_safe:
  assumes "restart_environment env overrides = Inr env'" "\<And>k v. map_of env k = Some v \<Longrightarrow> \<not> unsafe_entry k v" "map_of env' k = Some v"
  shows "\<not> unsafe_entry k v"
  using assms
proof (induction env overrides rule: restart_environment.induct)
  case (2 env a b overrides)
  then have a: "\<not> unsafe_entry a b" "restart_environment (AList.update a b env) overrides = Inr env'" by (auto split: if_splits)
  show ?case
    by (rule "2.IH"[OF a(1) a(2) _ "2.prems"(3)]) (use a(1) "2.prems"(2) in \<open>auto simp: update_conv' split: if_splits\<close>)
qed simp

end
