(* ===== verification/Record_Query.thy ===== *)
theory Record_Query
  imports Record_Store Filter_Grammar "HOL-Library.List_Lexorder" "HOL-Library.Product_Lexorder"
begin

text \<open>
  Reading records: the relation index of \<open>services/record_service.py\<close> with its cache, the choice of resolver for a
  filter, listing with filter, sort and pagination, the check of a rule on one record, and the list and view handlers of
  \<open>api/records.py\<close> that put the API rule and the client's query together.
\<close>

section \<open>Field definitions as the index reads them\<close>

definition FIELD_CORE_KEYS :: "pystr list" where
  "FIELD_CORE_KEYS = map lit [''id'', ''name'', ''type'', ''required'', ''system'', ''hidden'', ''presentable'', ''options'']"

text \<open>\<open>{**a, **b}\<close>\<close>

definition dict_merge :: "pydict \<Rightarrow> pydict \<Rightarrow> pydict" where
  "dict_merge a b = foldl (\<lambda>d (k, v). dict_put d k v) a b"

definition normalize_field :: "pydict \<Rightarrow> pyexn + pydict" where
  "normalize_field f =
     (let extra = filter (\<lambda>(k, v). k \<notin> set FIELD_CORE_KEYS) f
      in if extra = [] then Inr f
         else let core = filter (\<lambda>(k, v). k \<in> set FIELD_CORE_KEYS \<and> k \<noteq> lit ''options'') f
              in (case py_or (dict_get f (lit ''options'')) (PDict []) of
                    PDict existing \<Rightarrow> Inr (core @ [(lit ''options'', PDict (dict_merge extra existing))])
                  | _ \<Rightarrow> Inl TypeError))"

fun add_field_metadata :: "py_runtime \<Rightarrow> pydict list \<Rightarrow> pydict \<Rightarrow> pyexn + pydict" where
  "add_field_metadata rt [] fs = Inr fs"
| "add_field_metadata rt (raw # raws) fs =
     bindE (normalize_field raw) (\<lambda>f.
     (let name = str_or_blank rt (dict_get f (lit ''name''))
      in add_field_metadata rt raws
           (if name = [] then fs
            else dict_put fs name
                   (PDict [(lit ''type'', PStr (str_or_blank rt (dict_get f (lit ''type'')))),
                           (lit ''options'', py_or (dict_get f (lit ''options'')) (PDict []))]))))"

definition collection_field_metadata :: "py_runtime \<Rightarrow> rcoll \<Rightarrow> pyexn + pydict" where
  "collection_field_metadata rt c =
     add_field_metadata rt (rl_schema c)
       [(lit ''id'', PDict [(lit ''type'', PStr (lit ''text''))]),
        (lit ''created'', PDict [(lit ''type'', PStr (lit ''date''))]),
        (lit ''updated'', PDict [(lit ''type'', PStr (lit ''date''))])]"

section \<open>The relation index\<close>

fun targets_of ::
  "py_runtime \<Rightarrow> (pystr \<Rightarrow> rcoll option) \<Rightarrow> (pystr \<Rightarrow> rcoll option) \<Rightarrow> pydict list \<Rightarrow> pyexn + (pystr \<times> rcoll \<times> int) list" where
  "targets_of rt by_id by_name [] = Inr []"
| "targets_of rt by_id by_name (raw # raws) =
     bindE (normalize_field raw) (\<lambda>f.
       if dict_get f (lit ''type'') \<noteq> PStr (lit ''relation'') then targets_of rt by_id by_name raws
       else case py_or (dict_get f (lit ''options'')) (PDict []) of
              PDict opts \<Rightarrow>
                (let name = str_or_blank rt (dict_get f (lit ''name''));
                     ref = py_str rt (dict_get opts (lit ''collectionId''));
                     target = (case by_id ref of None \<Rightarrow> by_name ref | Some t \<Rightarrow> Some t)
                 in case target of
                      None \<Rightarrow> targets_of rt by_id by_name raws
                    | Some t \<Rightarrow>
                        if name = [] then targets_of rt by_id by_name raws
                        else bindE (py_int rt (py_or (dict_get_or opts (lit ''maxSelect'') (PInt 1)) (PInt 1))) (\<lambda>n.
                             bindE (targets_of rt by_id by_name raws) (\<lambda>ts. Inr ((name, t, n) # ts))))
            | _ \<Rightarrow> Inl AttributeError)"

definition relation_targets ::
  "py_runtime \<Rightarrow> rcoll \<Rightarrow> (pystr \<Rightarrow> rcoll option) \<Rightarrow> (pystr \<Rightarrow> rcoll option) \<Rightarrow> pyexn + (pystr \<times> rcoll \<times> int) list" where
  "relation_targets rt c by_id by_name = targets_of rt by_id by_name (rl_schema c)"

text \<open>A dict built by a comprehension: of two collections with one key the later wins.\<close>

definition keyed :: "(rcoll \<Rightarrow> pystr) \<Rightarrow> rcoll list \<Rightarrow> pystr \<Rightarrow> rcoll option" where
  "keyed key cs k = map_of (rev (map (\<lambda>c. (key c, c)) cs)) k"

fun index_collections :: "py_runtime \<Rightarrow> rcoll list \<Rightarrow> pydict \<Rightarrow> pyexn + pydict" where
  "index_collections rt [] meta = Inr meta"
| "index_collections rt (c # cs) meta =
     bindE (collection_field_metadata rt c) (\<lambda>fs.
       index_collections rt cs
         (dict_put meta (rl_name c)
           (PDict [(lit ''id'', PStr (rl_id c)), (lit ''table'', PStr (rl_name c)), (lit ''fields'', PDict fs),
                   (lit ''relations'', PDict [])])))"

definition sub_or_new :: "pydict \<Rightarrow> pystr \<Rightarrow> pydict" where
  "sub_or_new d k = (case sub_dict d k of None \<Rightarrow> [] | Some x \<Rightarrow> x)"

definition forward_info :: "pystr \<Rightarrow> pystr \<Rightarrow> int \<Rightarrow> pydict" where
  "forward_info field target_table n =
     [(lit ''kind'', PStr (lit ''forward'')), (lit ''field'', PStr field), (lit ''table'', PStr target_table),
      (lit ''max_select'', PInt n)]"

definition back_info :: "pystr \<Rightarrow> pystr \<Rightarrow> int \<Rightarrow> pydict" where
  "back_info tbl field n =
     [(lit ''kind'', PStr (lit ''back'')), (lit ''table'', PStr tbl), (lit ''back_field'', PStr field),
      (lit ''max_select'', PInt n)]"

definition back_key :: "pystr \<Rightarrow> pystr \<Rightarrow> pystr" where
  "back_key tbl field = tbl @ lit ''_via_'' @ field"

definition add_relation :: "pystr \<Rightarrow> pystr \<times> rcoll \<times> int \<Rightarrow> pydict \<times> pydict \<Rightarrow> pydict \<times> pydict" where
  "add_relation tbl r ix =
     (case (r, ix) of
        ((field, target, n), (meta, back)) \<Rightarrow>
          let m = sub_or_new meta tbl
          in (dict_put meta tbl
                (PDict (dict_put m (lit ''relations'')
                  (PDict (dict_put (sub_or_new m (lit ''relations'')) field (PDict (forward_info field (rl_name target) n)))))),
              dict_put back (rl_name target)
                (PDict (dict_put (sub_or_new back (rl_name target)) (back_key tbl field) (PDict (back_info tbl field n))))))"

fun index_relations ::
  "py_runtime \<Rightarrow> (pystr \<Rightarrow> rcoll option) \<Rightarrow> (pystr \<Rightarrow> rcoll option) \<Rightarrow> rcoll list \<Rightarrow> pydict \<times> pydict \<Rightarrow> pyexn + pydict \<times> pydict" where
  "index_relations rt by_id by_name [] ix = Inr ix"
| "index_relations rt by_id by_name (c # cs) ix =
     bindE (relation_targets rt c by_id by_name) (\<lambda>ts.
       index_relations rt by_id by_name cs (foldl (\<lambda>ix t. add_relation (rl_name c) t ix) ix ts))"

definition build_relation_index_from_collections :: "py_runtime \<Rightarrow> rcoll list \<Rightarrow> pyexn + pyval" where
  "build_relation_index_from_collections rt cs =
     bindE (index_collections rt cs []) (\<lambda>meta.
     bindE (index_relations rt (keyed rl_id cs) (keyed rl_name cs) cs (meta, [])) (\<lambda>(meta', back).
       Inr (PDict [(lit ''__flat__'', PBool True), (lit ''collections'', PDict meta'), (lit ''back_relations'', PDict back)])))"

section \<open>The cached index\<close>

text \<open>A row of \<open>_collections\<close>: the collection and \<open>str(updated)\<close>.  The cache holds one entry per engine.\<close>

type_synonym signature = "(pystr \<times> pystr \<times> pystr \<times> pystr) list"

type_synonym index_cache = "(nat \<times> (signature \<times> pyval)) list"

definition relation_index_signature :: "(rcoll \<times> pystr) list \<Rightarrow> signature" where
  "relation_index_signature rows =
     sort (map (\<lambda>(c, updated). (rl_id c, rl_name c, updated, nat_str (length (rl_schema c)))) rows)"

definition build_relation_index ::
  "py_runtime \<Rightarrow> nat \<Rightarrow> (rcoll \<times> pystr) list \<Rightarrow> index_cache \<Rightarrow> (pyexn + pyval) \<times> index_cache" where
  "build_relation_index rt engine rows cache =
     (let s = relation_index_signature rows
      in case map_of cache engine of
           Some (s0, index) \<Rightarrow> if s0 = s then (Inr index, cache)
             else (case build_relation_index_from_collections rt (map fst rows) of
                     Inl e \<Rightarrow> (Inl e, cache) | Inr ix \<Rightarrow> (Inr ix, AList.update engine (s, ix) cache))
         | None \<Rightarrow>
             (case build_relation_index_from_collections rt (map fst rows) of
                Inl e \<Rightarrow> (Inl e, cache) | Inr ix \<Rightarrow> (Inr ix, AList.update engine (s, ix) cache)))"

section \<open>Which resolver a filter needs\<close>

fun unquote :: "nat option \<Rightarrow> bool \<Rightarrow> pystr \<Rightarrow> pystr" where
  "unquote q escaped [] = []"
| "unquote (Some q) escaped (c # cs) =
     32 # (if escaped then unquote (Some q) False cs
           else if c = 92 then unquote (Some q) True cs
           else if c = q then unquote None False cs
           else unquote (Some q) False cs)"
| "unquote None escaped (c # cs) =
     (if c = 39 \<or> c = 34 then 32 # unquote (Some c) escaped cs else c # unquote None escaped cs)"

text \<open>\<open>re.sub(r"//[^\n]*", "", s)\<close>\<close>

function drop_comments :: "pystr \<Rightarrow> pystr" where
  "drop_comments s =
     (case s of
        [] \<Rightarrow> []
      | c # cs \<Rightarrow> if prefix [47, 47] s then drop_comments (dropWhile (\<lambda>x. x \<noteq> 10) cs) else c # drop_comments cs)"
  by pat_completeness auto
termination
  by (relation "measure length") (auto simp: less_Suc_eq_le length_dropWhile_le)

declare drop_comments.simps [simp del]

definition name_start :: "nat \<Rightarrow> bool" where
  "name_start c \<longleftrightarrow> ascii_alpha c \<or> c = 95"

definition dotted_at :: "pystr \<Rightarrow> bool" where
  "dotted_at s =
     (case s of
        [] \<Rightarrow> False
      | c # cs \<Rightarrow> name_start c \<and>
          (case dropWhile name_char cs of d # e # _ \<Rightarrow> d = 46 \<and> name_start e | _ \<Rightarrow> False))"

text \<open>\<open>_DOTTED_FILTER_PATH_RE.search\<close>; the first argument is the character before, for the lookbehind.\<close>

fun dotted_search :: "nat option \<Rightarrow> pystr \<Rightarrow> bool" where
  "dotted_search p [] = False"
| "dotted_search p (c # cs) \<longleftrightarrow>
     (case p of None \<Rightarrow> True | Some d \<Rightarrow> \<not> (name_char d \<or> d = 64 \<or> d = 46)) \<and> dotted_at (c # cs) \<or> dotted_search (Some c) cs"

definition filter_needs_relation_index :: "pystr \<Rightarrow> bool" where
  "filter_needs_relation_index filter_expression =
     (let expression = drop_comments (unquote None False filter_expression)
      in sublist (lit ''@collection.'') expression \<or> dotted_search None expression)"

section \<open>Compiling a filter for a collection\<close>

text \<open>
  What the service is given: the parser, the loader's lookups, the macros \<open>_MACRO_RE.findall\<close> finds in a text in the
  order the set of them is iterated, the rows of \<open>_collections\<close>, and the database.  The database answers the
  \<open>n\<close>-th attempt to run a statement with its parameters; \<open>NotSupported\<close> is the error of a stale prepared statement.
\<close>

datatype db_answer = Rows "pydict list" | NotSupported | DbFailed

record query_env =
  qe_store :: store_env
  qe_engine :: nat
  qe_parse :: "pystr \<Rightarrow> ftree option"
  qe_resolve :: "pyval \<Rightarrow> coll option"
  qe_fetch :: "pystr \<Rightarrow> pystr \<Rightarrow> pydict option"
  qe_macros :: "pystr \<Rightarrow> (macro_source \<times> pystr) list"
  qe_collections :: "(rcoll \<times> pystr) list option"
  qe_sql :: "nat \<Rightarrow> pystr \<Rightarrow> pydict \<Rightarrow> db_answer"
  qe_repr_steps :: "traversal_step list \<Rightarrow> pystr"
  qe_repr_cond :: "cond \<Rightarrow> pystr"

abbreviation "qe_rt q \<equiv> se_rt (qe_store q)"

definition as_coll :: "rcoll \<Rightarrow> coll" where
  "as_coll c = \<lparr>co_id = rl_id c, co_name = rl_name c, co_type = rl_type c, co_schema = rl_schema c\<rparr>"

definition build_filter_resolvers ::
  "query_env \<Rightarrow> rcoll \<Rightarrow> pystr \<Rightarrow> index_cache \<Rightarrow> (pyexn + pyval \<times> pyval) \<times> index_cache" where
  "build_filter_resolvers q c filter_expression cache =
     (case build_relation_index_from_collections (qe_rt q) [c] of
        Inl e \<Rightarrow> (Inl e, cache)
      | Inr own \<Rightarrow>
          (case (if filter_needs_relation_index filter_expression
                 then (case qe_collections q of
                         None \<Rightarrow> (Inl DatabaseError, cache)
                       | Some rows \<Rightarrow> build_relation_index (qe_rt q) (qe_engine q) rows cache)
                 else (Inr own, cache)) of
             (Inl e, cache') \<Rightarrow> (Inl e, cache')
           | (Inr rels, cache') \<Rightarrow>
               (Inr (rels, if sublist (lit ''@collection.'') filter_expression then rels else PNone), cache')))"

text \<open>\<open>resolve_request_macros\<close> writes \<open>request_context["resolved_macros"]\<close> in place.\<close>

definition resolve_macros :: "query_env \<Rightarrow> pystr \<Rightarrow> pydict option \<Rightarrow> rcoll \<Rightarrow> pyexn + pydict option" where
  "resolve_macros q filter_str ctx c =
     (case ctx of
        None \<Rightarrow> Inr None
      | Some d \<Rightarrow>
          if filter_str = [] \<or> \<not> sublist (lit ''@request.'') filter_str \<or> qe_macros q filter_str = [] then Inr (Some d)
          else (case dict_get_or d (lit ''resolved_macros'') (PDict []) of
                  PDict resolved \<Rightarrow>
                    bindE (resolve_request_macros (qe_rt q) (qe_resolve q) (qe_fetch q) (Some (as_coll c)) (qe_macros q filter_str)
                             \<lparr>rc_auth = dict_get d (lit ''auth''), rc_data = dict_get d (lit ''data''), rc_resolved = resolved\<rparr>)
                      (\<lambda>r. Inr (Some (dict_put d (lit ''resolved_macros'') (PDict (rc_resolved r)))))
                | _ \<Rightarrow> Inl TypeError))"

definition query_filter_env :: "query_env \<Rightarrow> pydict option \<Rightarrow> pyval \<times> pyval \<Rightarrow> pystr \<Rightarrow> filter_env" where
  "query_filter_env q ctx resolvers tbl =
     \<lparr>fe_rt = qe_rt q, fe_context = (case ctx of None \<Rightarrow> [] | Some d \<Rightarrow> d), fe_relations = fst resolvers,
      fe_collections = snd resolvers, fe_table = Some tbl, fe_repr_steps = qe_repr_steps q, fe_repr_cond = qe_repr_cond q\<rparr>"

text \<open>The resolvers, the macros and the parser, in the order in which both callers use them.\<close>

definition compile_filter ::
  "query_env \<Rightarrow> rcoll \<Rightarrow> pystr \<Rightarrow> pydict option \<Rightarrow> index_cache \<Rightarrow> (pyexn + (pystr \<times> pydict) \<times> pydict option) \<times> index_cache" where
  "compile_filter q c filter_str ctx cache =
     (case build_filter_resolvers q c filter_str cache of
        (Inl e, cache') \<Rightarrow> (Inl e, cache')
      | (Inr resolvers, cache') \<Rightarrow>
          (bindE (resolve_macros q filter_str ctx c) (\<lambda>ctx'.
           bindE (parse_filter (qe_parse q) (query_filter_env q ctx' resolvers (rl_name c)) filter_str) (\<lambda>w. Inr (w, ctx'))),
           cache'))"

section \<open>Listing\<close>

definition strip_quotes :: "pystr \<Rightarrow> pystr" where
  "strip_quotes s = rev (dropWhile (\<lambda>c. c = 34) (rev (dropWhile (\<lambda>c. c = 34) s)))"

definition field_names :: "rcoll \<Rightarrow> pystr list" where
  "field_names c = map fd_name (rl_fields c)"

definition valid_sort_fields :: "rcoll \<Rightarrow> pystr list" where
  "valid_sort_fields c = map lit [''id'', ''created'', ''updated''] @ field_names c"

definition bad_sort_part :: "rcoll \<Rightarrow> pystr \<Rightarrow> bool" where
  "bad_sort_part c col_expr \<longleftrightarrow>
     (let col_name = strip_quotes col_expr
      in col_name \<notin> set (valid_sort_fields c) \<and> \<not> suffix (lit ''()'') col_expr \<and> col_name \<noteq> lit ''ctid'')"

definition default_order :: "query_env \<Rightarrow> rcoll \<Rightarrow> pystr" where
  "default_order q c =
     (if collection_kind (qe_store q) c = lit ''view'' \<and> lit ''created'' \<notin> set (field_names c) then lit ''1''
      else dq (lit ''created'') @ lit '' DESC'')"

definition order_by :: "query_env \<Rightarrow> rcoll \<Rightarrow> pystr \<Rightarrow> pyexn + pystr" where
  "order_by q c sort_str =
     (if sort_str = [] then Inr (default_order q c)
      else bindE (parse_sort sort_str) (\<lambda>parts.
        if parts = [] then Inr (default_order q c)
        else if list_ex (\<lambda>(col, d). bad_sort_part c col) parts then Inl ValueError
        else Inr (join_with (lit '', '') (map (\<lambda>(col, d). col @ [32] @ d) parts))))"

definition clamp_per_page :: "int \<Rightarrow> int" where
  "clamp_per_page per_page = min 500 (if per_page \<le> 0 then 30 else per_page)"

definition clamp_page :: "int \<Rightarrow> int" where
  "clamp_page page = max 1 page"

text \<open>Two attempts; the second is made only after \<open>NotSupportedError\<close>, and then that error is raised again.\<close>

definition with_retry :: "(nat \<Rightarrow> db_answer) \<Rightarrow> pyexn + pydict list" where
  "with_retry run =
     (case run 0 of
        Rows rows \<Rightarrow> Inr rows
      | DbFailed \<Rightarrow> Inl DatabaseError
      | NotSupported \<Rightarrow> (case run 1 of Rows rows \<Rightarrow> Inr rows | _ \<Rightarrow> Inl DatabaseError))"

definition count_sql :: "pystr \<Rightarrow> pystr \<Rightarrow> pystr" where
  "count_sql tbl where_sql = lit ''SELECT COUNT(*) AS cnt FROM '' @ dq tbl @ lit '' WHERE '' @ where_sql"

definition select_sql :: "pystr \<Rightarrow> pystr \<Rightarrow> pystr \<Rightarrow> pystr" where
  "select_sql tbl where_sql order_sql =
     lit ''SELECT * FROM '' @ dq tbl @ lit '' WHERE '' @ where_sql @ lit '' ORDER BY '' @ order_sql @ lit '' LIMIT :_limit OFFSET :_offset''"

definition total_count :: "query_env \<Rightarrow> rcoll \<Rightarrow> pystr \<Rightarrow> pydict \<Rightarrow> bool \<Rightarrow> pyexn + int" where
  "total_count q c where_sql params skip_total =
     (if skip_total then Inr (- 1)
      else bindE (with_retry (\<lambda>n. qe_sql q n (count_sql (rl_name c) where_sql) params)) (\<lambda>rows.
        case rows of
          [] \<Rightarrow> Inr 0
        | row # _ \<Rightarrow> (case map_of row (lit ''cnt'') of Some (PInt n) \<Rightarrow> Inr n | Some _ \<Rightarrow> Inl TypeError | None \<Rightarrow> Inl KeyError)))"

definition page_params :: "pydict \<Rightarrow> int \<Rightarrow> int \<Rightarrow> pydict" where
  "page_params params page per_page =
     dict_put (dict_put params (lit ''_limit'') (PInt per_page)) (lit ''_offset'') (PInt ((page - 1) * per_page))"

definition read_row :: "query_env \<Rightarrow> rcoll \<Rightarrow> pystr \<Rightarrow> pydict option \<Rightarrow> pydict \<Rightarrow> pyexn + pydict" where
  "read_row q c fs ctx row =
     build_record_response (qe_rt q) (read_options (qe_store q) c fs ctx)
       (if rl_name c = lit ''_superusers'' then without SUPERUSERS_HIDDEN_COLUMNS row else row)
       (rl_id c) (rl_name c) (rl_schema c)"

text \<open>From the clauses to the response.\<close>

definition run_list ::
  "query_env \<Rightarrow> rcoll \<Rightarrow> int \<Rightarrow> int \<Rightarrow> pystr \<Rightarrow> bool \<Rightarrow> pydict option \<Rightarrow> pystr \<Rightarrow> pydict \<Rightarrow> pystr \<Rightarrow> pyexn + pydict" where
  "run_list q c page per_page fs skip_total ctx where_sql params order_sql =
     bindE (total_count q c where_sql params skip_total) (\<lambda>total.
     bindE (with_retry (\<lambda>n. qe_sql q n (select_sql (rl_name c) where_sql order_sql) (page_params params page per_page))) (\<lambda>rows.
     bindE (mapE (read_row q c fs ctx) rows) (\<lambda>items.
       Inr (build_list_response (map PDict items) page per_page total))))"

definition where_clause ::
  "query_env \<Rightarrow> rcoll \<Rightarrow> pystr \<Rightarrow> pydict option \<Rightarrow> index_cache \<Rightarrow> (pyexn + (pystr \<times> pydict) \<times> pydict option) \<times> index_cache" where
  "where_clause q c filter_str ctx cache =
     (if filter_str = [] then (Inr ((lit ''1=1'', []), ctx), cache) else compile_filter q c filter_str ctx cache)"

definition list_records ::
  "query_env \<Rightarrow> rcoll \<Rightarrow> int \<Rightarrow> int \<Rightarrow> pystr \<Rightarrow> pystr \<Rightarrow> pystr \<Rightarrow> bool \<Rightarrow> pydict option \<Rightarrow> index_cache
    \<Rightarrow> (pyexn + pydict \<times> pydict option) \<times> index_cache" where
  "list_records q c page per_page sort_str filter_str fs skip_total ctx cache =
     (case where_clause q c filter_str ctx cache of
        (Inl e, cache') \<Rightarrow> (Inl e, cache')
      | (Inr ((where_sql, params), ctx'), cache') \<Rightarrow>
          (bindE (order_by q c sort_str) (\<lambda>order_sql.
           bindE (run_list q c (clamp_page page) (clamp_per_page per_page) fs skip_total ctx' where_sql params order_sql) (\<lambda>r.
             Inr (r, ctx'))), cache'))"

section \<open>The rule of one record\<close>

definition rule_sql :: "pystr \<Rightarrow> pystr \<Rightarrow> pystr" where
  "rule_sql tbl where_sql =
     lit ''SELECT 1 FROM '' @ dq tbl @ lit '' WHERE '' @ dq (lit ''id'') @ lit '' = :_rule_rec_id AND '' @
     (lit ''('' @ where_sql @ lit '')'') @ lit '' LIMIT 1''"

definition check_record_rule ::
  "query_env \<Rightarrow> rcoll \<Rightarrow> pystr \<Rightarrow> pystr \<Rightarrow> pydict option \<Rightarrow> index_cache \<Rightarrow> (pyexn + bool \<times> pydict option) \<times> index_cache" where
  "check_record_rule q c record_id rule_filter ctx cache =
     (case compile_filter q c rule_filter ctx cache of
        (Inl e, cache') \<Rightarrow> (Inl e, cache')
      | (Inr ((where_sql, params), ctx'), cache') \<Rightarrow>
          (case qe_sql q 0 (rule_sql (rl_name c) where_sql) (dict_put params (lit ''_rule_rec_id'') (PStr record_id)) of
             Rows rows \<Rightarrow> (Inr (rows \<noteq> [], ctx'), cache')
           | _ \<Rightarrow> (Inl DatabaseError, cache')))"

section \<open>The list and view handlers\<close>

text \<open>
  A response is a JSON body with status 200 or an error body; \<open>None\<close> as its message is the text of the exception.
  \<open>Inl\<close> is an exception that leaves the handler.
\<close>

datatype api_response = JsonBody pyval | ErrorBody nat "string option"

record api_request =
  hr_method :: pystr
  hr_headers :: "(pystr \<times> pystr) list"
  hr_query :: pydict

definition admin_token :: "pydict \<Rightarrow> bool" where
  "admin_token p \<longleftrightarrow> dict_get p (lit ''type'') = PStr (lit ''admin'') \<or>
     dict_get p (lit ''type'') = PStr (lit ''authRecord'') \<and> dict_get p (lit ''collectionName'') = PStr (lit ''_superusers'')"

definition claim :: "pydict \<Rightarrow> string \<Rightarrow> pyval" where
  "claim p k = dict_get_or p (lit k) (PStr [])"

definition rule_auth_context :: "pydict option \<Rightarrow> pydict option" where
  "rule_auth_context token_payload =
     (case token_payload of
        None \<Rightarrow> None
      | Some p \<Rightarrow>
          if admin_token p then
            Some [(lit ''is_admin'', PBool True), (lit ''@request.auth.id'', claim p ''id''), (lit ''@request.auth.email'', claim p ''email'')]
          else
            Some [(lit ''is_admin'', PBool False), (lit ''@request.auth.id'', claim p ''id''),
                  (lit ''@request.auth.collectionId'', claim p ''collectionId''),
                  (lit ''@request.auth.collectionName'', claim p ''collectionName''), (lit ''@request.auth.type'', claim p ''type'')])"

definition headers_info :: "py_runtime \<Rightarrow> (pystr \<times> pystr) list \<Rightarrow> pydict" where
  "headers_info rt hs =
     foldl (\<lambda>d (k, v). let lower = rt_lower rt k
       in dict_put (dict_put d lower (PStr v)) (map (\<lambda>c. if c = 45 then 95 else c) lower) (PStr v)) [] hs"

definition prepare_rule_context ::
  "py_runtime \<Rightarrow> api_request \<Rightarrow> pydict option \<Rightarrow> pydict \<Rightarrow> pydict option \<times> pydict" where
  "prepare_rule_context rt req token_payload data =
     (rule_auth_context token_payload,
      [(lit ''context'', PStr (lit ''default'')), (lit ''method'', PStr (rt_upper rt (hr_method req))),
       (lit ''headers'', PDict (headers_info rt (hr_headers req))),
       (lit ''auth'', PDict (case token_payload of
          None \<Rightarrow> []
        | Some p \<Rightarrow> if p = [] then [] else map (\<lambda>k. (lit k, claim p k)) [''id'', ''email'', ''type'', ''collectionId'', ''collectionName''])),
       (lit ''data'', PDict data), (lit ''query'', PDict (hr_query req))])"

text \<open>\<open>tree.iter_subtrees()\<close>: breadth first over the reversed children, then reversed.\<close>

datatype tree_node = FNode ftree | ONode operand

fun tree_children :: "tree_node \<Rightarrow> tree_node list" where
  "tree_children (FNode (OrExpr ts)) = map FNode ts"
| "tree_children (FNode (AndExpr ts)) = map FNode ts"
| "tree_children (FNode (Comparison l p r)) = [ONode l, ONode r]"
| "tree_children (ONode x) = []"

fun tree_weight :: "ftree \<Rightarrow> nat" where
  "tree_weight (OrExpr ts) = Suc (sum_list (map tree_weight ts))"
| "tree_weight (AndExpr ts) = Suc (sum_list (map tree_weight ts))"
| "tree_weight (Comparison l p r) = 3"

definition node_weight :: "tree_node \<Rightarrow> nat" where
  "node_weight n = (case n of FNode t \<Rightarrow> tree_weight t | ONode x \<Rightarrow> 1)"

lemma children_weight: "sum_list (map node_weight (tree_children n)) < node_weight n"
  by (cases n rule: tree_children.cases) (simp_all add: node_weight_def o_def)

function subtree_queue :: "tree_node list \<Rightarrow> tree_node list" where
  "subtree_queue [] = []"
| "subtree_queue (n # ns) = n # subtree_queue (ns @ rev (tree_children n))"
  by pat_completeness auto
termination
  by (relation "measure (\<lambda>ns. sum_list (map node_weight ns))") (simp_all add: children_weight rev_map[symmetric])

definition guard_node :: "tree_node \<Rightarrow> filter_node" where
  "guard_node n = (case n of ONode (OFieldPath ws) \<Rightarrow> FieldPath ws | ONode (OMacro m) \<Rightarrow> MacroNode m | _ \<Rightarrow> OtherNode)"

definition iter_subtrees :: "ftree \<Rightarrow> filter_node list" where
  "iter_subtrees t = rev (map guard_node (subtree_queue [FNode t]))"

definition query_guard :: "query_env \<Rightarrow> rcoll \<Rightarrow> pystr \<Rightarrow> pystr \<Rightarrow> pydict option \<Rightarrow> pyexn + unit" where
  "query_guard q c filter_str sort_str auth_ctx =
     (case assert_client_query_allowed (\<lambda>s. map_option iter_subtrees (qe_parse q s)) (qe_resolve q) (as_coll c)
             filter_str sort_str (is_admin auth_ctx) of
        Inr _ \<Rightarrow> Inr ()
      | Inl (GuardRaised e) \<Rightarrow> Inl e
      | Inl _ \<Rightarrow> Inl ValueError)"

definition effective_filter :: "rule_decision \<Rightarrow> pystr \<Rightarrow> pystr" where
  "effective_filter decision f =
     (case decision of FilterBy r \<Rightarrow> if f \<noteq> [] then conjoin r f else r | _ \<Rightarrow> f)"

record list_params =
  lp_page :: int
  lp_per_page :: int
  lp_sort :: pystr
  lp_filter :: pystr
  lp_expand :: pystr
  lp_fields :: pystr
  lp_skip_total :: bool

definition body_items :: "pydict \<Rightarrow> pydict list" where
  "body_items d = concat (map (\<lambda>v. case v of PDict x \<Rightarrow> [x] | _ \<Rightarrow> []) (as_items (dict_get d (lit ''items''))))"

text \<open>\<open>expand_records\<close> changes the items of the response in place.\<close>

definition expand_items ::
  "query_env \<Rightarrow> store \<Rightarrow> rcoll \<Rightarrow> pydict \<Rightarrow> pydict list \<Rightarrow> pystr \<Rightarrow> pyexn + pydict list" where
  "expand_items q st c ctx items expand_str =
     (if expand_str = [] \<or> items = [] then Inr items
      else (case qe_collections q of
              None \<Rightarrow> Inl DatabaseError
            | Some rows \<Rightarrow>
                expand_records (qe_rt q) (st_tables st) (map (\<lambda>(c, u). as_coll c) rows) (Some ctx) (as_coll c) items expand_str))"

definition value_error_400 :: "pyexn \<Rightarrow> pyexn + api_response" where
  "value_error_400 e = (if e = ValueError then Inr (ErrorBody 400 None) else Inl e)"

definition api_list_records ::
  "query_env \<Rightarrow> store \<Rightarrow> rcoll \<Rightarrow> pystr option \<Rightarrow> api_request \<Rightarrow> pydict option \<Rightarrow> list_params \<Rightarrow> index_cache
    \<Rightarrow> (pyexn + api_response) \<times> index_cache" where
  "api_list_records q st c list_rule req auth lp cache =
     (case prepare_rule_context (qe_rt q) req auth [] of
        (auth_ctx, ctx) \<Rightarrow>
          let decision = check_rule list_rule auth_ctx
          in if decision = Deny then (Inr (ErrorBody 403 (Some ''Only superusers can perform this action.'')), cache)
             else case query_guard q c (lp_filter lp) (lp_sort lp) auth_ctx of
                    Inl e \<Rightarrow> (value_error_400 e, cache)
                  | Inr _ \<Rightarrow>
                      (case list_records q c (if lp_page lp = 0 then 1 else lp_page lp) (if lp_per_page lp = 0 then 30 else lp_per_page lp)
                              (lp_sort lp) (effective_filter decision (lp_filter lp)) (lp_fields lp) (lp_skip_total lp) (Some ctx) cache of
                         (Inl e, cache') \<Rightarrow> (value_error_400 e, cache')
                       | (Inr (result, ctx'), cache') \<Rightarrow>
                           (bindE (expand_items q st c (case ctx' of None \<Rightarrow> ctx | Some d \<Rightarrow> d) (body_items result) (lp_expand lp)) (\<lambda>items.
                             Inr (JsonBody (PDict (dict_put result (lit ''items'') (PList (map PDict items)))))), cache')))"

definition not_found :: api_response where
  "not_found = ErrorBody 404 (Some ''The requested resource wasn't found.'')"

definition view_body ::
  "query_env \<Rightarrow> store \<Rightarrow> rcoll \<Rightarrow> pydict \<Rightarrow> pydict \<Rightarrow> pystr \<Rightarrow> pyexn + api_response" where
  "view_body q st c ctx rcd expand_str =
     bindE (expand_items q st c ctx (if rcd = [] then [] else [rcd]) expand_str) (\<lambda>rs. Inr (JsonBody (PDict (case rs of [] \<Rightarrow> rcd | r # _ \<Rightarrow> r))))"

definition api_get_record ::
  "query_env \<Rightarrow> store \<Rightarrow> rcoll \<Rightarrow> pystr option \<Rightarrow> api_request \<Rightarrow> pydict option \<Rightarrow> pystr \<Rightarrow> pystr \<Rightarrow> pystr \<Rightarrow> index_cache
    \<Rightarrow> (pyexn + api_response) \<times> index_cache" where
  "api_get_record q st c view_rule req auth record_id fs expand_str cache =
     (case prepare_rule_context (qe_rt q) req auth [] of
        (auth_ctx, ctx) \<Rightarrow>
          let decision = check_rule view_rule auth_ctx
          in if decision = Deny then (Inr (ErrorBody 403 (Some ''Only superusers can perform this action.'')), cache)
             else case get_record (qe_store q) c record_id fs (Some ctx) st of
                    Inl e \<Rightarrow> (Inl e, cache)
                  | Inr None \<Rightarrow> (Inr not_found, cache)
                  | Inr (Some rcd) \<Rightarrow>
                      (case decision of
                         FilterBy r \<Rightarrow>
                           (case check_record_rule q c record_id r (Some ctx) cache of
                              (Inl e, cache') \<Rightarrow> (Inl e, cache')
                            | (Inr (matches, ctx'), cache') \<Rightarrow>
                                (if matches then view_body q st c (case ctx' of None \<Rightarrow> ctx | Some d \<Rightarrow> d) rcd expand_str
                                 else Inr not_found, cache'))
                       | _ \<Rightarrow> (view_body q st c ctx rcd expand_str, cache)))"

end
