(* ===== verification/Query_Facts.thy ===== *)
theory Query_Facts
  imports Record_Query Filter_Facts
begin

text \<open>
  Facts about reading records: a rule and a client's filter are both applied, the statements are lexically
  self-contained, the pages of a list tile it, and a view answers only for a record its rule allows.
\<close>

section \<open>A rule that is combined with a client's filter\<close>

lemma or_group_text: "transform_tree env (OrExpr us) st = Inr (x, st') \<Longrightarrow> \<exists>s. x = CStr s"
  by (auto simp: bindS_def retS_def bindE_Inr_iff)

lemma and_of_two:
  "transform_tree env (OrExpr [AndExpr [x, y]]) st = Inr (z, st2) \<longleftrightarrow>
   (\<exists>cx cy st1. transform_tree env x st = Inr (cx, st1) \<and> transform_tree env y st1 = Inr (cy, st2) \<and> z = CStr (and_expr [cx, cy]))"
  by (auto simp: bindS_def retS_def bindE_Inr_iff or_expr_def)

lemma and_of_texts: "and_expr [CStr a, CStr b] = lit ''('' @ a @ lit '' AND '' @ b @ lit '')''"
  by (simp add: and_expr_def and_parts_def)

lemma guard_parses:
  assumes "query_guard q c f sort_str auth_ctx = Inr u" "f \<noteq> []"
  shows "\<exists>t. qe_parse q f = Some t"
  using assms by (auto simp: query_guard_def assert_client_query_allowed_def client_references_def split: sum.splits option.splits guard_error.splits)

lemma parse_filter_nonblank:
  assumes "parse_filter parse env s = Inr (sql, params)" "s \<noteq> []" "py_strip s \<noteq> []"
  shows "\<exists>t x st. parse s = Some t \<and> transform_tree env t init_fstate = Inr (x, st) \<and> params = fs_params st \<and>
    sql = (case x of CStr s \<Rightarrow> s | _ \<Rightarrow> fe_repr_cond env x)"
  using assms by (auto simp: parse_filter_def bindE_Inr_iff split: option.splits)

lemma conjoin_nonblank: "conjoin r f \<noteq> []" "py_strip (conjoin r f) \<noteq> []"
proof -
  have "\<not> is_space 40" "\<not> is_space 41" by (simp_all add: is_space_def)
  then show "py_strip (conjoin r f) \<noteq> []" by (simp add: conjoin_codes py_strip_def)
qed (simp add: conjoin_codes)

text \<open>
  The operands of a compiled conjunction: a group in parentheses, one \<open>EXISTS\<close> subquery, or the text of one comparison.
\<close>

inductive and_operand :: "filter_env \<Rightarrow> pystr \<Rightarrow> bool" for env where
  operand_group: "self_contained y \<Longrightarrow> and_operand env (lit ''('' @ y @ lit '')'')"
| operand_exists: "safe_ident t \<Longrightarrow> self_contained y \<Longrightarrow> and_operand env (exists_sql t y)"
| operand_comparison: "transform_tree env (Comparison l op r) st = Inr (CStr x, st') \<Longrightarrow> and_operand env x"

definition cond_operand :: "filter_env \<Rightarrow> cond \<Rightarrow> bool" where
  "cond_operand env c \<longleftrightarrow> cond_ok c \<and> (\<forall>x. c = CStr x \<longrightarrow> and_operand env x)"

lemma or_part_operand: "cond_operand env c \<Longrightarrow> and_operand env (or_part c)"
proof (cases c)
  case (RelationCondition k t j w)
  assume "cond_operand env c"
  with RelationCondition have "self_contained (join_with (lit '' AND '') [j, w])" "safe_ident t"
    by (auto intro!: join_ok simp: cond_operand_def piece_simps)
  with RelationCondition show ?thesis by (simp add: operand_exists)
qed (auto simp: cond_operand_def intro: operand_exists)

lemma and_groups_regular:
  "and_groups items colls rels regular = (cs, rs, ps) \<Longrightarrow> list_all (cond_operand env) items \<Longrightarrow> list_all (and_operand env) regular \<Longrightarrow>
   list_all (and_operand env) ps"
proof (induction items arbitrary: colls rels regular)
  case (Cons item items)
  note prems = Cons.prems
  show ?case
  proof (cases item)
    case (CStr x)
    with prems have "list_all (and_operand env) (regular @ [x])" by (simp add: cond_operand_def)
    with prems CStr show ?thesis by (intro Cons.IH[of colls rels "regular @ [x]"]) simp_all
  next
    case (CollectionCondition a b c)
    with prems show ?thesis by (intro Cons.IH[of "group_append b item colls" rels regular]) simp_all
  next
    case (RelationCondition a b c d)
    with prems show ?thesis by (intro Cons.IH[of colls "group_append a item rels" regular]) simp_all
  qed
qed simp

lemma and_parts_operands: "list_all (cond_operand env) items \<Longrightarrow> list_all (and_operand env) (and_parts items)"
proof -
  assume a: "list_all (cond_operand env) items"
  then have ok: "list_all cond_ok items" by (auto simp: list_all_iff cond_operand_def)
  obtain cs rs ps where g: "and_groups items [] [] [] = (cs, rs, ps)" by (metis prod_cases3)
  from and_groups_ok[OF g ok] have groups: "list_all (\<lambda>(k, xs). xs \<noteq> [] \<and> list_all coll_cond xs) cs"
    "list_all (\<lambda>(k, xs). xs \<noteq> [] \<and> list_all rel_cond xs) rs" by simp_all
  have coll: "and_operand env (collection_group_sql xs)" if "xs \<noteq> []" "list_all coll_cond xs" for xs
    unfolding collection_group_sql_def using that
    by (intro operand_exists join_ok; cases xs) (auto simp: coll_cond_def list_all_iff piece_simps)
  have rel: "and_operand env (relation_group_sql xs)" if "xs \<noteq> []" "list_all rel_cond xs" for xs
    unfolding relation_group_sql_def using that
    by (intro operand_exists join_ok; cases xs) (auto simp: rel_cond_def list_all_iff piece_simps)
  show ?thesis using and_groups_regular[OF g a] groups coll rel by (fastforce simp: and_parts_def g list_all_iff)
qed

lemma bracketed_operand:
  assumes "self_contained sep" "list_all self_contained ps" "list_all (and_operand env) ps"
  shows "and_operand env (case ps of [s] \<Rightarrow> s | parts \<Rightarrow> lit ''('' @ join_with sep parts @ lit '')'')"
  using assms operand_group[OF join_ok[OF assms(1,2)]] by (auto split: list.split)

lemma transform_operand:
  assumes "float_text (fe_rt env)"
  shows "yields (cond_operand env) (transform_tree env t)"
proof (induction t)
  case (Comparison l op r)
  show ?case using transform_ok[OF assms, of "Comparison l op r"]
    unfolding yields_def cond_operand_def by (metis operand_comparison)
next
  case (AndExpr ts)
  have "and_operand env (and_expr cs) \<and> self_contained (and_expr cs)" if "list_all (cond_operand env) cs" for cs
  proof -
    have ok: "list_all cond_ok cs" using that by (auto simp: list_all_iff cond_operand_def)
    have "self_contained (lit '' AND '')" by (simp add: piece_simps)
    from bracketed_operand[OF this and_parts_ok[OF ok] and_parts_operands[OF that]] and_or_ok[OF ok] show ?thesis
      by (simp only: and_expr_def)
  qed
  with AndExpr show ?case by (auto intro!: yields_bind[OF yields_map] yields_ret simp: cond_operand_def[of env "CStr _"])
next
  case (OrExpr ts)
  have "and_operand env (or_expr cs) \<and> self_contained (or_expr cs)" if "list_all (cond_operand env) cs" for cs
  proof -
    have ok: "list_all cond_ok cs" using that by (auto simp: list_all_iff cond_operand_def)
    have sep: "self_contained (lit '' OR '')" by (simp add: piece_simps)
    have "list_all self_contained (map or_part cs)" "list_all (and_operand env) (map or_part cs)"
      using ok that by (auto simp: list_all_iff intro: or_part_ok or_part_operand)
    from bracketed_operand[OF sep this] and_or_ok[OF ok] show ?thesis by (simp only: or_expr_def)
  qed
  with OrExpr show ?case by (auto intro!: yields_bind[OF yields_map] yields_ret simp: cond_operand_def[of env "CStr _"])
qed

text \<open>
  \<open>sat t w p row\<close>: the condition \<open>w\<close> is true of a row of table \<open>t\<close> under the parameters \<open>p\<close>.  What is relied on of
  PostgreSQL: a \<open>SELECT\<close> returns rows of which its condition is true, and a conjunction in parentheses is true only if its
  first operand is, \<open>AND\<close> joining operands that are groups, subqueries or single comparisons.
\<close>

definition where_selects :: "query_env \<Rightarrow> (pystr \<Rightarrow> pystr \<Rightarrow> pydict \<Rightarrow> pydict \<Rightarrow> bool) \<Rightarrow> bool" where
  "where_selects q sat \<longleftrightarrow>
     (\<forall>n t w ord p rows. self_contained w \<longrightarrow> self_contained ord \<longrightarrow> qe_sql q n (select_sql t w ord) p = Rows rows \<longrightarrow>
        (\<forall>row \<in> set rows. sat t w p row))"

definition and_narrows :: "(pystr \<Rightarrow> pystr \<Rightarrow> pydict \<Rightarrow> pydict \<Rightarrow> bool) \<Rightarrow> bool" where
  "and_narrows sat \<longleftrightarrow>
     (\<forall>env t a b p row. and_operand env a \<longrightarrow> and_operand env b \<longrightarrow> sat t (lit ''('' @ a @ lit '' AND '' @ b @ lit '')'') p row \<longrightarrow>
        sat t a p row)"

text \<open>
  The rule's own condition: \<open>a\<close> is compiled from a tree of the text \<open>r\<close> alone, before anything of the filter, and the
  statement binds the rule's parameters to the rule's values.
\<close>

definition rule_condition :: "filter_env \<Rightarrow> pystr \<Rightarrow> pystr \<Rightarrow> pydict \<Rightarrow> bool" where
  "rule_condition env r a bound \<longleftrightarrow>
     (\<exists>tr st. sentence r tr \<and> transform_tree env tr init_fstate = Inr (CStr a, st) \<and>
        (\<forall>k v. map_of (fs_params st) k = Some v \<longrightarrow> map_of bound k = Some v))"

lemma compile_conjoined:
  assumes parser: "\<And>s t. qe_parse q s = Some t \<Longrightarrow> sentence s t" and float: "float_text (qe_rt q)"
    and rule: "sentence r r0" "closed_text r" "sentence f f0"
    and parsed: "parse_filter (qe_parse q) env (conjoin r f) = Inr (w, params)" and env: "fe_rt env = qe_rt q"
  shows "\<exists>a b. w = lit ''('' @ a @ lit '' AND '' @ b @ lit '')'' \<and> and_operand env a \<and> and_operand env b \<and>
    rule_condition env r a (page_params params page per_page)"
proof -
  from parse_filter_nonblank[OF parsed conjoin_nonblank] obtain t x st where
    t: "qe_parse q (conjoin r f) = Some t" "transform_tree env t init_fstate = Inr (x, st)"
      "params = fs_params st" "w = (case x of CStr s \<Rightarrow> s | _ \<Rightarrow> fe_repr_cond env x)" by blast
  from conjoined_sentence[OF rule(1,3,2) parser[OF t(1)]] obtain tr tf where
    s: "t = OrExpr [AndExpr [tr, tf]]" "sentence r tr" "sentence f tf" by blast
  from t(2) obtain cx cy st1 where
    c: "transform_tree env tr init_fstate = Inr (cx, st1)" "transform_tree env tf st1 = Inr (cy, st)" "x = CStr (and_expr [cx, cy])"
    unfolding s(1) and_of_two by blast
  from s(2,3) obtain us vs where "tr = OrExpr us" "tf = OrExpr vs" by (auto simp: sentence_def)
  with c(1,2) obtain a b where ab: "cx = CStr a" "cy = CStr b" using or_group_text by metis
  have op: "and_operand env a" "and_operand env b"
    using transform_operand[of env] c(1,2) float env unfolding yields_def cond_operand_def ab by metis+
  from allocates_transform[of env tf] c(2) obtain vs where "fs_params st = fs_params st1 @ vs" unfolding allocates_def by blast
  moreover have "k \<noteq> lit ''_limit'' \<and> k \<noteq> lit ''_offset''" if "map_of (fs_params st1) k = Some v" for k v
  proof -
    from allocates_transform[of env tr] c(1) obtain ws where "fs_params st1 = zip (param_names 0 (length ws)) ws"
      unfolding allocates_def by (fastforce simp: init_fstate_def)
    with that obtain i where "k = param_name i"
      by (auto dest!: map_of_SomeD set_zip_leftD simp: param_names_def simp del: upt_Suc)
    then show ?thesis by (simp add: param_name_def lit_def)
  qed
  ultimately have "rule_condition env r a (page_params params page per_page)"
    using s(2) c(1) t(3) unfolding rule_condition_def ab page_params_def by (fastforce simp: map_add_def)
  moreover have "w = lit ''('' @ a @ lit '' AND '' @ b @ lit '')''" using t(4) c(3) by (simp add: ab and_of_texts)
  ultimately show ?thesis using op by blast
qed

section \<open>Clauses\<close>

lemma suffix_of_order:
  assumes "parse_sort_part p = Inr (col, d)"
  shows "self_contained col \<and> self_contained ([32] @ d)"
proof -
  have "self_contained (lit ''RANDOM()'')" "self_contained (lit ''ctid'')" "self_contained ([32] @ lit ''ASC'')"
    "self_contained ([32] @ lit ''DESC'')" by (simp_all add: self_contained_def lit_def)
  moreover have "self_contained (dq s)" if "list_all sort_field_char s" "46 \<notin> set s" for s
  proof -
    have "safe_ident s" using that by (auto simp: safe_ident_def list_all_iff sort_field_char_def)
    then show ?thesis by (simp add: self_contained_def)
  qed
  moreover have "self_contained s" if "list_all sort_field_char s" for s
    using that lex_code[of s 0] by (simp add: self_contained_def sort_field_char_def[abs_def])
  ultimately show ?thesis using assms by (auto simp: parse_sort_part_def Let_def split: if_splits)
qed

lemma self_contained_join:
  "self_contained sep \<Longrightarrow> list_all self_contained ss \<Longrightarrow> self_contained (join_with sep ss)"
proof (induction sep ss rule: join_with.induct)
  case 1
  then show ?case by (simp add: self_contained_def)
qed (auto intro!: self_contained_append)

lemma order_by_self_contained:
  assumes "order_by q c sort_str = Inr order_sql"
  shows "self_contained order_sql"
proof -
  have d: "self_contained (default_order q c)" by (simp add: default_order_def self_contained_def lit_def dq_def)
  have parts: "list_all self_contained (map (\<lambda>(col, d). col @ [32] @ d) parts)" if "parse_sort sort_str = Inr parts" for parts
  proof -
    from that have "parts = [] \<or> (\<exists>ps. mapE parse_sort_part ps = Inr parts)" by (auto simp: parse_sort_def split: if_splits)
    then have "\<exists>p. parse_sort_part p = Inr x" if "x \<in> set parts" for x
      using that by (auto dest!: mapE_Inr_list_all2 simp: list_all2_conv_all_nth in_set_conv_nth) metis
    then show ?thesis by (fastforce simp: list_all_iff intro!: self_contained_append dest: suffix_of_order)
  qed
  have "self_contained (lit '', '')" by (simp add: self_contained_def lit_def)
  with assms d parts show ?thesis
    by (auto simp: order_by_def bindE_Inr_iff split: if_splits intro!: self_contained_join)
qed

lemma where_self_contained:
  assumes "\<And>s t. qe_parse q s = Some t \<Longrightarrow> sentence s t" "float_text (qe_rt q)"
    and "where_clause q c filter_str ctx cache = (Inr ((w, params), ctx'), cache')"
  shows "self_contained w"
proof (cases "filter_str = []")
  case True
  with assms(3) show ?thesis by (simp add: where_clause_def self_contained_def lit_def) (auto simp: self_contained_def)
next
  case False
  with assms(3) obtain resolvers where
    p: "parse_filter (qe_parse q) (query_filter_env q ctx' resolvers (rl_name c)) filter_str = Inr (w, params)"
    by (auto simp: where_clause_def compile_filter_def bindE_Inr_iff split: prod.splits sum.splits)
  have "\<exists>ts. t = OrExpr ts" if "qe_parse q filter_str = Some t" for t using assms(1)[OF that] by (auto simp: sentence_def)
  then show ?thesis using p assms(2) by (intro where_text[OF _ _ p]) (simp_all add: query_filter_env_def)
qed

section \<open>The rows of a filtered list\<close>

lemma query_filter_env_rt: "fe_rt (query_filter_env q ctx resolvers tbl) = qe_rt q"
  by (simp add: query_filter_env_def)

lemma with_retry_rows: "with_retry run = Inr rows \<Longrightarrow> \<exists>n. run n = Rows rows"
  by (auto simp: with_retry_def split: db_answer.splits)

lemma run_list_cases:
  assumes "run_list q c page per_page fs skip ctx w params ord = Inr result"
  obtains n rows items where "qe_sql q n (select_sql (rl_name c) w ord) (page_params params page per_page) = Rows rows"
    "mapE (read_row q c fs ctx) rows = Inr items" "body_items result = items"
proof -
  from assms obtain total rows items where r: "with_retry (\<lambda>n. qe_sql q n (select_sql (rl_name c) w ord) (page_params params page per_page)) = Inr rows"
    "mapE (read_row q c fs ctx) rows = Inr items" "result = build_list_response (map PDict items) page per_page total"
    by (auto simp: run_list_def bindE_Inr_iff)
  have "concat (map (\<lambda>v. case v of PDict x \<Rightarrow> [x] | _ \<Rightarrow> []) (map PDict items)) = items" by (induction items) simp_all
  then have "body_items result = items"
    by (simp add: r(3) body_items_def build_list_response_def dict_get_Cons as_items_def)
  with with_retry_rows[OF r(1)] r(2) that show ?thesis by blast
qed

lemma filtered_list_cases:
  assumes "api_list_records q st c rule req auth lp cache = (Inr (JsonBody body), cache')"
    and "check_rule rule (rule_auth_context auth) = FilterBy r" "lp_filter lp \<noteq> []"
  obtains w params ctx order_sql result shown where
    "query_guard q c (lp_filter lp) (lp_sort lp) (rule_auth_context auth) = Inr ()"
    "compile_filter q c (conjoin r (lp_filter lp)) (Some (snd (prepare_rule_context (qe_rt q) req auth []))) cache
       = (Inr ((w, params), Some ctx), cache')"
    "order_by q c (lp_sort lp) = Inr order_sql"
    "run_list q c (clamp_page (lp_page lp)) (clamp_per_page (lp_per_page lp)) (lp_fields lp) (lp_skip_total lp) (Some ctx) w params order_sql
       = Inr result"
    "expand_items q st c ctx (body_items result) (lp_expand lp) = Inr shown"
    "body = PDict (dict_put result (lit ''items'') (PList (map PDict shown)))"
proof -
  have clamps: "clamp_page (if lp_page lp = 0 then 1 else lp_page lp) = clamp_page (lp_page lp)"
    "clamp_per_page (if lp_per_page lp = 0 then 30 else lp_per_page lp) = clamp_per_page (lp_per_page lp)"
    by (simp_all add: clamp_page_def clamp_per_page_def)
  have e: "effective_filter (FilterBy r) (lp_filter lp) = conjoin r (lp_filter lp)" "conjoin r (lp_filter lp) \<noteq> []"
    using assms(3) conjoin_nonblank(1) by (simp_all add: effective_filter_def)
  define d where "d = snd (prepare_rule_context (qe_rt q) req auth [])"
  have prep: "prepare_rule_context (qe_rt q) req auth [] = (rule_auth_context auth, d)"
    by (simp add: d_def prepare_rule_context_def)
  from assms(1) obtain result ctx' shown where
    l: "list_records q c (if lp_page lp = 0 then 1 else lp_page lp) (if lp_per_page lp = 0 then 30 else lp_per_page lp) (lp_sort lp)
          (effective_filter (FilterBy r) (lp_filter lp)) (lp_fields lp) (lp_skip_total lp) (Some d) cache = (Inr (result, ctx'), cache')"
      "query_guard q c (lp_filter lp) (lp_sort lp) (rule_auth_context auth) = Inr ()"
      "expand_items q st c (case ctx' of None \<Rightarrow> d | Some d' \<Rightarrow> d') (body_items result) (lp_expand lp) = Inr shown"
      "body = PDict (dict_put result (lit ''items'') (PList (map PDict shown)))"
    by (auto simp: api_list_records_def prep Let_def assms(2) value_error_400_def bindE_Inr_iff split: sum.splits prod.splits if_splits)
  from l(1) obtain w params order_sql where
    c: "compile_filter q c (conjoin r (lp_filter lp)) (Some d) cache = (Inr ((w, params), ctx'), cache')"
      "order_by q c (lp_sort lp) = Inr order_sql"
      "run_list q c (clamp_page (lp_page lp)) (clamp_per_page (lp_per_page lp)) (lp_fields lp) (lp_skip_total lp) ctx' w params order_sql
        = Inr result"
    by (auto simp: list_records_def where_clause_def e clamps bindE_Inr_iff split: sum.splits prod.splits)
  from c(1) obtain ctx where "ctx' = Some ctx"
    by (auto simp: compile_filter_def resolve_macros_def bindE_Inr_iff split: prod.splits sum.splits if_splits pyval.splits)
  with l c that show ?thesis by (simp add: d_def)
qed


section \<open>Statements\<close>

lemma lex_words: "sql_lex st (lit s) = foldl (\<lambda>m c. Option.bind m (\<lambda>st. lex_step st (of_char c))) (Some st) s"
proof -
  have none: "foldl (\<lambda>m c. Option.bind m (\<lambda>st. lex_step st (of_char c))) None s = None" for s by (induction s) simp_all
  show ?thesis by (induction s arbitrary: st) (auto simp: lit_def none split: option.split)
qed

text \<open>
  C14: Whatever filter, sort and rule a list is asked for, the statements that count and select its rows are lexically
  self-contained: no quote, parenthesis or comment of the client's text reaches the rest of the statement, and the
  statement that checks a rule on one record keeps the compiled rule inside its parentheses.
\<close>

theorem read_statements_self_contained:
  assumes "\<And>s t. qe_parse q s = Some t \<Longrightarrow> sentence s t" "float_text (qe_rt q)" "safe_ident (rl_name c)"
    and "where_clause q c filter_str ctx cache = (Inr ((w, params), ctx'), cache')" "order_by q c sort_str = Inr order_sql"
  shows "self_contained (count_sql (rl_name c) w) \<and> self_contained (select_sql (rl_name c) w order_sql) \<and>
    (\<forall>d. sql_lex (Code False, d) (rule_sql (rl_name c) w) = Some (Code False, d))"
proof -
  have w: "self_contained w" by (rule where_self_contained[OF assms(1,2,4)])
  have o: "self_contained order_sql" by (rule order_by_self_contained[OF assms(5)])
  have t: "self_contained (dq (rl_name c))" using assms(3) by (simp add: self_contained_def)
  have words: "self_contained (lit ''SELECT COUNT(*) AS cnt FROM '')" "self_contained (lit ''SELECT * FROM '')" "self_contained (lit '' WHERE '')"
    "self_contained (lit '' ORDER BY '')" "self_contained (lit '' LIMIT :_limit OFFSET :_offset'')" "self_contained (lit ''SELECT 1 FROM '')"
    "self_contained (lit '' = :_rule_rec_id AND '')" "self_contained (lit '' LIMIT 1'')" "self_contained (dq (lit ''id''))"
    by (simp_all add: self_contained_def lex_words)
  have rule: "self_contained (rule_sql (rl_name c) w)"
    unfolding rule_sql_def by (intro self_contained_append words t bracket_ok w)
  have "self_contained (count_sql (rl_name c) w)" "self_contained (select_sql (rl_name c) w order_sql)"
    unfolding count_sql_def select_sql_def by (intro self_contained_append words t w o)+
  with rule show ?thesis by simp
qed

section \<open>Pages\<close>

lemma clamp_per_page_bounds: "1 \<le> clamp_per_page n" "clamp_per_page n \<le> 500"
  by (simp_all add: clamp_per_page_def)

text \<open>The rows, by their position in the order asked for, that the statement of one page selects.\<close>

definition page_window :: "int \<Rightarrow> int \<Rightarrow> int set" where
  "page_window page per_page =
     (case (dict_get (page_params [] (clamp_page page) (clamp_per_page per_page)) (lit ''_offset''),
            dict_get (page_params [] (clamp_page page) (clamp_per_page per_page)) (lit ''_limit'')) of
        (PInt offset, PInt limit) \<Rightarrow> {offset..<offset + limit} | _ \<Rightarrow> {})"

lemma page_window_eq: "1 \<le> page \<Longrightarrow> page_window page per_page = {(page - 1) * clamp_per_page per_page..<page * clamp_per_page per_page}"
  by (simp add: page_window_def page_params_def clamp_page_def max_def left_diff_distrib)

lemma block_index:
  assumes "0 < (l::int)"
  shows "(p - 1) * l \<le> i \<and> i < p * l \<longleftrightarrow> p = i div l + 1"
proof
  assume h: "(p - 1) * l \<le> i \<and> i < p * l"
  then have "i = l * (p - 1) + (i - (p - 1) * l)" "0 \<le> i - (p - 1) * l" "i - (p - 1) * l < l"
    by (simp_all add: algebra_simps)
  from int_div_pos_eq[OF this] show "p = i div l + 1" by simp
next
  assume p: "p = i div l + 1"
  have "l * (i div l) + i mod l = i" "0 \<le> i mod l" "i mod l < l" using assms by simp_all
  then have "(i div l) * l \<le> i" "i < (i div l) * l + l" by (simp_all only: mult.commute)
  then show "(p - 1) * l \<le> i \<and> i < p * l" by (simp add: p distrib_right)
qed

lemma pages_partition:
  assumes "0 < l" "1 \<le> pages" "n \<le> pages * l" "0 \<le> i" "i < (n::int)"
  shows "\<exists>!p. p \<in> {1..pages} \<and> (p - 1) * l \<le> i \<and> i < p * l"
proof -
  have "0 \<le> i div l" using assms(1,4) by (simp add: pos_imp_zdiv_nonneg_iff)
  moreover have "i div l < pages"
  proof (rule ccontr)
    assume "\<not> i div l < pages"
    then have "pages * l \<le> (i div l) * l" using assms(1) by (intro mult_right_mono) auto
    moreover have "(i div l) * l \<le> i" using block_index[OF assms(1), of "i div l + 1" i] by simp
    ultimately show False using assms(3,5) by linarith
  qed
  ultimately show ?thesis using block_index[OF assms(1)] by auto
qed

text \<open>
  C13: The pages of a list tile it.  When a list response reports a total, every position below it lies in the window
  (\<open>OFFSET\<close>, \<open>LIMIT\<close>) of exactly one of the pages from 1 to the reported \<open>totalPages\<close>, and every one of these pages after
  the first begins below the total, for every page size a client asks for; the response itself holds the records read
  from the rows the database gives for the window of its page.  (That two statements see the rows in one order is not
  claimed: the order need not be total.)
\<close>

theorem pages_tile_list:
  assumes "list_records q c page per_page sort_str filter_str fs False ctx cache = (Inr (result, ctx'), cache')"
    and "dict_get result (lit ''totalItems'') = PInt n" "0 \<le> n"
  shows "\<exists>pages. dict_get result (lit ''totalPages'') = PInt pages \<and> 1 \<le> pages \<and>
    (\<forall>i \<in> {0..<n}. \<exists>!p. p \<in> {1..pages} \<and> i \<in> page_window p per_page) \<and>
    (\<forall>p \<in> {2..pages}. page_window p per_page \<inter> {0..<n} \<noteq> {}) \<and>
    (\<exists>k w ord params rows items offset limit.
       qe_sql q k (select_sql (rl_name c) w ord) params = Rows rows \<and>
       dict_get params (lit ''_offset'') = PInt offset \<and> dict_get params (lit ''_limit'') = PInt limit \<and>
       page_window page per_page = {offset..<offset + limit} \<and>
       mapE (read_row q c fs ctx') rows = Inr items \<and> dict_get result (lit ''items'') = PList (map PDict items))"
proof -
  let ?pp = "clamp_per_page per_page"
  from assms(1) obtain w params ord where
    "run_list q c (clamp_page page) ?pp fs False ctx' w params ord = Inr result"
    by (auto simp: list_records_def bindE_Inr_iff split: sum.splits prod.splits)
  then obtain t rows items where
    rows: "with_retry (\<lambda>k. qe_sql q k (select_sql (rl_name c) w ord) (page_params params (clamp_page page) ?pp)) = Inr rows"
      "mapE (read_row q c fs ctx') rows = Inr items" "result = build_list_response (map PDict items) (clamp_page page) ?pp t"
    by (auto simp: run_list_def bindE_Inr_iff)
  have t: "t = n" using assms(2) by (simp add: rows(3) build_list_response_def dict_get_Cons)
  define pages where "pages = total_pages ?pp n"
  have fields: "dict_get result (lit ''totalPages'') = PInt pages" "dict_get result (lit ''items'') = PList (map PDict items)"
    by (simp_all add: rows(3) t pages_def build_list_response_def dict_get_Cons)
  have pos: "0 < ?pp" using clamp_per_page_bounds(1)[of per_page] by simp
  from total_pages_correct[of n ?pp] assms(3) pos have
    tp: "1 \<le> pages" "n \<le> pages * ?pp" "pages = 1 \<or> (pages - 1) * ?pp < n" by (auto simp: pages_def)
  have one: "\<exists>!p. p \<in> {1..pages} \<and> i \<in> page_window p per_page" if "i \<in> {0..<n}" for i
    using pages_partition[OF pos tp(1,2), of i] that by (simp add: page_window_eq cong: conj_cong)
  have late: "page_window p per_page \<inter> {0..<n} \<noteq> {}" if p: "p \<in> {2..pages}" for p
  proof -
    have "(p - 1) * ?pp \<le> (pages - 1) * ?pp" using p pos by (intro mult_right_mono) auto
    moreover have "(pages - 1) * ?pp < n" using tp(3) p by auto
    ultimately have "(p - 1) * ?pp < n" by linarith
    moreover have "0 \<le> (p - 1) * ?pp" "(p - 1) * ?pp < p * ?pp" using p pos by (auto simp: left_diff_distrib)
    ultimately have "(p - 1) * ?pp < n" "0 \<le> (p - 1) * ?pp" "(p - 1) * ?pp < p * ?pp" by simp_all
    then have "(p - 1) * ?pp \<in> page_window p per_page \<inter> {0..<n}" using p by (simp add: page_window_eq)
    then show ?thesis by blast
  qed
  obtain k where k: "qe_sql q k (select_sql (rl_name c) w ord) (page_params params (clamp_page page) ?pp) = Rows rows"
    using with_retry_rows[OF rows(1)] by blast
  have "page_window page per_page = {(clamp_page page - 1) * ?pp..<(clamp_page page - 1) * ?pp + ?pp}"
    by (simp add: page_window_def page_params_def)
  moreover have "dict_get (page_params params (clamp_page page) ?pp) (lit ''_offset'') = PInt ((clamp_page page - 1) * ?pp)"
    "dict_get (page_params params (clamp_page page) ?pp) (lit ''_limit'') = PInt ?pp"
    by (simp_all add: page_params_def)
  ultimately show ?thesis using fields tp(1) one late k rows(2) by blast
qed

section \<open>Viewing\<close>

text \<open>
  A caller who is subject to a view rule learns of a record only that it was not found, or receives it after the
  database has confirmed the rule for this very record: a record that the rule hides gives the answer of a record that
  does not exist.
\<close>

theorem view_hides_forbidden:
  assumes "check_rule rule (rule_auth_context auth) = FilterBy r"
    and "api_get_record q st c rule req auth record_id fs expand_str cache = (Inr resp, cache')"
  shows "resp = not_found \<or>
    (\<exists>ctx ctx' rcd. get_record (qe_store q) c record_id fs (Some ctx) st = Inr (Some rcd) \<and>
       check_record_rule q c record_id r (Some ctx) cache = (Inr (True, ctx'), cache'))"
proof -
  obtain ctx where "prepare_rule_context (qe_rt q) req auth [] = (rule_auth_context auth, ctx)" by (simp add: prepare_rule_context_def)
  with assms(2) show ?thesis
    by (auto simp: api_get_record_def Let_def assms(1) split: sum.splits option.splits prod.splits if_splits)
qed

section \<open>Examples\<close>

definition note_coll :: rcoll where
  "note_coll = \<lparr>rl_id = lit ''c_notes'', rl_name = lit ''notes'', rl_type = lit ''base'',
     rl_schema = [[(lit ''name'', PStr (lit ''owner'')), (lit ''type'', PStr (lit ''text''))]], rl_fields = []\<rparr>"

definition note_row :: "string \<Rightarrow> pydict" where
  "note_row i = [(lit ''id'', PStr (lit i)), (lit ''owner'', PStr (lit ''me''))]"

text \<open>A database whose table holds two rows that match every condition.\<close>

definition sample_answer :: "pydict list \<Rightarrow> pystr \<Rightarrow> pydict \<Rightarrow> db_answer" where
  "sample_answer rows sql params =
     (if prefix (lit ''SELECT COUNT'') sql then Rows [[(lit ''cnt'', PInt (int (length rows)))]]
      else case (dict_get params (lit ''_offset''), dict_get params (lit ''_limit'')) of
             (PInt i, PInt n) \<Rightarrow> Rows (take (nat n) (drop (nat i) rows))
           | _ \<Rightarrow> Rows (take 1 rows))"

definition query_sample :: "pydict list \<Rightarrow> query_env" where
  "query_sample rows = \<lparr>qe_store = Record_Store.sample_env, qe_engine = 0, qe_parse = reference_parse, qe_resolve = (\<lambda>_. None),
     qe_fetch = (\<lambda>_ _. None), qe_macros = (\<lambda>_. []), qe_collections = Some [(note_coll, [])],
     qe_sql = (\<lambda>n sql params. sample_answer rows sql params), qe_repr_steps = (\<lambda>_. []), qe_repr_cond = (\<lambda>_. [])\<rparr>"

lemma sample_needs: "filter_needs_relation_index (conjoin own_rule any_filter) = False" "\<not> sublist (lit ''@collection.'') (conjoin own_rule any_filter)"
  by code_simp+

lemma sample_index:
  "build_relation_index_from_collections sample_rt [note_coll] = Inr (projr (build_relation_index_from_collections sample_rt [note_coll]))"
  by code_simp

lemma sample_conjoined: "reference_parse (conjoin own_rule any_filter) = Some (OrExpr [AndExpr [own_tree, any_tree]])"
  by (simp add: own_rule_def any_filter_def own_tree_def any_tree_def conjoin_codes parser_code eval_nat_numeral)

lemma query_sample_fields [simp]:
  "se_rt (qe_store (query_sample rows)) = sample_rt" "qe_store (query_sample rows) = Record_Store.sample_env"
  "qe_parse (query_sample rows) = reference_parse" "qe_resolve (query_sample rows) k = None" "qe_macros (query_sample rows) s = []"
  "qe_sql (query_sample rows) n sql params = sample_answer rows sql params"
  by (simp_all add: query_sample_def Record_Store.sample_env_def)

lemma note_name [simp]: "rl_name note_coll = lit ''notes''"
  by (simp add: note_coll_def)

lemma query_sample_env:
  "query_filter_env (query_sample rows) (Some d) rs t =
   \<lparr>fe_rt = sample_rt, fe_context = d, fe_relations = fst rs, fe_collections = snd rs, fe_table = Some t,
    fe_repr_steps = (\<lambda>_. []), fe_repr_cond = (\<lambda>_. [])\<rparr>"
  by (simp add: query_filter_env_def query_sample_def Record_Store.sample_env_def)

lemma sample_plain:
  "plain_tree \<lparr>fe_rt = sample_rt, fe_context = d,
      fe_relations = projr (build_relation_index_from_collections sample_rt [note_coll]), fe_collections = PNone,
      fe_table = Some (lit ''notes''), fe_repr_steps = (\<lambda>_. []), fe_repr_cond = (\<lambda>_. [])\<rparr>
     (OrExpr [AndExpr [own_tree, any_tree]])"
  by code_simp

lemma sample_guard: "iter_subtrees any_tree = [FieldPath [lit ''id''], OtherNode, OtherNode, OtherNode, OtherNode]"
  by code_simp

lemma sample_compiled:
  "\<exists>w params. compile_filter (query_sample rows) note_coll (conjoin own_rule any_filter) (Some d) [] = (Inr ((w, params), Some d), [])"
proof -
  obtain ix where ix: "build_relation_index_from_collections sample_rt [note_coll] = Inr ix" using sample_index by blast
  let ?env = "query_filter_env (query_sample rows) (Some d) (ix, PNone) (lit ''notes'')"
  have rt: "se_rt Record_Store.sample_env = sample_rt" by (simp add: Record_Store.sample_env_def)
  have r: "build_filter_resolvers (query_sample rows) note_coll (conjoin own_rule any_filter) [] = (Inr (ix, PNone), [])"
    by (simp add: build_filter_resolvers_def sample_needs ix rt)
  have "list_all safe_ident_char (lit ''notes'')" by (simp add: lit_def safe_ident_char_def)
  then have t: "opt_all safe_ident (fe_table ?env)" "sanitize_ident (lit ''notes'') = Inr (lit ''notes'')"
    by (simp_all add: query_sample_env safe_ident_def sanitize_ident_def)
  have "plain_tree ?env (OrExpr [AndExpr [own_tree, any_tree]])" using sample_plain[of d] by (simp add: query_sample_env ix)
  from plain_transform_total[OF t(1) this] obtain x st where
    "transform_tree ?env (OrExpr [AndExpr [own_tree, any_tree]]) init_fstate = Inr (x, st)" unfolding succeeds_def by blast
  moreover have "qe_parse (query_sample rows) (conjoin own_rule any_filter) = Some (OrExpr [AndExpr [own_tree, any_tree]])"
    by (simp add: sample_conjoined)
  ultimately have "\<exists>w params. parse_filter (qe_parse (query_sample rows)) ?env (conjoin own_rule any_filter) = Inr (w, params)"
    using t(2) conjoin_nonblank by (simp add: parse_filter_def query_sample_env)
  then show ?thesis by (auto simp: compile_filter_def r resolve_macros_def)
qed

definition sample_params :: list_params where
  "sample_params = \<lparr>lp_page = 1, lp_per_page = 30, lp_sort = [], lp_filter = any_filter, lp_expand = [], lp_fields = [], lp_skip_total = False\<rparr>"

definition sample_request :: api_request where
  "sample_request = \<lparr>hr_method = lit ''GET'', hr_headers = [], hr_query = []\<rparr>"

lemma sample_decision: "check_rule (Some own_rule) (rule_auth_context None) = FilterBy own_rule"
  by (simp add: check_rule_def rule_auth_context_def is_admin_def own_rule_def)

lemma sample_guarded: "query_guard (query_sample rows) note_coll any_filter [] None = Inr ()"
proof -
  have "any_filter \<noteq> []" "paths [FieldPath [lit ''id''], OtherNode, OtherNode, OtherNode, OtherNode] = [(None, [lit ''id''])]"
    by (simp add: any_filter_def) code_simp
  then have "client_references (\<lambda>s. map_option iter_subtrees (reference_parse s)) any_filter [] = Inr [(None, [lit ''id''])]"
    by (simp add: client_references_def sample_parses sample_guard)
  then have "assert_client_query_allowed (\<lambda>s. map_option iter_subtrees (reference_parse s)) (\<lambda>_. None) (as_coll note_coll) any_filter [] False =
      fst (check_references (\<lambda>_. None) False (as_coll note_coll) [(None, [lit ''id''])] new_loader)"
    by (simp add: assert_client_query_allowed_def)
  also have "\<dots> = Inr ()" by code_simp
  finally show ?thesis by (simp add: query_guard_def is_admin_def query_sample_def)
qed

text \<open>A request of an anonymous caller, and a database of one note that belongs to the caller of the rule.\<close>

definition sample_context :: pydict where
  "sample_context = snd (prepare_rule_context sample_rt sample_request None [])"

lemma sample_prepare: "prepare_rule_context sample_rt sample_request None [] = (None, sample_context)"
  by (simp add: sample_context_def prepare_rule_context_def rule_auth_context_def)

lemma sample_item:
  "\<exists>item. read_row (query_sample rows) note_coll [] (Some sample_context) (note_row ''n1'') = Inr item"
proof -
  have "read_row (query_sample rows) note_coll [] ctx row = build_record_response sample_rt (read_options Record_Store.sample_env note_coll [] ctx) row
      (rl_id note_coll) (rl_name note_coll) (rl_schema note_coll)" for ctx row
    by (simp add: read_row_def Record_Store.sample_env_def)
  moreover have "is_ok (build_record_response sample_rt (read_options Record_Store.sample_env note_coll [] (Some sample_context)) (note_row ''n1'')
      (rl_id note_coll) (rl_name note_coll) (rl_schema note_coll))"
    by code_simp
  ultimately show ?thesis by (auto simp: is_ok_iff)
qed

lemma sample_page:
  "\<exists>r. run_list (query_sample [note_row ''n1'']) note_coll 1 30 [] False (Some sample_context) w params ord = Inr r"
proof -
  obtain item where i: "read_row (query_sample [note_row ''n1'']) note_coll [] (Some sample_context) (note_row ''n1'') = Inr item"
    using sample_item by blast
  have "prefix (lit ''SELECT COUNT'') (count_sql (lit ''notes'') w)" "\<not> prefix (lit ''SELECT COUNT'') (select_sql (lit ''notes'') w ord)"
    by (simp_all add: count_sql_def select_sql_def lit_def)
  with i show ?thesis
    by (simp add: run_list_def total_count_def with_retry_def sample_answer_def page_params_def dict_get_Cons)
qed

lemma sample_listed:
  "\<exists>body. api_list_records (query_sample [note_row ''n1'']) st note_coll (Some own_rule) sample_request None sample_params [] = (Inr (JsonBody body), [])"
proof -
  let ?q = "query_sample [note_row ''n1'']"
  obtain w params where c: "compile_filter ?q note_coll (conjoin own_rule any_filter) (Some sample_context) [] = (Inr ((w, params), Some sample_context), [])"
    using sample_compiled by blast
  have d: "check_rule (Some own_rule) None = FilterBy own_rule" using sample_decision by (simp add: rule_auth_context_def)
  have ne: "any_filter \<noteq> []" by (simp add: any_filter_def)
  have o: "order_by ?q note_coll [] = Inr (default_order ?q note_coll)" by (simp add: order_by_def)
  obtain r where "run_list ?q note_coll 1 30 [] False (Some sample_context) w params (default_order ?q note_coll) = Inr r"
    using sample_page by blast
  then show ?thesis
    by (simp add: api_list_records_def Record_Store.sample_env_def sample_prepare sample_params_def d sample_guarded effective_filter_def ne
        list_records_def where_clause_def conjoin_nonblank c o clamp_page_def clamp_per_page_def expand_items_def)
qed

definition mine :: "pystr \<Rightarrow> pystr \<Rightarrow> pydict \<Rightarrow> pydict \<Rightarrow> bool" where
  "mine t w p row \<longleftrightarrow> dict_get row (lit ''owner'') = PStr (lit ''me'')"

lemma sample_answer_rows:
  "sample_answer rows sql p = Rows rs \<Longrightarrow> \<not> prefix (lit ''SELECT COUNT'') sql \<Longrightarrow> row \<in> set rs \<Longrightarrow> row \<in> set rows"
  unfolding sample_answer_def
  by (cases "dict_get p (lit ''_offset'')"; cases "dict_get p (lit ''_limit'')") (auto dest!: in_set_takeD in_set_dropD)

lemma mine_laws: "where_selects (query_sample [note_row ''n1'']) mine" "and_narrows mine"
proof -
  have "mine t w p (note_row ''n1'')" for t w p by (simp add: mine_def note_row_def dict_get_Cons)
  moreover have "\<not> prefix (lit ''SELECT COUNT'') (select_sql t w ord)" for t w ord by (simp add: select_sql_def lit_def)
  ultimately show "where_selects (query_sample [note_row ''n1'']) mine"
    unfolding where_selects_def using sample_answer_rows[of "[note_row ''n1'']"] by fastforce
qed (simp add: and_narrows_def mine_def)

lemma sample_float: "float_text sample_rt"
  by (auto simp: float_text_def sample_rt_def self_contained_def)


theorem read_statements_self_contained_witness:
  "self_contained (select_sql (lit ''notes'') (lit ''1=1'') (dq (lit ''created'') @ lit '' DESC''))"
proof -
  have p: "sentence s t" if "qe_parse (query_sample []) s = Some t" for s t using that by (simp add: reference_parse_sound)
  have w: "where_clause (query_sample []) note_coll [] None [] = (Inr ((lit ''1=1'', []), None), [])" by (simp add: where_clause_def)
  have o: "order_by (query_sample []) note_coll [] = Inr (dq (lit ''created'') @ lit '' DESC'')"
    by (simp add: order_by_def default_order_def collection_kind_def note_coll_def) code_simp
  have n: "safe_ident (rl_name note_coll)" by (simp add: safe_ident_def safe_ident_char_def lit_def)
  from read_statements_self_contained[OF p _ n w o] show ?thesis by (simp add: sample_float Record_Store.sample_env_def)
qed

theorem pages_tile_list_witness:
  "\<exists>!p. p \<in> {1..1} \<and> 0 \<in> page_window p 30"
proof -
  let ?q = "query_sample [note_row ''n1'']"
  have w: "where_clause ?q note_coll [] (Some sample_context) [] = (Inr ((lit ''1=1'', []), Some sample_context), [])" by (simp add: where_clause_def)
  have o: "order_by ?q note_coll [] = Inr (default_order ?q note_coll)" by (simp add: order_by_def)
  obtain r where r: "run_list ?q note_coll 1 30 [] False (Some sample_context) (lit ''1=1'') [] (default_order ?q note_coll) = Inr r"
    using sample_page by blast
  then have l: "list_records ?q note_coll 1 30 [] [] [] False (Some sample_context) [] = (Inr (r, Some sample_context), [])"
    using w o by (simp add: list_records_def clamp_page_def clamp_per_page_def)
  have "prefix (lit ''SELECT COUNT'') (count_sql t w)" for t w by (simp add: count_sql_def lit_def)
  with r have n: "dict_get r (lit ''totalItems'') = PInt 1" "dict_get r (lit ''totalPages'') = PInt 1"
    by (auto simp: run_list_def total_count_def with_retry_def sample_answer_def bindE_Inr_iff build_list_response_def dict_get_Cons total_pages_def)
  from pages_tile_list[OF l n(1)] n(2) show ?thesis by auto
qed

theorem view_hides_forbidden_witness:
  "snd (api_get_record (query_sample []) (sample_store []) sample_articles (Some own_rule) sample_request None (lit ''a9'') [] [] []) = [] \<and>
   fst (api_get_record (query_sample []) (sample_store []) sample_articles (Some own_rule) sample_request None (lit ''a9'') [] [] []) = Inr not_found"
proof -
  have g: "get_record Record_Store.sample_env sample_articles (lit ''a9'') [] (Some d) (sample_store []) = Inr None" for d by code_simp
  have r: "api_get_record (query_sample []) (sample_store []) sample_articles (Some own_rule) sample_request None (lit ''a9'') [] [] [] =
      (Inr not_found, [])"
    using sample_decision by (simp add: api_get_record_def prepare_rule_context_def Let_def g)
  from view_hides_forbidden[OF sample_decision r] g r show ?thesis by simp
qed

end
